(* ===== verification/Prelude.thy ===== *)
theory Prelude
  imports Main "HOL-Library.Word" "HOL-Library.Monad_Syntax"
begin

text \<open>
  Shared vocabulary of the IceQ backend model: Go's \<open>int64\<close> and \<open>time\<close> values, byte
  strings, decimal rendering (\<open>strconv.FormatInt\<close>), the outcome of a statement sent to a
  store, and the generic list, option and map lemmas the component theories use.

  \<^item> An \<open>int64\<close> is an \<open>int\<close>; where the code's arithmetic can leave the 64-bit range the
    wrap-around is written out with \<open>wrap64\<close>.
  \<^item> A \<open>time.Time\<close> is an \<open>int\<close>, the nanoseconds since Go's zero time; \<open>IsZero\<close> is
    equality with 0, \<open>After\<close> is \<open>>\<close>. A \<open>time.Duration\<close> is an \<open>int\<close> of nanoseconds.
  \<^item> A byte slice or Go string is a \<open>string\<close> (a list of 8-bit characters).
\<close>

named_theorems iceq_defs \<open>definitions the automation may unfold\<close>
named_theorems iceq_inv \<open>preservation lemmas of the component invariants\<close>

type_synonym uin = int
type_synonym bytes = string
type_synonym gotime = int
type_synonym duration = int

section \<open>Machine integers\<close>

definition int64_min :: int where
  "int64_min = - 9223372036854775808"

definition int64_max :: int where
  "int64_max = 9223372036854775807"

definition is_int64 :: "int \<Rightarrow> bool" where
  "is_int64 n \<longleftrightarrow> int64_min \<le> n \<and> n \<le> int64_max"

definition wrap64 :: "int \<Rightarrow> int" where
  "wrap64 n = (n + 9223372036854775808) mod 18446744073709551616 - 9223372036854775808"

lemma wrap64_id [simp]: "is_int64 n \<Longrightarrow> wrap64 n = n"
  by (simp add: is_int64_def wrap64_def int64_min_def int64_max_def)

lemma wrap64_range [simp]: "is_int64 (wrap64 n)"
  by (simp add: is_int64_def wrap64_def int64_min_def int64_max_def)

text \<open>Go's integer division truncates towards zero.\<close>

definition go_div :: "int \<Rightarrow> int \<Rightarrow> int" where
  "go_div a b = (if (a < 0) = (b < 0) then \<bar>a\<bar> div \<bar>b\<bar> else - (\<bar>a\<bar> div \<bar>b\<bar>))"

lemma go_div_nonneg [simp]: "0 \<le> a \<Longrightarrow> 0 < b \<Longrightarrow> go_div a b = a div b"
  by (simp add: go_div_def)

section \<open>Durations and times\<close>

definition Nanosecond :: duration where "Nanosecond = 1"
definition Millisecond :: duration where "Millisecond = 1000000"
definition Second :: duration where "Second = 1000000000"
definition Minute :: duration where "Minute = 60000000000"
definition Hour :: duration where "Hour = 3600000000000"

lemmas duration_defs =
  Nanosecond_def Millisecond_def Second_def Minute_def Hour_def

definition zero_time :: gotime where "zero_time = 0"

definition is_zero :: "gotime \<Rightarrow> bool" where
  "is_zero t \<longleftrightarrow> t = zero_time"

text \<open>\<open>Time.Truncate\<close> rounds down to a multiple of \<open>d\<close> since the zero time.\<close>

definition trunc_time :: "gotime \<Rightarrow> duration \<Rightarrow> gotime" where
  "trunc_time t d = (if d \<le> 0 then t else t - t mod d)"

lemma trunc_time_le [simp]: "trunc_time t d \<le> t"
  by (simp add: trunc_time_def)

lemma trunc_time_gt: "0 < d \<Longrightarrow> t - d < trunc_time t d"
  by (simp add: trunc_time_def)

lemma trunc_time_idem [simp]: "trunc_time (trunc_time t d) d = trunc_time t d"
  by (simp add: trunc_time_def mod_diff_eq)

lemma trunc_time_dvd: "0 < d \<Longrightarrow> d dvd trunc_time t d"
  by (simp add: trunc_time_def minus_mod_eq_mult_div)

text \<open>\<open>UnixMilli\<close> and \<open>time.UnixMilli\<close>: the Unix epoch is 62135596800 seconds after the zero time.\<close>

definition unix_milli :: "gotime \<Rightarrow> int" where
  "unix_milli t = t div Millisecond - 62135596800000"

definition of_unix_milli :: "int \<Rightarrow> gotime" where
  "of_unix_milli ms = (ms + 62135596800000) * Millisecond"

lemma unix_milli_of [simp]: "unix_milli (of_unix_milli ms) = ms"
  by (simp add: unix_milli_def of_unix_milli_def Millisecond_def)

section \<open>Decimal rendering\<close>

definition digit :: "nat \<Rightarrow> char" where
  "digit n = char_of (48 + n mod 10)"

fun decimal :: "nat \<Rightarrow> string" where
  "decimal n = (if n < 10 then [digit n] else decimal (n div 10) @ [digit n])"

declare decimal.simps [simp del]

definition itoa :: "int \<Rightarrow> string" where
  "itoa n = (if n < 0 then CHR ''-'' # decimal (nat (- n)) else decimal (nat n))"

lemma digit_zero: "digit 0 = CHR ''0''"
  by code_simp

lemma digit_inj: "a < 10 \<Longrightarrow> b < 10 \<Longrightarrow> digit a = digit b \<Longrightarrow> a = b"
proof -
  assume a: "a < 10" and b: "b < 10" and eq: "digit a = digit b"
  have "(48 + a) mod 256 = (48 + b) mod (256::nat)"
    using arg_cong [OF eq, of "of_char :: char \<Rightarrow> nat"] a b by (simp add: digit_def)
  with a b show "a = b" by simp
qed

lemma digit_mod [simp]: "digit (n mod 10) = digit n"
  by (simp add: digit_def)

lemma digit_eq_iff: "digit a = digit b \<longleftrightarrow> a mod 10 = b mod 10"
  using digit_inj [of "a mod 10" "b mod 10"] by (auto simp: digit_def)

lemma digit_code [simp]: "of_char (digit n) = (48 + n mod 10 :: nat)"
  by (simp add: digit_def)

lemma digit_not_minus [simp]: "digit n \<noteq> CHR ''-''"
proof
  assume "digit n = CHR ''-''"
  then have "(of_char (digit n) :: nat) = of_char (CHR ''-'')" by simp
  then show False by simp
qed

lemma decimal_nonempty [simp]: "decimal n \<noteq> []"
  by (subst decimal.simps) simp

lemma decimal_last [simp]: "last (decimal n) = digit n"
  by (subst decimal.simps) simp

lemma decimal_butlast: "butlast (decimal n) = (if n < 10 then [] else decimal (n div 10))"
  by (subst decimal.simps) simp

lemma decimal_digits: "set (decimal n) \<subseteq> range digit"
proof (induction n rule: decimal.induct)
  case (1 n)
  then show ?case by (subst decimal.simps) auto
qed

lemma decimal_not_minus: "hd (decimal n) \<noteq> CHR ''-''"
  using decimal_digits [of n] hd_in_set [OF decimal_nonempty, of n] by fastforce

lemma decimal_inj: "decimal m = decimal n \<Longrightarrow> m = n"
proof (induction m arbitrary: n rule: decimal.induct)
  case (1 m)
  have d: "m mod 10 = n mod 10"
    using arg_cong [OF "1.prems", of last] by (simp add: digit_eq_iff)
  have b: "(if m < 10 then [] else decimal (m div 10)) = (if n < 10 then [] else decimal (n div 10))"
    using arg_cong [OF "1.prems", of butlast] by (simp add: decimal_butlast)
  show ?case
  proof (cases "m < 10")
    case True
    with b have "n < 10" by (auto split: if_splits dest: sym)
    with True d show ?thesis by simp
  next
    case False
    with b have "\<not> n < 10" and "decimal (m div 10) = decimal (n div 10)" by (auto split: if_splits)
    with "1.IH" False have "m div 10 = n div 10" by blast
    with d show ?thesis by (metis div_mult_mod_eq)
  qed
qed

lemma itoa_inj: "itoa m = itoa n \<Longrightarrow> m = n"
  using decimal_inj [of "nat (- m)" "nat (- n)"] decimal_inj [of "nat m" "nat n"]
    decimal_not_minus [of "nat n"] decimal_not_minus [of "nat m"]
  by (auto simp: itoa_def split: if_splits) (metis list.sel(1))+

lemma itoa_eq_iff [simp]: "itoa m = itoa n \<longleftrightarrow> m = n"
  using itoa_inj by blast

lemma itoa_chars: "set (itoa n) \<subseteq> insert (CHR ''-'') (range digit)"
  using decimal_digits by (auto simp: itoa_def)

lemma digit_not_colon [simp]: "digit n \<noteq> CHR '':''"
proof
  assume "digit n = CHR '':''"
  then have "(of_char (digit n) :: nat) = of_char (CHR '':'')" by simp
  then have "n mod 10 = 10" by simp
  then show False by (metis mod_less_divisor less_irrefl zero_less_numeral)
qed

lemma colon_notin_itoa [simp]: "CHR '':'' \<notin> set (itoa n)"
proof -
  have "CHR '':'' \<notin> range digit" by (metis digit_not_colon imageE)
  then show ?thesis using itoa_chars [of n] by auto
qed

text \<open>A decimal field followed by a separator is read back unambiguously.\<close>

lemma append_colon_inj:
  assumes "xs @ CHR '':'' # ys = xs' @ CHR '':'' # ys'"
    and "CHR '':'' \<notin> set xs" and "CHR '':'' \<notin> set xs'"
  shows "xs = xs' \<and> ys = ys'"
  using assms
proof (induction xs arbitrary: xs')
  case Nil
  then show ?case by (cases xs') auto
next
  case (Cons x xs)
  then show ?case by (cases xs') auto
qed

section \<open>Results and statement outcomes\<close>

text \<open>
  A statement sent to a store may fail. A failed write may or may not have taken effect
  (a time-out after the coordinator applied it), so the outcome says which.
\<close>

datatype outcome = Done | FailedBefore | FailedAfter

definition failed :: "outcome \<Rightarrow> bool" where
  "failed r \<longleftrightarrow> r \<noteq> Done"

definition took_effect :: "outcome \<Rightarrow> bool" where
  "took_effect r \<longleftrightarrow> r \<noteq> FailedBefore"

lemma failed_simps [simp]:
  "\<not> failed Done" "failed FailedBefore" "failed FailedAfter"
  by (simp_all add: failed_def)

lemma took_effect_simps [simp]:
  "took_effect Done" "\<not> took_effect FailedBefore" "took_effect FailedAfter"
  by (simp_all add: took_effect_def)

lemma not_failed_took_effect [simp]: "\<not> failed r \<Longrightarrow> took_effect r"
  by (cases r) auto

section \<open>Lists and options\<close>

lemma filter_neq_id: "a \<notin> set xs \<Longrightarrow> filter (\<lambda>x. x \<noteq> a) xs = xs"
  by (induction xs) auto

lemma find_snoc: "find P (xs @ [x]) = (case find P xs of None \<Rightarrow> if P x then Some x else None | Some y \<Rightarrow> Some y)"
  by (induction xs) auto

end
