(* ===== verification/Redis.thy ===== *)
theory Redis
  imports Prelude
begin

text \<open>
  The interface to Redis. Redis is a service outside the repository, so the commands the
  code issues are a parameter of the model: a record of functions over an abstract store
  type \<open>'r\<close>, each returning an error or a reply and the store afterwards. What the code
  relies on is stated by the locales \<open>redis_lists\<close> and \<open>redis_strings\<close> (the documented
  effect of each command on the keys it names, with a failed write allowed to have
  happened or not). \<open>mem_redis\<close> is an in-memory store with an availability switch that
  satisfies them, so every theorem that assumes them can be instantiated.
\<close>

section \<open>Commands\<close>

record 'r redis_api =
  rd_llen :: "string \<Rightarrow> 'r \<Rightarrow> (string + nat) \<times> 'r"
  rd_rpush :: "string \<Rightarrow> bytes \<Rightarrow> 'r \<Rightarrow> (string + nat) \<times> 'r"
  rd_ltrim :: "string \<Rightarrow> int \<Rightarrow> int \<Rightarrow> 'r \<Rightarrow> (string + unit) \<times> 'r"
  rd_lrange :: "string \<Rightarrow> int \<Rightarrow> int \<Rightarrow> 'r \<Rightarrow> (string + bytes list) \<times> 'r"
  rd_del :: "string \<Rightarrow> 'r \<Rightarrow> (string + nat) \<times> 'r"
  rd_expire :: "string \<Rightarrow> duration \<Rightarrow> 'r \<Rightarrow> (string + bool) \<times> 'r"
  rd_xadd :: "string \<Rightarrow> nat \<Rightarrow> bytes \<Rightarrow> 'r \<Rightarrow> (string + string) \<times> 'r"
  rd_exists :: "string \<Rightarrow> 'r \<Rightarrow> (string + nat) \<times> 'r"
  rd_setnx :: "string \<Rightarrow> string \<Rightarrow> duration \<Rightarrow> 'r \<Rightarrow> (string + bool) \<times> 'r"
  rd_get :: "string \<Rightarrow> 'r \<Rightarrow> (string + string option) \<times> 'r"
  rd_set :: "string \<Rightarrow> string \<Rightarrow> duration \<Rightarrow> 'r \<Rightarrow> (string + unit) \<times> 'r"

text \<open>The inclusive range of \<open>LRANGE\<close> and \<open>LTRIM\<close>; a negative index counts from the end.\<close>

definition redis_slice :: "int \<Rightarrow> int \<Rightarrow> 'a list \<Rightarrow> 'a list" where
  "redis_slice start stop xs =
     (let n = int (length xs);
          a = max 0 (if start < 0 then n + start else start);
          b = min (n - 1) (if stop < 0 then n + stop else stop)
      in if b < a then [] else take (nat (b - a + 1)) (drop (nat a) xs))"

lemma redis_slice_all [simp]: "redis_slice 0 (- 1) xs = xs"
  by (cases xs) (auto simp: redis_slice_def Let_def)

lemma redis_slice_newest:
  "0 < c \<Longrightarrow> redis_slice (- int c) (- 1) xs = drop (length xs - c) xs"
proof (cases "xs = []")
  case True
  then show ?thesis by (auto simp: redis_slice_def Let_def)
next
  case False
  assume "0 < c"
  from False have "max 0 (int (length xs) - int c) = int (length xs - c)" by simp
  moreover have "nat (int (length xs) - 1 - int (length xs - c) + 1) = length xs - (length xs - c)"
    by simp
  moreover have "int (length xs - c) \<le> int (length xs) - 1"
    using False \<open>0 < c\<close> by (cases xs) auto
  ultimately show ?thesis using \<open>0 < c\<close> by (simp add: redis_slice_def Let_def)
qed

section \<open>Laws of the list commands\<close>

locale redis_lists =
  fixes R :: "('r, 'x) redis_api_scheme"
    and lists :: "'r \<Rightarrow> string \<Rightarrow> bytes list"
  assumes llen_view: "rd_llen R k s = (v, s') \<Longrightarrow> lists s' = lists s"
    and llen_reply: "rd_llen R k s = (Inr n, s') \<Longrightarrow> n = length (lists s k)"
    and rpush_ok: "rd_rpush R k x s = (Inr n, s') \<Longrightarrow> lists s' = (lists s)(k := lists s k @ [x])"
    and rpush_err: "rd_rpush R k x s = (Inl e, s') \<Longrightarrow>
          lists s' = lists s \<or> lists s' = (lists s)(k := lists s k @ [x])"
    and ltrim_ok: "rd_ltrim R k a b s = (Inr u, s') \<Longrightarrow>
          lists s' = (lists s)(k := redis_slice a b (lists s k))"
    and ltrim_err: "rd_ltrim R k a b s = (Inl e, s') \<Longrightarrow>
          lists s' = lists s \<or> lists s' = (lists s)(k := redis_slice a b (lists s k))"
    and lrange_view: "rd_lrange R k a b s = (w, s') \<Longrightarrow> lists s' = lists s"
    and lrange_reply: "rd_lrange R k a b s = (Inr xs, s') \<Longrightarrow> xs = redis_slice a b (lists s k)"
    and del_ok: "rd_del R k s = (Inr m, s') \<Longrightarrow> lists s' = (lists s)(k := [])"
    and del_err: "rd_del R k s = (Inl e, s') \<Longrightarrow>
          lists s' = lists s \<or> lists s' = (lists s)(k := [])"
    and expire_view: "rd_expire R k d s = (z, s') \<Longrightarrow> lists s' = lists s"
    and xadd_view: "rd_xadd R k m x s = (y, s') \<Longrightarrow> lists s' = lists s"
begin

lemma snd_views [simp]:
  "lists (snd (rd_xadd R k m x s)) = lists s"
  "lists (snd (rd_expire R k d s)) = lists s"
  "lists (snd (rd_llen R k s)) = lists s"
  "lists (snd (rd_lrange R k a b s)) = lists s"
  using xadd_view expire_view llen_view lrange_view by (metis prod.collapse)+

lemma rpush_frame: "rd_rpush R k x s = (v, s') \<Longrightarrow> j \<noteq> k \<Longrightarrow> lists s' j = lists s j"
  by (cases v) (auto dest: rpush_ok rpush_err)

lemma ltrim_frame: "rd_ltrim R k a b s = (u, s') \<Longrightarrow> j \<noteq> k \<Longrightarrow> lists s' j = lists s j"
  by (cases u) (auto dest: ltrim_ok ltrim_err)

lemma del_frame: "rd_del R k s = (v, s') \<Longrightarrow> j \<noteq> k \<Longrightarrow> lists s' j = lists s j"
  by (cases v) (auto dest: del_ok del_err)

lemma rpush_grows:
  "rd_rpush R k x s = (v, s') \<Longrightarrow> length (lists s' k) \<le> Suc (length (lists s k))"
  by (cases v) (auto dest: rpush_ok rpush_err)

lemma ltrim_shrinks:
  "0 < c \<Longrightarrow> rd_ltrim R k (- int c) (- 1) s = (u, s') \<Longrightarrow> length (lists s' k) \<le> length (lists s k)"
  by (cases u) (auto dest!: ltrim_ok ltrim_err simp: redis_slice_newest)

end

section \<open>Laws of the string commands\<close>

locale redis_strings =
  fixes R :: "('r, 'x) redis_api_scheme"
    and strs :: "'r \<Rightarrow> string \<rightharpoonup> string"
  assumes setnx_ok: "rd_setnx R k v d s = (Inr b, s') \<Longrightarrow>
          b = (strs s k = None) \<and> strs s' = (if b then (strs s)(k \<mapsto> v) else strs s)"
    and setnx_err: "rd_setnx R k v d s = (Inl e, s') \<Longrightarrow>
          strs s' = strs s \<or> (strs s k = None \<and> strs s' = (strs s)(k \<mapsto> v))"
    and get_ok: "rd_get R k s = (Inr w, s') \<Longrightarrow> w = strs s k"
    and get_view: "rd_get R k s = (x, s') \<Longrightarrow> strs s' = strs s"
    and set_ok: "rd_set R k v d s = (Inr u, s') \<Longrightarrow> strs s' = (strs s)(k \<mapsto> v)"
    and set_err: "rd_set R k v d s = (Inl e, s') \<Longrightarrow>
          strs s' = strs s \<or> strs s' = (strs s)(k \<mapsto> v)"
    and sdel_ok: "rd_del R k s = (Inr m, s') \<Longrightarrow> strs s' = (strs s)(k := None)"
    and sdel_err: "rd_del R k s = (Inl e, s') \<Longrightarrow>
          strs s' = strs s \<or> strs s' = (strs s)(k := None)"
    and exists_view: "rd_exists R k s = (y, s') \<Longrightarrow> strs s' = strs s"
    and exists_reply: "rd_exists R k s = (Inr n, s') \<Longrightarrow> strs s k \<noteq> None \<Longrightarrow> 0 < n"

section \<open>An in-memory store\<close>

record mem_redis =
  mem_up :: bool
  mem_lists :: "string \<Rightarrow> bytes list"
  mem_strs :: "string \<rightharpoonup> string"
  mem_streams :: "string \<Rightarrow> bytes list"

definition mem_reply :: "'a \<Rightarrow> (mem_redis \<Rightarrow> mem_redis) \<Rightarrow> mem_redis \<Rightarrow> (string + 'a) \<times> mem_redis" where
  "mem_reply v f m = (if mem_up m then (Inr v, f m) else (Inl ''connection refused'', m))"

definition mem_api :: "mem_redis redis_api" where
  "mem_api = \<lparr>
     rd_llen = (\<lambda>k m. mem_reply (length (mem_lists m k)) id m),
     rd_rpush = (\<lambda>k x m. mem_reply (Suc (length (mem_lists m k)))
        (mem_lists_update (\<lambda>l. l(k := l k @ [x]))) m),
     rd_ltrim = (\<lambda>k a b m. mem_reply () (mem_lists_update (\<lambda>l. l(k := redis_slice a b (l k)))) m),
     rd_lrange = (\<lambda>k a b m. mem_reply (redis_slice a b (mem_lists m k)) id m),
     rd_del = (\<lambda>k m. mem_reply 1 (\<lambda>m. m\<lparr>mem_lists := (mem_lists m)(k := []),
        mem_strs := (mem_strs m)(k := None), mem_streams := (mem_streams m)(k := [])\<rparr>) m),
     rd_expire = (\<lambda>k d m. mem_reply True id m),
     rd_xadd = (\<lambda>k n x m. mem_reply ''0-1''
        (mem_streams_update (\<lambda>l. l(k := l k @ [x]))) m),
     rd_exists = (\<lambda>k m. mem_reply (if mem_strs m k = None then 0 else 1) id m),
     rd_setnx = (\<lambda>k v d m. mem_reply (mem_strs m k = None)
        (if mem_strs m k = None then mem_strs_update (\<lambda>t. t(k \<mapsto> v)) else id) m),
     rd_get = (\<lambda>k m. mem_reply (mem_strs m k) id m),
     rd_set = (\<lambda>k v d m. mem_reply () (mem_strs_update (\<lambda>t. t(k \<mapsto> v))) m)\<rparr>"

definition mem_empty :: mem_redis where
  "mem_empty = \<lparr>mem_up = True, mem_lists = (\<lambda>_. []), mem_strs = Map.empty, mem_streams = (\<lambda>_. [])\<rparr>"

interpretation memL: redis_lists mem_api mem_lists
  by unfold_locales (auto simp: mem_api_def mem_reply_def split: if_splits)

interpretation memS: redis_strings mem_api mem_strs
  by unfold_locales (auto simp: mem_api_def mem_reply_def split: if_splits)

end
