(* ===== verification/Envelope.thy ===== *)
theory Envelope
  imports Prelude
begin

text \<open>
  The wire format of \<^verbatim>\<open>shared/models/envelope.go\<close>: envelope types, the envelope and its
  payload structs, and the test for the reserved account-deletion frame. The JSON text
  codec is a parameter \<open>js\<close> (bytes to a JSON value, or nothing for malformed text); how
  the code reads a decoded value is modelled field by field.
\<close>

section \<open>JSON values\<close>

datatype json = JNull | JBool bool | JNum int | JStr string | JArr "json list"
  | JObj "(string \<times> json) list"

type_synonym decoder = "bytes \<Rightarrow> json option"

text \<open>Decoding into a Go map keeps the last binding of a repeated key.\<close>

definition jfield :: "(string \<times> json) list \<Rightarrow> string \<Rightarrow> json option" where
  "jfield fs k = map_of (rev fs) k"

section \<open>Envelope types\<close>

definition EnvelopeTypeDirect :: string where "EnvelopeTypeDirect = ''message''"
definition EnvelopeTypeGroup :: string where "EnvelopeTypeGroup = ''group_msg''"
definition EnvelopeTypeTyping :: string where "EnvelopeTypeTyping = ''typing''"
definition EnvelopeTypeRead :: string where "EnvelopeTypeRead = ''read''"
definition EnvelopeTypePresence :: string where "EnvelopeTypePresence = ''presence''"
definition EnvelopeTypeAck :: string where "EnvelopeTypeAck = ''ack''"
definition EnvelopeTypeTransportAck :: string where "EnvelopeTypeTransportAck = ''transport_ack''"
definition EnvelopeTypeError :: string where "EnvelopeTypeError = ''error''"
definition EnvelopeTypeNotification :: string where "EnvelopeTypeNotification = ''notification''"
definition EnvelopeTypeAccountWiped :: string where "EnvelopeTypeAccountWiped = ''account_wiped''"

definition AckStatePersisted :: string where "AckStatePersisted = ''persisted''"
definition AckStateDelivered :: string where "AckStateDelivered = ''delivered''"
definition AckStateRead :: string where "AckStateRead = ''read''"

lemmas envelope_types = EnvelopeTypeDirect_def EnvelopeTypeGroup_def EnvelopeTypeTyping_def
  EnvelopeTypeRead_def EnvelopeTypePresence_def EnvelopeTypeAck_def
  EnvelopeTypeTransportAck_def EnvelopeTypeError_def EnvelopeTypeNotification_def
  EnvelopeTypeAccountWiped_def
lemmas ack_states = AckStatePersisted_def AckStateDelivered_def AckStateRead_def

section \<open>The reserved control frame\<close>

definition IsReservedServerControlEnvelope :: "decoder \<Rightarrow> bytes \<Rightarrow> bool" where
  "IsReservedServerControlEnvelope js raw =
     (case js raw of
        Some (JObj fs) \<Rightarrow>
          (case jfield fs ''type'' of
             Some (JStr t) \<Rightarrow> t = EnvelopeTypeAccountWiped
           | _ \<Rightarrow> False)
      | _ \<Rightarrow> False)"

lemma reserved_iff:
  "IsReservedServerControlEnvelope js raw \<longleftrightarrow>
     (\<exists>fs. js raw = Some (JObj fs) \<and> jfield fs ''type'' = Some (JStr ''account_wiped''))"
proof (cases "\<exists>fs. js raw = Some (JObj fs)")
  case True
  then obtain fs where fs: "js raw = Some (JObj fs)" by blast
  show ?thesis
    by (cases "jfield fs ''type''")
       (auto simp: fs IsReservedServerControlEnvelope_def EnvelopeTypeAccountWiped_def
         split: json.split)
next
  case False
  then show ?thesis
    by (auto simp: IsReservedServerControlEnvelope_def split: option.split json.split)
qed

end
