(* ===== verification/Client.thy ===== *)
theory Client
  imports Redis Envelope
begin

text \<open>
  One WebSocket connection of the gateway, \<^verbatim>\<open>ws-gateway/client/client.go\<close>: the bounded
  outbound channel, the once-guarded shutdown, close and wipe-termination paths, the
  auth frame, the Origin policy, the drain of the undelivered queue at connect time, and
  the write loop as a step relation.
\<close>

section \<open>Connection state\<close>

definition sendBufferSize :: nat where "sendBufferSize = 64"
definition CloseCodeAuthTimeout :: nat where "CloseCodeAuthTimeout = 4401"
definition CloseCodeWiped :: nat where "CloseCodeWiped = 4403"
definition wipeCheckPrefix :: string where "wipeCheckPrefix = ''jwt:blocklist:wipe:''"
definition undeliveredKeyPrefix :: string where "undeliveredKeyPrefix = ''undelivered:''"

text \<open>
  \<open>cl_send\<close> is the content of the buffered channel, \<open>cl_done\<close> whether the \<open>done\<close> channel
  is closed (which is what \<open>shutdownOnce\<close> guards), \<open>cl_closeFrame\<close> the close frame put on the
  socket (guarded by \<open>socketCloseOnce\<close>), \<open>cl_wiped\<close> whether \<open>wipeTerminateOnce\<close> has fired,
  \<open>cl_sub\<close> the presence subscription held and \<open>cl_unsubs\<close> those unsubscribed,
  \<open>cl_written\<close> the data frames written to the socket in order and \<open>cl_notified\<close> the
  number of account-wiped control frames written.
\<close>

record client =
  cl_uin :: uin
  cl_send :: "bytes list"
  cl_done :: bool
  cl_wiped :: bool
  cl_closeFrame :: "(nat \<times> string) option"
  cl_sub :: "nat option"
  cl_unsubs :: "nat list"
  cl_written :: "bytes list"
  cl_notified :: nat

definition new_client :: "uin \<Rightarrow> client" where
  "new_client u = \<lparr>cl_uin = u, cl_send = [], cl_done = False, cl_wiped = False,
     cl_closeFrame = None, cl_sub = None, cl_unsubs = [], cl_written = [], cl_notified = 0\<rparr>"

section \<open>Operations\<close>

definition TrySend :: "decoder \<Rightarrow> bytes \<Rightarrow> client \<Rightarrow> bool \<times> client" where
  "TrySend js b c =
     (if IsReservedServerControlEnvelope js b then (False, c)
      else if length (cl_send c) < sendBufferSize then (True, c\<lparr>cl_send := cl_send c @ [b]\<rparr>)
      else (False, c))"

definition shutdown :: "client \<Rightarrow> client" where
  "shutdown c =
     (if cl_done c then c
      else c\<lparr>cl_done := True, cl_sub := None,
             cl_unsubs := (case cl_sub c of None \<Rightarrow> cl_unsubs c | Some s \<Rightarrow> s # cl_unsubs c)\<rparr>)"

definition setPresenceSub :: "nat \<Rightarrow> client \<Rightarrow> client" where
  "setPresenceSub s c =
     (if cl_done c then c\<lparr>cl_unsubs := s # cl_unsubs c\<rparr> else c\<lparr>cl_sub := Some s\<rparr>)"

definition closeSocket :: "nat \<Rightarrow> string \<Rightarrow> client \<Rightarrow> client" where
  "closeSocket code reason c =
     (case cl_closeFrame c of None \<Rightarrow> c\<lparr>cl_closeFrame := Some (code, reason)\<rparr> | Some _ \<Rightarrow> c)"

text \<open>\<open>ok\<close>: whether writing the control frame to the socket succeeds (an error is only logged).\<close>

definition writeWipeNotification :: "bool \<Rightarrow> client \<Rightarrow> client" where
  "writeWipeNotification ok c = (if ok then c\<lparr>cl_notified := Suc (cl_notified c)\<rparr> else c)"

definition terminateWiped :: "bool \<Rightarrow> string \<Rightarrow> client \<Rightarrow> client" where
  "terminateWiped ok reason c =
     (if cl_wiped c then c
      else closeSocket CloseCodeWiped reason
             (writeWipeNotification ok (shutdown (c\<lparr>cl_wiped := True\<rparr>))))"

definition CloseWiped :: "bool \<Rightarrow> client \<Rightarrow> client" where
  "CloseWiped ok c = terminateWiped ok ''account_wiped'' c"

section \<open>The write loop\<close>

text \<open>
  One iteration of \<open>writeLoop\<close>. The select may pick the send channel even when \<open>done\<close> is
  closed, since Go chooses among the ready cases at random; a write error shuts down.
\<close>

inductive writeLoop_step :: "client \<Rightarrow> client \<Rightarrow> bool" where
  write_ok: "cl_send c = f # fs \<Longrightarrow>
     writeLoop_step c (c\<lparr>cl_send := fs, cl_written := cl_written c @ [f]\<rparr>)"
| write_err: "cl_send c = f # fs \<Longrightarrow> writeLoop_step c (shutdown (c\<lparr>cl_send := fs\<rparr>))"

inductive_cases writeLoop_stepE: "writeLoop_step c c'"

section \<open>Auth frame\<close>

record auth_envelope =
  ae_type :: string
  ae_token :: string
  ae_payload_access_token :: string
  ae_payload_token :: string
  ae_payload_presence_enabled :: bool

datatype auth_error = AuthMalformed | AuthRequired

text \<open>\<open>frame\<close> is the decoded JSON frame, \<open>None\<close> when it does not decode.\<close>

definition parseAuthToken :: "auth_envelope option \<Rightarrow> auth_error + string" where
  "parseAuthToken frame =
     (case frame of
        None \<Rightarrow> Inl AuthMalformed
      | Some f \<Rightarrow>
          if ae_type f \<noteq> ''auth'' then Inl AuthRequired
          else if length (filter (\<lambda>t. t \<noteq> [])
                 [ae_token f, ae_payload_access_token f, ae_payload_token f]) \<noteq> 1
          then Inl AuthRequired
          else if ae_token f \<noteq> [] then Inr (ae_token f)
          else if ae_payload_access_token f \<noteq> [] then Inr (ae_payload_access_token f)
          else if ae_payload_token f \<noteq> [] then Inr (ae_payload_token f)
          else Inl AuthRequired)"

definition parsePresenceEnabled :: "auth_envelope option \<Rightarrow> bool" where
  "parsePresenceEnabled frame =
     (case frame of None \<Rightarrow> False | Some f \<Rightarrow> ae_payload_presence_enabled f)"

section \<open>Origin policy\<close>

text \<open>\<open>strings.TrimSpace\<close> on ASCII text, and \<open>strings.TrimSuffix\<close>.\<close>

definition is_space :: "char \<Rightarrow> bool" where
  "is_space ch \<longleftrightarrow> of_char ch \<in> {9, 10, 11, 12, 13, 32 :: nat}"

definition trim_space :: "string \<Rightarrow> string" where
  "trim_space s = rev (dropWhile is_space (rev (dropWhile is_space s)))"

definition trim_slash :: "string \<Rightarrow> string" where
  "trim_slash s = (if s \<noteq> [] \<and> last s = CHR ''/'' then butlast s else s)"

text \<open>
  \<open>header\<close> is the list of Origin header values, \<open>None\<close> when the header is absent;
  \<open>url_parse\<close> stands for \<open>url.Parse\<close> and gives scheme and host.
\<close>

definition isOriginAllowed ::
  "(string \<Rightarrow> (string \<times> string) option) \<Rightarrow> string list \<Rightarrow> string list option \<Rightarrow> bool" where
  "isOriginAllowed url_parse allowed header =
     (if allowed = [] then True
      else case header of
        None \<Rightarrow> True
      | Some [] \<Rightarrow> True
      | Some (v # _) \<Rightarrow>
          let origin = trim_space v in
          if origin = [] then False
          else
            let origin = trim_slash origin in
            if origin = ''null'' then False
            else case url_parse origin of
              None \<Rightarrow> False
            | Some (scheme, host) \<Rightarrow>
                if scheme = [] \<or> host = [] then False
                else list_ex (\<lambda>a. trim_slash (trim_space a) = origin) allowed)"

section \<open>Drain of the undelivered queue\<close>

definition TrySend_all :: "decoder \<Rightarrow> bytes list \<Rightarrow> client \<Rightarrow> client" where
  "TrySend_all js fs c = fold (\<lambda>f c. snd (TrySend js f c)) fs c"

definition drainUndelivered ::
  "('r, 'x) redis_api_scheme \<Rightarrow> decoder \<Rightarrow> uin \<Rightarrow> client \<times> 'r \<Rightarrow> client \<times> 'r" where
  "drainUndelivered R js u = (\<lambda>(c, s).
     let key = undeliveredKeyPrefix @ itoa u in
     case rd_lrange R key 0 (- 1) s of
       (Inl _, s1) \<Rightarrow> (c, s1)
     | (Inr frames, s1) \<Rightarrow>
         let c1 = TrySend_all js frames c in
         (c1, if length frames > 0 then snd (rd_del R key s1) else s1))"

section \<open>Lemmas\<close>

lemma TrySend_simps [simp]:
  "cl_uin (snd (TrySend js b c)) = cl_uin c"
  "cl_written (snd (TrySend js b c)) = cl_written c"
  "cl_done (snd (TrySend js b c)) = cl_done c"
  by (simp_all add: TrySend_def)

lemma TrySend_full:
  "sendBufferSize \<le> length (cl_send c) \<Longrightarrow> TrySend js b c = (False, c)"
  by (simp add: TrySend_def)

lemma TrySend_bound:
  "length (cl_send c) \<le> sendBufferSize \<Longrightarrow> length (cl_send (snd (TrySend js b c))) \<le> sendBufferSize"
  by (simp add: TrySend_def)

lemma TrySend_all_Nil [simp]: "TrySend_all js [] c = c"
  by (simp add: TrySend_all_def)

lemma TrySend_all_Cons [simp]: "TrySend_all js (f # fs) c = TrySend_all js fs (snd (TrySend js f c))"
  by (simp add: TrySend_all_def)

text \<open>A run of \<open>TrySend\<close> keeps the channel a prefix of what was offered: the free slots are
  filled by the first non-reserved frames and the rest are dropped.\<close>

lemma TrySend_all_send:
  "length (cl_send c) \<le> sendBufferSize \<Longrightarrow>
   cl_send (TrySend_all js fs c) =
     take sendBufferSize (cl_send c @ filter (\<lambda>f. \<not> IsReservedServerControlEnvelope js f) fs)"
proof (induction fs arbitrary: c)
  case Nil
  then show ?case by simp
next
  case (Cons f fs)
  have "length (cl_send (snd (TrySend js f c))) \<le> sendBufferSize"
    using Cons.prems by (rule TrySend_bound)
  then have "cl_send (TrySend_all js (f # fs) c) = take sendBufferSize
      (cl_send (snd (TrySend js f c)) @ filter (\<lambda>f. \<not> IsReservedServerControlEnvelope js f) fs)"
    using Cons.IH by simp
  then show ?case using Cons.prems by (auto simp: TrySend_def take_Cons')
qed

lemma shutdown_idem [simp]: "shutdown (shutdown c) = shutdown c"
  by (simp add: shutdown_def)

lemma closeSocket_once [simp]:
  "cl_closeFrame c = Some x \<Longrightarrow> closeSocket code reason c = c"
  by (simp add: closeSocket_def)

lemma cl_closeFrame_frame [simp]:
  "cl_closeFrame (shutdown c) = cl_closeFrame c"
  "cl_closeFrame (writeWipeNotification ok c) = cl_closeFrame c"
  "cl_closeFrame (setPresenceSub s c) = cl_closeFrame c"
  by (simp_all add: shutdown_def writeWipeNotification_def setPresenceSub_def)

lemma shutdown_done [simp]: "cl_done (shutdown c)" "cl_done c \<Longrightarrow> shutdown c = c"
  by (simp_all add: shutdown_def)

lemma once_frame [simp]:
  "cl_done (writeWipeNotification ok c) = cl_done c" "cl_done (closeSocket code reason c) = cl_done c"
  "cl_wiped (writeWipeNotification ok c) = cl_wiped c" "cl_wiped (closeSocket code reason c) = cl_wiped c"
  "cl_wiped (shutdown c) = cl_wiped c"
  by (auto simp: writeWipeNotification_def closeSocket_def shutdown_def split: option.split)

lemma closeSocket_closeFrame [simp]:
  "cl_closeFrame (closeSocket code reason c) =
     Some (case cl_closeFrame c of None \<Rightarrow> (code, reason) | Some f \<Rightarrow> f)"
  by (simp add: closeSocket_def split: option.split)

lemma writeLoop_fifo:
  assumes "writeLoop_step c c'"
  shows "\<exists>dropped. cl_written c @ cl_send c = cl_written c' @ dropped @ cl_send c' \<and>
     (dropped = [] \<or> cl_done c')"
  using assms
proof cases
  case (write_ok f fs)
  then show ?thesis by (intro exI [of _ "[]"]) simp
next
  case (write_err f fs)
  then show ?thesis by (intro exI [of _ "[f]"]) (simp add: shutdown_def)
qed

end
