(* ===== verification/Hub.thy ===== *)
theory Hub
  imports Client
begin

text \<open>
  The connection registry of the gateway, \<^verbatim>\<open>ws-gateway/hub/hub.go\<close>. \<open>gw_clients\<close> is the
  \<open>sync.Map\<close> from UIN to the slice of client pointers, \<open>gw_heap\<close> what the pointers refer to,
  \<open>gw_redis\<close> the Redis store. Register and Unregister run under the hub mutex, so each is
  one step. The locale \<open>hub_register\<close> is the contract the connection code relies on
  (the interface \<open>HubRegister\<close> of the client package); the hub model interprets it.
\<close>

section \<open>State\<close>

type_synonym cid = nat

record 'r gateway =
  gw_clients :: "uin \<rightharpoonup> cid list"
  gw_heap :: "cid \<Rightarrow> client"
  gw_redis :: 'r

datatype hub_error = ErrHubTooManyConnections | ErrRedis string

definition UndeliveredKeyPrefix :: string where "UndeliveredKeyPrefix = ''undelivered:''"
definition UndeliveredTTL :: duration where "UndeliveredTTL = 7 * 24 * Hour"
definition UndeliveredMaxLen :: nat where "UndeliveredMaxLen = 1000"
definition maxConnectionsPerUIN :: nat where "maxConnectionsPerUIN = 5"

section \<open>Register and Unregister\<close>

definition load_slice :: "uin \<Rightarrow> (uin \<rightharpoonup> cid list) \<Rightarrow> cid list" where
  "load_slice u m = (case m u of None \<Rightarrow> [] | Some s \<Rightarrow> s)"

definition Register :: "cid \<Rightarrow> 'r gateway \<Rightarrow> hub_error option \<times> 'r gateway" where
  "Register c w =
     (let u = cl_uin (gw_heap w c);
          m = (case gw_clients w u of None \<Rightarrow> (gw_clients w)(u \<mapsto> []) | Some _ \<Rightarrow> gw_clients w);
          sl = load_slice u m
      in if length sl \<ge> maxConnectionsPerUIN
         then (Some ErrHubTooManyConnections, w\<lparr>gw_clients := m\<rparr>)
         else (None, w\<lparr>gw_clients := m(u \<mapsto> sl @ [c])\<rparr>))"

definition Unregister :: "cid \<Rightarrow> 'r gateway \<Rightarrow> 'r gateway" where
  "Unregister c w =
     (let u = cl_uin (gw_heap w c) in
      case gw_clients w u of
        None \<Rightarrow> w
      | Some sl \<Rightarrow>
          let nxt = filter (\<lambda>existing. existing \<noteq> c) sl in
          if \<not> list_ex (\<lambda>existing. existing = c) sl then w
          else if nxt = [] then w\<lparr>gw_clients := (gw_clients w)(u := None)\<rparr>
          else w\<lparr>gw_clients := (gw_clients w)(u \<mapsto> nxt)\<rparr>)"

section \<open>Fan-out\<close>

text \<open>\<open>deliver_local\<close> is the loop \<open>for _, c := range slice { c.TrySend(envelope) }\<close>.\<close>

definition deliver_local :: "decoder \<Rightarrow> bytes \<Rightarrow> cid list \<Rightarrow> 'r gateway \<Rightarrow> 'r gateway" where
  "deliver_local js env sl w =
     fold (\<lambda>c w. w\<lparr>gw_heap := (gw_heap w)(c := snd (TrySend js env (gw_heap w c)))\<rparr>) sl w"

text \<open>\<open>uinToString\<close>: the loop fills a 20-byte buffer from the right; \<open>i\<close> is the index of the
  last byte written (a negative one would be Go's index panic), the string its tail.\<close>

function utoa_loop :: "int \<Rightarrow> int \<times> string \<Rightarrow> int \<times> string" where
  "utoa_loop n (i, buf) =
     (if n > 0 then utoa_loop (n div 10) (i - 1, char_of (48 + nat (n mod 10)) # buf) else (i, buf))"
  by pat_completeness auto
termination
  by (relation "measure (\<lambda>(n, _). nat n)") auto

declare utoa_loop.simps [simp del]

definition uinToString_buf :: "int \<Rightarrow> int \<times> string" where
  "uinToString_buf n =
     (if n = 0 then (19, ''0'')
      else let neg = n < 0;
               n = (if neg then wrap64 (- n) else n);
               (i, buf) = utoa_loop n (20, [])
           in if neg then (i - 1, CHR ''-'' # buf) else (i, buf))"

definition uinToString :: "int \<Rightarrow> string" where
  "uinToString n = snd (uinToString_buf n)"

definition enqueueUndelivered ::
  "('r, 'x) redis_api_scheme \<Rightarrow> uin \<Rightarrow> bytes \<Rightarrow> 'r \<Rightarrow> hub_error option \<times> 'r" where
  "enqueueUndelivered R u envelope s =
     (let key = UndeliveredKeyPrefix @ uinToString u;
          (llen, s1) = rd_llen R key s;
          (rpush, s2) = rd_rpush R key envelope s1;
          (expire, s3) = rd_expire R key UndeliveredTTL s2
      in case llen of
           Inl e \<Rightarrow> (Some (ErrRedis e), s3)
         | Inr n \<Rightarrow>
             (case rpush of
                Inl e \<Rightarrow> (Some (ErrRedis e), s3)
              | Inr _ \<Rightarrow>
                  (case expire of
                     Inl e \<Rightarrow> (Some (ErrRedis e), s3)
                   | Inr _ \<Rightarrow>
                       if n > UndeliveredMaxLen
                       then (None, snd (rd_ltrim R key (- int UndeliveredMaxLen) (- 1) s3))
                       else (None, s3))))"

definition Send ::
  "('r, 'x) redis_api_scheme \<Rightarrow> decoder \<Rightarrow> uin \<Rightarrow> bytes \<Rightarrow> 'r gateway \<Rightarrow> hub_error option \<times> 'r gateway" where
  "Send R js u envelope w =
     (if u = 0 then (None, w)
      else if length envelope = 0 then (None, w)
      else if IsReservedServerControlEnvelope js envelope then (None, w)
      else
        let pollKey = ''poll:stream:'' @ uinToString u;
            s1 = snd (rd_xadd R pollKey UndeliveredMaxLen envelope (gw_redis w));
            s2 = snd (rd_expire R pollKey UndeliveredTTL s1);
            w1 = w\<lparr>gw_redis := s2\<rparr>
        in case gw_clients w1 u of
             None \<Rightarrow>
               (let (err, s3) = enqueueUndelivered R u envelope s2
                in (err, w1\<lparr>gw_redis := s3\<rparr>))
           | Some sl \<Rightarrow> (None, deliver_local js envelope sl w1))"

definition SendLive :: "decoder \<Rightarrow> uin \<Rightarrow> bytes \<Rightarrow> 'r gateway \<Rightarrow> 'r gateway" where
  "SendLive js u envelope w =
     (if u \<le> 0 \<or> length envelope = 0 \<or> IsReservedServerControlEnvelope js envelope then w
      else case gw_clients w u of
             None \<Rightarrow> w
           | Some sl \<Rightarrow> deliver_local js envelope sl w)"

definition Broadcast ::
  "('r, 'x) redis_api_scheme \<Rightarrow> decoder \<Rightarrow> uin list \<Rightarrow> bytes \<Rightarrow> 'r gateway \<Rightarrow> 'r gateway" where
  "Broadcast R js uins envelope w = fold (\<lambda>u w. snd (Send R js u envelope w)) uins w"

text \<open>\<open>Hub.CloseWiped\<close>: every connection of the user is terminated; \<open>ok c\<close> says whether the
  control frame reaches the socket of \<open>c\<close>.\<close>

definition hub_CloseWiped :: "(cid \<Rightarrow> bool) \<Rightarrow> uin \<Rightarrow> 'r gateway \<Rightarrow> 'r gateway" where
  "hub_CloseWiped ok u w =
     (if u \<le> 0 then w
      else case gw_clients w u of
             None \<Rightarrow> w
           | Some sl \<Rightarrow>
               fold (\<lambda>c w. w\<lparr>gw_heap := (gw_heap w)(c := CloseWiped (ok c) (gw_heap w c))\<rparr>) sl w)"

section \<open>The registration contract\<close>

datatype conn_event = Join nat | Leave nat

locale hub_register =
  fixes join :: "nat \<Rightarrow> 'h \<Rightarrow> bool \<times> 'h"
    and leave :: "nat \<Rightarrow> 'h \<Rightarrow> 'h"
    and conns :: "'h \<Rightarrow> int \<Rightarrow> nat list"
    and owner :: "'h \<Rightarrow> nat \<Rightarrow> int"
    and cap :: nat
  assumes join_ok: "join c h = (True, h') \<Longrightarrow> length (conns h (owner h c)) < cap \<and>
        conns h' = (conns h)(owner h c := conns h (owner h c) @ [c])"
    and join_full: "join c h = (False, h') \<Longrightarrow>
        cap \<le> length (conns h (owner h c)) \<and> conns h' = conns h"
    and join_owner: "owner (snd (join c h)) = owner h"
    and leave_conns: "conns (leave c h) =
        (conns h)(owner h c := filter (\<lambda>x. x \<noteq> c) (conns h (owner h c)))"
    and leave_owner: "owner (leave c h) = owner h"
begin

definition conn_step :: "conn_event \<Rightarrow> 'h \<Rightarrow> 'h" where
  "conn_step e h = (case e of Join c \<Rightarrow> snd (join c h) | Leave c \<Rightarrow> leave c h)"

definition conn_run :: "conn_event list \<Rightarrow> 'h \<Rightarrow> 'h" where
  "conn_run es h = fold conn_step es h"

lemma join_cases:
  obtains (ok) h' where "join c h = (True, h')" "length (conns h (owner h c)) < cap"
      "conns h' = (conns h)(owner h c := conns h (owner h c) @ [c])"
  | (full) h' where "join c h = (False, h')" "cap \<le> length (conns h (owner h c))"
      "conns h' = conns h"
  using join_ok [of c h] join_full [of c h] by (cases "join c h"; cases "fst (join c h)") auto

lemma conn_step_bound:
  assumes "\<forall>v. length (conns h v) \<le> cap"
  shows "\<forall>v. length (conns (conn_step e h) v) \<le> cap"
proof (cases e)
  case (Join c)
  show ?thesis
    using assms by (rule_tac c = c and h = h in join_cases) (auto simp: conn_step_def Join)
next
  case (Leave c)
  then show ?thesis
    using assms by (auto simp: conn_step_def leave_conns intro: order_trans [OF length_filter_le])
qed

lemma conn_run_bound:
  "\<forall>v. length (conns h v) \<le> cap \<Longrightarrow> \<forall>v. length (conns (conn_run es h) v) \<le> cap"
  unfolding conn_run_def
  by (induction es arbitrary: h) (simp_all add: conn_step_bound)

lemma join_leave:
  assumes "join c h = (True, h')" and "c \<notin> set (conns h (owner h c))"
  shows "conns (leave c h') = conns h"
  using join_ok [OF assms(1)] join_owner [of c h] assms
  by (auto simp: leave_conns filter_neq_id fun_eq_iff)

lemma left_not_member: "c \<notin> set (conns (leave c h) (owner h c))"
  by (simp add: leave_conns)

end

section \<open>The hub keeps the contract\<close>

lemma load_slice_simps [simp]:
  "load_slice u (m(u \<mapsto> sl)) = sl"
  "load_slice u (m(u := None)) = []"
  "v \<noteq> u \<Longrightarrow> load_slice v (m(u := x)) = load_slice v m"
  by (simp_all add: load_slice_def)

lemma Register_cases:
  "Register c w = (e, w') \<Longrightarrow>
     (e = None \<and> length (load_slice (cl_uin (gw_heap w c)) (gw_clients w)) < maxConnectionsPerUIN \<and>
      w' = w\<lparr>gw_clients := (gw_clients w)(cl_uin (gw_heap w c) \<mapsto>
             load_slice (cl_uin (gw_heap w c)) (gw_clients w) @ [c])\<rparr>) \<or>
     (e = Some ErrHubTooManyConnections \<and> w' = w \<and>
      maxConnectionsPerUIN \<le> length (load_slice (cl_uin (gw_heap w c)) (gw_clients w)))"
  by (auto simp: Register_def Let_def load_slice_def maxConnectionsPerUIN_def
      split: option.splits if_splits)

lemma Unregister_slices:
  "load_slice v (gw_clients (Unregister c w)) =
     (if v = cl_uin (gw_heap w c)
      then filter (\<lambda>x. x \<noteq> c) (load_slice v (gw_clients w)) else load_slice v (gw_clients w))"
proof (cases "gw_clients w (cl_uin (gw_heap w c))")
  case None
  then show ?thesis by (simp add: Unregister_def load_slice_def)
next
  case (Some sl)
  then show ?thesis
    by (auto simp: Unregister_def load_slice_def Let_def list_ex_iff filter_neq_id)
qed

lemma Register_heap [simp]:
  "gw_heap (snd (Register c w)) = gw_heap w" "gw_redis (snd (Register c w)) = gw_redis w"
  by (simp_all add: Register_def Let_def)

lemma Unregister_heap [simp]:
  "gw_heap (Unregister c w) = gw_heap w" "gw_redis (Unregister c w) = gw_redis w"
  by (simp_all add: Unregister_def Let_def split: option.split)

abbreviation hub_join :: "cid \<Rightarrow> 'r gateway \<Rightarrow> bool \<times> 'r gateway" where
  "hub_join c w \<equiv> (fst (Register c w) = None, snd (Register c w))"

abbreviation hub_conns :: "'r gateway \<Rightarrow> uin \<Rightarrow> cid list" where
  "hub_conns w u \<equiv> load_slice u (gw_clients w)"

abbreviation hub_owner :: "'r gateway \<Rightarrow> cid \<Rightarrow> uin" where
  "hub_owner w c \<equiv> cl_uin (gw_heap w c)"

interpretation hubR: hub_register hub_join Unregister hub_conns hub_owner maxConnectionsPerUIN
proof unfold_locales
  fix c and h h' :: "'a gateway"
  assume "hub_join c h = (True, h')"
  then show "length (hub_conns h (hub_owner h c)) < maxConnectionsPerUIN \<and>
      hub_conns h' = (hub_conns h)(hub_owner h c := hub_conns h (hub_owner h c) @ [c])"
    by (cases "Register c h") (auto dest!: Register_cases simp: fun_eq_iff)
next
  fix c and h h' :: "'a gateway"
  assume "hub_join c h = (False, h')"
  then show "maxConnectionsPerUIN \<le> length (hub_conns h (hub_owner h c)) \<and> hub_conns h' = hub_conns h"
    by (cases "Register c h") (auto dest!: Register_cases)
next
  fix c and h :: "'a gateway"
  show "hub_conns (Unregister c h) =
      (hub_conns h)(hub_owner h c := filter (\<lambda>x. x \<noteq> c) (hub_conns h (hub_owner h c)))"
    by (auto simp: fun_eq_iff Unregister_slices)
qed simp_all

section \<open>The gateway as a transition system\<close>

text \<open>
  What can happen to the gateway's registry, connections and Redis store: a connection is
  accepted at a fresh pointer, a handler calls a hub operation, a write loop advances, a
  connecting client drains its queue.
\<close>

inductive hub_step ::
  "('r, 'x) redis_api_scheme \<Rightarrow> decoder \<Rightarrow> 'r gateway \<Rightarrow> 'r gateway \<Rightarrow> bool" for R js where
  hs_accept: "(\<forall>v. c \<notin> set (hub_conns w v)) \<Longrightarrow>
     hub_step R js w (w\<lparr>gw_heap := (gw_heap w)(c := new_client u)\<rparr>)"
| hs_register: "hub_step R js w (snd (Register c w))"
| hs_unregister: "hub_step R js w (Unregister c w)"
| hs_send: "hub_step R js w (snd (Send R js u e w))"
| hs_send_live: "hub_step R js w (SendLive js u e w)"
| hs_broadcast: "hub_step R js w (Broadcast R js us e w)"
| hs_close_wiped: "hub_step R js w (hub_CloseWiped ok u w)"
| hs_write: "writeLoop_step (gw_heap w c) cl \<Longrightarrow>
     hub_step R js w (w\<lparr>gw_heap := (gw_heap w)(c := cl)\<rparr>)"
| hs_drain: "drainUndelivered R js (cl_uin (gw_heap w c)) (gw_heap w c, gw_redis w) = (cl, s) \<Longrightarrow>
     hub_step R js w (w\<lparr>gw_heap := (gw_heap w)(c := cl), gw_redis := s\<rparr>)"

inductive hub_reachable ::
  "('r, 'x) redis_api_scheme \<Rightarrow> decoder \<Rightarrow> 'r gateway \<Rightarrow> bool" for R js where
  start: "hub_reachable R js
     \<lparr>gw_clients = Map.empty, gw_heap = (\<lambda>c. new_client 0), gw_redis = s\<rparr>"
| step: "hub_reachable R js w \<Longrightarrow> hub_step R js w w' \<Longrightarrow> hub_reachable R js w'"

definition client_ok :: "decoder \<Rightarrow> client \<Rightarrow> bool" where
  "client_ok js c \<longleftrightarrow> length (cl_send c) \<le> sendBufferSize \<and>
     list_all (\<lambda>f. \<not> IsReservedServerControlEnvelope js f) (cl_written c @ cl_send c)"

definition entry_ok :: "(cid \<Rightarrow> uin) \<Rightarrow> uin \<Rightarrow> cid list \<Rightarrow> bool" where
  "entry_ok own u sl \<longleftrightarrow>
     sl \<noteq> [] \<and> length sl \<le> maxConnectionsPerUIN \<and> list_all (\<lambda>c. own c = u) sl"

definition hub_inv :: "decoder \<Rightarrow> 'r gateway \<Rightarrow> bool" where
  "hub_inv js w \<longleftrightarrow>
     (\<forall>u. pred_option (entry_ok (hub_owner w) u) (gw_clients w u)) \<and>
     (\<forall>c. client_ok js (gw_heap w c))"

lemma hub_inv_entry: "hub_inv js w \<Longrightarrow> gw_clients w u = Some sl \<Longrightarrow> entry_ok (hub_owner w) u sl"
  unfolding hub_inv_def by (metis option.pred_inject(2))

lemma hub_inv_update:
  assumes "hub_inv js w" and "pred_option (entry_ok (hub_owner w) u) x"
  shows "hub_inv js (w\<lparr>gw_clients := (gw_clients w)(u := x)\<rparr>)"
  using assms by (simp add: hub_inv_def)

lemma client_ok_new [simp]: "client_ok js (new_client u)"
  by (simp add: client_ok_def new_client_def)

lemma client_ok_TrySend [iceq_inv]: "client_ok js c \<Longrightarrow> client_ok js (snd (TrySend js b c))"
  by (auto simp: client_ok_def TrySend_def)

lemma client_ok_TrySend_all [iceq_inv]: "client_ok js c \<Longrightarrow> client_ok js (TrySend_all js fs c)"
  by (induction fs arbitrary: c) (auto intro: client_ok_TrySend)

lemma client_ok_CloseWiped [iceq_inv]: "client_ok js c \<Longrightarrow> client_ok js (CloseWiped ok c)"
  by (auto simp: client_ok_def CloseWiped_def terminateWiped_def closeSocket_def shutdown_def
      writeWipeNotification_def split: option.split)

lemma client_ok_write [iceq_inv]: "writeLoop_step c c' \<Longrightarrow> client_ok js c \<Longrightarrow> client_ok js c'"
  by (erule writeLoop_stepE) (auto simp: client_ok_def shutdown_def split: option.split)

lemma CloseWiped_uin [simp]: "cl_uin (CloseWiped ok c) = cl_uin c"
  by (auto simp: CloseWiped_def terminateWiped_def closeSocket_def shutdown_def
      writeWipeNotification_def split: option.split)

lemma TrySend_all_uin [simp]: "cl_uin (TrySend_all js fs c) = cl_uin c"
  by (induction fs arbitrary: c) auto

lemma writeLoop_uin: "writeLoop_step c c' \<Longrightarrow> cl_uin c' = cl_uin c"
  by (erule writeLoop_stepE) (auto simp: shutdown_def)

text \<open>A step that leaves the registry alone and keeps every client's owner and well-formedness
  keeps the invariant.\<close>

lemma hub_inv_heap:
  assumes "hub_inv js w" and "gw_clients w' = gw_clients w"
    and "\<And>c. cl_uin (gw_heap w' c) = cl_uin (gw_heap w c)"
    and "\<And>c. client_ok js (gw_heap w c) \<Longrightarrow> client_ok js (gw_heap w' c)"
  shows "hub_inv js w'"
  using assms by (auto simp: hub_inv_def)

lemma deliver_local_simps [simp]:
  "deliver_local js e [] w = w"
  "deliver_local js e (c # cs) w = deliver_local js e cs
     (w\<lparr>gw_heap := (gw_heap w)(c := snd (TrySend js e (gw_heap w c)))\<rparr>)"
  by (simp_all add: deliver_local_def)

lemma deliver_local_frame [simp]:
  "gw_clients (deliver_local js e sl w) = gw_clients w"
  "gw_redis (deliver_local js e sl w) = gw_redis w"
  by (induction sl arbitrary: w) auto

lemma deliver_local_uin [simp]:
  "cl_uin (gw_heap (deliver_local js e sl w) c) = cl_uin (gw_heap w c)"
  by (induction sl arbitrary: w) auto

lemma deliver_local_ok [iceq_inv]:
  "client_ok js (gw_heap w c) \<Longrightarrow> client_ok js (gw_heap (deliver_local js e sl w) c)"
proof (induction sl arbitrary: w)
  case (Cons a sl)
  show ?case
    unfolding deliver_local_simps
    by (rule Cons.IH) (use Cons.prems in \<open>auto intro: client_ok_TrySend\<close>)
qed simp

lemma deliver_local_heap:
  "distinct sl \<Longrightarrow> gw_heap (deliver_local js e sl w) c =
     (if c \<in> set sl then snd (TrySend js e (gw_heap w c)) else gw_heap w c)"
  by (induction sl arbitrary: w) auto

lemma Send_clients [simp]: "gw_clients (snd (Send R js u e w)) = gw_clients w"
  by (auto simp: Send_def Let_def split: option.split prod.split)

lemma Send_uin [simp]: "cl_uin (gw_heap (snd (Send R js u e w)) c) = cl_uin (gw_heap w c)"
  by (auto simp: Send_def Let_def split: option.split prod.split)

lemma Send_client_ok [iceq_inv]:
  "client_ok js (gw_heap w c) \<Longrightarrow> client_ok js (gw_heap (snd (Send R js u e w)) c)"
  by (auto simp: Send_def Let_def intro: deliver_local_ok split: option.split prod.split)

lemma hub_inv_Send [iceq_inv]: "hub_inv js w \<Longrightarrow> hub_inv js (snd (Send R js u e w))"
  by (erule hub_inv_heap) (auto intro: Send_client_ok)

lemma hub_inv_SendLive [iceq_inv]: "hub_inv js w \<Longrightarrow> hub_inv js (SendLive js u e w)"
  by (erule hub_inv_heap) (auto simp: SendLive_def intro: deliver_local_ok split: option.split)

lemma hub_inv_Broadcast [iceq_inv]: "hub_inv js w \<Longrightarrow> hub_inv js (Broadcast R js us e w)"
  unfolding Broadcast_def by (induction us arbitrary: w) (auto intro: hub_inv_Send)

lemma hub_inv_close_all:
  "hub_inv js w \<Longrightarrow> hub_inv js
     (fold (\<lambda>c w. w\<lparr>gw_heap := (gw_heap w)(c := CloseWiped (ok c) (gw_heap w c))\<rparr>) sl w)"
proof (induction sl arbitrary: w)
  case (Cons c sl)
  have "hub_inv js (w\<lparr>gw_heap := (gw_heap w)(c := CloseWiped (ok c) (gw_heap w c))\<rparr>)"
    using Cons.prems by (rule hub_inv_heap) (auto intro: client_ok_CloseWiped)
  then show ?case using Cons.IH by (simp del: fun_upd_apply)
qed simp

lemma hub_inv_CloseWiped [iceq_inv]: "hub_inv js w \<Longrightarrow> hub_inv js (hub_CloseWiped ok u w)"
  by (auto simp: hub_CloseWiped_def intro: hub_inv_close_all split: option.split)

lemma hub_inv_Register [iceq_inv]:
  assumes "hub_inv js w" shows "hub_inv js (snd (Register c w))"
proof (cases "Register c w")
  case (Pair e w')
  have "list_all (\<lambda>d. hub_owner w d = hub_owner w c) (hub_conns w (hub_owner w c))"
    using assms hub_inv_entry by (fastforce simp: load_slice_def entry_ok_def split: option.split)
  then show ?thesis
    using assms Register_cases [OF Pair] Pair by (auto intro!: hub_inv_update simp: entry_ok_def)
qed

lemma hub_inv_Unregister [iceq_inv]:
  assumes "hub_inv js w" shows "hub_inv js (Unregister c w)"
proof (cases "gw_clients w (hub_owner w c)")
  case (Some sl)
  then have "entry_ok (hub_owner w) (hub_owner w c) sl" using assms hub_inv_entry by blast
  then show ?thesis
    using assms Some
    by (auto simp: Unregister_def Let_def entry_ok_def list_all_iff
        intro!: hub_inv_update intro: order_trans [OF length_filter_le])
qed (simp add: Unregister_def assms)

lemma hub_inv_accept:
  assumes "hub_inv js w" and fresh: "\<forall>v. c \<notin> set (hub_conns w v)"
  shows "hub_inv js (w\<lparr>gw_heap := (gw_heap w)(c := new_client u)\<rparr>)"
proof -
  have "pred_option (entry_ok (hub_owner (w\<lparr>gw_heap := (gw_heap w)(c := new_client u)\<rparr>)) v)
      (gw_clients w v)" for v
  proof (cases "gw_clients w v")
    case (Some sl)
    moreover have "c \<notin> set sl" using spec [OF fresh, of v] Some by (simp add: load_slice_def)
    ultimately show ?thesis
      using hub_inv_entry [OF assms(1) Some] by (auto simp: entry_ok_def list_all_iff)
  qed simp
  then show ?thesis using assms(1) by (simp add: hub_inv_def)
qed

lemma hub_inv_drain:
  assumes "hub_inv js w"
    and "drainUndelivered R js (cl_uin (gw_heap w c)) (gw_heap w c, gw_redis w) = (cl, s)"
  shows "hub_inv js (w\<lparr>gw_heap := (gw_heap w)(c := cl), gw_redis := s\<rparr>)"
  using assms(1)
proof (rule hub_inv_heap)
  have "cl = gw_heap w c \<or> (\<exists>fs. cl = TrySend_all js fs (gw_heap w c))"
    using assms(2) by (auto simp: drainUndelivered_def Let_def split: prod.splits sum.splits)
  then show "cl_uin (gw_heap (w\<lparr>gw_heap := (gw_heap w)(c := cl), gw_redis := s\<rparr>) d) = cl_uin (gw_heap w d)"
    and "client_ok js (gw_heap w d) \<Longrightarrow>
      client_ok js (gw_heap (w\<lparr>gw_heap := (gw_heap w)(c := cl), gw_redis := s\<rparr>) d)" for d
    by (auto intro: client_ok_TrySend_all)
qed simp

lemma hub_step_inv: "hub_step R js w w' \<Longrightarrow> hub_inv js w \<Longrightarrow> hub_inv js w'"
proof (induction rule: hub_step.induct)
  case (hs_write w c cl)
  then show ?case
    by (elim hub_inv_heap) (auto simp: writeLoop_uin intro: client_ok_write)
qed (auto intro: iceq_inv hub_inv_accept hub_inv_drain)

lemma hub_reachable_hub_inv: "hub_reachable R js w \<Longrightarrow> hub_inv js w"
proof (induction rule: hub_reachable.induct)
  case (start s)
  show ?case by (simp add: hub_inv_def)
qed (rule hub_step_inv)

section \<open>Decimal keys\<close>

lemma utoa_loop_done: "n \<le> 0 \<Longrightarrow> utoa_loop n p = p"
  by (cases p) (simp add: utoa_loop.simps)

lemma utoa_loop_pos: "0 < n \<Longrightarrow>
   utoa_loop n (i, buf) = (i - int (length (decimal (nat n))), decimal (nat n) @ buf)"
proof (induction n "(i, buf)" arbitrary: i buf rule: utoa_loop.induct)
  case (1 n i buf)
  have d: "char_of (48 + nat (n mod 10)) = digit (nat n)"
    using "1.prems" by (simp add: digit_def nat_mod_distrib)
  show ?case
  proof (cases "n < 10")
    case True
    then have "n div 10 = 0" using "1.prems" by simp
    then show ?thesis
      using True "1.prems" d by (simp add: utoa_loop.simps decimal.simps [of "nat n"])
  next
    case False
    then have pos: "0 < n div 10" and nd: "nat (n div 10) = nat n div 10"
      by (auto simp: nat_div_distrib)
    have dec: "decimal (nat n) = decimal (nat n div 10) @ [digit (nat n)]"
      using False by (subst decimal.simps) simp
    show ?thesis
      using "1.hyps" [OF "1.prems" pos] "1.prems" d
      by (subst utoa_loop.simps) (simp add: nd dec)
  qed
qed

lemma decimal_length_bound: "n < 10 ^ k \<Longrightarrow> 0 < k \<Longrightarrow> length (decimal n) \<le> k"
proof (induction n arbitrary: k rule: decimal.induct)
  case (1 n)
  show ?case
  proof (cases "n < 10")
    case True
    then show ?thesis using "1.prems" by (subst decimal.simps) simp
  next
    case False
    then obtain j where k: "k = Suc (Suc j)"
      using "1.prems" by (metis not0_implies_Suc gr0_conv_Suc power_one_right One_nat_def)
    have "n div 10 < 10 ^ Suc j" using "1.prems"(1) k by auto
    then have "length (decimal (n div 10)) \<le> Suc j" using "1.IH" False by simp
    then show ?thesis using False k by (subst decimal.simps) simp
  qed
qed

lemma uinToString_itoa:
  assumes "is_int64 n" and "n \<noteq> int64_min"
  shows "uinToString n = itoa n" and "0 \<le> fst (uinToString_buf n)"
proof -
  have neg: "is_int64 (- n)" using assms by (auto simp: is_int64_def int64_min_def int64_max_def)
  have len: "length (decimal (nat \<bar>n\<bar>)) \<le> 19"
    using assms by (intro decimal_length_bound) (auto simp: is_int64_def int64_min_def int64_max_def)
  show "uinToString n = itoa n"
    using neg by (auto simp: uinToString_def uinToString_buf_def itoa_def utoa_loop_pos Let_def
        decimal.simps [of 0] digit_zero)
  show "0 \<le> fst (uinToString_buf n)"
    using neg len by (auto simp: uinToString_buf_def utoa_loop_pos Let_def abs_if split: if_splits)
qed

lemma uinToString_min: "uinToString int64_min = ''-''"
proof -
  have "wrap64 (- int64_min) = int64_min" by (simp add: wrap64_def int64_min_def)
  then show ?thesis
    by (simp add: uinToString_def uinToString_buf_def utoa_loop_done int64_min_def)
qed

text \<open>UINs the code handles are positive \<open>int64\<close> values.\<close>

lemma uinToString_pos: "0 < n \<Longrightarrow> is_int64 n \<Longrightarrow> uinToString n = itoa n"
  by (rule uinToString_itoa(1)) (auto simp: int64_min_def)

section \<open>Behaviour of the undelivered queue\<close>

context redis_lists
begin

lemma enqueue_frame:
  assumes "j \<noteq> UndeliveredKeyPrefix @ uinToString u"
  shows "lists (snd (enqueueUndelivered R u e s)) j = lists s j"
proof -
  obtain l s1 where 1: "rd_llen R (UndeliveredKeyPrefix @ uinToString u) s = (l, s1)" by fastforce
  obtain p s2 where 2: "rd_rpush R (UndeliveredKeyPrefix @ uinToString u) e s1 = (p, s2)" by fastforce
  obtain x s3 where 3: "rd_expire R (UndeliveredKeyPrefix @ uinToString u) UndeliveredTTL s2 = (x, s3)"
    by fastforce
  have s3: "lists s3 j = lists s j"
    using llen_view [OF 1] rpush_frame [OF 2 assms] expire_view [OF 3] by simp
  moreover have "lists (snd (rd_ltrim R (UndeliveredKeyPrefix @ uinToString u) a b s3)) j = lists s3 j" for a b
    using ltrim_frame [OF prod.collapse [symmetric] assms] by blast
  ultimately show ?thesis
    by (auto simp: enqueueUndelivered_def Let_def 1 2 3 split: sum.split)
qed

lemma enqueue_ok:
  assumes key: "k = UndeliveredKeyPrefix @ uinToString u"
    and llen: "rd_llen R k s = (Inr n, s1)" and rpush: "rd_rpush R k e s1 = (Inr m, s2)"
    and expire: "rd_expire R k UndeliveredTTL s2 = (Inr b, s3)"
    and ltrim: "rd_ltrim R k (- int UndeliveredMaxLen) (- 1) s3 = (Inr (), s4)"
  shows "lists (snd (enqueueUndelivered R u e s)) k =
    (if length (lists s k) > UndeliveredMaxLen
     then drop (Suc (length (lists s k)) - UndeliveredMaxLen) (lists s k @ [e])
     else lists s k @ [e])"
proof -
  have n: "n = length (lists s k)" using llen_reply [OF llen] .
  have s3: "lists s3 k = lists s k @ [e]"
    using llen_view [OF llen] rpush_ok [OF rpush] expire_view [OF expire] by simp
  have s4: "lists s4 k = drop (Suc (length (lists s k)) - UndeliveredMaxLen) (lists s k @ [e])"
    using ltrim_ok [OF ltrim] redis_slice_newest [of UndeliveredMaxLen "lists s3 k"]
    by (simp add: s3 UndeliveredMaxLen_def)
  show ?thesis
    using s3 s4 n llen rpush expire ltrim
    by (simp add: enqueueUndelivered_def Let_def key [symmetric])
qed

lemma send_offline_lists:
  assumes "gw_clients w u = None"
  shows "lists (gw_redis (snd (Send R js u e w))) j =
    (if u = 0 \<or> e = [] \<or> IsReservedServerControlEnvelope js e then lists (gw_redis w) j
     else lists (snd (enqueueUndelivered R u e (gw_redis (w\<lparr>gw_redis :=
       snd (rd_expire R (''poll:stream:'' @ uinToString u) UndeliveredTTL
         (snd (rd_xadd R (''poll:stream:'' @ uinToString u) UndeliveredMaxLen e (gw_redis w))))\<rparr>)))) j)"
  using assms by (simp add: Send_def Let_def split: prod.split)

lemma send_frame:
  assumes "j \<noteq> UndeliveredKeyPrefix @ uinToString u"
  shows "lists (gw_redis (snd (Send R js u e w))) j = lists (gw_redis w) j"
proof (cases "gw_clients w u")
  case None
  then show ?thesis using enqueue_frame [OF assms] by (simp add: send_offline_lists)
next
  case (Some sl)
  then show ?thesis by (simp add: Send_def Let_def)
qed

lemma send_online_lists:
  "gw_clients w u = Some sl \<Longrightarrow> lists (gw_redis (snd (Send R js u e w))) = lists (gw_redis w)"
  by (simp add: Send_def Let_def)

lemma drain_list:
  assumes key: "k = undeliveredKeyPrefix @ itoa u"
    and lrange: "rd_lrange R k 0 (- 1) s = (Inr fs, s1)" and del: "rd_del R k s1 = (Inr m, s2)"
  shows "lists (snd (drainUndelivered R js u (c, s))) k = []"
    and "fst (drainUndelivered R js u (c, s)) = TrySend_all js (lists s k) c"
  using lrange_reply [OF lrange] lrange_view [OF lrange] del_ok [OF del] lrange del
  by (simp_all add: drainUndelivered_def Let_def key [symmetric])

end

end
