(* ===== verification/HubProperties.thy ===== *)
theory HubProperties
  imports Hub
begin

text \<open>
  The properties of the gateway's connection and registry components, with the concrete
  inputs at which the conditional ones apply.
\<close>

definition no_json :: decoder where "no_json raw = None"

definition idle_gateway :: "mem_redis gateway" where
  "idle_gateway = \<lparr>gw_clients = Map.empty, gw_heap = (\<lambda>c. new_client 0), gw_redis = mem_empty\<rparr>"

definition one_conn_gateway :: "mem_redis gateway" where
  "one_conn_gateway =
     idle_gateway\<lparr>gw_clients := [7 \<mapsto> [3]], gw_heap := (\<lambda>c. new_client 7)\<rparr>"

lemmas sample_defs = idle_gateway_def one_conn_gateway_def mem_empty_def new_client_def

lemma idle_reachable: "hub_reachable mem_api no_json idle_gateway"
  unfolding idle_gateway_def by (rule hub_reachable.start)

lemma not_reserved_no_json [simp]: "\<not> IsReservedServerControlEnvelope no_json e"
  by (simp add: reserved_iff no_json_def)

section \<open>Registry\<close>

text \<open>Also: In every reachable gateway state no account holds more than five connections, the
  registry has no empty entry, and every registered connection belongs to the account it is
  registered under.\<close>

theorem hub_connection_cap:
  assumes "hub_reachable R js w"
  shows "length (hub_conns w u) \<le> 5 \<and> gw_clients w u \<noteq> Some [] \<and>
    list_all (\<lambda>c. cl_uin (gw_heap w c) = u) (hub_conns w u)"
proof (cases "gw_clients w u")
  case (Some sl)
  then have "entry_ok (hub_owner w) u sl"
    using hub_reachable_hub_inv [OF assms] hub_inv_entry by blast
  with Some show ?thesis by (simp add: entry_ok_def load_slice_def maxConnectionsPerUIN_def)
qed (simp add: load_slice_def)

theorem hub_connection_cap_witness:
  "length (hub_conns (snd (Register 3 idle_gateway)) 0) \<le> 5 \<and>
   hub_conns (snd (Register 3 idle_gateway)) 0 = [3]"
  using hub_connection_cap [OF hub_reachable.step [OF idle_reachable hub_step.hs_register [of _ _ _ 3]], of 0]
  by (simp add: Register_def load_slice_def maxConnectionsPerUIN_def sample_defs)

text \<open>Also: The terminal account-wiped control frame is never buffered or written as ordinary
  data on any connection of a reachable gateway, and no outbound buffer exceeds its 64
  slots.\<close>

theorem no_forged_wipe_frame:
  assumes "hub_reachable R js w"
  shows "list_all (\<lambda>f. \<not> IsReservedServerControlEnvelope js f)
      (cl_written (gw_heap w c) @ cl_send (gw_heap w c)) \<and>
    length (cl_send (gw_heap w c)) \<le> 64"
  using hub_reachable_hub_inv [OF assms]
  by (simp add: hub_inv_def client_ok_def sendBufferSize_def)

definition wipe_json :: decoder where
  "wipe_json raw = (if raw = ''W'' then Some (JObj [(''type'', JStr ''account_wiped'')]) else None)"

theorem no_forged_wipe_frame_witness:
  "let w = SendLive wipe_json 7 ''W'' (idle_gateway) in
   list_all (\<lambda>f. \<not> IsReservedServerControlEnvelope wipe_json f)
      (cl_written (gw_heap w 3) @ cl_send (gw_heap w 3)) \<and>
   IsReservedServerControlEnvelope wipe_json ''W''"
  using no_forged_wipe_frame [OF hub_reachable.step
      [OF hub_reachable.start hub_step.hs_send_live [of mem_api wipe_json _ 7 "''W''"]], of mem_empty 3]
  by (simp add: Let_def idle_gateway_def reserved_iff wipe_json_def jfield_def)

text \<open>Also: Unregistering a connection that was just registered restores every account's list
  of connections, whatever other connections are open.\<close>

theorem register_unregister_roundtrip:
  assumes "Register c w = (None, w')" and "c \<notin> set (hub_conns w (cl_uin (gw_heap w c)))"
  shows "hub_conns (Unregister c w') = hub_conns w"
  using hubR.join_leave [of c w w'] assms by simp

theorem register_unregister_roundtrip_witness:
  "hub_conns (Unregister 4 (snd (Register 4 one_conn_gateway))) 7 = [3]"
proof -
  have reg: "Register 4 one_conn_gateway = (None, snd (Register 4 one_conn_gateway))"
    by (simp add: Register_def load_slice_def maxConnectionsPerUIN_def sample_defs)
  have fresh: "4 \<notin> set (hub_conns one_conn_gateway (cl_uin (gw_heap one_conn_gateway 4)))"
    by (simp add: load_slice_def sample_defs)
  have "hub_conns (Unregister 4 (snd (Register 4 one_conn_gateway))) 7 = hub_conns one_conn_gateway 7"
    using register_unregister_roundtrip [OF reg fresh] by (rule fun_cong)
  then show ?thesis by (simp add: load_slice_def sample_defs)
qed

section \<open>Fan-out\<close>

text \<open>Also: A message to an online account is offered to every one of its connections, and to
  no other; it never enters the undelivered queue, and no Redis failure can turn it into an
  error.\<close>

theorem send_online:
  assumes "redis_lists R qv" and "gw_clients w u = Some sl" and "distinct sl"
    and "u \<noteq> 0" and "e \<noteq> []" and "\<not> IsReservedServerControlEnvelope js e"
    and "Send R js u e w = (err, w')"
  shows "err = None \<and> qv (gw_redis w') = qv (gw_redis w) \<and>
    gw_heap w' = (\<lambda>c. if c \<in> set sl then snd (TrySend js e (gw_heap w c)) else gw_heap w c)"
proof -
  have "err = None" and w': "w' = snd (Send R js u e w)"
    using assms by (auto simp: Send_def Let_def)
  moreover have "qv (gw_redis w') = qv (gw_redis w)"
    unfolding w' using redis_lists.send_online_lists [OF assms(1,2)] .
  moreover have "gw_heap w' = (\<lambda>c. if c \<in> set sl then snd (TrySend js e (gw_heap w c)) else gw_heap w c)"
    unfolding w' using assms(2-6) by (simp add: Send_def Let_def deliver_local_heap fun_eq_iff)
  ultimately show ?thesis by simp
qed

theorem send_online_witness:
  "cl_send (gw_heap (snd (Send mem_api no_json 7 ''hi'' one_conn_gateway)) 3) = [''hi'']"
proof -
  have conn: "gw_clients one_conn_gateway 7 = Some [3]" by (simp add: sample_defs)
  have "gw_heap (snd (Send mem_api no_json 7 ''hi'' one_conn_gateway)) =
      (\<lambda>c. if c \<in> set [3] then snd (TrySend no_json ''hi'' (gw_heap one_conn_gateway c))
           else gw_heap one_conn_gateway c)"
    using send_online [OF memL.redis_lists_axioms conn, of "''hi''" no_json,
        OF _ _ _ _ prod.collapse [symmetric]] by simp
  then show ?thesis by (simp add: TrySend_def sendBufferSize_def sample_defs)
qed

text \<open>Also: Sending to one account never touches another account's undelivered queue: the
  Redis keys of distinct accounts are distinct.\<close>

theorem send_isolated:
  assumes "redis_lists R qv" and "is_int64 u" and "0 < u" and "is_int64 v" and "0 < v" and "u \<noteq> v"
  shows "qv (gw_redis (snd (Send R js u e w))) (UndeliveredKeyPrefix @ uinToString v) =
    qv (gw_redis w) (UndeliveredKeyPrefix @ uinToString v)"
  by (rule redis_lists.send_frame [OF assms(1)]) (use assms in \<open>simp add: uinToString_pos\<close>)

theorem send_isolated_witness:
  "mem_lists (gw_redis (snd (Send mem_api no_json 8 ''hi'' one_conn_gateway)))
     (UndeliveredKeyPrefix @ uinToString 7) = []"
  using send_isolated [OF memL.redis_lists_axioms, of 8 7 no_json "''hi''" one_conn_gateway]
  by (simp add: is_int64_def int64_min_def int64_max_def sample_defs)

section \<open>The undelivered queue\<close>

text \<open>Also: When Redis answers, queueing for an offline account appends the envelope, and the
  queue keeps at most 1001 entries: the length is read before the push, so a queue at the
  documented cap of 1000 grows to 1001 and is only trimmed by the push after that. The
  newest envelope is always retained.\<close>

theorem undelivered_queue_bound:
  assumes "redis_lists R qv" and "k = UndeliveredKeyPrefix @ uinToString u"
    and "rd_llen R k s = (Inr n, s1)" and "rd_rpush R k e s1 = (Inr m, s2)"
    and "rd_expire R k UndeliveredTTL s2 = (Inr b, s3)"
    and "rd_ltrim R k (- int UndeliveredMaxLen) (- 1) s3 = (Inr (), s4)"
    and "length (qv s k) \<le> 1001" and "enqueueUndelivered R u e s = (err, s')"
  shows "length (qv s' k) \<le> 1001 \<and> last (qv s' k) = e \<and>
    (length (qv s k) = UndeliveredMaxLen \<longrightarrow> length (qv s' k) = Suc UndeliveredMaxLen)"
  using redis_lists.enqueue_ok [OF assms(1-6)] assms(7,8)
  by (auto simp: UndeliveredMaxLen_def)

definition full_queue :: mem_redis where
  "full_queue = mem_empty\<lparr>mem_lists := (\<lambda>k. replicate 1000 ''m'')\<rparr>"

theorem undelivered_queue_bound_witness:
  "length (mem_lists (snd (enqueueUndelivered mem_api 7 ''x'' full_queue))
     (UndeliveredKeyPrefix @ uinToString 7)) = 1001"
proof -
  let ?k = "UndeliveredKeyPrefix @ uinToString 7"
  let ?s2 = "full_queue\<lparr>mem_lists := (mem_lists full_queue)(?k := mem_lists full_queue ?k @ [''x''])\<rparr>"
  have up: "mem_up full_queue" by (simp add: full_queue_def mem_empty_def)
  have 1: "rd_llen mem_api ?k full_queue = (Inr 1000, full_queue)"
    using up by (simp add: mem_api_def mem_reply_def full_queue_def)
  have 2: "rd_rpush mem_api ?k ''x'' full_queue = (Inr 1001, ?s2)"
    using up by (simp add: mem_api_def mem_reply_def full_queue_def mem_empty_def)
  have 3: "rd_expire mem_api ?k UndeliveredTTL ?s2 = (Inr True, ?s2)"
    using up by (simp add: mem_api_def mem_reply_def)
  obtain s4 where 4: "rd_ltrim mem_api ?k (- int UndeliveredMaxLen) (- 1) ?s2 = (Inr (), s4)"
    using up by (simp add: mem_api_def mem_reply_def)
  show ?thesis
    using undelivered_queue_bound [OF memL.redis_lists_axioms refl 1 2 3 4, of
        "fst (enqueueUndelivered mem_api 7 ''x'' full_queue)"
        "snd (enqueueUndelivered mem_api 7 ''x'' full_queue)"]
    by (simp add: full_queue_def UndeliveredMaxLen_def)
qed

text \<open>Also: The connect-time drain empties the Redis queue but hands the connection only as many
  frames as its outbound buffer has free slots: a fresh connection receives the first 64
  ordinary frames and every later one is deleted undelivered.\<close>

theorem drain_truncates:
  assumes "redis_lists R qv" and "k = undeliveredKeyPrefix @ itoa u"
    and "rd_lrange R k 0 (- 1) s = (Inr fs, s1)" and "rd_del R k s1 = (Inr m, s2)"
    and "drainUndelivered R js u (new_client u, s) = (c', s')"
  shows "qv s' k = [] \<and>
    cl_send c' = take 64 (filter (\<lambda>f. \<not> IsReservedServerControlEnvelope js f) (qv s k))"
  using redis_lists.drain_list [OF assms(1-4), of js "new_client u"] assms(5)
  by (simp add: TrySend_all_send new_client_def sendBufferSize_def)

theorem drain_truncates_witness:
  "length (cl_send (fst (drainUndelivered mem_api no_json 7 (new_client 7, full_queue)))) = 64 \<and>
   length (mem_lists full_queue (undeliveredKeyPrefix @ itoa 7)) = 1000 \<and>
   mem_lists (snd (drainUndelivered mem_api no_json 7 (new_client 7, full_queue)))
     (undeliveredKeyPrefix @ itoa 7) = []"
proof -
  let ?k = "undeliveredKeyPrefix @ itoa 7"
  have up: "mem_up full_queue" by (simp add: full_queue_def mem_empty_def)
  have 1: "rd_lrange mem_api ?k 0 (- 1) full_queue = (Inr (replicate 1000 ''m''), full_queue)"
    using up by (simp add: mem_api_def mem_reply_def full_queue_def mem_empty_def)
  obtain s2 where 2: "rd_del mem_api ?k full_queue = (Inr 1, s2)"
    using up by (simp add: mem_api_def mem_reply_def)
  show ?thesis
    using drain_truncates [OF memL.redis_lists_axioms refl 1 2, of no_json
        "fst (drainUndelivered mem_api no_json 7 (new_client 7, full_queue))"
        "snd (drainUndelivered mem_api no_json 7 (new_client 7, full_queue))"]
    by (simp add: full_queue_def)
qed

section \<open>Keys, termination, authentication\<close>

text \<open>Also: For every \<open>int64\<close> but the least one the hand-written \<open>uinToString\<close> renders the same
  text as \<open>strconv.FormatInt\<close> and never runs past its 20-byte buffer; on the least \<open>int64\<close>
  negation wraps around and only the sign is produced.\<close>

theorem uinToString_correct:
  "is_int64 n \<Longrightarrow> (if n = int64_min then uinToString n = ''-''
     else uinToString n = itoa n \<and> 0 \<le> fst (uinToString_buf n))"
  using uinToString_itoa [of n] uinToString_min by simp

theorem uinToString_correct_witness:
  "uinToString 9223372036854775807 = itoa 9223372036854775807 \<and>
   uinToString (- 9223372036854775808) = ''-''"
  using uinToString_correct [of 9223372036854775807] uinToString_correct [of "- 9223372036854775808"]
  by (simp add: is_int64_def int64_min_def int64_max_def)

text \<open>Also: Wipe termination always marks the connection done, and puts close code 4403 on the
  socket unless a close frame was already sent; whatever termination, shutdown or normal
  close follows, neither the close frame nor the number of control frames changes.\<close>

theorem wipe_termination_final:
  assumes "\<not> cl_wiped c" and "t = terminateWiped ok reason c"
  shows "cl_done t \<and>
    cl_closeFrame t = Some (case cl_closeFrame c of None \<Rightarrow> (4403, reason) | Some f \<Rightarrow> f) \<and>
    terminateWiped ok' reason' t = t \<and> closeSocket code'' reason'' t = t \<and> shutdown t = t"
proof -
  have t: "cl_done t" "cl_wiped t"
      "cl_closeFrame t = Some (case cl_closeFrame c of None \<Rightarrow> (4403, reason) | Some f \<Rightarrow> f)"
    using assms by (simp_all add: terminateWiped_def CloseCodeWiped_def)
  then show ?thesis by (simp add: terminateWiped_def)
qed

theorem wipe_termination_final_witness:
  "cl_closeFrame (closeSocket 1000 ''bye'' (CloseWiped True (new_client 7))) =
     Some (4403, ''account_wiped'')"
  using wipe_termination_final [of "new_client 7" _ True "''account_wiped''" False "''x''" 1000 "''bye''"]
  by (simp add: CloseWiped_def new_client_def)

text \<open>Also: A presence subscription never outlives its connection: in whichever order it is
  attached and the connection shut down, afterwards no subscription is held and this one
  has been unsubscribed exactly once.\<close>

theorem presence_sub_released:
  assumes "cl_sub c = None" and "s \<notin> set (cl_unsubs c)"
    and "t \<in> {shutdown (setPresenceSub s c), setPresenceSub s (shutdown c)}"
  shows "cl_sub t = None \<and> count_list (cl_unsubs t) s = 1"
  using assms by (auto simp: shutdown_def setPresenceSub_def)

theorem presence_sub_released_witness:
  "count_list (cl_unsubs (setPresenceSub 9 (shutdown (new_client 7)))) 9 = 1"
  using presence_sub_released [of "new_client 7" 9] by (simp add: new_client_def)

text \<open>Also: An auth frame yields a token exactly when it is a well-formed frame of type
  \<open>auth\<close> in which exactly one of the three token fields is non-empty, and the token is then
  that field: an ambiguous frame is refused.\<close>

theorem parseAuthToken_unambiguous:
  "parseAuthToken frame = Inr tok \<longleftrightarrow>
     (\<exists>f. frame = Some f \<and> ae_type f = ''auth'' \<and>
        filter (\<lambda>t. t \<noteq> []) [ae_token f, ae_payload_access_token f, ae_payload_token f] = [tok])"
  by (auto simp: parseAuthToken_def split: option.splits if_splits)

text \<open>Also: With a configured allow-list, a request that carries an Origin header is accepted
  only if its trimmed origin, without a trailing slash, equals a configured origin trimmed
  the same way and parses with a scheme and a host; the opaque origin is always refused.\<close>

theorem isOriginAllowed_sound:
  assumes "isOriginAllowed url_parse allowed (Some (v # vs))" and "allowed \<noteq> []"
  shows "list_ex (\<lambda>a. trim_slash (trim_space a) = trim_slash (trim_space v)) allowed \<and>
    trim_slash (trim_space v) \<noteq> ''null'' \<and>
    (\<exists>scheme host. url_parse (trim_slash (trim_space v)) = Some (scheme, host) \<and>
       scheme \<noteq> [] \<and> host \<noteq> [])"
  using assms
  by (cases "url_parse (trim_slash (trim_space v))")
     (auto simp: isOriginAllowed_def Let_def list_ex_iff split: if_splits)

theorem isOriginAllowed_sound_witness:
  "list_ex (\<lambda>a. trim_slash (trim_space a) = trim_slash (trim_space '' https://iceq.space/''))
     [''https://iceq.space'']"
proof -
  have "isOriginAllowed (\<lambda>_. Some (''https'', ''iceq.space'')) [''https://iceq.space'']
      (Some ['' https://iceq.space/''])"
    by code_simp
  from isOriginAllowed_sound [OF this] show ?thesis by simp
qed

end
