(* ===== verification/MessageTTL.thy ===== *)
theory MessageTTL
  imports Prelude
begin

text \<open>
  Message retention, \<^verbatim>\<open>message-service/store/messagestore.go\<close> and the TTL helper of
  \<^verbatim>\<open>durable_ingest_scylla.go\<close>. Durations are nanoseconds; the product in
  \<open>effectiveMessageTTL\<close> is taken with \<open>int64\<close> wrap-around.
\<close>

definition defaultMessageTTL :: duration where "defaultMessageTTL = 24 * Hour"
definition maxMessageTTL :: duration where "maxMessageTTL = 7 * 24 * Hour"

definition effectiveMessageTTL :: "int \<Rightarrow> duration" where
  "effectiveMessageTTL requestedSeconds =
     (if requestedSeconds \<le> 0 then defaultMessageTTL
      else if requestedSeconds > go_div maxMessageTTL Second then maxMessageTTL
      else let requested = wrap64 (requestedSeconds * Second) in
           if requested > maxMessageTTL then maxMessageTTL else requested)"

definition expiryAt :: "gotime \<Rightarrow> duration \<Rightarrow> gotime" where
  "expiryAt created ttl = (if ttl \<le> 0 then zero_time else created + ttl)"

text \<open>\<open>math.Ceil\<close> of the remaining seconds.\<close>

definition remainingTTLSeconds :: "gotime \<Rightarrow> gotime \<Rightarrow> int" where
  "remainingTTLSeconds expiresAt now =
     (if is_zero expiresAt \<or> \<not> expiresAt > now then 0
      else (expiresAt - now + (Second - 1)) div Second)"

lemma effectiveMessageTTL_eq:
  "effectiveMessageTTL n =
     (if n \<le> 0 then defaultMessageTTL else if n > 604800 then maxMessageTTL else n * Second)"
proof -
  have w: "wrap64 (n * 1000000000) = n * 1000000000" if "0 < n" "n \<le> 604800"
    using that by (intro wrap64_id) (auto simp: is_int64_def int64_min_def int64_max_def)
  show ?thesis
    using w by (auto simp: effectiveMessageTTL_def maxMessageTTL_def duration_defs Let_def)
qed

lemma remainingTTL_pos_iff: "0 < remainingTTLSeconds e n \<longleftrightarrow> e \<noteq> 0 \<and> n < e"
  by (auto simp: remainingTTLSeconds_def is_zero_def zero_time_def duration_defs)

text \<open>Also: Whatever number of seconds a client asks for, the retention of a stored message is
  between one second and seven days, the default applies to every non-positive request, and
  the conversion to nanoseconds never overflows \<open>int64\<close>.\<close>

theorem effectiveMessageTTL_bounded:
  "Second \<le> effectiveMessageTTL n \<and> effectiveMessageTTL n \<le> maxMessageTTL \<and>
   is_int64 (effectiveMessageTTL n) \<and>
   (n \<le> 0 \<longrightarrow> effectiveMessageTTL n = defaultMessageTTL) \<and>
   (0 < n \<and> n * Second \<le> maxMessageTTL \<longrightarrow> effectiveMessageTTL n = n * Second)"
  by (auto simp: effectiveMessageTTL_eq defaultMessageTTL_def maxMessageTTL_def duration_defs
      is_int64_def int64_min_def int64_max_def)

theorem effectiveMessageTTL_bounded_witness:
  "effectiveMessageTTL 0 = 24 * Hour \<and> effectiveMessageTTL 60 = 60 * Second \<and>
   effectiveMessageTTL 9223372036854775807 \<le> 7 * 24 * Hour"
  using effectiveMessageTTL_bounded [of 0] effectiveMessageTTL_bounded [of 60]
    effectiveMessageTTL_bounded [of 9223372036854775807]
  by (simp add: defaultMessageTTL_def maxMessageTTL_def duration_defs)

text \<open>Also: The TTL written with a row that has not expired is positive, outlives the row's
  expiry, and by less than one second.\<close>

theorem remainingTTL_tight:
  assumes "expiresAt \<noteq> zero_time" and "now < expiresAt"
  shows "0 < remainingTTLSeconds expiresAt now \<and>
    expiresAt \<le> now + remainingTTLSeconds expiresAt now * Second \<and>
    now + remainingTTLSeconds expiresAt now * Second < expiresAt + Second"
proof -
  have "(d + 999999999) div 1000000000 * 1000000000 \<le> d + 999999999"
    and "d \<le> (d + 999999999) div 1000000000 * 1000000000" for d :: int
    using div_mult_mod_eq [of "d + 999999999" 1000000000]
      pos_mod_bound [of 1000000000 "d + 999999999"] pos_mod_sign [of 1000000000 "d + 999999999"]
    by linarith+
  from this [of "expiresAt - now"] show ?thesis
    using assms by (auto simp: remainingTTLSeconds_def is_zero_def duration_defs)
qed

theorem remainingTTL_tight_witness: "remainingTTLSeconds 2500000000 1000000000 = 2"
  using remainingTTL_tight [of 2500000000 1000000000]
  by (simp add: zero_time_def duration_defs)

end
