(* ===== verification/DurableIngest.thy ===== *)
theory DurableIngest
  imports MessageTTL
begin

text \<open>
  Durable message ingest: \<^verbatim>\<open>message-service/store/durable_ingest.go\<close> (the store that the
  handlers call), \<^verbatim>\<open>durable_ingest_scylla.go\<close> (its ScyllaDB backend and writers), and the
  statements by which a panic wipe rewrites ingest receipts
  (\<^verbatim>\<open>auth-service/handlers/scyllastore.go\<close>).

  The record \<open>scylla\<close> holds the tables the CQL statements name; each statement of the source
  is one function on it, and a lightweight transaction (\<open>IF ...\<close>) is atomic. A statement may
  fail, before or after taking effect; other workers may act between two statements of one
  call. Both are arguments of the model (the \<open>_io\<close> records). CQL timestamps keep
  milliseconds. SHA-256 is the parameter \<open>sha\<close>.
\<close>

section \<open>Data\<close>

type_synonym uuid = "8 word list"
type_synonym digest = "8 word list"

definition zero_uuid :: uuid where "zero_uuid = replicate 16 0"

datatype IngestState = IngestPending | IngestStored | IngestDelivered | IngestRecipientErased | IngestNull
datatype IngestKind = IngestKindDirect | IngestKindGroup
datatype ClaimDisposition = ClaimAcquired | ClaimBusy | ClaimCommitted | ClaimRecipientErased

datatype ingest_error = ErrIngestConflict | ErrIngestBusy | ErrIngestLeaseLost | ErrInvalidIngest
  | ErrIngestRecipientErased | ErrQuery string | ErrNotFound | ErrHashLength nat | ErrWriteExpired
  | ErrGroupWriterMissing

record IngestKey =
  SenderUIN :: uin
  ClientID :: string

record IngestRecord =
  ir_Key :: IngestKey
  ir_Kind :: IngestKind
  ir_ReceiverUIN :: uin
  ir_ConversationID :: string
  ir_GroupID :: uuid
  ir_CryptoEpoch :: int
  ir_RecipientUINs :: "uin list"
  ir_Envelope :: bytes
  ir_EnvelopeHash :: digest
  ir_MessageID :: uuid
  ir_CreatedAt :: gotime
  ir_ExpiresAt :: gotime
  ir_State :: IngestState
  ir_OwnerToken :: uuid
  ir_LeaseUntil :: gotime
  ir_StoredAt :: gotime
  ir_DeliveredAt :: gotime
  ir_ExpiresInSeconds :: int
  ir_RecipientSetSanitized :: bool

record SaveRequest =
  sv_ConversationID :: string
  sv_ID :: uuid
  sv_SenderUIN :: uin
  sv_ReceiverUIN :: uin
  sv_Ciphertext :: bytes
  sv_MsgType :: string
  sv_CreatedAt :: gotime
  sv_ExpiresInSeconds :: int

record SaveGroupRequest =
  sg_GroupID :: uuid
  sg_ID :: uuid
  sg_SenderUIN :: uin
  sg_CryptoEpoch :: int
  sg_Ciphertext :: bytes
  sg_MsgType :: string
  sg_CreatedAt :: gotime
  sg_ExpiresInSeconds :: int

record DurableDirectRequest =
  dq_SenderUIN :: uin
  dq_ClientID :: string
  dq_ReceiverUIN :: uin
  dq_ConversationID :: string
  dq_Envelope :: bytes
  dq_Ciphertext :: bytes
  dq_MsgType :: string
  dq_ExpiresInSeconds :: int

record DurableGroupRequest =
  gq_SenderUIN :: uin
  gq_ClientID :: string
  gq_GroupID :: uuid
  gq_CryptoEpoch :: int
  gq_RecipientUINs :: "uin list"
  gq_Envelope :: bytes
  gq_Ciphertext :: bytes
  gq_MsgType :: string
  gq_ExpiresInSeconds :: int

record DurableDirectWrite =
  dw_Key :: IngestKey
  dw_Envelope :: bytes
  dw_EnvelopeHash :: digest
  dw_ExpiresAt :: gotime
  dw_Message :: SaveRequest

record DurableGroupWrite =
  gw_Key :: IngestKey
  gw_Envelope :: bytes
  gw_EnvelopeHash :: digest
  gw_ExpiresAt :: gotime
  gw_RecipientUINs :: "uin list"
  gw_Message :: SaveGroupRequest

record DurableIngestResult =
  res_MessageID :: uuid
  res_CreatedAt :: gotime
  res_State :: IngestState
  res_Committed :: bool

definition empty_result :: DurableIngestResult where
  "empty_result = \<lparr>res_MessageID = zero_uuid, res_CreatedAt = zero_time,
     res_State = IngestNull, res_Committed = False\<rparr>"

section \<open>Tables\<close>

text \<open>
  A row of \<open>message_ingest\<close>: unset columns are the Go zero value they scan to, and
  \<open>r_hash\<close> is the raw column (empty when null). \<open>r_ttl\<close> is the TTL of the insert, if any.
\<close>

record ingest_row =
  r_kind :: IngestKind
  r_receiver :: uin
  r_conversation :: string
  r_group :: uuid
  r_epoch :: int
  r_recipients :: "uin list"
  r_envelope :: bytes
  r_hash :: "8 word list"
  r_message_id :: uuid
  r_created_at :: gotime
  r_expires_at :: gotime
  r_state :: IngestState
  r_owner :: uuid
  r_lease_until :: gotime
  r_stored_at :: gotime
  r_delivered_at :: gotime
  r_sanitized :: bool
  r_ttl :: "int option"

record message_row =
  m_sender :: uin
  m_receiver :: uin
  m_ciphertext :: bytes
  m_msg_type :: string
  m_expires_at :: gotime
  m_ttl :: "int option"

record group_message_row =
  gm_sender :: uin
  gm_epoch :: int
  gm_ciphertext :: bytes
  gm_msg_type :: string
  gm_expires_at :: gotime
  gm_ttl :: "int option"

record outbox_row =
  o_receiver :: uin
  o_group :: uuid
  o_sender :: uin
  o_client :: string
  o_conversation :: string
  o_epoch :: int
  o_recipients :: "uin list"
  o_envelope :: bytes
  o_hash :: digest
  o_expires_at :: gotime
  o_ttl :: "int option"

type_synonym outbox_key = "nat \<times> gotime \<times> uuid"

record scylla =
  message_ingest :: "IngestKey \<rightharpoonup> ingest_row"
  message_ingest_erasure_index :: "(uin \<times> IngestKey) set"
  messages :: "(string \<times> gotime \<times> uuid) \<rightharpoonup> message_row"
  message_deletion_index :: "(uin \<times> string \<times> gotime \<times> uuid) set"
  message_outbox :: "outbox_key \<rightharpoonup> outbox_row"
  message_outbox_erasure_index :: "(uin \<times> outbox_key) set"
  group_messages :: "(uuid \<times> gotime \<times> uuid) \<rightharpoonup> group_message_row"
  group_message_deletion_index :: "(uin \<times> uuid \<times> gotime \<times> uuid) set"
  group_message_outbox :: "outbox_key \<rightharpoonup> outbox_row"
  group_message_outbox_erasure_index :: "(uin \<times> outbox_key \<times> string) set"

definition empty_scylla :: scylla where
  "empty_scylla = \<lparr>message_ingest = Map.empty, message_ingest_erasure_index = {},
     messages = Map.empty, message_deletion_index = {}, message_outbox = Map.empty,
     message_outbox_erasure_index = {}, group_messages = Map.empty,
     group_message_deletion_index = {}, group_message_outbox = Map.empty,
     group_message_outbox_erasure_index = {}\<rparr>"

text \<open>A CQL timestamp has millisecond resolution.\<close>

definition cql_ts :: "gotime \<Rightarrow> gotime" where
  "cql_ts t = trunc_time t Millisecond"

section \<open>Identifiers\<close>

unbundle bit_operations_syntax

definition deterministicMessageID :: "(bytes \<Rightarrow> digest) \<Rightarrow> IngestKey \<Rightarrow> uuid" where
  "deterministicMessageID sha key =
     (let d = sha (''iceq:durable-message:v1:'' @ itoa (SenderUIN key) @ '':'' @ ClientID key);
          d = d[6 := (d ! 6 AND 0x0f) OR 0x50];
          d = d[8 := (d ! 8 AND 0x3f) OR 0x80]
      in take 16 d)"

definition outboxBucketCount :: nat where "outboxBucketCount = 16"

definition outboxBucket :: "uuid \<Rightarrow> nat" where
  "outboxBucket i = unat (hd i AND 15)"

definition recipientSnapshotCompatible :: "uin list \<Rightarrow> uin list \<Rightarrow> bool" where
  "recipientSnapshotCompatible current proposed \<longleftrightarrow> current = proposed"

definition erasureIndexUINs :: "IngestRecord \<Rightarrow> uin list" where
  "erasureIndexUINs rec =
     SenderUIN (ir_Key rec) #
     (case ir_Kind rec of
        IngestKindGroup \<Rightarrow> filter (\<lambda>u. u \<noteq> SenderUIN (ir_Key rec)) (ir_RecipientUINs rec)
      | IngestKindDirect \<Rightarrow>
          (if ir_ReceiverUIN rec \<noteq> 0 \<and> ir_ReceiverUIN rec \<noteq> SenderUIN (ir_Key rec)
           then [ir_ReceiverUIN rec] else []))"

section \<open>CQL statements on \<open>message_ingest\<close>\<close>

definition record_row :: "IngestRecord \<Rightarrow> ingest_row" where
  "record_row p = \<lparr>r_kind = ir_Kind p, r_receiver = ir_ReceiverUIN p,
     r_conversation = ir_ConversationID p, r_group = ir_GroupID p, r_epoch = ir_CryptoEpoch p,
     r_recipients = ir_RecipientUINs p, r_envelope = ir_Envelope p, r_hash = ir_EnvelopeHash p,
     r_message_id = ir_MessageID p, r_created_at = cql_ts (ir_CreatedAt p),
     r_expires_at = cql_ts (ir_ExpiresAt p), r_state = ir_State p, r_owner = ir_OwnerToken p,
     r_lease_until = cql_ts (ir_LeaseUntil p), r_stored_at = zero_time,
     r_delivered_at = zero_time, r_sanitized = False,
     r_ttl = (if ir_ExpiresInSeconds p > 0 then Some (ir_ExpiresInSeconds p) else None)\<rparr>"

text \<open>\<open>INSERT ... IF NOT EXISTS\<close>\<close>

definition cql_insert_ingest :: "IngestRecord \<Rightarrow> scylla \<Rightarrow> bool \<times> scylla" where
  "cql_insert_ingest p db =
     (case message_ingest db (ir_Key p) of
        Some _ \<Rightarrow> (False, db)
      | None \<Rightarrow> (True, db\<lparr>message_ingest := (message_ingest db)(ir_Key p \<mapsto> record_row p)\<rparr>))"

text \<open>\<open>UPDATE ... SET owner_token, lease_until ... IF state = 'pending' AND owner_token = ? AND lease_until = ?\<close>\<close>

definition cql_takeover ::
  "IngestKey \<Rightarrow> uuid \<Rightarrow> gotime \<Rightarrow> uuid \<Rightarrow> gotime \<Rightarrow> scylla \<Rightarrow> bool \<times> scylla" where
  "cql_takeover key newOwner newLease owner lease db =
     (case message_ingest db key of
        None \<Rightarrow> (False, db)
      | Some r \<Rightarrow>
          if r_state r = IngestPending \<and> r_owner r = owner \<and> r_lease_until r = cql_ts lease
          then (True, db\<lparr>message_ingest := (message_ingest db)(key \<mapsto>
                  r\<lparr>r_owner := newOwner, r_lease_until := cql_ts newLease\<rparr>)\<rparr>)
          else (False, db))"

text \<open>\<open>UPDATE ... SET state = 'stored', stored_at = ? ... IF state = 'pending' AND owner_token = ? AND lease_until = ?\<close>\<close>

definition cql_mark_stored ::
  "IngestKey \<Rightarrow> uuid \<Rightarrow> gotime \<Rightarrow> gotime \<Rightarrow> scylla \<Rightarrow> bool \<times> scylla" where
  "cql_mark_stored key owner lease now db =
     (case message_ingest db key of
        None \<Rightarrow> (False, db)
      | Some r \<Rightarrow>
          if r_state r = IngestPending \<and> r_owner r = owner \<and> r_lease_until r = cql_ts lease
          then (True, db\<lparr>message_ingest := (message_ingest db)(key \<mapsto>
                  r\<lparr>r_state := IngestStored, r_stored_at := cql_ts now\<rparr>)\<rparr>)
          else (False, db))"

text \<open>\<open>UPDATE ... SET state = 'delivered', delivered_at = ? ... IF state = 'stored' AND message_id = ?\<close>\<close>

definition cql_mark_delivered ::
  "IngestKey \<Rightarrow> uuid \<Rightarrow> gotime \<Rightarrow> scylla \<Rightarrow> bool \<times> scylla" where
  "cql_mark_delivered key msgid now db =
     (case message_ingest db key of
        None \<Rightarrow> (False, db)
      | Some r \<Rightarrow>
          if r_state r = IngestStored \<and> r_message_id r = msgid
          then (True, db\<lparr>message_ingest := (message_ingest db)(key \<mapsto>
                  r\<lparr>r_state := IngestDelivered, r_delivered_at := cql_ts now\<rparr>)\<rparr>)
          else (False, db))"

text \<open>\<open>ScyllaIngestBackend.load\<close>; \<open>bad\<close>: the query fails.\<close>

definition load :: "bool \<Rightarrow> IngestKey \<Rightarrow> scylla \<Rightarrow> ingest_error + IngestRecord" where
  "load bad key db =
     (if bad then Inl (ErrQuery ''load ingest'')
      else case message_ingest db key of
        None \<Rightarrow> Inl ErrNotFound
      | Some r \<Rightarrow>
          if length (r_hash r) \<noteq> 32 then Inl (ErrHashLength (length (r_hash r)))
          else Inr \<lparr>ir_Key = key, ir_Kind = r_kind r, ir_ReceiverUIN = r_receiver r,
            ir_ConversationID = r_conversation r, ir_GroupID = r_group r,
            ir_CryptoEpoch = r_epoch r, ir_RecipientUINs = r_recipients r,
            ir_Envelope = r_envelope r, ir_EnvelopeHash = r_hash r,
            ir_MessageID = r_message_id r, ir_CreatedAt = r_created_at r,
            ir_ExpiresAt = r_expires_at r, ir_State = r_state r, ir_OwnerToken = r_owner r,
            ir_LeaseUntil = r_lease_until r, ir_StoredAt = r_stored_at r,
            ir_DeliveredAt = r_delivered_at r,
            ir_ExpiresInSeconds = (if is_zero (r_expires_at r) then 0
              else go_div (r_expires_at r - r_created_at r) Second),
            ir_RecipientSetSanitized = r_sanitized r\<rparr>)"

section \<open>\<open>Claim\<close>\<close>

text \<open>What the statements of one \<open>Claim\<close> call meet: the outcome of each, and what other workers
  do before the load, the takeover and the reload (\<open>cq_env 0\<close>, \<open>1\<close>, \<open>2\<close>).\<close>

record claim_io =
  cq_insert :: outcome
  cq_index :: "nat \<Rightarrow> outcome"
  cq_load :: bool
  cq_takeover :: outcome
  cq_reload :: bool
  cq_env :: "nat \<Rightarrow> scylla \<Rightarrow> scylla"

text \<open>The loop that writes the erasure index, one statement per UIN.\<close>

fun claim_index :: "(nat \<Rightarrow> outcome) \<Rightarrow> nat \<Rightarrow> IngestKey \<Rightarrow> uin list \<Rightarrow> scylla \<Rightarrow> bool \<times> scylla" where
  "claim_index out i key [] db = (True, db)"
| "claim_index out i key (u # us) db =
     (let db' = (if took_effect (out i)
                 then db\<lparr>message_ingest_erasure_index := insert (u, key) (message_ingest_erasure_index db)\<rparr>
                 else db)
      in if failed (out i) then (False, db') else claim_index out (Suc i) key us db')"

definition same_request :: "IngestRecord \<Rightarrow> IngestRecord \<Rightarrow> bool" where
  "same_request current proposed \<longleftrightarrow>
     ir_EnvelopeHash current = ir_EnvelopeHash proposed \<and> ir_Kind current = ir_Kind proposed \<and>
     ir_ReceiverUIN current = ir_ReceiverUIN proposed \<and>
     ir_ConversationID current = ir_ConversationID proposed \<and>
     ir_GroupID current = ir_GroupID proposed \<and> ir_CryptoEpoch current = ir_CryptoEpoch proposed \<and>
     (ir_RecipientSetSanitized current \<or>
      recipientSnapshotCompatible (ir_RecipientUINs current) (ir_RecipientUINs proposed))"

text \<open>The part of \<open>Claim\<close> after the row that already exists has been loaded.\<close>

definition claim_existing ::
  "claim_io \<Rightarrow> IngestRecord \<Rightarrow> gotime \<Rightarrow> IngestRecord \<Rightarrow> scylla \<Rightarrow>
    (ingest_error + IngestRecord \<times> ClaimDisposition) \<times> scylla" where
  "claim_existing io proposed now current db =
     (if ir_State current = IngestRecipientErased then (Inr (current, ClaimRecipientErased), db)
      else if \<not> same_request current proposed then (Inl ErrIngestConflict, db)
      else if ir_State current = IngestStored \<or> ir_State current = IngestDelivered
      then (Inr (current, ClaimCommitted), db)
      else if \<not> is_zero (ir_ExpiresAt current) \<and> \<not> ir_ExpiresAt current > now
      then (Inr (current, ClaimBusy), db)
      else if ir_State current \<noteq> IngestPending \<or> ir_LeaseUntil current > now
      then (Inr (current, ClaimBusy), db)
      else
        let db1 = cq_env io 1 db;
            (applied, db2) = cql_takeover (ir_Key proposed) (ir_OwnerToken proposed)
               (ir_LeaseUntil proposed) (ir_OwnerToken current) (ir_LeaseUntil current) db1
        in if failed (cq_takeover io)
           then (Inl (ErrQuery ''take over ingest''), if took_effect (cq_takeover io) then db2 else db1)
           else if \<not> applied then
             let db3 = cq_env io 2 db2 in
             (case load (cq_reload io) (ir_Key proposed) db3 of
                Inl e \<Rightarrow> (Inl e, db3)
              | Inr latest \<Rightarrow> (Inr (latest, ClaimBusy), db3))
           else (Inr (current\<lparr>ir_OwnerToken := ir_OwnerToken proposed,
                        ir_LeaseUntil := ir_LeaseUntil proposed\<rparr>, ClaimAcquired), db2))"

definition Claim ::
  "claim_io \<Rightarrow> IngestRecord \<Rightarrow> gotime \<Rightarrow> scylla \<Rightarrow>
    (ingest_error + IngestRecord \<times> ClaimDisposition) \<times> scylla" where
  "Claim io proposed now db =
     (let (applied, db1) = cql_insert_ingest proposed db in
      if failed (cq_insert io)
      then (Inl (ErrQuery ''claim ingest''), if took_effect (cq_insert io) then db1 else db)
      else if applied then
        (case claim_index (cq_index io) 0 (ir_Key proposed) (erasureIndexUINs proposed) db1 of
           (True, db2) \<Rightarrow> (Inr (proposed, ClaimAcquired), db2)
         | (False, db2) \<Rightarrow> (Inl (ErrQuery ''write ingest erasure index''), db2))
      else
        let db2 = cq_env io 0 db1 in
        (case load (cq_load io) (ir_Key proposed) db2 of
           Inl e \<Rightarrow> (Inl e, db2)
         | Inr current \<Rightarrow> claim_existing io proposed now current db2))"

section \<open>\<open>MarkStored\<close> and \<open>MarkDelivered\<close>\<close>

record mark_io =
  mq_load :: bool
  mq_update :: outcome
  mq_delete :: outcome
  mq_env :: "scylla \<Rightarrow> scylla"

definition MarkStored ::
  "mark_io \<Rightarrow> IngestKey \<Rightarrow> uuid \<Rightarrow> gotime \<Rightarrow> gotime \<Rightarrow> scylla \<Rightarrow> (ingest_error + bool) \<times> scylla" where
  "MarkStored io key owner leaseUntil now db =
     (case load (mq_load io) key db of
        Inl e \<Rightarrow> (Inl e, db)
      | Inr rec \<Rightarrow>
          if ir_State rec \<noteq> IngestPending \<or> ir_OwnerToken rec \<noteq> owner \<or>
             ir_LeaseUntil rec \<noteq> leaseUntil \<or> \<not> leaseUntil > now \<or>
             (\<not> is_zero (ir_ExpiresAt rec) \<and> \<not> ir_ExpiresAt rec > now)
          then (Inr False, db)
          else
            let db1 = mq_env io db;
                (applied, db2) = cql_mark_stored key owner leaseUntil now db1
            in if failed (mq_update io)
               then (Inl (ErrQuery ''mark stored CAS''), if took_effect (mq_update io) then db2 else db1)
               else (Inr applied, db2))"

definition deleteOutbox :: "outcome \<Rightarrow> IngestRecord \<Rightarrow> scylla \<Rightarrow> ingest_error option \<times> scylla" where
  "deleteOutbox out rec db =
     (let k = (outboxBucket (ir_MessageID rec), cql_ts (ir_CreatedAt rec), ir_MessageID rec);
          db' = (case ir_Kind rec of
              IngestKindGroup \<Rightarrow> db\<lparr>group_message_outbox := (group_message_outbox db)(k := None)\<rparr>
            | IngestKindDirect \<Rightarrow> db\<lparr>message_outbox := (message_outbox db)(k := None)\<rparr>)
      in (if failed out then Some (ErrQuery ''delete delivered outbox row'') else None,
          if took_effect out then db' else db))"

definition backend_MarkDelivered ::
  "mark_io \<Rightarrow> gotime \<Rightarrow> IngestKey \<Rightarrow> uuid \<Rightarrow> scylla \<Rightarrow> (ingest_error + bool) \<times> scylla" where
  "backend_MarkDelivered io now key messageID db =
     (case load (mq_load io) key db of
        Inl e \<Rightarrow> (Inl e, db)
      | Inr rec \<Rightarrow>
          if ir_MessageID rec \<noteq> messageID \<or> ir_State rec = IngestDelivered then
            (if ir_MessageID rec \<noteq> messageID \<or> ir_State rec \<noteq> IngestDelivered then (Inr False, db)
             else case deleteOutbox (mq_delete io) rec db of
                    (Some e, db') \<Rightarrow> (Inl e, db')
                  | (None, db') \<Rightarrow> (Inr True, db'))
          else if \<not> is_zero (ir_ExpiresAt rec) \<and> \<not> ir_ExpiresAt rec > now then (Inr False, db)
          else
            let db1 = mq_env io db;
                (applied, db2) = cql_mark_delivered key messageID now db1
            in if failed (mq_update io)
               then (Inl (ErrQuery ''mark delivered CAS''), if took_effect (mq_update io) then db2 else db1)
               else if \<not> applied then (Inr False, db2)
               else case deleteOutbox (mq_delete io) rec db2 of
                      (Some e, db') \<Rightarrow> (Inl e, db')
                    | (None, db') \<Rightarrow> (Inr True, db'))"

section \<open>Writers\<close>

definition out_key :: "uuid \<Rightarrow> gotime \<Rightarrow> outbox_key" where
  "out_key i created = (outboxBucket i, cql_ts created, i)"

text \<open>The logged batch of \<open>WriteDirect\<close>: message, deletion index, outbox row and outbox erasure
  index, for the sender and (when different) the receiver. \<open>ttl\<close> is the \<open>USING TTL\<close> clause.\<close>

definition direct_batch :: "int option \<Rightarrow> DurableDirectWrite \<Rightarrow> scylla \<Rightarrow> scylla" where
  "direct_batch ttl wr db =
     (let req = dw_Message wr;
          created = cql_ts (sv_CreatedAt req);
          uins = (if sv_ReceiverUIN req \<noteq> sv_SenderUIN req
                  then {sv_SenderUIN req, sv_ReceiverUIN req} else {sv_SenderUIN req});
          expires = (case ttl of None \<Rightarrow> zero_time | Some _ \<Rightarrow> cql_ts (dw_ExpiresAt wr))
      in db\<lparr>messages := (messages db)((sv_ConversationID req, created, sv_ID req) \<mapsto>
               \<lparr>m_sender = sv_SenderUIN req, m_receiver = sv_ReceiverUIN req,
                m_ciphertext = sv_Ciphertext req, m_msg_type = sv_MsgType req,
                m_expires_at = expires, m_ttl = ttl\<rparr>),
            message_deletion_index := message_deletion_index db \<union>
               (\<lambda>u. (u, sv_ConversationID req, created, sv_ID req)) ` uins,
            message_outbox := (message_outbox db)(out_key (sv_ID req) (sv_CreatedAt req) \<mapsto>
               \<lparr>o_receiver = sv_ReceiverUIN req, o_group = zero_uuid, o_sender = sv_SenderUIN req,
                o_client = ClientID (dw_Key wr), o_conversation = sv_ConversationID req,
                o_epoch = 0, o_recipients = [], o_envelope = dw_Envelope wr,
                o_hash = dw_EnvelopeHash wr, o_expires_at = expires, o_ttl = ttl\<rparr>),
            message_outbox_erasure_index := message_outbox_erasure_index db \<union>
               (\<lambda>u. (u, out_key (sv_ID req) (sv_CreatedAt req))) ` uins\<rparr>)"

definition WriteDirect ::
  "outcome \<Rightarrow> gotime \<Rightarrow> DurableDirectWrite \<Rightarrow> scylla \<Rightarrow> ingest_error option \<times> scylla" where
  "WriteDirect out now wr db =
     (let ttl = effectiveMessageTTL (sv_ExpiresInSeconds (dw_Message wr));
          seconds = remainingTTLSeconds (dw_ExpiresAt wr) now
      in if ttl > 0 \<and> seconds \<le> 0 then (Some ErrWriteExpired, db)
         else let db' = direct_batch (if ttl > 0 then Some seconds else None) wr db in
           (if failed out then Some (ErrQuery ''execute durable direct batch'') else None,
            if took_effect out then db' else db))"

definition group_batch :: "int option \<Rightarrow> DurableGroupWrite \<Rightarrow> scylla \<Rightarrow> scylla" where
  "group_batch ttl wr db =
     (let req = gw_Message wr;
          created = cql_ts (sg_CreatedAt req);
          expires = (case ttl of None \<Rightarrow> zero_time | Some _ \<Rightarrow> cql_ts (gw_ExpiresAt wr));
          k = out_key (sg_ID req) (sg_CreatedAt req)
      in db\<lparr>group_messages := (group_messages db)((sg_GroupID req, created, sg_ID req) \<mapsto>
               \<lparr>gm_sender = sg_SenderUIN req, gm_epoch = sg_CryptoEpoch req,
                gm_ciphertext = sg_Ciphertext req, gm_msg_type = sg_MsgType req,
                gm_expires_at = expires, gm_ttl = ttl\<rparr>),
            group_message_deletion_index := insert (sg_SenderUIN req, sg_GroupID req, created, sg_ID req)
               (group_message_deletion_index db),
            group_message_outbox := (group_message_outbox db)(k \<mapsto>
               \<lparr>o_receiver = 0, o_group = sg_GroupID req, o_sender = sg_SenderUIN req,
                o_client = ClientID (gw_Key wr), o_conversation = [],
                o_epoch = sg_CryptoEpoch req, o_recipients = gw_RecipientUINs wr,
                o_envelope = gw_Envelope wr, o_hash = gw_EnvelopeHash wr,
                o_expires_at = expires, o_ttl = ttl\<rparr>),
            group_message_outbox_erasure_index := group_message_outbox_erasure_index db \<union>
               insert (sg_SenderUIN req, k, ''sender'')
                 ((\<lambda>u. (u, k, ''recipient'')) `
                    set (filter (\<lambda>u. u \<noteq> sg_SenderUIN req) (gw_RecipientUINs wr)))\<rparr>)"

text \<open>
  \<open>WriteGroup\<close> reads the clock once for the message and outbox rows (and once more for each
  index row, an interval the model takes to be within the same second).
\<close>

definition WriteGroup ::
  "outcome \<Rightarrow> gotime \<Rightarrow> DurableGroupWrite \<Rightarrow> scylla \<Rightarrow> ingest_error option \<times> scylla" where
  "WriteGroup out now wr db =
     (let req = gw_Message wr;
          seconds = remainingTTLSeconds (gw_ExpiresAt wr) now
      in if sg_ExpiresInSeconds req > 0 \<and> seconds \<le> 0 then (Some ErrWriteExpired, db)
         else let db' = group_batch (if sg_ExpiresInSeconds req > 0 then Some seconds else None) wr db in
           (if failed out then Some (ErrQuery ''execute durable group batch'') else None,
            if took_effect out then db' else db))"

section \<open>\<open>PersistDirect\<close> and \<open>PersistGroup\<close>\<close>

definition newIngestRecord ::
  "(bytes \<Rightarrow> digest) \<Rightarrow> IngestKey \<Rightarrow> bytes \<Rightarrow> digest \<Rightarrow> gotime \<Rightarrow> duration \<Rightarrow> uuid \<Rightarrow> IngestRecord" where
  "newIngestRecord sha key envelope hash now lease owner =
     (let created = trunc_time now Millisecond in
      \<lparr>ir_Key = key, ir_Kind = IngestKindDirect, ir_ReceiverUIN = 0, ir_ConversationID = [],
       ir_GroupID = zero_uuid, ir_CryptoEpoch = 0, ir_RecipientUINs = [], ir_Envelope = envelope,
       ir_EnvelopeHash = hash, ir_MessageID = deterministicMessageID sha key,
       ir_CreatedAt = created, ir_ExpiresAt = zero_time, ir_State = IngestPending,
       ir_OwnerToken = owner, ir_LeaseUntil = created + lease, ir_StoredAt = zero_time,
       ir_DeliveredAt = zero_time, ir_ExpiresInSeconds = 0, ir_RecipientSetSanitized = False\<rparr>)"

definition with_expiry :: "int \<Rightarrow> IngestRecord \<Rightarrow> IngestRecord" where
  "with_expiry seconds p =
     (let ttl = effectiveMessageTTL seconds;
          p = p\<lparr>ir_ExpiresInSeconds := seconds\<rparr>
      in if ttl > 0 then
           let e = ir_CreatedAt p + ttl in
           p\<lparr>ir_ExpiresAt := e,
             ir_LeaseUntil := (if ir_LeaseUntil p > e then e else ir_LeaseUntil p)\<rparr>
         else p)"

text \<open>One call: clock readings, the fresh owner token, the fate of each statement, and what
  other workers do before the batch and before the final compare-and-set.\<close>

record persist_io =
  pq_now :: gotime
  pq_owner :: uuid
  pq_claim :: claim_io
  pq_write :: outcome
  pq_write_now :: gotime
  pq_mark :: mark_io
  pq_mark_now :: gotime
  pq_env_write :: "scylla \<Rightarrow> scylla"
  pq_env_mark :: "scylla \<Rightarrow> scylla"

definition result_of :: "IngestRecord \<Rightarrow> DurableIngestResult" where
  "result_of rec = \<lparr>res_MessageID = ir_MessageID rec, res_CreatedAt = ir_CreatedAt rec,
     res_State = ir_State rec, res_Committed = False\<rparr>"

text \<open>The tail both calls share: the final compare-and-set after the batch was written.\<close>

definition finish_persist ::
  "persist_io \<Rightarrow> IngestRecord \<Rightarrow> scylla \<Rightarrow> (DurableIngestResult \<times> ingest_error option) \<times> scylla" where
  "finish_persist io rec db =
     (case MarkStored (pq_mark io) (ir_Key rec) (ir_OwnerToken rec) (ir_LeaseUntil rec)
             (pq_mark_now io) (pq_env_mark io db) of
        (Inl e, db') \<Rightarrow> ((result_of rec, Some e), db')
      | (Inr False, db') \<Rightarrow> ((result_of rec, Some ErrIngestLeaseLost), db')
      | (Inr True, db') \<Rightarrow>
          (((result_of rec)\<lparr>res_State := IngestStored, res_Committed := True\<rparr>, None), db'))"

definition direct_write :: "DurableDirectRequest \<Rightarrow> IngestRecord \<Rightarrow> DurableDirectWrite" where
  "direct_write req rec =
     \<lparr>dw_Key = ir_Key rec, dw_Envelope = ir_Envelope rec, dw_EnvelopeHash = ir_EnvelopeHash rec,
      dw_ExpiresAt = ir_ExpiresAt rec,
      dw_Message = \<lparr>sv_ConversationID = dq_ConversationID req, sv_ID = ir_MessageID rec,
        sv_SenderUIN = dq_SenderUIN req, sv_ReceiverUIN = dq_ReceiverUIN req,
        sv_Ciphertext = dq_Ciphertext req, sv_MsgType = dq_MsgType req,
        sv_CreatedAt = ir_CreatedAt rec, sv_ExpiresInSeconds = dq_ExpiresInSeconds req\<rparr>\<rparr>"

definition valid_direct :: "DurableDirectRequest \<Rightarrow> bool" where
  "valid_direct req \<longleftrightarrow> \<not> (dq_SenderUIN req \<le> 0 \<or> dq_ReceiverUIN req \<le> 0 \<or> dq_ClientID req = [] \<or>
     dq_ConversationID req = [] \<or> length (dq_Envelope req) = 0 \<or> length (dq_Ciphertext req) = 0 \<or>
     dq_ExpiresInSeconds req < 0)"

definition direct_proposal ::
  "(bytes \<Rightarrow> digest) \<Rightarrow> duration \<Rightarrow> persist_io \<Rightarrow> DurableDirectRequest \<Rightarrow> IngestRecord" where
  "direct_proposal sha lease io req =
     with_expiry (dq_ExpiresInSeconds req)
       ((newIngestRecord sha \<lparr>SenderUIN = dq_SenderUIN req, ClientID = dq_ClientID req\<rparr>
          (dq_Envelope req) (sha (dq_Envelope req)) (pq_now io) lease (pq_owner io))
        \<lparr>ir_ReceiverUIN := dq_ReceiverUIN req, ir_ConversationID := dq_ConversationID req,
         ir_Kind := IngestKindDirect\<rparr>)"

definition PersistDirect ::
  "(bytes \<Rightarrow> digest) \<Rightarrow> duration \<Rightarrow> persist_io \<Rightarrow> DurableDirectRequest \<Rightarrow> scylla \<Rightarrow>
    (DurableIngestResult \<times> ingest_error option) \<times> scylla" where
  "PersistDirect sha lease io req db =
     (if \<not> valid_direct req then ((empty_result, Some ErrInvalidIngest), db)
      else
        case Claim (pq_claim io) (direct_proposal sha lease io req) (pq_now io) db of
          (Inl e, db1) \<Rightarrow> ((empty_result, Some e), db1)
        | (Inr (rec, disposition), db1) \<Rightarrow>
            (case disposition of
               ClaimCommitted \<Rightarrow> (((result_of rec)\<lparr>res_Committed := True\<rparr>, None), db1)
             | ClaimBusy \<Rightarrow> ((result_of rec, Some ErrIngestBusy), db1)
             | ClaimRecipientErased \<Rightarrow>
                 (((result_of rec)\<lparr>res_State := IngestRecipientErased\<rparr>, Some ErrIngestRecipientErased), db1)
             | ClaimAcquired \<Rightarrow>
                 (case WriteDirect (pq_write io) (pq_write_now io) (direct_write req rec)
                         (pq_env_write io db1) of
                    (Some e, db2) \<Rightarrow> ((result_of rec, Some e), db2)
                  | (None, db2) \<Rightarrow> finish_persist io rec db2)))"

definition group_write :: "DurableGroupRequest \<Rightarrow> IngestRecord \<Rightarrow> DurableGroupWrite" where
  "group_write req rec =
     \<lparr>gw_Key = ir_Key rec, gw_Envelope = ir_Envelope rec, gw_EnvelopeHash = ir_EnvelopeHash rec,
      gw_ExpiresAt = ir_ExpiresAt rec, gw_RecipientUINs = ir_RecipientUINs rec,
      gw_Message = \<lparr>sg_GroupID = ir_GroupID rec, sg_ID = ir_MessageID rec,
        sg_SenderUIN = gq_SenderUIN req, sg_CryptoEpoch = ir_CryptoEpoch rec,
        sg_Ciphertext = gq_Ciphertext req, sg_MsgType = gq_MsgType req,
        sg_CreatedAt = ir_CreatedAt rec, sg_ExpiresInSeconds = gq_ExpiresInSeconds req\<rparr>\<rparr>"

definition valid_group :: "DurableGroupRequest \<Rightarrow> bool" where
  "valid_group req \<longleftrightarrow> \<not> (gq_SenderUIN req \<le> 0 \<or> gq_ClientID req = [] \<or> gq_GroupID req = zero_uuid \<or>
     length (gq_RecipientUINs req) = 0 \<or> length (gq_Envelope req) = 0 \<or>
     length (gq_Ciphertext req) = 0 \<or> gq_MsgType req = [] \<or> gq_CryptoEpoch req \<le> 0 \<or>
     gq_ExpiresInSeconds req < 0) \<and> \<not> list_ex (\<lambda>u. u \<le> 0) (gq_RecipientUINs req)"

definition group_proposal ::
  "(bytes \<Rightarrow> digest) \<Rightarrow> duration \<Rightarrow> persist_io \<Rightarrow> DurableGroupRequest \<Rightarrow> IngestRecord" where
  "group_proposal sha lease io req =
     with_expiry (gq_ExpiresInSeconds req)
       ((newIngestRecord sha \<lparr>SenderUIN = gq_SenderUIN req, ClientID = gq_ClientID req\<rparr>
          (gq_Envelope req) (sha (gq_Envelope req)) (pq_now io) lease (pq_owner io))
        \<lparr>ir_Kind := IngestKindGroup, ir_GroupID := gq_GroupID req,
         ir_CryptoEpoch := gq_CryptoEpoch req, ir_RecipientUINs := gq_RecipientUINs req\<rparr>)"

text \<open>\<open>configured\<close>: whether a group writer was wired in.\<close>

definition PersistGroup ::
  "bool \<Rightarrow> (bytes \<Rightarrow> digest) \<Rightarrow> duration \<Rightarrow> persist_io \<Rightarrow> DurableGroupRequest \<Rightarrow> scylla \<Rightarrow>
    (DurableIngestResult \<times> ingest_error option) \<times> scylla" where
  "PersistGroup configured sha lease io req db =
     (if \<not> configured then ((empty_result, Some ErrGroupWriterMissing), db)
      else if \<not> valid_group req then ((empty_result, Some ErrInvalidIngest), db)
      else
        case Claim (pq_claim io) (group_proposal sha lease io req) (pq_now io) db of
          (Inl e, db1) \<Rightarrow> ((empty_result, Some e), db1)
        | (Inr (rec, disposition), db1) \<Rightarrow>
            (case disposition of
               ClaimCommitted \<Rightarrow> (((result_of rec)\<lparr>res_Committed := True\<rparr>, None), db1)
             | ClaimBusy \<Rightarrow> ((result_of rec, Some ErrIngestBusy), db1)
             | ClaimRecipientErased \<Rightarrow>
                 (((result_of rec)\<lparr>res_State := IngestRecipientErased\<rparr>, Some ErrIngestRecipientErased), db1)
             | ClaimAcquired \<Rightarrow>
                 (case WriteGroup (pq_write io) (pq_write_now io) (group_write req rec)
                         (pq_env_write io db1) of
                    (Some e, db2) \<Rightarrow> ((result_of rec, Some e), db2)
                  | (None, db2) \<Rightarrow> finish_persist io rec db2)))"

definition MarkDelivered ::
  "mark_io \<Rightarrow> gotime \<Rightarrow> IngestKey \<Rightarrow> uuid \<Rightarrow> scylla \<Rightarrow> ingest_error option \<times> scylla" where
  "MarkDelivered io now key messageID db =
     (case backend_MarkDelivered io now key messageID db of
        (Inl e, db') \<Rightarrow> (Some e, db')
      | (Inr False, db') \<Rightarrow> (Some ErrIngestConflict, db')
      | (Inr True, db') \<Rightarrow> (None, db'))"

section \<open>Receipt sanitization by a panic wipe\<close>

definition tombstone :: "ingest_row \<Rightarrow> ingest_row" where
  "tombstone r = r\<lparr>r_state := IngestRecipientErased, r_receiver := 0, r_conversation := [],
     r_recipients := [], r_envelope := [], r_hash := [], r_sanitized := True\<rparr>"

text \<open>\<open>UPDATE message_ingest SET state = 'recipient_erased', ... = NULL ... IF EXISTS\<close>\<close>

definition terminalizeIngestReceipt :: "outcome \<Rightarrow> IngestKey \<Rightarrow> scylla \<Rightarrow> bool \<times> scylla" where
  "terminalizeIngestReceipt out key db =
     (let db' = (case message_ingest db key of
          None \<Rightarrow> db
        | Some r \<Rightarrow> db\<lparr>message_ingest := (message_ingest db)(key \<mapsto> tombstone r)\<rparr>)
      in (\<not> failed out, if took_effect out then db' else db))"

text \<open>One compare-and-set attempt; \<open>Inr applied\<close> or a query error.\<close>

definition sanitizeGroupIngestRecipients ::
  "outcome \<Rightarrow> IngestKey \<Rightarrow> uin \<Rightarrow> uin list \<Rightarrow> scylla \<Rightarrow> (ingest_error + bool) \<times> scylla" where
  "sanitizeGroupIngestRecipients out key wiped previous db =
     (let filtered = filter (\<lambda>r. r \<noteq> wiped) previous in
      if \<not> list_ex (\<lambda>r. r = wiped) previous then (Inr True, db)
      else
        let (applied, db') =
          (case message_ingest db key of
             None \<Rightarrow> (False, db)
           | Some r \<Rightarrow>
               if r_recipients r = previous then
                 (True, db\<lparr>message_ingest := (message_ingest db)(key \<mapsto>
                    (if filtered = [] then tombstone r
                     else r\<lparr>r_recipients := filtered, r_sanitized := True\<rparr>))\<rparr>)
               else (False, db))
        in (if failed out then Inl (ErrQuery ''sanitize group recipient_uins CAS'') else Inr applied,
            if took_effect out then db' else db))"

end
