(* ===== verification/IngestProtocol.thy ===== *)
theory IngestProtocol
  imports DurableIngest
begin

text \<open>
  The ingest receipt of one message as a state machine, shared by every worker of the
  message service and by the panic-wipe worker. \<open>row_live\<close> lists what the statements of the
  code can do to one existing or absent row, \<open>row_step\<close> adds its removal (TTL expiry, wipe of
  the sender). Each call of the code moves every row along these steps whatever its
  statements meet and whatever other workers do in between, as long as they do the same.
\<close>

section \<open>Transitions of one receipt\<close>

inductive row_live :: "(bytes \<Rightarrow> digest) \<Rightarrow> IngestKey \<Rightarrow> ingest_row option \<Rightarrow> ingest_row option \<Rightarrow> bool"
  for sha key where
  live_insert: "\<lbrakk>ir_Key p = key; ir_State p = IngestPending;
      ir_MessageID p = deterministicMessageID sha key; length (ir_EnvelopeHash p) = 32;
      \<not> ir_RecipientSetSanitized p\<rbrakk>
    \<Longrightarrow> row_live sha key None (Some (record_row p))"
| live_takeover: "r_state r = IngestPending \<Longrightarrow>
    row_live sha key (Some r) (Some (r\<lparr>r_owner := own, r_lease_until := lease\<rparr>))"
| live_store: "r_state r = IngestPending \<Longrightarrow>
    row_live sha key (Some r) (Some (r\<lparr>r_state := IngestStored, r_stored_at := t\<rparr>))"
| live_deliver: "r_state r = IngestStored \<Longrightarrow>
    row_live sha key (Some r) (Some (r\<lparr>r_state := IngestDelivered, r_delivered_at := t\<rparr>))"
| live_erase: "row_live sha key (Some r) (Some (tombstone r))"
| live_sanitize: "row_live sha key (Some r)
    (Some (r\<lparr>r_recipients := filter (\<lambda>x. x \<noteq> u) (r_recipients r), r_sanitized := True\<rparr>))"

inductive row_step :: "(bytes \<Rightarrow> digest) \<Rightarrow> IngestKey \<Rightarrow> ingest_row option \<Rightarrow> ingest_row option \<Rightarrow> bool"
  for sha key where
  step_live: "row_live sha key x y \<Longrightarrow> row_step sha key x y"
| step_remove: "row_step sha key (Some r) None"

inductive_cases row_liveE: "row_live sha key x y"
inductive_cases row_stepE: "row_step sha key x y"

definition live_evolves :: "(bytes \<Rightarrow> digest) \<Rightarrow> scylla \<Rightarrow> scylla \<Rightarrow> bool" where
  "live_evolves sha db db' \<longleftrightarrow>
     (\<forall>key. (row_live sha key)\<^sup>*\<^sup>* (message_ingest db key) (message_ingest db' key))"

definition evolves :: "(bytes \<Rightarrow> digest) \<Rightarrow> scylla \<Rightarrow> scylla \<Rightarrow> bool" where
  "evolves sha db db' \<longleftrightarrow>
     (\<forall>key. (row_step sha key)\<^sup>*\<^sup>* (message_ingest db key) (message_ingest db' key))"

lemma evolves_refl [simp]: "evolves sha db db" "live_evolves sha db db"
  by (simp_all add: evolves_def live_evolves_def)

lemma evolves_trans [trans]: "evolves sha a b \<Longrightarrow> evolves sha b c \<Longrightarrow> evolves sha a c"
  unfolding evolves_def by (meson rtranclp_trans)

lemma live_evolves_trans [trans]: "live_evolves sha a b \<Longrightarrow> live_evolves sha b c \<Longrightarrow> live_evolves sha a c"
  unfolding live_evolves_def by (meson rtranclp_trans)

lemma live_evolves_evolves: "live_evolves sha a b \<Longrightarrow> evolves sha a b"
  unfolding live_evolves_def evolves_def
  by (meson mono_rtranclp step_live)

lemma live_evolves_same: "message_ingest db' = message_ingest db \<Longrightarrow> live_evolves sha db db'"
  by (simp add: live_evolves_def)

lemma live_evolves_row:
  assumes "row_live sha key (message_ingest db key) x"
  shows "live_evolves sha db (db\<lparr>message_ingest := (message_ingest db)(key := x)\<rparr>)"
  using assms by (auto simp: live_evolves_def)

section \<open>What the statements of a call may meet\<close>

text \<open>\<open>rel\<close> is the rely: how the other workers may change the tables.\<close>

definition claim_rely :: "(scylla \<Rightarrow> scylla \<Rightarrow> bool) \<Rightarrow> claim_io \<Rightarrow> bool" where
  "claim_rely rel io \<longleftrightarrow> (\<forall>i db. rel db (cq_env io i db))"

definition persist_rely :: "(scylla \<Rightarrow> scylla \<Rightarrow> bool) \<Rightarrow> persist_io \<Rightarrow> bool" where
  "persist_rely rel io \<longleftrightarrow> claim_rely rel (pq_claim io) \<and>
     (\<forall>db. rel db (mq_env (pq_mark io) db)) \<and> (\<forall>db. rel db (pq_env_write io db)) \<and>
     (\<forall>db. rel db (pq_env_mark io db))"

text \<open>A call no statement of which fails and that runs undisturbed.\<close>

definition calm_claim :: "claim_io \<Rightarrow> bool" where
  "calm_claim io \<longleftrightarrow> cq_insert io = Done \<and> (\<forall>i. cq_index io i = Done) \<and> \<not> cq_load io \<and>
     cq_takeover io = Done \<and> \<not> cq_reload io \<and> (\<forall>i. cq_env io i = id)"

definition calm :: "persist_io \<Rightarrow> bool" where
  "calm io \<longleftrightarrow> calm_claim (pq_claim io) \<and> pq_write io = Done \<and> \<not> mq_load (pq_mark io) \<and>
     mq_update (pq_mark io) = Done \<and> mq_env (pq_mark io) = id \<and> pq_env_write io = id \<and>
     pq_env_mark io = id"

section \<open>Statements are steps\<close>

definition proposal_ok :: "(bytes \<Rightarrow> digest) \<Rightarrow> IngestRecord \<Rightarrow> bool" where
  "proposal_ok sha p \<longleftrightarrow> ir_State p = IngestPending \<and>
     ir_MessageID p = deterministicMessageID sha (ir_Key p) \<and> length (ir_EnvelopeHash p) = 32 \<and>
     \<not> ir_RecipientSetSanitized p"

lemma insert_evolves:
  "proposal_ok sha p \<Longrightarrow> live_evolves sha db (snd (cql_insert_ingest p db))"
  by (cases "message_ingest db (ir_Key p)")
     (auto simp: cql_insert_ingest_def proposal_ok_def intro!: live_evolves_row live_insert)

lemma takeover_evolves: "live_evolves sha db (snd (cql_takeover key o' l' ow l db))"
  by (auto simp: cql_takeover_def intro!: live_evolves_row live_takeover split: option.split)

lemma mark_stored_evolves: "live_evolves sha db (snd (cql_mark_stored key ow l now db))"
  by (auto simp: cql_mark_stored_def intro!: live_evolves_row live_store split: option.split)

lemma mark_delivered_evolves: "live_evolves sha db (snd (cql_mark_delivered key i now db))"
  by (auto simp: cql_mark_delivered_def intro!: live_evolves_row live_deliver split: option.split)

lemma claim_index_ingest [simp]:
  "message_ingest (snd (claim_index out i key us db)) = message_ingest db"
  by (induction us arbitrary: i db) (auto simp: Let_def)

lemma direct_batch_ingest [simp]: "message_ingest (direct_batch ttl wr db) = message_ingest db"
  by (simp add: direct_batch_def Let_def)

lemma group_batch_ingest [simp]: "message_ingest (group_batch ttl wr db) = message_ingest db"
  by (simp add: group_batch_def Let_def)

lemma WriteDirect_ingest [simp]: "message_ingest (snd (WriteDirect out now wr db)) = message_ingest db"
  by (simp add: WriteDirect_def Let_def)

lemma WriteGroup_ingest [simp]: "message_ingest (snd (WriteGroup out now wr db)) = message_ingest db"
  by (simp add: WriteGroup_def Let_def)

lemma deleteOutbox_ingest [simp]: "message_ingest (snd (deleteOutbox out rec db)) = message_ingest db"
  by (simp add: deleteOutbox_def Let_def split: IngestKind.split)

text \<open>A rely that contains the code's own steps, for either notion of evolution.\<close>

locale ingest_rely =
  fixes sha :: "bytes \<Rightarrow> digest" and rel :: "scylla \<Rightarrow> scylla \<Rightarrow> bool"
  assumes rel_live: "live_evolves sha a b \<Longrightarrow> rel a b"
    and rel_trans: "rel a b \<Longrightarrow> rel b c \<Longrightarrow> rel a c"
begin

lemma rel_refl [simp]: "rel a a"
  by (rule rel_live) simp

lemma rel_same: "message_ingest b = message_ingest a \<Longrightarrow> rel a b"
  by (rule rel_live) (rule live_evolves_same)

lemma claim_existing_rel:
  assumes "claim_rely rel io"
  shows "rel db (snd (claim_existing io p now cur db))"
proof -
  let ?db1 = "cq_env io 1 db"
  let ?tk = "cql_takeover (ir_Key p) (ir_OwnerToken p) (ir_LeaseUntil p) (ir_OwnerToken cur) (ir_LeaseUntil cur) ?db1"
  have e: "rel d (cq_env io i d)" for i d using assms by (simp add: claim_rely_def)
  have t: "rel ?db1 (snd ?tk)" by (rule rel_live) (rule takeover_evolves)
  have "rel db (snd ?tk)" using rel_trans [OF e t] .
  moreover have "rel db (cq_env io 2 (snd ?tk))" using rel_trans [OF \<open>rel db (snd ?tk)\<close> e] .
  ultimately show ?thesis
    using e by (auto simp: claim_existing_def Let_def split: prod.split sum.split)
qed

lemma Claim_rel:
  assumes "proposal_ok sha p" and "claim_rely rel io"
  shows "rel db (snd (Claim io p now db))"
proof -
  let ?ins = "cql_insert_ingest p db"
  have i: "rel db (snd ?ins)" by (rule rel_live) (rule insert_evolves [OF assms(1)])
  have e: "rel d (cq_env io i d)" for i d using assms(2) by (simp add: claim_rely_def)
  have x: "rel db (snd (claim_index out j k us (snd ?ins)))" for out j k us
    by (rule rel_trans [OF i]) (rule rel_same, simp)
  have "rel db (cq_env io 0 (snd ?ins))" using rel_trans [OF i e] .
  moreover have "rel db (snd (claim_existing io p now cur (cq_env io 0 (snd ?ins))))" for cur
    using rel_trans [OF \<open>rel db (cq_env io 0 (snd ?ins))\<close> claim_existing_rel [OF assms(2)]] .
  ultimately show ?thesis
    using i x [of "cq_index io" 0 "ir_Key p" "erasureIndexUINs p"]
    by (auto simp: Claim_def Let_def split: prod.split sum.split bool.split)
qed

lemma MarkStored_rel:
  assumes "\<And>d. rel d (mq_env io d)"
  shows "rel db (snd (MarkStored io key ow l now db))"
proof -
  have "rel db (snd (cql_mark_stored key ow l now (mq_env io db)))"
    by (rule rel_trans [OF assms]) (rule rel_live, rule mark_stored_evolves)
  then show ?thesis
    using assms by (auto simp: MarkStored_def Let_def split: prod.split sum.split)
qed

lemma finish_persist_rel:
  assumes "persist_rely rel io"
  shows "rel db (snd (finish_persist io rec db))"
proof -
  have "rel db (snd (MarkStored (pq_mark io) k ow l now (pq_env_mark io db)))" for k ow l now
    by (rule rel_trans [OF _ MarkStored_rel]) (use assms in \<open>simp_all add: persist_rely_def\<close>)
  from this [of "ir_Key rec" "ir_OwnerToken rec" "ir_LeaseUntil rec" "pq_mark_now io"]
  show ?thesis
    by (auto simp: finish_persist_def split: prod.split sum.split bool.split)
qed

lemma persist_tail_rel:
  assumes "persist_rely rel io" and "rel db db1" and "message_ingest db2 = message_ingest (pq_env_write io db1)"
  shows "rel db db2" and "rel db (snd (finish_persist io rec db2))"
proof -
  have "rel db1 (pq_env_write io db1)" using assms(1) by (simp add: persist_rely_def)
  from rel_trans [OF rel_trans [OF assms(2) this] rel_same [OF assms(3)]] show *: "rel db db2" .
  show "rel db (snd (finish_persist io rec db2))"
    using rel_trans [OF * finish_persist_rel [OF assms(1)]] .
qed

lemma PersistDirect_rel:
  assumes "\<forall>x. length (sha x) = 32" and "persist_rely rel io"
  shows "rel db (snd (PersistDirect sha lease io req db))"
proof (cases "Claim (pq_claim io) (direct_proposal sha lease io req) (pq_now io) db")
  case (Pair out db1)
  have "proposal_ok sha (direct_proposal sha lease io req)"
    using assms(1) by (simp add: proposal_ok_def direct_proposal_def with_expiry_def
        newIngestRecord_def Let_def)
  then have db1: "rel db db1"
    using Claim_rel [of "direct_proposal sha lease io req" "pq_claim io" db "pq_now io"] assms(2) Pair
    by (simp add: persist_rely_def)
  show ?thesis
  proof (cases "\<exists>rec. out = Inr (rec, ClaimAcquired) \<and> valid_direct req")
    case False
    then show ?thesis using Pair db1
      by (auto simp: PersistDirect_def split: sum.split ClaimDisposition.split)
  next
    case True
    then obtain rec where out: "out = Inr (rec, ClaimAcquired)" and "valid_direct req" by blast
    let ?w = "WriteDirect (pq_write io) (pq_write_now io) (direct_write req rec) (pq_env_write io db1)"
    have "message_ingest (snd ?w) = message_ingest (pq_env_write io db1)" by simp
    from persist_tail_rel [OF assms(2) db1 this] show ?thesis
      using Pair out \<open>valid_direct req\<close>
      by (cases "fst ?w") (auto simp: PersistDirect_def split: prod.splits)
  qed
qed

lemma PersistGroup_rel:
  assumes "\<forall>x. length (sha x) = 32" and "persist_rely rel io"
  shows "rel db (snd (PersistGroup conf sha lease io req db))"
proof (cases "Claim (pq_claim io) (group_proposal sha lease io req) (pq_now io) db")
  case (Pair out db1)
  have "proposal_ok sha (group_proposal sha lease io req)"
    using assms(1) by (simp add: proposal_ok_def group_proposal_def with_expiry_def
        newIngestRecord_def Let_def)
  then have db1: "rel db db1"
    using Claim_rel [of "group_proposal sha lease io req" "pq_claim io" db "pq_now io"] assms(2) Pair
    by (simp add: persist_rely_def)
  show ?thesis
  proof (cases "\<exists>rec. out = Inr (rec, ClaimAcquired) \<and> valid_group req \<and> conf")
    case False
    then show ?thesis using Pair db1
      by (auto simp: PersistGroup_def split: sum.split ClaimDisposition.split)
  next
    case True
    then obtain rec where out: "out = Inr (rec, ClaimAcquired)" and "valid_group req" and conf by blast
    let ?w = "WriteGroup (pq_write io) (pq_write_now io) (group_write req rec) (pq_env_write io db1)"
    have "message_ingest (snd ?w) = message_ingest (pq_env_write io db1)" by simp
    from persist_tail_rel [OF assms(2) db1 this] show ?thesis
      using Pair out \<open>valid_group req\<close> \<open>conf\<close>
      by (cases "fst ?w") (auto simp: PersistGroup_def split: prod.splits)
  qed
qed

lemma deleteOutbox_rel: "rel db (snd (deleteOutbox out rec db))"
  by (rule rel_same) simp

lemma MarkDelivered_rel:
  assumes "\<And>d. rel d (mq_env io d)"
  shows "rel db (snd (MarkDelivered io now key i db))"
proof -
  obtain a c where c: "cql_mark_delivered key i now (mq_env io db) = (a, c)" by force
  have "rel (mq_env io db) c"
    using rel_live [OF mark_delivered_evolves [of sha "mq_env io db" key i now]] by (simp add: c)
  with assms have rc: "rel db c" by (rule rel_trans)
  have d: "rel db d'" if "deleteOutbox out rec d = (x, d')" "rel db d" for out rec d x d'
    using rel_trans [OF that(2) deleteOutbox_rel [of d out rec]] that(1) by simp
  have "rel db (snd (backend_MarkDelivered io now key i db))"
    by (cases "load (mq_load io) key db")
       (auto simp: backend_MarkDelivered_def Let_def c rc assms split: prod.split option.split
         intro: d)
  then show ?thesis
    by (auto simp: MarkDelivered_def split: prod.split sum.split bool.split)
qed

end

section \<open>Both notions of evolution are relies\<close>

interpretation live: ingest_rely sha "live_evolves sha" for sha
  by unfold_locales (auto intro: live_evolves_trans)

interpretation full: ingest_rely sha "evolves sha" for sha
  by unfold_locales (auto intro: evolves_trans live_evolves_evolves)

lemma terminalize_evolves: "live_evolves sha db (snd (terminalizeIngestReceipt out key db))"
  by (auto simp: terminalizeIngestReceipt_def Let_def intro!: live_evolves_row live_erase
      split: option.split)

lemma sanitize_evolves:
  "live_evolves sha db (snd (sanitizeGroupIngestRecipients out key w prev db))"
  by (auto simp: sanitizeGroupIngestRecipients_def Let_def
      intro!: live_evolves_row live_erase live_sanitize split: option.split)

section \<open>What a receipt keeps\<close>

fun state_rank :: "IngestState \<Rightarrow> nat" where
  "state_rank IngestNull = 0"
| "state_rank IngestPending = 1"
| "state_rank IngestStored = 2"
| "state_rank IngestDelivered = 3"
| "state_rank IngestRecipientErased = 4"

definition committed :: "ingest_row \<Rightarrow> bool" where
  "committed r \<longleftrightarrow> r_state r = IngestStored \<or> r_state r = IngestDelivered"

text \<open>How a row that stays in the table may differ later: identity and creation time never
  change, the state only moves forward, the recipient list only shrinks, and unless the row
  was erased its content is untouched; once committed its owner and lease are frozen.\<close>

definition row_advance :: "ingest_row \<Rightarrow> ingest_row \<Rightarrow> bool" where
  "row_advance r r' \<longleftrightarrow>
     r_message_id r' = r_message_id r \<and> r_created_at r' = r_created_at r \<and>
     r_expires_at r' = r_expires_at r \<and> r_kind r' = r_kind r \<and> r_group r' = r_group r \<and>
     r_epoch r' = r_epoch r \<and> r_ttl r' = r_ttl r \<and>
     state_rank (r_state r) \<le> state_rank (r_state r') \<and>
     set (r_recipients r') \<subseteq> set (r_recipients r) \<and> (r_sanitized r \<longrightarrow> r_sanitized r') \<and>
     (\<not> r_sanitized r' \<longrightarrow> r_recipients r' = r_recipients r) \<and>
     (r_state r' \<noteq> IngestRecipientErased \<longrightarrow>
        r_hash r' = r_hash r \<and> r_receiver r' = r_receiver r \<and>
        r_conversation r' = r_conversation r \<and> r_envelope r' = r_envelope r) \<and>
     (2 \<le> state_rank (r_state r) \<longrightarrow> r_owner r' = r_owner r \<and> r_lease_until r' = r_lease_until r)"

lemma row_advance_refl [simp]: "row_advance r r"
  by (simp add: row_advance_def)

lemma state_rank_le_erased: "state_rank IngestRecipientErased \<le> state_rank s \<Longrightarrow> s = IngestRecipientErased"
  by (cases s) auto

lemma state_rank_max: "state_rank s \<le> 4"
  by (cases s) auto

lemma row_advance_erased:
  "row_advance b c \<Longrightarrow> r_state b = IngestRecipientErased \<Longrightarrow> r_state c = IngestRecipientErased"
  by (simp add: row_advance_def state_rank_le_erased)

lemma row_advance_trans:
  assumes ab: "row_advance a b" and bc: "row_advance b c"
  shows "row_advance a c"
proof -
  have "r_state c \<noteq> IngestRecipientErased \<Longrightarrow> r_state b \<noteq> IngestRecipientErased"
    using row_advance_erased [OF bc] by blast
  moreover have "state_rank (r_state a) \<le> state_rank (r_state c)"
    using ab bc by (simp add: row_advance_def)
  moreover have "set (r_recipients c) \<subseteq> set (r_recipients a)"
    using ab bc by (fastforce simp: row_advance_def)
  moreover have "\<not> r_sanitized c \<longrightarrow> r_recipients c = r_recipients a"
    using ab bc by (metis row_advance_def)
  ultimately show ?thesis
    using ab bc unfolding row_advance_def by simp
qed

lemma row_live_advance:
  assumes "row_live sha key (Some r) y"
  shows "\<exists>r'. y = Some r' \<and> row_advance r r'"
  using assms by cases (auto simp: row_advance_def tombstone_def state_rank_max)

lemma row_live_advance_rtrancl:
  assumes "(row_live sha key)\<^sup>*\<^sup>* (Some r) y"
  shows "\<exists>r'. y = Some r' \<and> row_advance r r'"
  using assms
proof (induction rule: rtranclp_induct)
  case (step y z)
  then obtain r' where "y = Some r'" "row_advance r r'" by blast
  with step.hyps(2) row_live_advance show ?case by (metis row_advance_trans)
qed simp

lemma live_evolves_advance:
  assumes "live_evolves sha db db'" and "message_ingest db key = Some r"
  shows "\<exists>r'. message_ingest db' key = Some r' \<and> row_advance r r'"
proof -
  have "(row_live sha key)\<^sup>*\<^sup>* (Some r) (message_ingest db' key)"
    using assms by (metis live_evolves_def)
  then show ?thesis by (rule row_live_advance_rtrancl)
qed

end
