(* ===== verification/IngestFacts.thy ===== *)
theory IngestFacts
  imports IngestProtocol
begin

text \<open>
  What a claim, the final compare-and-set and the two entry points of durable ingest establish
  about the receipt row, under interference by other workers that follow the protocol.
\<close>

section \<open>A row and the request it was claimed for\<close>

definition row_for :: "IngestRecord \<Rightarrow> ingest_row \<Rightarrow> bool" where
  "row_for p r \<longleftrightarrow> length (ir_EnvelopeHash p) = 32 \<and> r_hash r = ir_EnvelopeHash p \<and> r_kind r = ir_Kind p \<and>
     r_receiver r = ir_ReceiverUIN p \<and> r_conversation r = ir_ConversationID p \<and>
     r_group r = ir_GroupID p \<and> r_epoch r = ir_CryptoEpoch p \<and>
     (r_sanitized r \<or> r_recipients r = ir_RecipientUINs p)"

definition row_ids :: "IngestRecord \<Rightarrow> ingest_row \<Rightarrow> bool" where
  "row_ids rec r \<longleftrightarrow> r_message_id r = ir_MessageID rec \<and> r_created_at r = ir_CreatedAt rec"

lemma row_for_advance:
  "row_for p r \<Longrightarrow> row_advance r r' \<Longrightarrow> r_state r' \<noteq> IngestRecipientErased \<Longrightarrow> row_for p r'"
  unfolding row_for_def row_advance_def by metis

lemma row_for_hash: "row_for p r \<Longrightarrow> length (r_hash r) = 32"
  by (simp add: row_for_def)

lemma row_ids_advance: "row_ids rec r \<Longrightarrow> row_advance r r' \<Longrightarrow> row_ids rec r'"
  by (simp add: row_ids_def row_advance_def)

lemma load_InrD:
  assumes "load bad key db = Inr rec"
  shows "\<exists>r. message_ingest db key = Some r \<and> length (r_hash r) = 32 \<and> ir_Key rec = key \<and>
    row_ids rec r \<and> ir_State rec = r_state r \<and> ir_OwnerToken rec = r_owner r \<and>
    ir_LeaseUntil rec = r_lease_until r \<and> ir_ExpiresAt rec = r_expires_at r \<and>
    ir_Kind rec = r_kind r \<and> (\<forall>p. same_request rec p \<longleftrightarrow> row_for p r)"
  using assms
  by (auto simp: load_def row_ids_def row_for_def same_request_def recipientSnapshotCompatible_def
      split: if_splits option.splits)

lemma load_Some:
  assumes "message_ingest db key = Some r" and "length (r_hash r) = 32"
  shows "\<exists>rec. load False key db = Inr rec"
  using assms by (simp add: load_def)

lemma cql_ts_idem [simp]: "cql_ts (cql_ts t) = cql_ts t"
  by (simp add: cql_ts_def trunc_time_def)

section \<open>What \<open>Claim\<close> returns\<close>

definition claimed :: "IngestRecord \<Rightarrow> IngestRecord \<Rightarrow> ingest_row \<Rightarrow> bool" where
  "claimed p rec r \<longleftrightarrow> row_for p r \<and> row_ids rec r \<and> ir_Key rec = ir_Key p \<and>
     ir_OwnerToken rec = ir_OwnerToken p \<and> ir_LeaseUntil rec = ir_LeaseUntil p"

lemma claim_existing_acquired:
  assumes "claim_existing io p now cur db = (Inr (rec, ClaimAcquired), db1)"
    and "load bad (ir_Key p) db = Inr cur" and "claim_rely (live_evolves sha) io"
  shows "\<exists>r. message_ingest db1 (ir_Key p) = Some r \<and> r_state r = IngestPending \<and> claimed p rec r"
proof -
  obtain r where r: "message_ingest db (ir_Key p) = Some r" "row_ids cur r" "ir_Key cur = ir_Key p"
    "\<forall>p. same_request cur p \<longleftrightarrow> row_for p r" using load_InrD [OF assms(2)] by blast
  have sr: "row_for p r" using assms(1) r(4) by (auto simp: claim_existing_def split: if_splits)
  obtain a db2 where tk: "cql_takeover (ir_Key p) (ir_OwnerToken p) (ir_LeaseUntil p)
      (ir_OwnerToken cur) (ir_LeaseUntil cur) (cq_env io 1 db) = (a, db2)" by force
  have acq: "a" "db1 = db2" "rec = cur\<lparr>ir_OwnerToken := ir_OwnerToken p, ir_LeaseUntil := ir_LeaseUntil p\<rparr>"
    using assms(1) tk by (auto simp: claim_existing_def Let_def split: if_splits sum.splits)
  have "live_evolves sha db (cq_env io 1 db)" using assms(3) by (simp add: claim_rely_def)
  from live_evolves_advance [OF this r(1)] obtain r1 where
    r1: "message_ingest (cq_env io 1 db) (ir_Key p) = Some r1" "row_advance r r1" by blast
  with tk acq(1) have st: "r_state r1 = IngestPending"
    and db2: "message_ingest db2 (ir_Key p) =
      Some (r1\<lparr>r_owner := ir_OwnerToken p, r_lease_until := cql_ts (ir_LeaseUntil p)\<rparr>)"
    by (auto simp: cql_takeover_def split: if_splits)
  have "row_for p r1" "row_ids cur r1"
    using row_for_advance [OF sr r1(2)] row_ids_advance [OF r(2) r1(2)] st by simp_all
  then show ?thesis
    using db2 acq(2,3) st r(3) by (simp add: claimed_def row_for_def row_ids_def)
qed

lemma Claim_acquired:
  assumes "Claim io p now db = (Inr (rec, ClaimAcquired), db1)"
    and "proposal_ok sha p" and "cql_ts (ir_CreatedAt p) = ir_CreatedAt p"
    and "claim_rely (live_evolves sha) io"
  shows "\<exists>r. message_ingest db1 (ir_Key p) = Some r \<and> r_state r = IngestPending \<and> claimed p rec r"
proof (cases "message_ingest db (ir_Key p)")
  case None
  let ?ix = "claim_index (cq_index io) 0 (ir_Key p) (erasureIndexUINs p)
     (db\<lparr>message_ingest := (message_ingest db)(ir_Key p \<mapsto> record_row p)\<rparr>)"
  have "rec = p" "db1 = snd ?ix"
    using assms(1) None
    by (auto simp: Claim_def cql_insert_ingest_def Let_def split: prod.splits bool.splits if_splits)
  then show ?thesis
    using assms(2,3) by (simp add: record_row_def claimed_def row_for_def row_ids_def proposal_ok_def)
next
  case (Some r)
  then obtain cur where "load (cq_load io) (ir_Key p) (cq_env io 0 db) = Inr cur"
    "claim_existing io p now cur (cq_env io 0 db) = (Inr (rec, ClaimAcquired), db1)"
    using assms(1) by (auto simp: Claim_def cql_insert_ingest_def Let_def split: if_splits sum.splits)
  with assms(4) show ?thesis using claim_existing_acquired by blast
qed

lemma Claim_committed:
  assumes "Claim io p now db = (Inr (rec, ClaimCommitted), db1)"
  shows "\<exists>r. message_ingest db1 (ir_Key p) = Some r \<and> committed r \<and> row_for p r \<and> row_ids rec r \<and>
    ir_State rec = r_state r"
proof -
  obtain cur where ld: "load (cq_load io) (ir_Key p) (cq_env io 0 db) = Inr cur"
    and "claim_existing io p now cur (cq_env io 0 db) = (Inr (rec, ClaimCommitted), db1)"
    using assms
    by (auto simp: Claim_def cql_insert_ingest_def Let_def
        split: if_splits sum.splits option.splits prod.splits bool.splits)
  then have "rec = cur" "db1 = cq_env io 0 db" "same_request cur p"
    "ir_State cur = IngestStored \<or> ir_State cur = IngestDelivered"
    by (auto simp: claim_existing_def Let_def split: if_splits sum.splits prod.splits)
  then show ?thesis using load_InrD [OF ld] by (auto simp: committed_def)
qed

text \<open>A committed row answers the same request without touching the tables.\<close>

lemma Claim_of_committed:
  assumes "message_ingest db (ir_Key p) = Some r" and "committed r" and "row_for p r"
    and "calm_claim io"
  shows "\<exists>rec. Claim io p now db = (Inr (rec, ClaimCommitted), db) \<and> row_ids rec r"
proof -
  obtain rec where ld: "load False (ir_Key p) db = Inr rec"
    using load_Some [OF assms(1) row_for_hash [OF assms(3)]] by blast
  with load_InrD [OF ld] assms have "same_request rec p" "row_ids rec r"
    "ir_State rec = IngestStored \<or> ir_State rec = IngestDelivered"
    by (auto simp: committed_def)
  then have "claim_existing io p now rec db = (Inr (rec, ClaimCommitted), db)"
    by (auto simp: claim_existing_def)
  with ld assms(1,4) \<open>row_ids rec r\<close> show ?thesis
    by (auto simp: Claim_def cql_insert_ingest_def calm_claim_def failed_def)
qed

section \<open>The final compare-and-set\<close>

lemma MarkStored_true:
  assumes "MarkStored io key ow l now db = (Inr True, db')" and "\<And>d. live_evolves sha d (mq_env io d)"
  shows "\<exists>r r'. message_ingest db key = Some r \<and> message_ingest db' key = Some r' \<and>
    row_advance r r' \<and> r_state r' = IngestStored \<and> r_owner r' = ow \<and>
    r_lease_until r' = cql_ts l \<and> now < l"
proof -
  obtain rec where ld: "load (mq_load io) key db = Inr rec" and "now < l"
    and app: "cql_mark_stored key ow l now (mq_env io db) = (True, db')"
    using assms(1)
    by (auto simp: MarkStored_def Let_def split: sum.splits if_splits prod.splits)
  obtain r where r: "message_ingest db key = Some r" using load_InrD [OF ld] by blast
  obtain r1 where r1: "message_ingest (mq_env io db) key = Some r1" "row_advance r r1"
    using live_evolves_advance [OF assms(2) r] by blast
  have "row_advance r1 (r1\<lparr>r_state := IngestStored, r_stored_at := t\<rparr>)" if "r_state r1 = IngestPending" for t
    using row_live_advance [OF live_store [OF that]] by blast
  with r1 app show ?thesis
    using r \<open>now < l\<close> row_advance_trans [OF r1(2)]
    by (auto simp: cql_mark_stored_def split: if_splits)
qed

lemma finish_persist_committed:
  assumes "finish_persist io rec db = ((res, None), db')" and "persist_rely (live_evolves sha) io"
    and "message_ingest db (ir_Key rec) = Some r" and "row_for p r" and "row_ids rec r"
  shows "\<exists>r'. message_ingest db' (ir_Key rec) = Some r' \<and> committed r' \<and> row_for p r' \<and>
    res = \<lparr>res_MessageID = r_message_id r', res_CreatedAt = r_created_at r', res_State = IngestStored, res_Committed = True\<rparr>"
proof -
  have ms: "MarkStored (pq_mark io) (ir_Key rec) (ir_OwnerToken rec) (ir_LeaseUntil rec)
      (pq_mark_now io) (pq_env_mark io db) = (Inr True, db')"
    and res: "res = (result_of rec)\<lparr>res_State := IngestStored, res_Committed := True\<rparr>"
    using assms(1) by (auto simp: finish_persist_def split: prod.splits sum.splits bool.splits)
  have "live_evolves sha d (mq_env (pq_mark io) d)" "live_evolves sha d (pq_env_mark io d)" for d
    using assms(2) by (simp_all add: persist_rely_def)
  note MarkStored_true [OF ms this(1)] live_evolves_advance [OF this(2) assms(3)]
  then obtain r' where r': "message_ingest db' (ir_Key rec) = Some r'" "row_advance r r'"
    "r_state r' = IngestStored" by (metis option.inject row_advance_trans)
  with row_for_advance [OF assms(4) r'(2)] row_ids_advance [OF assms(5) r'(2)] res
  show ?thesis by (auto simp: committed_def row_ids_def result_of_def)
qed

text \<open>A call that reports success leaves a committed row for its request with the ids it returned.\<close>

definition commits :: "IngestRecord \<Rightarrow> DurableIngestResult \<Rightarrow> scylla \<Rightarrow> bool" where
  "commits p res db \<longleftrightarrow> (\<exists>r. message_ingest db (ir_Key p) = Some r \<and> committed r \<and> row_for p r \<and>
     res_MessageID res = r_message_id r \<and> res_CreatedAt res = r_created_at r \<and> res_Committed res)"

lemma acquired_commits:
  assumes cl: "Claim (pq_claim io) p now db = (Inr (rec, ClaimAcquired), db1)"
    and fin: "finish_persist io rec db2 = ((res, None), db')"
    and p: "proposal_ok sha p" "cql_ts (ir_CreatedAt p) = ir_CreatedAt p"
    and rely: "persist_rely (live_evolves sha) io"
    and db2: "message_ingest db2 = message_ingest (pq_env_write io db1)"
  shows "commits p res db'"
proof -
  have "claim_rely (live_evolves sha) (pq_claim io)" using rely by (simp add: persist_rely_def)
  from Claim_acquired [OF cl p this] obtain r where
    r: "message_ingest db1 (ir_Key p) = Some r" "claimed p rec r" by blast
  have "live_evolves sha db1 db2"
    using rely db2 live_evolves_trans live_evolves_same unfolding persist_rely_def by metis
  from live_evolves_advance [OF this r(1)] obtain r2 where
    r2: "message_ingest db2 (ir_Key p) = Some r2" "row_advance r r2" by blast
  have key: "ir_Key rec = ir_Key p" and rf: "row_for p r" and ri: "row_ids rec r"
    using r(2) by (simp_all add: claimed_def)
  have "r_state r2 \<noteq> IngestRecipientErased"
  proof
    assume er: "r_state r2 = IngestRecipientErased"
    have ms: "MarkStored (pq_mark io) (ir_Key rec) (ir_OwnerToken rec) (ir_LeaseUntil rec)
        (pq_mark_now io) (pq_env_mark io db2) = (Inr True, db')"
      using fin by (auto simp: finish_persist_def split: prod.splits sum.splits bool.splits)
    have env: "live_evolves sha d (mq_env (pq_mark io) d)" "live_evolves sha db2 (pq_env_mark io db2)" for d
      using rely by (simp_all add: persist_rely_def)
    obtain r3 where r3: "message_ingest (pq_env_mark io db2) (ir_Key p) = Some r3"
      "r_state r3 = IngestRecipientErased"
      using live_evolves_advance [OF env(2) r2(1)] row_advance_erased er by blast
    from MarkStored_true [OF ms env(1)] r3(1) key obtain r' where
      "row_advance r3 r'" "r_state r' = IngestStored" by auto
    with row_advance_erased r3(2) show False by fastforce
  qed
  with row_for_advance [OF rf r2(2)] row_ids_advance [OF ri r2(2)]
    finish_persist_committed [OF fin rely] r2(1) key show ?thesis
    by (fastforce simp: commits_def)
qed

lemma committed_commits:
  assumes "Claim io p now db = (Inr (rec, ClaimCommitted), db')"
  shows "commits p ((result_of rec)\<lparr>res_Committed := True\<rparr>) db'"
  using Claim_committed [OF assms] by (auto simp: commits_def row_ids_def result_of_def)

section \<open>The two entry points\<close>

lemma direct_proposal_ok:
  assumes "\<forall>x. length (sha x) = 32"
  shows "proposal_ok sha (direct_proposal sha lease io req)"
    and "cql_ts (ir_CreatedAt (direct_proposal sha lease io req)) = ir_CreatedAt (direct_proposal sha lease io req)"
  using assms by (simp_all add: proposal_ok_def direct_proposal_def with_expiry_def newIngestRecord_def
      Let_def cql_ts_def trunc_time_def)

lemma group_proposal_ok:
  assumes "\<forall>x. length (sha x) = 32"
  shows "proposal_ok sha (group_proposal sha lease io req)"
    and "cql_ts (ir_CreatedAt (group_proposal sha lease io req)) = ir_CreatedAt (group_proposal sha lease io req)"
  using assms by (simp_all add: proposal_ok_def group_proposal_def with_expiry_def newIngestRecord_def
      Let_def cql_ts_def trunc_time_def)

lemma direct_proposal_request:
  "ir_Key (direct_proposal sha lease io req) = \<lparr>SenderUIN = dq_SenderUIN req, ClientID = dq_ClientID req\<rparr>"
  "row_for (direct_proposal sha lease io req) = row_for (direct_proposal sha lease' io' req)"
  by (simp_all add: direct_proposal_def with_expiry_def newIngestRecord_def Let_def row_for_def fun_eq_iff)

lemma group_proposal_request:
  "ir_Key (group_proposal sha lease io req) = \<lparr>SenderUIN = gq_SenderUIN req, ClientID = gq_ClientID req\<rparr>"
  "row_for (group_proposal sha lease io req) = row_for (group_proposal sha lease' io' req)"
  by (simp_all add: group_proposal_def with_expiry_def newIngestRecord_def Let_def row_for_def fun_eq_iff)

lemma PersistDirect_commits:
  assumes "\<forall>x. length (sha x) = 32" and "persist_rely (live_evolves sha) io"
    and "PersistDirect sha lease io req db = ((res, None), db')"
  shows "commits (direct_proposal sha lease io req) res db'"
proof -
  let ?p = "direct_proposal sha lease io req"
  obtain rec d db1 where cl: "Claim (pq_claim io) ?p (pq_now io) db = (Inr (rec, d), db1)"
    and v: "valid_direct req"
    using assms(3) by (auto simp: PersistDirect_def split: if_splits prod.splits sum.splits)
  show ?thesis
  proof (cases "d = ClaimAcquired")
    case True
    let ?w = "WriteDirect (pq_write io) (pq_write_now io) (direct_write req rec) (pq_env_write io db1)"
    have "finish_persist io rec (snd ?w) = ((res, None), db')"
      using assms(3) cl v True by (auto simp: PersistDirect_def split: prod.splits option.splits)
    then show ?thesis
      by (rule acquired_commits [OF cl [unfolded True] _ direct_proposal_ok [OF assms(1)] assms(2)]) simp
  next
    case False
    then have "d = ClaimCommitted" "res = (result_of rec)\<lparr>res_Committed := True\<rparr>" "db' = db1"
      using assms(3) cl v by (auto simp: PersistDirect_def split: ClaimDisposition.splits)
    with committed_commits cl show ?thesis by blast
  qed
qed

lemma PersistGroup_commits:
  assumes "\<forall>x. length (sha x) = 32" and "persist_rely (live_evolves sha) io"
    and "PersistGroup conf sha lease io req db = ((res, None), db')"
  shows "commits (group_proposal sha lease io req) res db'"
proof -
  let ?p = "group_proposal sha lease io req"
  obtain rec d db1 where cl: "Claim (pq_claim io) ?p (pq_now io) db = (Inr (rec, d), db1)"
    and v: "valid_group req" "conf"
    using assms(3) by (auto simp: PersistGroup_def split: if_splits prod.splits sum.splits)
  show ?thesis
  proof (cases "d = ClaimAcquired")
    case True
    let ?w = "WriteGroup (pq_write io) (pq_write_now io) (group_write req rec) (pq_env_write io db1)"
    have "finish_persist io rec (snd ?w) = ((res, None), db')"
      using assms(3) cl v True by (auto simp: PersistGroup_def split: prod.splits option.splits)
    then show ?thesis
      by (rule acquired_commits [OF cl [unfolded True] _ group_proposal_ok [OF assms(1)] assms(2)]) simp
  next
    case False
    then have "d = ClaimCommitted" "res = (result_of rec)\<lparr>res_Committed := True\<rparr>" "db' = db1"
      using assms(3) cl v by (auto simp: PersistGroup_def split: ClaimDisposition.splits)
    with committed_commits cl show ?thesis by blast
  qed
qed

lemma commits_advance:
  assumes "commits p res db" and "live_evolves sha db db'"
    and "\<And>r. message_ingest db' (ir_Key p) = Some r \<Longrightarrow> r_state r \<noteq> IngestRecipientErased"
  shows "commits p res db'"
proof -
  obtain r where r: "message_ingest db (ir_Key p) = Some r" "committed r" "row_for p r"
    "res_MessageID res = r_message_id r" "res_CreatedAt res = r_created_at r" "res_Committed res"
    using assms(1) by (auto simp: commits_def)
  obtain r' where r': "message_ingest db' (ir_Key p) = Some r'" "row_advance r r'"
    using live_evolves_advance [OF assms(2) r(1)] by blast
  then have "row_for p r'" using row_for_advance r(3) assms(3) by blast
  moreover have "committed r'"
    using r(2) r' assms(3) by (cases "r_state r'") (auto simp: committed_def row_advance_def)
  ultimately show ?thesis using r r' by (auto simp: commits_def row_advance_def)
qed

lemma Claim_of_commits:
  assumes "commits p res db" and "calm_claim io" and "ir_Key p = ir_Key p'" and "row_for p = row_for p'"
  shows "\<exists>rec. Claim io p' now db = (Inr (rec, ClaimCommitted), db) \<and>
    ir_MessageID rec = res_MessageID res \<and> ir_CreatedAt rec = res_CreatedAt res"
  using assms Claim_of_committed [of db p' _ io now] by (auto simp: commits_def row_ids_def)

section \<open>Undisturbed calls\<close>

lemma claim_index_calm:
  "\<forall>i. out i = Done \<Longrightarrow> claim_index out i key us db =
     (True, db\<lparr>message_ingest_erasure_index := (\<lambda>u. (u, key)) ` set us \<union> message_ingest_erasure_index db\<rparr>)"
  by (induction us arbitrary: i db) (auto simp: Let_def took_effect_def)

lemma Claim_fresh:
  assumes "calm_claim io" and "message_ingest db (ir_Key p) = None"
  shows "Claim io p now db = (Inr (p, ClaimAcquired),
    db\<lparr>message_ingest := (message_ingest db)(ir_Key p \<mapsto> record_row p),
       message_ingest_erasure_index := (\<lambda>u. (u, ir_Key p)) ` set (erasureIndexUINs p) \<union> message_ingest_erasure_index db\<rparr>)"
  using assms by (simp add: Claim_def cql_insert_ingest_def calm_claim_def claim_index_calm)

lemma finish_persist_calm:
  assumes "calm io" and "message_ingest db (ir_Key p) = Some (record_row p)" and "ir_State p = IngestPending"
    and "length (ir_EnvelopeHash p) = 32" and "cql_ts (ir_LeaseUntil p) = ir_LeaseUntil p"
    and "cql_ts (ir_ExpiresAt p) = ir_ExpiresAt p"
    and "pq_mark_now io < ir_LeaseUntil p" and "pq_mark_now io < ir_ExpiresAt p"
  shows "finish_persist io p db =
    (((result_of p)\<lparr>res_State := IngestStored, res_Committed := True\<rparr>, None),
     db\<lparr>message_ingest := (message_ingest db)(ir_Key p \<mapsto>
        (record_row p)\<lparr>r_state := IngestStored, r_stored_at := cql_ts (pq_mark_now io)\<rparr>)\<rparr>)"
  using assms
  by (simp add: finish_persist_def MarkStored_def load_def cql_mark_stored_def calm_def record_row_def Let_def)

lemma cql_ts_aligned: "cql_ts (trunc_time t Millisecond) = trunc_time t Millisecond"
  by (simp add: cql_ts_def trunc_time_def)

lemma cql_ts_add:
  assumes "cql_ts a = a" and "cql_ts b = b"
  shows "cql_ts (a + b) = a + b"
proof -
  have "Millisecond dvd a" "Millisecond dvd b"
    using assms by (auto simp: cql_ts_def trunc_time_def duration_defs algebra_simps intro: dvd_eq_mod_eq_0 [THEN iffD2])
  then show ?thesis by (simp add: cql_ts_def trunc_time_def)
qed

end
