(* ===== verification/IngestProperties.thy ===== *)
theory IngestProperties
  imports IngestFacts
begin

text \<open>
  Properties of the durable ingest path: one result for every retry of a message, a single
  winner of the final compare-and-set, conflicts and leases, what a fresh message writes,
  delivery, and the gaps of the erasure path.
\<close>

section \<open>A sample call\<close>

definition sample_sha :: "bytes \<Rightarrow> digest" where "sample_sha x = replicate 32 (of_nat (length x))"

definition sample_io :: "gotime \<Rightarrow> persist_io" where
  "sample_io now = \<lparr>pq_now = now, pq_owner = replicate 16 7,
     pq_claim = \<lparr>cq_insert = Done, cq_index = (\<lambda>_. Done), cq_load = False, cq_takeover = Done,
       cq_reload = False, cq_env = (\<lambda>_ db. db)\<rparr>,
     pq_write = Done, pq_write_now = now,
     pq_mark = \<lparr>mq_load = False, mq_update = Done, mq_delete = Done, mq_env = (\<lambda>db. db)\<rparr>,
     pq_mark_now = now, pq_env_write = (\<lambda>db. db), pq_env_mark = (\<lambda>db. db)\<rparr>"

definition sample_lease :: duration where "sample_lease = 30 * Second"

definition sample_direct :: DurableDirectRequest where
  "sample_direct = \<lparr>dq_SenderUIN = 10, dq_ClientID = ''c1'', dq_ReceiverUIN = 20,
     dq_ConversationID = ''10:20'', dq_Envelope = ''{}'', dq_Ciphertext = ''x'',
     dq_MsgType = ''text'', dq_ExpiresInSeconds = 60\<rparr>"

definition sample_group :: DurableGroupRequest where
  "sample_group = \<lparr>gq_SenderUIN = 10, gq_ClientID = ''c2'', gq_GroupID = replicate 16 3,
     gq_CryptoEpoch = 1, gq_RecipientUINs = [20, 30], gq_Envelope = ''{}'', gq_Ciphertext = ''x'',
     gq_MsgType = ''text'', gq_ExpiresInSeconds = 0\<rparr>"

definition sample_now :: gotime where "sample_now = 1000 * Second"

definition sample_db :: scylla where
  "sample_db = snd (PersistDirect sample_sha sample_lease (sample_io sample_now) sample_direct empty_scylla)"

definition sample_group_db :: scylla where
  "sample_group_db = snd (PersistGroup True sample_sha sample_lease (sample_io sample_now) sample_group empty_scylla)"

lemma sample_hash [simp]: "\<forall>x. length (sample_sha x) = 32"
  by (simp add: sample_sha_def)

lemma sample_calm [simp]: "calm (sample_io now)"
  by (simp add: calm_def calm_claim_def sample_io_def id_def)

lemma sample_rely [simp]: "persist_rely (live_evolves sha) (sample_io now)"
  "persist_rely (evolves sha) (sample_io now)"
  by (simp_all add: persist_rely_def claim_rely_def sample_io_def)

lemma sample_success:
  "fst (PersistDirect sample_sha sample_lease (sample_io sample_now) sample_direct empty_scylla) =
     (\<lparr>res_MessageID = deterministicMessageID sample_sha \<lparr>SenderUIN = 10, ClientID = ''c1''\<rparr>,
       res_CreatedAt = sample_now, res_State = IngestStored, res_Committed = True\<rparr>, None)"
  by code_simp

lemma sample_group_success:
  "fst (PersistGroup True sample_sha sample_lease (sample_io sample_now) sample_group empty_scylla) =
     (\<lparr>res_MessageID = deterministicMessageID sample_sha \<lparr>SenderUIN = 10, ClientID = ''c2''\<rparr>,
       res_CreatedAt = sample_now, res_State = IngestStored, res_Committed = True\<rparr>, None)"
  by code_simp

lemma sample_row_state:
  "map_option r_state (message_ingest sample_db \<lparr>SenderUIN = 10, ClientID = ''c1''\<rparr>) = Some IngestStored"
  "map_option r_state (message_ingest sample_group_db \<lparr>SenderUIN = 10, ClientID = ''c2''\<rparr>) = Some IngestStored"
  by code_simp+

section \<open>Retries\<close>



text \<open>Also: the same for a group message, also when a panic wipe has meanwhile removed some of
  the recipients of the stored message.\<close>

theorem persist_group_retry:
  assumes "\<forall>x. length (sha x) = 32" and "persist_rely (live_evolves sha) io"
    and "PersistGroup conf sha lease io req db = ((res, None), db1)"
    and "live_evolves sha db1 db2"
    and "\<forall>r. message_ingest db2 \<lparr>SenderUIN = gq_SenderUIN req, ClientID = gq_ClientID req\<rparr> = Some r \<longrightarrow>
           r_state r \<noteq> IngestRecipientErased"
    and "calm io2"
  shows "res_Committed res \<and>
    (\<exists>st. PersistGroup conf sha lease2 io2 req db2 =
      ((\<lparr>res_MessageID = res_MessageID res, res_CreatedAt = res_CreatedAt res,
         res_State = st, res_Committed = True\<rparr>, None), db2))"
proof -
  let ?p = "group_proposal sha lease io req"
  have c: "commits ?p res db1" using PersistGroup_commits assms(1,2,3) by blast
  have "commits ?p res db2"
    by (rule commits_advance [OF c assms(4)]) (use assms(5) in \<open>simp add: group_proposal_request\<close>)
  then obtain rec where "Claim (pq_claim io2) (group_proposal sha lease2 io2 req) (pq_now io2) db2 =
      (Inr (rec, ClaimCommitted), db2)" "ir_MessageID rec = res_MessageID res"
      "ir_CreatedAt rec = res_CreatedAt res"
    using Claim_of_commits [of ?p res db2 "pq_claim io2" "group_proposal sha lease2 io2 req"]
      assms(6) group_proposal_request(1) group_proposal_request(2) calm_def by metis
  moreover have "conf" "valid_group req" using assms(3) by (auto simp: PersistGroup_def split: if_splits)
  ultimately show ?thesis
    using c by (auto simp: PersistGroup_def result_of_def commits_def)
qed

definition sample_sanitized_db :: scylla where
  "sample_sanitized_db = snd (sanitizeGroupIngestRecipients Done
     \<lparr>SenderUIN = 10, ClientID = ''c2''\<rparr> 30 [20, 30] sample_group_db)"

lemma sample_sanitized_row:
  "map_option (\<lambda>r. (r_state r, r_recipients r))
     (message_ingest sample_sanitized_db \<lparr>SenderUIN = 10, ClientID = ''c2''\<rparr>) = Some (IngestStored, [20])"
  by code_simp

lemma persist_group_retry_witness:
  "\<exists>st. PersistGroup True sample_sha sample_lease (sample_io (sample_now + Second)) sample_group sample_sanitized_db =
      ((\<lparr>res_MessageID = deterministicMessageID sample_sha \<lparr>SenderUIN = 10, ClientID = ''c2''\<rparr>,
         res_CreatedAt = sample_now, res_State = st, res_Committed = True\<rparr>, None), sample_sanitized_db)"
  using persist_group_retry [of sample_sha "sample_io sample_now" True sample_lease sample_group empty_scylla
      _ sample_group_db sample_sanitized_db "sample_io (sample_now + Second)" sample_lease]
    sample_group_success sample_sanitized_row
    sanitize_evolves [of sample_sha sample_group_db Done "\<lparr>SenderUIN = 10, ClientID = ''c2''\<rparr>" 30 "[20, 30]"]
  by (cases "PersistGroup True sample_sha sample_lease (sample_io sample_now) sample_group empty_scylla")
     (auto simp: sample_group_db_def sample_sanitized_db_def sample_group_def)

section \<open>One winner\<close>

text \<open>Also: the final compare-and-set of a message succeeds at most once: after one worker marked the
  receipt stored, holding the lease at that moment, no other owner token or lease can do it again in
  any later state.\<close>

theorem mark_stored_once:
  assumes "\<forall>d. live_evolves sha d (mq_env io d)" and "\<forall>d. live_evolves sha d (mq_env io2 d)"
    and "MarkStored io key owner lease now db = (Inr True, db1)"
    and "live_evolves sha db1 db2"
  shows "now < lease \<and> fst (MarkStored io2 key owner2 lease2 now2 db2) \<noteq> Inr True"
proof
  obtain r where r: "message_ingest db1 key = Some r" "r_state r = IngestStored" and "now < lease"
    using MarkStored_true [OF assms(3)] assms(1) by blast
  show "now < lease" by fact
  obtain r2 where r2: "message_ingest db2 key = Some r2" "row_advance r r2"
    using live_evolves_advance [OF assms(4) r(1)] by blast
  have "state_rank (r_state r2) \<noteq> 1" using r(2) r2(2) by (auto simp: row_advance_def)
  then have "r_state r2 \<noteq> IngestPending" by auto
  with r2(1) show "fst (MarkStored io2 key owner2 lease2 now2 db2) \<noteq> Inr True"
    by (auto simp: MarkStored_def dest!: load_InrD split: sum.split)
qed

definition sample_key :: IngestKey where "sample_key = \<lparr>SenderUIN = 10, ClientID = ''c1''\<rparr>"

definition sample_mark :: mark_io where
  "sample_mark = \<lparr>mq_load = False, mq_update = Done, mq_delete = Done, mq_env = (\<lambda>db. db)\<rparr>"

definition sample_claimed :: scylla where
  "sample_claimed = snd (Claim (pq_claim (sample_io sample_now))
     (direct_proposal sample_sha sample_lease (sample_io sample_now) sample_direct) sample_now empty_scylla)"

lemma sample_mark_stored:
  "fst (MarkStored sample_mark sample_key (replicate 16 7) (sample_now + sample_lease) (sample_now + Second)
     sample_claimed) = Inr True"
  by code_simp

lemma mark_stored_once_witness:
  "\<exists>db1. MarkStored sample_mark sample_key (replicate 16 7) (sample_now + sample_lease) (sample_now + Second)
      sample_claimed = (Inr True, db1) \<and>
    fst (MarkStored sample_mark sample_key (replicate 16 8) (sample_now + sample_lease) (sample_now + Second)
      db1) \<noteq> Inr True"
  using sample_mark_stored
    mark_stored_once [of sample_sha sample_mark sample_mark sample_key "replicate 16 7"
      "sample_now + sample_lease" "sample_now + Second" sample_claimed _ _ "replicate 16 8"
      "sample_now + sample_lease" "sample_now + Second"]
  by (cases "MarkStored sample_mark sample_key (replicate 16 7) (sample_now + sample_lease)
      (sample_now + Second) sample_claimed") (auto simp: sample_mark_def)

section \<open>Rejected and deferred claims\<close>

lemma Claim_existing_row:
  assumes "calm_claim io" and "message_ingest db (ir_Key p) = Some r" and "length (r_hash r) = 32"
  obtains rec where "load False (ir_Key p) db = Inr rec" and "Claim io p now db = claim_existing io p now rec db"
  using assms load_Some [OF assms(2,3)] by (auto simp: Claim_def cql_insert_ingest_def calm_claim_def)

text \<open>Also: reusing a client id for a different message is refused as a conflict, whatever the
  state of the first message, and changes nothing.\<close>

theorem direct_conflict:
  assumes "valid_direct req" and "calm io"
    and "message_ingest db \<lparr>SenderUIN = dq_SenderUIN req, ClientID = dq_ClientID req\<rparr> = Some r"
    and "length (r_hash r) = 32" and "r_state r \<noteq> IngestRecipientErased"
    and "r_kind r = IngestKindGroup \<or> r_hash r \<noteq> sha (dq_Envelope req) \<or>
         r_receiver r \<noteq> dq_ReceiverUIN req \<or> r_conversation r \<noteq> dq_ConversationID req"
  shows "PersistDirect sha lease io req db = ((empty_result, Some ErrIngestConflict), db)"
proof -
  let ?p = "direct_proposal sha lease io req"
  have cc: "calm_claim (pq_claim io)" using assms(2) by (simp add: calm_def)
  have row: "message_ingest db (ir_Key ?p) = Some r" using assms(3) by (simp add: direct_proposal_request)
  obtain rec where ld: "load False (ir_Key ?p) db = Inr rec"
    and cl: "Claim (pq_claim io) ?p (pq_now io) db = claim_existing (pq_claim io) ?p (pq_now io) rec db"
    by (rule Claim_existing_row [OF cc row assms(4)])
  have "\<not> row_for ?p r"
    using assms(6) by (auto simp: row_for_def direct_proposal_def with_expiry_def newIngestRecord_def Let_def)
  with load_InrD [OF ld] row assms(5) have "claim_existing (pq_claim io) ?p (pq_now io) rec db = (Inl ErrIngestConflict, db)"
    by (auto simp: claim_existing_def)
  with cl assms(1) show ?thesis by (simp add: PersistDirect_def)
qed

lemma direct_conflict_witness:
  "PersistDirect sample_sha sample_lease (sample_io sample_now) (sample_direct\<lparr>dq_Envelope := ''other''\<rparr>)
     sample_db = ((empty_result, Some ErrIngestConflict), sample_db)"
proof -
  have "map_option (\<lambda>r. (r_state r, r_hash r)) (message_ingest sample_db sample_key) =
      Some (IngestStored, replicate 32 2)" by code_simp
  then show ?thesis
    using direct_conflict [of "sample_direct\<lparr>dq_Envelope := ''other''\<rparr>" "sample_io sample_now" sample_db _ sample_sha sample_lease]
    by (auto simp: sample_direct_def sample_key_def valid_direct_def sample_sha_def)
qed

text \<open>Also: while another worker holds the lease of a pending message, an attempt is deferred as busy
  and changes nothing.\<close>

theorem direct_busy:
  assumes "valid_direct req" and "calm io"
    and "message_ingest db \<lparr>SenderUIN = dq_SenderUIN req, ClientID = dq_ClientID req\<rparr> = Some r"
    and "row_for (direct_proposal sha lease io req) r"
    and "r_state r = IngestPending" and "pq_now io < r_lease_until r"
  shows "\<exists>res. PersistDirect sha lease io req db = ((res, Some ErrIngestBusy), db) \<and>
    res_MessageID res = r_message_id r \<and> res_CreatedAt res = r_created_at r \<and> \<not> res_Committed res"
proof -
  let ?p = "direct_proposal sha lease io req"
  have cc: "calm_claim (pq_claim io)" using assms(2) by (simp add: calm_def)
  have row: "message_ingest db (ir_Key ?p) = Some r" using assms(3) by (simp add: direct_proposal_request)
  obtain rec where ld: "load False (ir_Key ?p) db = Inr rec"
    and cl: "Claim (pq_claim io) ?p (pq_now io) db = claim_existing (pq_claim io) ?p (pq_now io) rec db"
    by (rule Claim_existing_row [OF cc row row_for_hash [OF assms(4)]])
  have "claim_existing (pq_claim io) ?p (pq_now io) rec db = (Inr (rec, ClaimBusy), db)" "row_ids rec r"
    using load_InrD [OF ld] row assms(4-6) by (auto simp: claim_existing_def)
  with cl assms(1) show ?thesis by (auto simp: PersistDirect_def result_of_def row_ids_def)
qed

lemma direct_busy_witness:
  "\<exists>res. PersistDirect sample_sha sample_lease (sample_io (sample_now + Second)) sample_direct sample_claimed =
     ((res, Some ErrIngestBusy), sample_claimed)"
proof -
  have "map_option (\<lambda>r. (r_state r, row_for (direct_proposal sample_sha sample_lease (sample_io (sample_now + Second)) sample_direct) r,
      r_lease_until r)) (message_ingest sample_claimed sample_key) =
      Some (IngestPending, True, sample_now + sample_lease)" by code_simp
  then show ?thesis
    using direct_busy [of sample_direct "sample_io (sample_now + Second)" sample_claimed _ sample_sha sample_lease]
    by (auto simp: sample_direct_def sample_key_def valid_direct_def sample_io_def sample_lease_def Second_def
        calm_def calm_claim_def id_def)
qed

section \<open>A fresh message\<close>

lemma cql_ts_effective: "cql_ts (effectiveMessageTTL n) = effectiveMessageTTL n"
  by (simp add: effectiveMessageTTL_eq defaultMessageTTL_def maxMessageTTL_def cql_ts_def trunc_time_def duration_defs)

lemma effectiveMessageTTL_pos: "0 < effectiveMessageTTL n"
  by (simp add: effectiveMessageTTL_eq defaultMessageTTL_def maxMessageTTL_def duration_defs)

lemma direct_proposal_times:
  fixes io :: persist_io
  defines "c \<equiv> trunc_time (pq_now io) Millisecond"
  shows "ir_CreatedAt (direct_proposal sha lease io req) = c"
    and "ir_ExpiresAt (direct_proposal sha lease io req) = c + effectiveMessageTTL (dq_ExpiresInSeconds req)"
    and "ir_LeaseUntil (direct_proposal sha lease io req) =
      min (c + lease) (c + effectiveMessageTTL (dq_ExpiresInSeconds req))"
    and "ir_State (direct_proposal sha lease io req) = IngestPending"
    and "ir_EnvelopeHash (direct_proposal sha lease io req) = sha (dq_Envelope req)"
    and "ir_Envelope (direct_proposal sha lease io req) = dq_Envelope req"
    and "ir_MessageID (direct_proposal sha lease io req) =
      deterministicMessageID sha \<lparr>SenderUIN = dq_SenderUIN req, ClientID = dq_ClientID req\<rparr>"
  using effectiveMessageTTL_pos [of "dq_ExpiresInSeconds req"]
  by (simp_all add: direct_proposal_def with_expiry_def newIngestRecord_def Let_def c_def)

text \<open>Also: the first attempt of a valid message, undisturbed and within its lease, is reported
  stored under the deterministic id and the creation time cut to milliseconds; the receipt is
  stored, the message row, the outbox row (with the original envelope) and every erasure and
  deletion index row of sender and receiver are written, all with a TTL that is positive, reaches
  the expiry and exceeds it by less than a second.\<close>

theorem persist_direct_fresh:
  fixes req :: DurableDirectRequest and io :: persist_io and sha :: "bytes \<Rightarrow> digest"
  defines "key \<equiv> \<lparr>SenderUIN = dq_SenderUIN req, ClientID = dq_ClientID req\<rparr>"
    and "created \<equiv> trunc_time (pq_now io) Millisecond"
    and "expires \<equiv> trunc_time (pq_now io) Millisecond + effectiveMessageTTL (dq_ExpiresInSeconds req)"
    and "i \<equiv> deterministicMessageID sha \<lparr>SenderUIN = dq_SenderUIN req, ClientID = dq_ClientID req\<rparr>"
  assumes "\<forall>x. length (sha x) = 32" and "valid_direct req" and "calm io"
    and "message_ingest db key = None" and "0 < pq_write_now io" and "pq_write_now io < expires"
    and "pq_mark_now io < expires" and "pq_mark_now io < created + lease" and "cql_ts lease = lease"
  shows "\<exists>db' r. PersistDirect sha lease io req db =
      ((\<lparr>res_MessageID = i, res_CreatedAt = created, res_State = IngestStored, res_Committed = True\<rparr>, None), db') \<and>
    message_ingest db' = (message_ingest db)(key \<mapsto> r) \<and> r_state r = IngestStored \<and> r_message_id r = i \<and>
    r_created_at r = created \<and> r_expires_at r = expires \<and>
    messages db' = (messages db)((dq_ConversationID req, created, i) \<mapsto>
      \<lparr>m_sender = dq_SenderUIN req, m_receiver = dq_ReceiverUIN req, m_ciphertext = dq_Ciphertext req,
       m_msg_type = dq_MsgType req, m_expires_at = expires,
       m_ttl = Some (remainingTTLSeconds expires (pq_write_now io))\<rparr>) \<and>
    map_option o_envelope (message_outbox db' (outboxBucket i, created, i)) = Some (dq_Envelope req) \<and>
    (\<forall>u \<in> {dq_SenderUIN req, dq_ReceiverUIN req}.
       (u, key) \<in> message_ingest_erasure_index db' \<and>
       (u, dq_ConversationID req, created, i) \<in> message_deletion_index db' \<and>
       (u, outboxBucket i, created, i) \<in> message_outbox_erasure_index db') \<and>
    0 < remainingTTLSeconds expires (pq_write_now io)"
proof -
  let ?p = "direct_proposal sha lease io req"
  let ?r = "(record_row ?p)\<lparr>r_state := IngestStored, r_stored_at := cql_ts (pq_mark_now io)\<rparr>"
  have ex: "created + effectiveMessageTTL (dq_ExpiresInSeconds req) = expires"
    by (simp add: created_def expires_def)
  note pt = direct_proposal_times [of sha lease io req, folded created_def, unfolded ex]
  have al: "cql_ts created = created" "cql_ts expires = expires" "cql_ts (created + lease) = created + lease"
    using assms(13) cql_ts_aligned cql_ts_add cql_ts_effective
    by (simp_all add: created_def expires_def)
  have cc: "calm_claim (pq_claim io)" and w: "pq_env_write io = id" "pq_write io = Done"
    using assms(7) by (simp_all add: calm_def)
  have key: "ir_Key ?p = key" by (simp add: direct_proposal_request key_def)
  have cl: "Claim (pq_claim io) ?p (pq_now io) db = (Inr (?p, ClaimAcquired),
      db\<lparr>message_ingest := (message_ingest db)(key \<mapsto> record_row ?p),
        message_ingest_erasure_index := (\<lambda>u. (u, key)) ` set (erasureIndexUINs ?p) \<union> message_ingest_erasure_index db\<rparr>)"
    using Claim_fresh [OF cc, of db ?p] assms(8) by (simp add: key)
  have ttl: "0 < remainingTTLSeconds expires (pq_write_now io)"
    using assms(9,10) by (simp add: remainingTTL_pos_iff)
  have fin: "finish_persist io ?p d = (((result_of ?p)\<lparr>res_State := IngestStored, res_Committed := True\<rparr>, None),
      d\<lparr>message_ingest := (message_ingest d)(key \<mapsto> ?r)\<rparr>)"
    if "message_ingest d key = Some (record_row ?p)" for d
    using finish_persist_calm [OF assms(7), of d ?p] that assms(5,11,12) al
    by (simp add: key pt min_def)
  have er: "erasureIndexUINs ?p = dq_SenderUIN req #
      (if dq_ReceiverUIN req \<noteq> dq_SenderUIN req then [dq_ReceiverUIN req] else [])"
    using assms(6) by (auto simp: erasureIndexUINs_def direct_proposal_def with_expiry_def newIngestRecord_def
        Let_def valid_direct_def)
  have idp: "ir_MessageID ?p = i" by (simp add: pt i_def)
  let ?db1 = "db\<lparr>message_ingest := (message_ingest db)(key \<mapsto> record_row ?p),
        message_ingest_erasure_index := (\<lambda>u. (u, key)) ` set (erasureIndexUINs ?p) \<union> message_ingest_erasure_index db\<rparr>"
  let ?db2 = "direct_batch (Some (remainingTTLSeconds expires (pq_write_now io))) (direct_write req ?p) ?db1"
  have wd: "WriteDirect Done (pq_write_now io) (direct_write req ?p) ?db1 = (None, ?db2)"
    using ttl effectiveMessageTTL_pos [of "dq_ExpiresInSeconds req"]
    by (simp add: WriteDirect_def direct_write_def pt Let_def)
  have eq: "PersistDirect sha lease io req db =
      (((result_of ?p)\<lparr>res_State := IngestStored, res_Committed := True\<rparr>, None),
       ?db2\<lparr>message_ingest := (message_ingest ?db2)(key \<mapsto> ?r)\<rparr>)"
    using assms(6) fin [of ?db2] by (simp add: PersistDirect_def cl wd w)
  have out: "out_key i created = (outboxBucket i, created, i)" by (simp add: out_key_def al)
  show ?thesis
    by (intro exI [of _ "?db2\<lparr>message_ingest := (message_ingest ?db2)(key \<mapsto> ?r)\<rparr>"] exI [of _ ?r] conjI,
        simp add: eq result_of_def pt(1) idp)
       (simp_all add: direct_batch_def direct_write_def Let_def out pt(1-6) idp er record_row_def
         al ttl image_iff)
qed

definition sample_result :: DurableIngestResult where
  "sample_result = \<lparr>res_MessageID = deterministicMessageID sample_sha sample_key, res_CreatedAt = sample_now,
     res_State = IngestStored, res_Committed = True\<rparr>"

lemma persist_direct_fresh_witness:
  "\<exists>db'. PersistDirect sample_sha sample_lease (sample_io sample_now) sample_direct empty_scylla =
     ((sample_result, None), db') \<and> (20, sample_key) \<in> message_ingest_erasure_index db'"
proof -
  have "trunc_time sample_now Millisecond = sample_now" "cql_ts sample_lease = sample_lease"
    "effectiveMessageTTL 60 = 60 * Second" by code_simp+
  then show ?thesis
    using persist_direct_fresh [of sample_sha sample_direct "sample_io sample_now" empty_scylla sample_lease]
    by (auto simp: sample_direct_def valid_direct_def sample_io_def calm_def calm_claim_def id_def
        empty_scylla_def sample_now_def sample_lease_def sample_result_def sample_key_def duration_defs)
qed

section \<open>Every call follows the protocol\<close>

text \<open>C24: whatever fails inside a call and whatever other workers that follow the protocol do
  meanwhile, ingesting, marking delivered and the two statements of a panic wipe move each receipt
  only along the transitions of the state machine; in particular a receipt that is still there
  keeps its message id, creation time and expiry, never goes back in state, and never regains a
  wiped recipient.\<close>

theorem ingest_guarantee:
  assumes "\<forall>x. length (sha x) = 32" and "persist_rely (live_evolves sha) io"
    and "\<forall>d. live_evolves sha d (mq_env mio d)"
    and "db' \<in> {snd (PersistDirect sha lease io dreq db), snd (PersistGroup conf sha lease io greq db),
      snd (MarkDelivered mio now k i db), snd (terminalizeIngestReceipt out k db),
      snd (sanitizeGroupIngestRecipients out k u us db)}"
    and "message_ingest db key = Some r"
  shows "live_evolves sha db db' \<and> (\<exists>r'. message_ingest db' key = Some r' \<and> row_advance r r')"
proof -
  have "live_evolves sha db db'"
    using assms(4) live.PersistDirect_rel [OF assms(1,2)] live.PersistGroup_rel [OF assms(1,2)]
      live.MarkDelivered_rel [of sha mio, OF assms(3) [THEN spec]] terminalize_evolves sanitize_evolves
    by auto
  then show ?thesis using live_evolves_advance [OF _ assms(5)] by blast
qed

lemma ingest_guarantee_witness:
  "\<exists>r'. message_ingest (snd (terminalizeIngestReceipt Done sample_key sample_db)) sample_key = Some r' \<and>
     r_created_at r' = sample_now"
proof -
  have "map_option r_created_at (message_ingest sample_db sample_key) = Some sample_now" by code_simp
  then show ?thesis
    using ingest_guarantee [of sample_sha "sample_io sample_now" sample_mark
      "snd (terminalizeIngestReceipt Done sample_key sample_db)" sample_lease sample_direct sample_db True
      sample_group sample_now sample_key "[]" Done 0 "[]" sample_key]
    by (auto simp: row_advance_def sample_mark_def)
qed

section \<open>Delivery\<close>

text \<open>Also: marking a stored, unexpired message delivered succeeds, removes its outbox row, and doing
  it again is accepted and changes nothing.\<close>

theorem mark_delivered_idempotent:
  assumes "message_ingest db key = Some r" and "length (r_hash r) = 32" and "r_state r = IngestStored"
    and "is_zero (r_expires_at r) \<or> now < r_expires_at r"
    and "mio = \<lparr>mq_load = False, mq_update = Done, mq_delete = Done, mq_env = (\<lambda>db. db)\<rparr>"
  shows "\<exists>db'. MarkDelivered mio now key (r_message_id r) db = (None, db') \<and>
    map_option r_state (message_ingest db' key) = Some IngestDelivered \<and>
    (r_kind r = IngestKindDirect \<longrightarrow> message_outbox db' (out_key (r_message_id r) (r_created_at r)) = None) \<and>
    (r_kind r = IngestKindGroup \<longrightarrow> group_message_outbox db' (out_key (r_message_id r) (r_created_at r)) = None) \<and>
    MarkDelivered mio later key (r_message_id r) db' = (None, db')"
  using assms
  by (cases "r_kind r")
     (auto simp: MarkDelivered_def backend_MarkDelivered_def load_def cql_mark_delivered_def
      deleteOutbox_def Let_def out_key_def)

lemma mark_delivered_idempotent_witness:
  "\<exists>db'. MarkDelivered sample_mark sample_now sample_key (deterministicMessageID sample_sha sample_key) sample_db = (None, db') \<and>
     MarkDelivered sample_mark (sample_now + Second) sample_key (deterministicMessageID sample_sha sample_key) db' = (None, db')"
proof -
  have "map_option (\<lambda>r. (r_state r, r_message_id r, length (r_hash r), r_expires_at r)) (message_ingest sample_db sample_key) =
      Some (IngestStored, deterministicMessageID sample_sha sample_key, 32, sample_now + Minute)" by code_simp
  then obtain r where "message_ingest sample_db sample_key = Some r" "r_state r = IngestStored"
    "r_message_id r = deterministicMessageID sample_sha sample_key" "length (r_hash r) = 32"
    "sample_now < r_expires_at r" by (auto simp: duration_defs)
  then show ?thesis
    using mark_delivered_idempotent [of sample_db sample_key r sample_now sample_mark "sample_now + Second"]
    by (auto simp: sample_mark_def)
qed

section \<open>Gaps of erasure and retention\<close>

lemma finish_persist_frame:
  assumes "calm io"
  shows "message_ingest_erasure_index (snd (finish_persist io rec db)) = message_ingest_erasure_index db"
    and "group_messages (snd (finish_persist io rec db)) = group_messages db"
  using assms
  by (simp_all add: finish_persist_def MarkStored_def calm_def cql_mark_stored_def Let_def
      split: sum.split option.split bool.split)

lemma claim_existing_index:
  "calm_claim io \<Longrightarrow>
    message_ingest_erasure_index (snd (claim_existing io p now cur db)) = message_ingest_erasure_index db"
  by (auto simp: claim_existing_def calm_claim_def cql_takeover_def Let_def split: sum.split option.split)

text \<open>Also: only the attempt that inserts a receipt writes its erasure index; an attempt that finds
  the receipt, also one that takes over a lapsed lease and commits the message, leaves the index
  as it is. The witness runs the case where the first attempt failed at the index: the message is
  stored by the second attempt and no index row leads a later wipe to it.\<close>

theorem takeover_keeps_erasure_index:
  assumes "calm io"
    and "message_ingest db \<lparr>SenderUIN = dq_SenderUIN req, ClientID = dq_ClientID req\<rparr> = Some r"
  shows "message_ingest_erasure_index (snd (PersistDirect sha lease io req db)) = message_ingest_erasure_index db"
proof (cases "Claim (pq_claim io) (direct_proposal sha lease io req) (pq_now io) db")
  case (Pair out db1)
  let ?p = "direct_proposal sha lease io req"
  have cc: "calm_claim (pq_claim io)" "pq_env_write io = id" "pq_write io = Done"
    using assms(1) by (simp_all add: calm_def)
  have ix: "message_ingest_erasure_index d = message_ingest_erasure_index db"
    if "claim_existing (pq_claim io) ?p (pq_now io) cur db = (x, d)" for cur x d
    using claim_existing_index [OF cc(1), of ?p "pq_now io" cur db] that by simp
  have "message_ingest_erasure_index db1 = message_ingest_erasure_index db"
    using Pair assms(2) cc(1) ix
    by (auto simp: Claim_def cql_insert_ingest_def direct_proposal_request calm_claim_def Let_def
        simp del: split_paired_All split: sum.splits)
  then show ?thesis
    using Pair cc finish_persist_frame(1) [OF assms(1)]
    by (auto simp: PersistDirect_def WriteDirect_def direct_batch_def Let_def
        split: sum.split ClaimDisposition.split)
qed

definition sample_gap_io :: persist_io where
  "sample_gap_io = (sample_io sample_now)\<lparr>pq_claim := (pq_claim (sample_io sample_now))\<lparr>cq_index := (\<lambda>_. FailedBefore)\<rparr>\<rparr>"

definition sample_gap_db :: scylla where
  "sample_gap_db = snd (PersistDirect sample_sha sample_lease sample_gap_io sample_direct empty_scylla)"

lemma takeover_keeps_erasure_index_witness:
  "fst (PersistDirect sample_sha sample_lease (sample_io (sample_now + sample_lease)) sample_direct sample_gap_db) =
     (sample_result, None) \<and>
   message_ingest_erasure_index (snd (PersistDirect sample_sha sample_lease
     (sample_io (sample_now + sample_lease)) sample_direct sample_gap_db)) = {}"
proof -
  have "map_option r_state (message_ingest sample_gap_db sample_key) = Some IngestPending"
    and e: "message_ingest_erasure_index sample_gap_db = {}"
    and f: "fst (PersistDirect sample_sha sample_lease (sample_io (sample_now + sample_lease)) sample_direct sample_gap_db) =
     (sample_result, None)" by code_simp+
  then obtain r where "message_ingest sample_gap_db
      \<lparr>SenderUIN = dq_SenderUIN sample_direct, ClientID = dq_ClientID sample_direct\<rparr> = Some r"
    by (auto simp: sample_key_def sample_direct_def)
  with e f takeover_keeps_erasure_index [of "sample_io (sample_now + sample_lease)" sample_gap_db sample_direct r]
  show ?thesis by simp
qed

text \<open>Also: a receipt erased by a panic wipe cannot be read back: its hash column is null, so a
  retry of the erased message ends in the hash-length error of \<open>load\<close>, never in the terminal
  \<open>ErrIngestRecipientErased\<close> the claim path has a branch for.\<close>

theorem erased_receipt_unreadable:
  assumes "valid_direct req" and "calm io"
    and "key = \<lparr>SenderUIN = dq_SenderUIN req, ClientID = dq_ClientID req\<rparr>"
    and "message_ingest db key = Some r"
    and "db' = snd (terminalizeIngestReceipt Done key db)"
  shows "map_option r_state (message_ingest db' key) = Some IngestRecipientErased \<and>
    PersistDirect sha lease io req db' = ((empty_result, Some (ErrHashLength 0)), db')"
proof -
  have row: "message_ingest db' key = Some (tombstone r)"
    using assms(4,5) by (simp add: terminalizeIngestReceipt_def took_effect_def)
  have "Claim (pq_claim io) (direct_proposal sha lease io req) (pq_now io) db' = (Inl (ErrHashLength 0), db')"
    using row assms(2,3)
    by (simp add: Claim_def cql_insert_ingest_def load_def tombstone_def calm_def calm_claim_def
        direct_proposal_request)
  with row assms(1) show ?thesis by (simp add: PersistDirect_def tombstone_def)
qed

lemma erased_receipt_unreadable_witness:
  "snd (fst (PersistDirect sample_sha sample_lease (sample_io sample_now) sample_direct
     (snd (terminalizeIngestReceipt Done sample_key sample_db)))) = Some (ErrHashLength 0)"
proof -
  have "map_option r_state (message_ingest sample_db sample_key) = Some IngestStored" by code_simp
  then show ?thesis
    using erased_receipt_unreadable [of sample_direct "sample_io sample_now" sample_key sample_db _ _ sample_sha sample_lease]
    by (auto simp: sample_key_def sample_direct_def valid_direct_def)
qed

text \<open>Also: a group message sent without an explicit lifetime is stored with no TTL and no expiry:
  the bound of \<open>effectiveMessageTTL\<close> reaches its receipt but not the message and outbox rows.\<close>

theorem group_without_ttl_kept:
  fixes req :: DurableGroupRequest and io :: persist_io and sha :: "bytes \<Rightarrow> digest"
  defines "key \<equiv> \<lparr>SenderUIN = gq_SenderUIN req, ClientID = gq_ClientID req\<rparr>"
  assumes "valid_group req" and "calm io" and "message_ingest db key = None"
    and "gq_ExpiresInSeconds req = 0"
  shows "\<exists>m. group_messages (snd (PersistGroup True sha lease io req db))
      (gq_GroupID req, trunc_time (pq_now io) Millisecond, deterministicMessageID sha key) = Some m \<and>
    gm_ciphertext m = gq_Ciphertext req \<and> gm_ttl m = None \<and> gm_expires_at m = zero_time"
proof -
  let ?p = "group_proposal sha lease io req"
  have cc: "calm_claim (pq_claim io)" and w: "pq_env_write io = id" "pq_write io = Done"
    using assms(3) by (simp_all add: calm_def)
  obtain d where cl: "Claim (pq_claim io) ?p (pq_now io) db = (Inr (?p, ClaimAcquired), d)"
    using Claim_fresh [OF cc, of db ?p] assms(4) by (auto simp: group_proposal_request key_def)
  have p: "ir_GroupID ?p = gq_GroupID req" "ir_CreatedAt ?p = trunc_time (pq_now io) Millisecond"
    "ir_MessageID ?p = deterministicMessageID sha key"
    by (simp_all add: group_proposal_def with_expiry_def newIngestRecord_def Let_def key_def)
  have "PersistGroup True sha lease io req db =
      finish_persist io ?p (group_batch None (group_write req ?p) d)"
    using assms(2,5) by (simp add: PersistGroup_def cl w WriteGroup_def group_write_def took_effect_def Let_def)
  then show ?thesis
    by (simp add: finish_persist_frame [OF assms(3)] group_batch_def group_write_def p Let_def cql_ts_aligned)
qed

lemma group_without_ttl_kept_witness:
  "\<exists>m. group_messages (snd (PersistGroup True sample_sha sample_lease (sample_io sample_now) sample_group empty_scylla))
     (replicate 16 3, sample_now, deterministicMessageID sample_sha \<lparr>SenderUIN = 10, ClientID = ''c2''\<rparr>) = Some m \<and>
     gm_ttl m = None"
proof -
  have "trunc_time (pq_now (sample_io sample_now)) Millisecond = sample_now" "valid_group sample_group" by code_simp+
  then show ?thesis
    using group_without_ttl_kept [of sample_group "sample_io sample_now" empty_scylla sample_sha sample_lease]
    by (auto simp: sample_group_def empty_scylla_def)
qed

end
