(* ===== verification/Payloads.thy ===== *)
theory Payloads
  imports Envelope
begin

text \<open>
  The envelope and payload structs of \<^verbatim>\<open>shared/models/envelope.go\<close> and the codec the
  services use to turn them into JSON text and back. The codec (\<^verbatim>\<open>encoding/json\<close> and the UUID
  package) is a record of functions; \<open>codec_ok\<close> is what the services rely on.
\<close>

record Envelope =
  ev_Type :: string
  ev_ID :: string
  ev_TS :: int
  ev_Payload :: bytes

record DirectMessagePayload =
  dp_ConversationID :: string
  dp_SenderUIN :: uin
  dp_ToUIN :: uin
  dp_ReceiverUIN :: uin
  dp_Content :: string
  dp_ContentType :: string
  dp_FileURL :: string
  dp_ClientID :: string
  dp_Ciphertext :: bytes
  dp_MsgType :: string
  dp_ExpiresInSeconds :: int

record GroupMessagePayload =
  gp_GroupID :: string
  gp_SenderUIN :: uin
  gp_Content :: string
  gp_ContentType :: string
  gp_FileURL :: string
  gp_ClientID :: string
  gp_Ciphertext :: bytes
  gp_MsgType :: string
  gp_CryptoVersion :: int
  gp_CryptoEpoch :: int
  gp_ExpiresInSeconds :: int
  gp_RecipientUINs :: "uin list"

record AckPayload =
  ap_MessageID :: string
  ap_State :: string
  ap_RecipientUIN :: uin

type_synonym uuid = "8 word list"

record codec =
  cd_env :: "bytes \<Rightarrow> Envelope option"
  cd_direct :: "bytes \<Rightarrow> DirectMessagePayload option"
  cd_group :: "bytes \<Rightarrow> GroupMessagePayload option"
  cd_ack :: "bytes \<Rightarrow> AckPayload option"
  cd_env_out :: "Envelope \<Rightarrow> bytes"
  cd_group_out :: "GroupMessagePayload \<Rightarrow> bytes"
  cd_ack_out :: "AckPayload \<Rightarrow> bytes"
  cd_uuid :: "string \<Rightarrow> uuid option"
  cd_uuid_out :: "uuid \<Rightarrow> string"

text \<open>A marshalled acknowledgement unmarshals to itself.\<close>

definition codec_ok :: "codec \<Rightarrow> bool" where
  "codec_ok c \<longleftrightarrow> (\<forall>p. cd_ack c (cd_ack_out c p) = Some p)"

text \<open>\<open>NewEnvelope\<close>; \<open>i\<close> and \<open>ts\<close>: the fresh id and the clock. The payloads the services pass
  are structs, which always marshal.\<close>

definition NewEnvelope :: "string \<Rightarrow> int \<Rightarrow> string \<Rightarrow> bytes \<Rightarrow> Envelope" where
  "NewEnvelope i ts envelopeType payload =
     \<lparr>ev_Type = envelopeType, ev_ID = i, ev_TS = ts, ev_Payload = payload\<rparr>"

end
