(* ===== verification/IngestService.thy ===== *)
theory IngestService
  imports IngestFacts Payloads
begin

text \<open>
  The message service's side of durable ingest, \<^verbatim>\<open>message-service/durable_ingest.go\<close>: the handler
  of \<open>ingest.message\<close> requests, the group snapshot, the replay of an outbox row and the handler
  of delivery receipts. Publishing goes to a log of (subject, body, message id); the two group
  tables it reads are the record \<open>group_tables\<close>.
\<close>

section \<open>Definitions\<close>

record group_tables =
  gt_epoch :: "string \<rightharpoonup> int"
  gt_members :: "string \<Rightarrow> uin list"

datatype service_error = BadJSON | ErrStore ingest_error | ErrGroupAuthorization | ErrUnsupported
  | ErrReceipt | ErrReceiptID | ErrPublish

definition canonicalConversationID :: "uin \<Rightarrow> uin \<Rightarrow> string" where
  "canonicalConversationID a b =
     (let (lo, hi) = (if a > b then (b, a) else (a, b)) in ''dm:'' @ itoa lo @ '':'' @ itoa hi)"

text \<open>\<open>pg\<close>: None without a database, Some False when the query fails.\<close>

definition snapshotGroupRecipients ::
  "bool option \<Rightarrow> group_tables \<Rightarrow> string \<Rightarrow> uin \<Rightarrow> int \<Rightarrow> uin list option" where
  "snapshotGroupRecipients pg t groupID sender epoch =
     (case pg of
        None \<Rightarrow> None
      | Some False \<Rightarrow> None
      | Some True \<Rightarrow>
          let recipients = (if gt_epoch t groupID = Some epoch then sort (gt_members t groupID) else []) in
          if \<not> list_ex (\<lambda>u. u = sender) recipients \<or> recipients = [] then None else Some recipients)"

text \<open>The broker: what was published, in order.\<close>

type_synonym broker = "(string \<times> bytes \<times> string) list"

definition PublishDelivery :: "outcome \<Rightarrow> string \<Rightarrow> bytes \<Rightarrow> string \<Rightarrow> broker \<Rightarrow> bool \<times> broker" where
  "PublishDelivery out subject body messageID b =
     (\<not> failed out, if took_effect out then b @ [(subject, body, messageID)] else b)"

record service_io =
  sq_persist :: persist_io
  sq_pg :: "bool option"
  sq_publish :: outcome
  sq_ack_id :: string
  sq_ack_ts :: int

definition valid_direct_payload :: "DirectMessagePayload \<Rightarrow> bool" where
  "valid_direct_payload p \<longleftrightarrow> \<not> (dp_SenderUIN p \<le> 0 \<or> dp_ReceiverUIN p \<le> 0 \<or> dp_ClientID p = [] \<or>
     length (dp_Ciphertext p) = 0 \<or> dp_Content p \<noteq> [])"

definition valid_group_payload :: "GroupMessagePayload \<Rightarrow> bool" where
  "valid_group_payload p \<longleftrightarrow> \<not> (gp_SenderUIN p \<le> 0 \<or> gp_ClientID p = [] \<or>
     length (gp_Ciphertext p) = 0 \<or> gp_Content p \<noteq> [] \<or> gp_CryptoEpoch p \<le> 0)"

definition direct_request :: "bytes \<Rightarrow> DirectMessagePayload \<Rightarrow> DurableDirectRequest" where
  "direct_request raw p =
     \<lparr>dq_SenderUIN = dp_SenderUIN p, dq_ClientID = dp_ClientID p, dq_ReceiverUIN = dp_ReceiverUIN p,
      dq_ConversationID = canonicalConversationID (dp_SenderUIN p) (dp_ReceiverUIN p),
      dq_Envelope = raw, dq_Ciphertext = dp_Ciphertext p, dq_MsgType = dp_MsgType p,
      dq_ExpiresInSeconds = dp_ExpiresInSeconds p\<rparr>"

definition group_request :: "bytes \<Rightarrow> uuid \<Rightarrow> GroupMessagePayload \<Rightarrow> DurableGroupRequest" where
  "group_request raw groupID p =
     \<lparr>gq_SenderUIN = gp_SenderUIN p, gq_ClientID = gp_ClientID p, gq_GroupID = groupID,
      gq_CryptoEpoch = gp_CryptoEpoch p, gq_RecipientUINs = gp_RecipientUINs p, gq_Envelope = raw,
      gq_Ciphertext = gp_Ciphertext p, gq_MsgType = gp_MsgType p,
      gq_ExpiresInSeconds = gp_ExpiresInSeconds p\<rparr>"

text \<open>After the message was persisted: publish it when it is stored, ignore a publish failure,
  and acknowledge.\<close>

definition finish_ingest ::
  "codec \<Rightarrow> service_io \<Rightarrow> Envelope \<Rightarrow> string \<Rightarrow> string \<Rightarrow> uin \<Rightarrow>
    (DurableIngestResult \<times> ingest_error option) \<times> scylla \<Rightarrow> broker \<Rightarrow>
    (service_error + Envelope) \<times> scylla \<times> broker" where
  "finish_ingest c io env clientID subject recipient out b =
     (case out of
        ((result, Some e), db) \<Rightarrow> (Inl (ErrStore e), db, b)
      | ((result, None), db) \<Rightarrow>
          let b' = (if res_State result = IngestStored then
                snd (PublishDelivery (sq_publish io) subject
                  (cd_env_out c \<lparr>ev_Type = ev_Type env, ev_ID = cd_uuid_out c (res_MessageID result),
                     ev_TS = unix_milli (res_CreatedAt result), ev_Payload = ev_Payload env\<rparr>)
                  (cd_uuid_out c (res_MessageID result)) b)
              else b)
          in (Inr (NewEnvelope (sq_ack_id io) (sq_ack_ts io) EnvelopeTypeAck
                (cd_ack_out c \<lparr>ap_MessageID = clientID, ap_State = AckStatePersisted,
                   ap_RecipientUIN = recipient\<rparr>)), db, b'))"

definition processDurableIngest ::
  "codec \<Rightarrow> (bytes \<Rightarrow> digest) \<Rightarrow> duration \<Rightarrow> bool \<Rightarrow> service_io \<Rightarrow> group_tables \<Rightarrow> bytes \<Rightarrow>
    scylla \<Rightarrow> broker \<Rightarrow> (service_error + Envelope) \<times> scylla \<times> broker" where
  "processDurableIngest c sha lease groups io t raw db b =
     (case cd_env c raw of
        None \<Rightarrow> (Inl BadJSON, db, b)
      | Some env \<Rightarrow>
          if ev_Type env = EnvelopeTypeDirect then
            (case cd_direct c (ev_Payload env) of
               None \<Rightarrow> (Inl (ErrStore ErrInvalidIngest), db, b)
             | Some p \<Rightarrow>
                 if \<not> valid_direct_payload p then (Inl (ErrStore ErrInvalidIngest), db, b)
                 else finish_ingest c io env (dp_ClientID p) (''msg.direct.'' @ itoa (dp_ReceiverUIN p))
                   (dp_ReceiverUIN p) (PersistDirect sha lease (sq_persist io) (direct_request raw p) db) b)
          else if ev_Type env = EnvelopeTypeGroup then
            (case cd_group c (ev_Payload env) of
               None \<Rightarrow> (Inl (ErrStore ErrInvalidIngest), db, b)
             | Some p \<Rightarrow>
                 if \<not> valid_group_payload p then (Inl (ErrStore ErrInvalidIngest), db, b)
                 else case (cd_uuid c (gp_GroupID p),
                            snapshotGroupRecipients (sq_pg io) t (gp_GroupID p) (gp_SenderUIN p) (gp_CryptoEpoch p)) of
                   (Some groupID, Some recipients) \<Rightarrow>
                     let p' = p\<lparr>gp_RecipientUINs := recipients\<rparr>;
                         env' = env\<lparr>ev_Payload := cd_group_out c p'\<rparr>
                     in finish_ingest c io env' (gp_ClientID p) (''msg.group.'' @ gp_GroupID p) 0
                          (PersistGroup groups sha lease (sq_persist io)
                             (group_request (cd_env_out c env') groupID p') db) b
                 | _ \<Rightarrow> (Inl ErrGroupAuthorization, db, b))
          else (Inl ErrUnsupported, db, b))"

record OutboxEntry =
  oe_Kind :: IngestKind
  oe_Key :: IngestKey
  oe_MessageID :: uuid
  oe_CreatedAt :: gotime
  oe_ExpiresAt :: gotime
  oe_ReceiverUIN :: uin
  oe_ConversationID :: string
  oe_GroupID :: uuid
  oe_CryptoEpoch :: int
  oe_RecipientUINs :: "uin list"
  oe_Envelope :: bytes
  oe_EnvelopeHash :: digest

definition deliverOutboxEntry ::
  "codec \<Rightarrow> outcome \<Rightarrow> OutboxEntry \<Rightarrow> broker \<Rightarrow> service_error option \<times> broker" where
  "deliverOutboxEntry c out entry b =
     (case cd_env c (oe_Envelope entry) of
        None \<Rightarrow> (Some BadJSON, b)
      | Some env \<Rightarrow>
          let i = cd_uuid_out c (oe_MessageID entry);
              body = cd_env_out c (env\<lparr>ev_ID := i, ev_TS := unix_milli (oe_CreatedAt entry)\<rparr>);
              subject = (case oe_Kind entry of
                  IngestKindDirect \<Rightarrow> ''msg.direct.'' @ itoa (oe_ReceiverUIN entry)
                | IngestKindGroup \<Rightarrow> ''msg.group.'' @ cd_uuid_out c (oe_GroupID entry));
              (ok, b') = PublishDelivery out subject body i b
          in (if ok then None else Some ErrPublish, b'))"

text \<open>\<open>drainPendingOutboxWithTimeout\<close>: \<open>stop i\<close>: the context is done before entry \<open>i\<close>; errors
  of single entries are ignored.\<close>

fun drain_entries :: "codec \<Rightarrow> (nat \<Rightarrow> bool) \<Rightarrow> (nat \<Rightarrow> outcome) \<Rightarrow> nat \<Rightarrow> OutboxEntry list \<Rightarrow> broker \<Rightarrow> broker" where
  "drain_entries c stop out i [] b = b"
| "drain_entries c stop out i (e # es) b =
     (if stop i then b
      else drain_entries c stop out (Suc i) es (snd (deliverOutboxEntry c (out i) e b)))"

definition drainPendingOutboxWithTimeout ::
  "codec \<Rightarrow> (nat \<Rightarrow> bool) \<Rightarrow> (nat \<Rightarrow> outcome) \<Rightarrow> (ingest_error + OutboxEntry list) \<Rightarrow> broker \<Rightarrow> broker" where
  "drainPendingOutboxWithTimeout c stop out fetched b =
     (case fetched of Inl e \<Rightarrow> b | Inr entries \<Rightarrow> drain_entries c stop out 0 entries b)"

record delivery_receipt =
  rc_SenderUIN :: uin
  rc_ClientID :: string
  rc_MessageID :: string

definition processDeliveryAccepted ::
  "(bytes \<Rightarrow> delivery_receipt option) \<Rightarrow> codec \<Rightarrow> mark_io \<Rightarrow> gotime \<Rightarrow> bytes \<Rightarrow> scylla \<Rightarrow>
    service_error option \<times> scylla" where
  "processDeliveryAccepted decode c io now raw db =
     (case decode raw of
        None \<Rightarrow> (Some ErrReceipt, db)
      | Some r \<Rightarrow>
          if rc_SenderUIN r \<le> 0 \<or> rc_ClientID r = [] then (Some ErrReceipt, db)
          else case cd_uuid c (rc_MessageID r) of
            None \<Rightarrow> (Some ErrReceiptID, db)
          | Some i \<Rightarrow>
              (case MarkDelivered io now \<lparr>SenderUIN = rc_SenderUIN r, ClientID = rc_ClientID r\<rparr> i db of
                 (e, db') \<Rightarrow> (map_option ErrStore e, db')))"

section \<open>Sample values\<close>

text \<open>A small codec in which acknowledgements are encoded with unary lengths.\<close>

definition enc_nat :: "nat \<Rightarrow> bytes" where "enc_nat n = replicate n CHR ''1'' @ ''0''"

definition dec_nat :: "bytes \<Rightarrow> nat \<times> bytes" where
  "dec_nat b = (let n = length (takeWhile (\<lambda>ch. ch = CHR ''1'') b) in (n, drop (Suc n) b))"

definition enc_ack :: "AckPayload \<Rightarrow> bytes" where
  "enc_ack p = enc_nat (length (ap_MessageID p)) @ enc_nat (length (ap_State p)) @
     enc_nat (nat (ap_RecipientUIN p)) @ enc_nat (nat (- ap_RecipientUIN p)) @ ap_MessageID p @ ap_State p"

definition dec_ack :: "bytes \<Rightarrow> AckPayload option" where
  "dec_ack b =
     (let (n, b) = dec_nat b; (m, b) = dec_nat b; (x, b) = dec_nat b; (y, b) = dec_nat b
      in Some \<lparr>ap_MessageID = take n b, ap_State = take m (drop n b), ap_RecipientUIN = int x - int y\<rparr>)"

lemma dec_enc_nat: "dec_nat (enc_nat n @ b) = (n, b)"
proof -
  have "takeWhile (\<lambda>ch. ch = CHR ''1'') (enc_nat n @ b) = replicate n CHR ''1''"
    by (induction n) (auto simp: enc_nat_def)
  then show ?thesis by (simp add: dec_nat_def enc_nat_def)
qed

lemma dec_enc_ack: "dec_ack (enc_ack p) = Some p"
  by (simp add: dec_ack_def enc_ack_def dec_enc_nat)

definition sample_env :: Envelope where
  "sample_env = \<lparr>ev_Type = ''message'', ev_ID = [], ev_TS = 0, ev_Payload = ''p''\<rparr>"

definition sample_codec :: codec where
  "sample_codec = \<lparr>cd_env = (\<lambda>b. Some sample_env),
     cd_direct = (\<lambda>b. Some \<lparr>dp_ConversationID = [], dp_SenderUIN = 10, dp_ToUIN = 20, dp_ReceiverUIN = 20,
        dp_Content = [], dp_ContentType = [], dp_FileURL = [], dp_ClientID = ''c1'', dp_Ciphertext = ''x'',
        dp_MsgType = ''signal_message'', dp_ExpiresInSeconds = 0\<rparr>),
     cd_group = (\<lambda>b. Some \<lparr>gp_GroupID = ''g'', gp_SenderUIN = 10, gp_Content = [], gp_ContentType = [], gp_FileURL = [],
        gp_ClientID = ''c2'', gp_Ciphertext = ''x'', gp_MsgType = ''text'', gp_CryptoVersion = 1, gp_CryptoEpoch = 1,
        gp_ExpiresInSeconds = 0, gp_RecipientUINs = []\<rparr>),
     cd_ack = dec_ack, cd_env_out = ev_Payload, cd_group_out = gp_GroupID,
     cd_ack_out = enc_ack, cd_uuid = (\<lambda>s. None), cd_uuid_out = map (\<lambda>w. char_of (unat w))\<rparr>"

definition sample_service_io :: service_io where
  "sample_service_io = \<lparr>sq_persist = \<lparr>pq_now = 1000 * Second, pq_owner = replicate 16 7,
     pq_claim = \<lparr>cq_insert = Done, cq_index = (\<lambda>_. Done), cq_load = False, cq_takeover = Done,
       cq_reload = False, cq_env = (\<lambda>_ db. db)\<rparr>,
     pq_write = Done, pq_write_now = 1000 * Second,
     pq_mark = \<lparr>mq_load = False, mq_update = Done, mq_delete = Done, mq_env = (\<lambda>db. db)\<rparr>,
     pq_mark_now = 1000 * Second, pq_env_write = (\<lambda>db. db), pq_env_mark = (\<lambda>db. db)\<rparr>,
     sq_pg = Some True, sq_publish = FailedBefore, sq_ack_id = ''a'', sq_ack_ts = 5\<rparr>"

section \<open>Properties\<close>

lemma finish_ingest_ack:
  assumes "finish_ingest c io env cid subj rcpt out b = (Inr ack, db', b')"
  shows "\<exists>res. out = ((res, None), db') \<and> ev_Type ack = EnvelopeTypeAck \<and>
    ev_Payload ack = cd_ack_out c \<lparr>ap_MessageID = cid, ap_State = AckStatePersisted, ap_RecipientUIN = rcpt\<rparr>"
  using assms by (auto simp: finish_ingest_def NewEnvelope_def Let_def split: prod.splits option.splits)

lemma commits_row:
  "commits p res db \<Longrightarrow> \<exists>r. message_ingest db (ir_Key p) = Some r \<and> committed r \<and> r_hash r = ir_EnvelopeHash p"
  by (auto simp: commits_def row_for_def)



text \<open>Also: replaying the outbox row of a direct message publishes exactly what its first
  publication carried: same subject, same body, same message id, so the broker can drop the copy.\<close>

theorem replay_equals_first_delivery:
  assumes "cd_env c raw = Some env" and "oe_Kind entry = IngestKindDirect" and "oe_Envelope entry = raw"
    and "oe_ReceiverUIN entry = receiver" and "oe_MessageID entry = res_MessageID res"
    and "oe_CreatedAt entry = res_CreatedAt res" and "res_State res = IngestStored"
    and "sq_publish io = Done"
  shows "deliverOutboxEntry c Done entry [] =
    (None, snd (snd (finish_ingest c io env cid (''msg.direct.'' @ itoa receiver) receiver ((res, None), db) [])))"
  using assms
  by (cases env) (simp add: deliverOutboxEntry_def finish_ingest_def PublishDelivery_def Let_def took_effect_def)

lemma replay_equals_first_delivery_witness:
  "deliverOutboxEntry sample_codec Done
     \<lparr>oe_Kind = IngestKindDirect, oe_Key = \<lparr>SenderUIN = 10, ClientID = ''c1''\<rparr>, oe_MessageID = [1], oe_CreatedAt = 0,
      oe_ExpiresAt = 0, oe_ReceiverUIN = 20, oe_ConversationID = [], oe_GroupID = [], oe_CryptoEpoch = 0,
      oe_RecipientUINs = [], oe_Envelope = ''{}'', oe_EnvelopeHash = []\<rparr> [] =
   (None, snd (snd (finish_ingest sample_codec
     \<lparr>sq_persist = sq_persist sample_service_io, sq_pg = None, sq_publish = Done, sq_ack_id = [], sq_ack_ts = 0\<rparr> sample_env ''c1''
     ''msg.direct.20'' 20 ((\<lparr>res_MessageID = [1], res_CreatedAt = 0, res_State = IngestStored, res_Committed = True\<rparr>, None),
     empty_scylla) [])))"
proof -
  have "''msg.direct.'' @ itoa 20 = ''msg.direct.20''" by code_simp
  then show ?thesis
    using replay_equals_first_delivery [of sample_codec "''{}''" sample_env "\<lparr>oe_Kind = IngestKindDirect,
      oe_Key = \<lparr>SenderUIN = 10, ClientID = ''c1''\<rparr>, oe_MessageID = [1], oe_CreatedAt = 0,
      oe_ExpiresAt = 0, oe_ReceiverUIN = 20, oe_ConversationID = [], oe_GroupID = [], oe_CryptoEpoch = 0,
      oe_RecipientUINs = [], oe_Envelope = ''{}'', oe_EnvelopeHash = []\<rparr>" 20
      "\<lparr>res_MessageID = [1], res_CreatedAt = 0, res_State = IngestStored, res_Committed = True\<rparr>"
      "\<lparr>sq_persist = sq_persist sample_service_io, sq_pg = None, sq_publish = Done, sq_ack_id = [], sq_ack_ts = 0\<rparr>" "''c1''" empty_scylla]
    by (simp add: sample_codec_def)
qed

text \<open>Also: a group message is accepted only at the group's current epoch and only from a member:
  in every other case the request fails and changes nothing, also when it is the retry of a
  message already stored at an earlier epoch.\<close>

theorem group_needs_current_epoch:
  assumes "cd_env c raw = Some env" and "ev_Type env = EnvelopeTypeGroup"
    and "cd_group c (ev_Payload env) = Some p"
    and "gt_epoch t (gp_GroupID p) \<noteq> Some (gp_CryptoEpoch p) \<or> gp_SenderUIN p \<notin> set (gt_members t (gp_GroupID p))"
  shows "\<exists>e. processDurableIngest c sha lease groups io t raw db b = (Inl e, db, b)"
proof -
  have "snapshotGroupRecipients (sq_pg io) t (gp_GroupID p) (gp_SenderUIN p) (gp_CryptoEpoch p) = None"
    using assms(4)
    by (auto simp: snapshotGroupRecipients_def Let_def list_ex_iff split: option.split bool.split)
  then show ?thesis
    using assms(1-3)
    by (auto simp: processDurableIngest_def envelope_types split: option.split)
qed

lemma group_needs_current_epoch_witness:
  "\<exists>e. processDurableIngest (sample_codec\<lparr>cd_env := (\<lambda>b. Some (sample_env\<lparr>ev_Type := EnvelopeTypeGroup\<rparr>))\<rparr>)
     (\<lambda>x. replicate 32 1) 1 True sample_service_io \<lparr>gt_epoch = [''g'' \<mapsto> 2], gt_members = (\<lambda>_. [10, 20])\<rparr>
     ''{}'' empty_scylla [] = (Inl e, empty_scylla, [])"
  by (rule group_needs_current_epoch [where env = "sample_env\<lparr>ev_Type := EnvelopeTypeGroup\<rparr>" and
      p = "the (cd_group sample_codec [])"]) (simp_all add: sample_codec_def sample_env_def)

end
