(* ===== verification/OutboxFetch.thy ===== *)
theory OutboxFetch
  imports IngestService
begin

text \<open>
  The recovery reader of the outbox, \<^verbatim>\<open>message-service/store/durable_outbox.go\<close>: the bounded
  round-robin fetch over the fixed buckets with one page cursor per bucket and kind, and the two
  bucket queries. A query reads a table given as its rows in clustering order
  (\<open>created_at\<close>, \<open>message_id\<close>).
\<close>

section \<open>Bucket queries\<close>

definition maxPendingOutboxFetch :: nat where "maxPendingOutboxFetch = 100"

datatype outbox_error = ErrInvalidOutboxLimit | ErrOutboxHash nat | ErrOutboxIteration

text \<open>\<open>outboxPageCursor\<close>: None stands for \<open>Valid = false\<close>.\<close>

type_synonym page_cursor = "(gotime \<times> uuid) option"

fun uuid_less :: "uuid \<Rightarrow> uuid \<Rightarrow> bool" where
  "uuid_less [] ys \<longleftrightarrow> ys \<noteq> []"
| "uuid_less (x # xs) [] \<longleftrightarrow> False"
| "uuid_less (x # xs) (y # ys) \<longleftrightarrow> x < y \<or> x = y \<and> uuid_less xs ys"

definition after_cursor :: "page_cursor \<Rightarrow> gotime \<times> uuid \<Rightarrow> bool" where
  "after_cursor c k \<longleftrightarrow>
     (case c of None \<Rightarrow> True
      | Some (t, i) \<Rightarrow> t < fst k \<or> t = fst k \<and> uuid_less i (snd k))"

type_synonym outbox_table = "(outbox_key \<times> outbox_row) list"

definition select_bucket ::
  "nat \<Rightarrow> page_cursor \<Rightarrow> nat \<Rightarrow> outbox_table \<Rightarrow> outbox_table" where
  "select_bucket bucket after lim t =
     take lim (filter (\<lambda>((b, k), r). b = bucket \<and> after_cursor after k) t)"

definition outbox_entry :: "IngestKind \<Rightarrow> outbox_key \<times> outbox_row \<Rightarrow> OutboxEntry" where
  "outbox_entry kind x =
     (case x of ((b, created, i), r) \<Rightarrow>
        \<lparr>oe_Kind = kind, oe_Key = \<lparr>SenderUIN = o_sender r, ClientID = o_client r\<rparr>, oe_MessageID = i,
         oe_CreatedAt = created, oe_ExpiresAt = o_expires_at r, oe_ReceiverUIN = o_receiver r,
         oe_ConversationID = o_conversation r, oe_GroupID = o_group r, oe_CryptoEpoch = o_epoch r,
         oe_RecipientUINs = o_recipients r, oe_Envelope = o_envelope r, oe_EnvelopeHash = o_hash r\<rparr>)"

text \<open>The scan loop of both queries: \<open>finishOutboxRow\<close>, then the expiry filter.\<close>

fun scan_rows :: "IngestKind \<Rightarrow> gotime \<Rightarrow> outbox_table \<Rightarrow> outbox_error + OutboxEntry list" where
  "scan_rows kind now [] = Inr []"
| "scan_rows kind now (x # xs) =
     (if length (o_hash (snd x)) \<noteq> 32 then Inl (ErrOutboxHash (length (o_hash (snd x))))
      else case scan_rows kind now xs of
        Inl e \<Rightarrow> Inl e
      | Inr rows \<Rightarrow>
          if is_zero (o_expires_at (snd x)) \<or> o_expires_at (snd x) > now
          then Inr (outbox_entry kind x # rows) else Inr rows)"

definition fetchBucket ::
  "IngestKind \<Rightarrow> bool \<Rightarrow> gotime \<Rightarrow> outbox_table \<Rightarrow> nat \<Rightarrow> page_cursor \<Rightarrow> nat \<Rightarrow> outbox_error + OutboxEntry list" where
  "fetchBucket kind ok now t bucket after lim =
     (case scan_rows kind now (select_bucket bucket after lim t) of
        Inl e \<Rightarrow> Inl e
      | Inr rows \<Rightarrow> if ok then Inr rows else Inl ErrOutboxIteration)"

section \<open>The round-robin fetch\<close>

type_synonym reader = "IngestKind \<Rightarrow> nat \<Rightarrow> page_cursor \<Rightarrow> nat \<Rightarrow> outbox_error + OutboxEntry list"

record outboxFetchCursor =
  fc_next :: "32 word"
  fc_pages :: "page_cursor list"

definition fresh_cursor :: outboxFetchCursor where
  "fresh_cursor = \<lparr>fc_next = 0, fc_pages = replicate (2 * outboxBucketCount) None\<rparr>"

definition kind_index :: "IngestKind \<Rightarrow> nat" where
  "kind_index k = (case k of IngestKindDirect \<Rightarrow> 0 | IngestKindGroup \<Rightarrow> 1)"

definition bucket_kinds :: "nat \<Rightarrow> IngestKind list" where
  "bucket_kinds bucket =
     (if bucket mod 2 = 1 then [IngestKindGroup, IngestKindDirect] else [IngestKindDirect, IngestKindGroup])"

definition next_page :: "OutboxEntry list \<Rightarrow> page_cursor" where
  "next_page rows = (if rows = [] then None else Some (oe_CreatedAt (last rows), oe_MessageID (last rows)))"

text \<open>The inner loop: the two kinds of one bucket. The pages and the rows found so far are
  returned also on an error, since the source has stored the cursors it passed.\<close>

primrec fetch_kinds ::
  "reader \<Rightarrow> nat \<Rightarrow> nat \<Rightarrow> IngestKind list \<Rightarrow> nat \<Rightarrow> page_cursor list \<Rightarrow> OutboxEntry list \<Rightarrow>
    outbox_error option \<times> page_cursor list \<times> OutboxEntry list" where
  "fetch_kinds rd lim bucket [] remaining pages result = (None, pages, result)"
| "fetch_kinds rd lim bucket (kind # kinds) remaining pages result =
     (let fetchLimit = min remaining (lim - length result) in
      if fetchLimit = 0 then (None, pages, result)
      else
        let pageIndex = bucket * 2 + kind_index kind in
        case rd kind bucket (pages ! pageIndex) fetchLimit of
          Inl e \<Rightarrow> (Some e, pages, result)
        | Inr rows \<Rightarrow>
            let rows = take fetchLimit rows in
            fetch_kinds rd lim bucket kinds (remaining - length rows)
              (pages[pageIndex := next_page rows]) (result @ rows))"

fun fetch_buckets ::
  "reader \<Rightarrow> nat \<Rightarrow> nat \<Rightarrow> nat list \<Rightarrow> page_cursor list \<times> OutboxEntry list \<Rightarrow>
    outbox_error option \<times> page_cursor list \<times> OutboxEntry list" where
  "fetch_buckets rd lim perBucket [] st = (None, st)"
| "fetch_buckets rd lim perBucket (bucket # bs) st =
     (if \<not> length (snd st) < lim then (None, st)
      else case fetch_kinds rd lim bucket (bucket_kinds bucket) perBucket (fst st) (snd st) of
        (Some e, st') \<Rightarrow> (Some e, st')
      | (None, st') \<Rightarrow> fetch_buckets rd lim perBucket bs st')"

definition fetch ::
  "reader \<Rightarrow> int \<Rightarrow> outboxFetchCursor \<Rightarrow> (outbox_error + OutboxEntry list) \<times> outboxFetchCursor" where
  "fetch rd lim c =
     (if lim \<le> 0 then (Inl ErrInvalidOutboxLimit, c)
      else
        let lim = min (nat lim) maxPendingOutboxFetch;
            start = unat (fc_next c) mod outboxBucketCount;
            perBucket = (lim + outboxBucketCount - 1) div outboxBucketCount;
            order = map (\<lambda>offset. (start + offset) mod outboxBucketCount) [0..<outboxBucketCount]
        in case fetch_buckets rd lim perBucket order (fc_pages c, []) of
             (err, pages, result) \<Rightarrow>
               (case err of Some e \<Rightarrow> Inl e | None \<Rightarrow> Inr result,
                c\<lparr>fc_next := fc_next c + 1, fc_pages := pages\<rparr>))"

definition FetchPending ::
  "bool \<Rightarrow> gotime \<Rightarrow> outbox_table \<Rightarrow> outbox_table \<Rightarrow> int \<Rightarrow> outboxFetchCursor \<Rightarrow>
    (outbox_error + OutboxEntry list) \<times> outboxFetchCursor" where
  "FetchPending ok now direct groupT lim c =
     fetch (\<lambda>kind. fetchBucket kind ok now (case kind of IngestKindDirect \<Rightarrow> direct | IngestKindGroup \<Rightarrow> groupT)) lim c"

section \<open>Bounds\<close>

lemma length_scan_rows: "scan_rows kind now xs = Inr rows \<Longrightarrow> length rows \<le> length xs"
  by (induction xs arbitrary: rows) (auto split: if_splits sum.splits intro: le_SucI)

lemma fetch_kinds_step:
  assumes "fetch_kinds rd lim bucket (kind # kinds) rem pages result = (err, pages', result')"
  defines "fl \<equiv> min rem (lim - length result)" and "pi \<equiv> bucket * 2 + kind_index kind"
  obtains (stop) "pages' = pages" "result' = result"
  | (rows) rows where "rd kind bucket (pages ! pi) fl = Inr rows" "0 < fl" "length (take fl rows) \<le> fl"
      "fetch_kinds rd lim bucket kinds (rem - length (take fl rows)) (pages[pi := next_page (take fl rows)])
        (result @ take fl rows) = (err, pages', result')"
proof (cases "fl = 0 \<or> (\<exists>e. rd kind bucket (pages ! pi) fl = Inl e)")
  case True
  have "(if fl = 0 then (None, pages, result) else case rd kind bucket (pages ! pi) fl of
      Inl e \<Rightarrow> (Some e, pages, result)
    | Inr rows \<Rightarrow> fetch_kinds rd lim bucket kinds (rem - length (take fl rows))
        (pages[pi := next_page (take fl rows)]) (result @ take fl rows)) = (err, pages', result')"
    using assms(1) by (simp only: fetch_kinds.simps Let_def fl_def [symmetric] pi_def [symmetric])
  with True have "pages' = pages" "result' = result" by (auto split: if_splits)
  then show ?thesis by (rule stop)
next
  case False
  then obtain rows where r: "rd kind bucket (pages ! pi) fl = Inr rows" and z: "(fl = 0) = False"
    by (cases "rd kind bucket (pages ! pi) fl") auto
  have "fetch_kinds rd lim bucket kinds (rem - length (take fl rows)) (pages[pi := next_page (take fl rows)])
        (result @ take fl rows) = (err, pages', result')"
    using assms(1)
    by (simp only: fetch_kinds.simps Let_def fl_def [symmetric] pi_def [symmetric] r z if_False sum.case)
  with r z show ?thesis by (intro rows) simp_all
qed

lemma fetch_kinds_len:
  "fetch_kinds rd lim bucket kinds rem pages result = (err, pages', result') \<Longrightarrow> length result \<le> lim \<Longrightarrow>
     length result' \<le> lim \<and> length result' \<le> length result + rem \<and> length pages' = length pages"
proof (induction kinds arbitrary: rem pages result)
  case (Cons kind kinds)
  from Cons.prems(1) show ?case
  proof (cases rule: fetch_kinds_step)
    case stop
    with Cons.prems show ?thesis by simp
  next
    case (rows rows)
    let ?r = "take (min rem (lim - length result)) rows"
    have "length (result @ ?r) \<le> lim" using rows(3) Cons.prems(2) by simp
    from Cons.IH [OF rows(4) this] rows(3) show ?thesis by (simp del: length_take)
  qed
qed simp

lemma fetch_buckets_len:
  "fetch_buckets rd lim per bs st = (err, st') \<Longrightarrow> length (snd st) \<le> lim \<Longrightarrow>
     length (snd st') \<le> lim \<and> length (fst st') = length (fst st)"
proof (induction rd lim per bs st arbitrary: err st' rule: fetch_buckets.induct)
  case (2 rd lim per bucket bs st)
  show ?case
  proof (cases "length (snd st) < lim")
    case True
    obtain e pages result where k: "fetch_kinds rd lim bucket (bucket_kinds bucket) per (fst st) (snd st) = (e, pages, result)"
      by (metis prod_cases3)
    from fetch_kinds_len [OF k "2.prems"(2)] "2.prems" "2.IH" [OF _ k [symmetric], of err st'] True k show ?thesis
      by (cases e) auto
  qed (use "2.prems" in auto)
qed auto

lemma fetch_kinds_source:
  "fetch_kinds rd lim bucket kinds rem pages result = (err, pages', result') \<Longrightarrow> x \<in> set result' \<Longrightarrow>
     x \<in> set result \<or> (\<exists>kind b a l rows. rd kind b a l = Inr rows \<and> x \<in> set rows)"
proof (induction kinds arbitrary: rem pages result)
  case (Cons kind kinds)
  from Cons.prems(1) show ?case
  proof (cases rule: fetch_kinds_step)
    case (rows rows)
    from Cons.IH [OF rows(4) Cons.prems(2)] rows(1) show ?thesis by (auto dest: in_set_takeD)
  qed (use Cons.prems in simp)
qed simp

lemma fetch_buckets_source:
  "fetch_buckets rd lim per bs st = (err, pages', result') \<Longrightarrow> x \<in> set result' \<Longrightarrow>
     x \<in> set (snd st) \<or> (\<exists>kind b a l rows. rd kind b a l = Inr rows \<and> x \<in> set rows)"
proof (induction bs arbitrary: st)
  case (Cons bucket bs)
  obtain e pages result where k: "fetch_kinds rd lim bucket (bucket_kinds bucket) per (fst st) (snd st) = (e, pages, result)"
    by (metis prod_cases3)
  from fetch_kinds_source [OF k, of x] Cons k show ?case
    by (cases e) (fastforce split: if_splits)+
qed auto

lemma scan_rows_source:
  "scan_rows kind now xs = Inr rows \<Longrightarrow> e \<in> set rows \<Longrightarrow>
     \<exists>x \<in> set xs. e = outbox_entry kind x \<and> length (o_hash (snd x)) = 32 \<and>
       (is_zero (o_expires_at (snd x)) \<or> now < o_expires_at (snd x))"
  by (induction xs arbitrary: rows) (auto split: if_splits sum.splits)

section \<open>Properties of the fetch\<close>

text \<open>Also: a recovery fetch with a positive limit returns at most that many entries and never more
  than a hundred; each is a row of one of the two outbox tables with a full-length hash, and none
  has expired. The page cursors stay one per bucket and kind.\<close>

theorem fetch_pending_sound:
  assumes "FetchPending ok now direct groupT lim c = (Inr rows, c')"
  shows "0 < lim \<and> length rows \<le> min (nat lim) 100 \<and> length (fc_pages c') = length (fc_pages c) \<and>
    (\<forall>e \<in> set rows. \<exists>x \<in> set direct \<union> set groupT. \<exists>kind. e = outbox_entry kind x \<and>
       length (o_hash (snd x)) = 32 \<and> (is_zero (o_expires_at (snd x)) \<or> now < o_expires_at (snd x)))"
proof -
  let ?rd = "\<lambda>kind. fetchBucket kind ok now (case kind of IngestKindDirect \<Rightarrow> direct | IngestKindGroup \<Rightarrow> groupT)"
  have pos: "0 < lim" using assms by (auto simp: FetchPending_def fetch_def split: if_splits)
  obtain per order pages where fb: "fetch_buckets ?rd (min (nat lim) 100) per order (fc_pages c, []) = (None, pages, rows)"
    and c': "c' = c\<lparr>fc_next := fc_next c + 1, fc_pages := pages\<rparr>"
    using assms pos by (auto simp: FetchPending_def fetch_def maxPendingOutboxFetch_def Let_def split: prod.splits option.splits)
  have src: "\<exists>x \<in> set direct \<union> set groupT. \<exists>kind. e = outbox_entry kind x \<and>
       length (o_hash (snd x)) = 32 \<and> (is_zero (o_expires_at (snd x)) \<or> now < o_expires_at (snd x))"
    if el: "e \<in> set rows" for e
  proof -
    obtain kind b a l rs where rs: "?rd kind b a l = Inr rs" "e \<in> set rs"
      using fetch_buckets_source [OF fb el] by auto
    then have "scan_rows kind now (select_bucket b a l (case kind of IngestKindDirect \<Rightarrow> direct | IngestKindGroup \<Rightarrow> groupT)) = Inr rs"
      by (auto simp: fetchBucket_def split: sum.splits if_splits)
    from scan_rows_source [OF this rs(2)] show ?thesis
      by (cases kind) (auto simp: select_bucket_def dest!: in_set_takeD)
  qed
  from fetch_buckets_len [OF fb] c' pos src show ?thesis by auto
qed

definition sample_outbox_row :: "gotime \<Rightarrow> outbox_row" where
  "sample_outbox_row e = \<lparr>o_receiver = 20, o_group = zero_uuid, o_sender = 10, o_client = ''c1'', o_conversation = ''dm:10:20'',
     o_epoch = 0, o_recipients = [], o_envelope = ''{}'', o_hash = replicate 32 1, o_expires_at = e, o_ttl = None\<rparr>"

definition sample_outbox :: outbox_table where
  "sample_outbox = map (\<lambda>n. ((0, int n, [of_nat n]), sample_outbox_row 1000)) [0..<10]"

definition sample_fetch :: "(outbox_error + OutboxEntry list) \<times> outboxFetchCursor" where
  "sample_fetch = FetchPending True 5 sample_outbox [] 100 fresh_cursor"

lemma fetch_pending_sound_witness:
  "\<exists>rows c'. sample_fetch = (Inr rows, c') \<and> length rows \<le> 100 \<and> length (fc_pages c') = 32"
proof -
  have "case fst sample_fetch of Inl e \<Rightarrow> False | Inr rows \<Rightarrow> length rows = 7" by code_simp
  then obtain rows where "fst sample_fetch = Inr rows" by (cases "fst sample_fetch") auto
  then obtain c' where "sample_fetch = (Inr rows, c')" by (metis prod.collapse)
  then show ?thesis
    using fetch_pending_sound [of True 5 sample_outbox "[]" 100 fresh_cursor rows c']
    by (auto simp: sample_fetch_def fresh_cursor_def outboxBucketCount_def)
qed

section \<open>A sweep of one page visits every row\<close>

definition key_less :: "gotime \<times> uuid \<Rightarrow> gotime \<times> uuid \<Rightarrow> bool" where
  "key_less a b \<longleftrightarrow> after_cursor (Some a) b"

lemma uuid_less_irrefl: "\<not> uuid_less x x"
  by (induction x) auto

lemma uuid_less_asym: "uuid_less x y \<Longrightarrow> \<not> uuid_less y x"
proof (induction x y rule: uuid_less.induct)
  case (1 ys)
  then show ?case by (cases ys) auto
qed auto

lemma key_less_asym: "key_less a b \<Longrightarrow> \<not> key_less b a"
  by (auto simp: key_less_def after_cursor_def dest: uuid_less_asym split: prod.splits)

lemma key_less_irrefl: "\<not> key_less a a"
  using key_less_asym by blast

lemma filter_after:
  assumes "sorted_wrt (\<lambda>x y. key_less (f x) (f y)) xs" and "i < length xs"
  shows "filter (\<lambda>x. key_less (f (xs ! i)) (f x)) xs = drop (Suc i) xs"
proof -
  have "xs = take (Suc i) xs @ drop (Suc i) xs" by simp
  moreover have "filter (\<lambda>x. key_less (f (xs ! i)) (f x)) (take (Suc i) xs) = []"
  proof -
    have "\<not> key_less (f (xs ! i)) (f (xs ! j))" if "j \<le> i" for j
      using that assms sorted_wrt_nth_less [OF assms(1), of j i] key_less_asym key_less_irrefl
      by (cases "j = i") auto
    then show ?thesis using assms(2) by (auto simp: filter_empty_conv in_set_conv_nth)
  qed
  moreover have "filter (\<lambda>x. key_less (f (xs ! i)) (f x)) (drop (Suc i) xs) = drop (Suc i) xs"
  proof -
    have "key_less (f (xs ! i)) (f (xs ! j))" if "i < j" "j < length xs" for j
      using sorted_wrt_nth_less [OF assms(1) that] .
    then show ?thesis by (auto simp: filter_id_conv in_set_conv_nth)
  qed
  ultimately show ?thesis by (metis append_Nil filter_append)
qed

text \<open>A page is pending when its rows are unexpired and have full-length hashes.\<close>

definition pending_page :: "gotime \<Rightarrow> nat \<Rightarrow> outbox_table \<Rightarrow> bool" where
  "pending_page now bucket t \<longleftrightarrow>
     sorted_wrt (\<lambda>x y. key_less (snd (fst x)) (snd (fst y))) (filter (\<lambda>x. fst (fst x) = bucket) t) \<and>
     (\<forall>x \<in> set t. length (o_hash (snd x)) = 32 \<and> (is_zero (o_expires_at (snd x)) \<or> now < o_expires_at (snd x)))"

lemma scan_rows_pending:
  "\<forall>x \<in> set xs. length (o_hash (snd x)) = 32 \<and> (is_zero (o_expires_at (snd x)) \<or> now < o_expires_at (snd x)) \<Longrightarrow>
     scan_rows kind now xs = Inr (map (outbox_entry kind) xs)"
  by (induction xs) auto

text \<open>Successive fetches of one page, each starting at the cursor the previous one left.\<close>

fun page_fetches :: "IngestKind \<Rightarrow> gotime \<Rightarrow> outbox_table \<Rightarrow> nat \<Rightarrow> page_cursor \<Rightarrow> nat list \<Rightarrow> OutboxEntry list list" where
  "page_fetches kind now t bucket cur [] = []"
| "page_fetches kind now t bucket cur (l # ls) =
     (case fetchBucket kind True now t bucket cur l of
        Inl e \<Rightarrow> []
      | Inr rows \<Rightarrow> rows # page_fetches kind now t bucket (next_page rows) ls)"

definition at_position :: "(outbox_key \<times> outbox_row) list \<Rightarrow> nat \<Rightarrow> page_cursor \<Rightarrow> bool" where
  "at_position rows i cur \<longleftrightarrow> (if i = 0 then cur = None else i \<le> length rows \<and> cur = Some (snd (fst (rows ! (i - 1)))))"

lemma fetchBucket_at:
  assumes "pending_page now bucket t" and "at_position (filter (\<lambda>x. fst (fst x) = bucket) t) i cur"
  shows "fetchBucket kind True now t bucket cur l =
    Inr (map (outbox_entry kind) (take l (drop i (filter (\<lambda>x. fst (fst x) = bucket) t))))"
proof -
  let ?rows = "filter (\<lambda>x. fst (fst x) = bucket) t"
  have "filter (\<lambda>((b, k), r). b = bucket \<and> after_cursor cur k) t = filter (\<lambda>x. after_cursor cur (snd (fst x))) ?rows"
    by (simp add: split_def conj_commute)
  also have "\<dots> = drop i ?rows"
  proof (cases i)
    case 0
    with assms(2) show ?thesis by (simp add: at_position_def after_cursor_def)
  next
    case (Suc k)
    then have "k < length ?rows" "cur = Some (snd (fst (?rows ! k)))"
      using assms(2) by (auto simp: at_position_def)
    then show ?thesis
      using filter_after [of "\<lambda>x. snd (fst x)" ?rows k] assms(1) Suc
      by (simp add: pending_page_def key_less_def del: filter_filter)
  qed
  finally have sel: "select_bucket bucket cur l t = take l (drop i ?rows)"
    by (simp add: select_bucket_def)
  have "\<forall>x \<in> set (take l (drop i ?rows)). length (o_hash (snd x)) = 32 \<and>
      (is_zero (o_expires_at (snd x)) \<or> now < o_expires_at (snd x))"
    using assms(1) by (auto simp: pending_page_def dest!: in_set_takeD in_set_dropD)
  from scan_rows_pending [OF this] show ?thesis by (simp add: fetchBucket_def sel)
qed

lemma next_page_at:
  assumes "take l (drop i rows) \<noteq> []"
  shows "at_position rows (i + length (take l (drop i rows))) (next_page (map (outbox_entry kind) (take l (drop i rows))))"
proof -
  let ?p = "take l (drop i rows)"
  have n: "0 < length ?p" using assms by simp
  have "last ?p = rows ! (i + length ?p - 1)"
    using n by (subst last_conv_nth [OF assms]) auto
  moreover have "i + length ?p \<le> length rows" using n by auto
  ultimately show ?thesis
    using assms by (auto simp: at_position_def next_page_def last_map outbox_entry_def split: prod.split)
qed

lemma page_fetches_from:
  assumes "pending_page now bucket t" and "at_position (filter (\<lambda>x. fst (fst x) = bucket) t) i cur"
    and "\<forall>l \<in> set ls. 0 < l" and "i \<le> length (filter (\<lambda>x. fst (fst x) = bucket) t)"
    and "i + sum_list ls \<le> length (filter (\<lambda>x. fst (fst x) = bucket) t)"
  shows "concat (page_fetches kind now t bucket cur ls) =
    map (outbox_entry kind) (take (sum_list ls) (drop i (filter (\<lambda>x. fst (fst x) = bucket) t)))"
  using assms
proof (induction ls arbitrary: i cur)
  case (Cons l ls)
  let ?rows = "filter (\<lambda>x. fst (fst x) = bucket) t"
  let ?p = "take l (drop i ?rows)"
  have len: "length ?p = l" using Cons.prems(5) by simp
  then have ne: "?p \<noteq> []" using Cons.prems(3) by auto
  note f = fetchBucket_at [OF Cons.prems(1,2), of kind l]
  have "concat (page_fetches kind now t bucket (next_page (map (outbox_entry kind) ?p)) ls) =
      map (outbox_entry kind) (take (sum_list ls) (drop (i + l) ?rows))"
    using Cons.IH [OF Cons.prems(1) next_page_at [OF ne, of kind]] Cons.prems(3,5) len by simp
  with f show ?case by (simp add: take_add add.commute del: filter_filter)
qed simp



end
