(* ===== verification/Encoding.thy ===== *)
theory Encoding
  imports Prelude
begin

text \<open>
  The parts of Go's \<open>strings\<close>, \<open>strconv\<close> and \<open>encoding/base64\<close> the authentication code uses:
  \<open>Split\<close>, \<open>Cut\<close>, \<open>ParseUint\<close> and the two unpadded base64 encodings, with their round trips.
\<close>

section \<open>Splitting\<close>

text \<open>\<open>strings.Split\<close> with a one-character separator.\<close>

primrec split_on :: "char \<Rightarrow> string \<Rightarrow> string list" where
  "split_on c [] = [[]]"
| "split_on c (x # xs) =
     (if x = c then [] # split_on c xs
      else case split_on c xs of [] \<Rightarrow> [[x]] | p # ps \<Rightarrow> (x # p) # ps)"

lemma split_on_nonempty [simp]: "split_on c xs \<noteq> []"
  by (cases xs) (auto split: list.splits)

lemma split_on_none: "c \<notin> set p \<Longrightarrow> split_on c p = [p]"
  by (induction p) auto

lemma split_on_field: "c \<notin> set p \<Longrightarrow> split_on c (p @ c # rest) = p # split_on c rest"
  by (induction p) auto

text \<open>\<open>strings.Cut\<close>: the parts around the first separator, if there is one.\<close>

definition cut :: "char \<Rightarrow> string \<Rightarrow> (string \<times> string) option" where
  "cut c s = (case dropWhile (\<lambda>x. x \<noteq> c) s of [] \<Rightarrow> None | y # ys \<Rightarrow> Some (takeWhile (\<lambda>x. x \<noteq> c) s, ys))"

lemma cut_field:
  assumes "c \<notin> set p" shows "cut c (p @ c # rest) = Some (p, rest)"
proof -
  have "\<forall>x \<in> set p. x \<noteq> c" using assms by auto
  then show ?thesis by (simp add: cut_def dropWhile_append2 takeWhile_append2)
qed

section \<open>Decimal numbers\<close>

definition digit_value :: "char \<Rightarrow> nat option" where
  "digit_value ch = (let n = of_char ch :: nat in if 48 \<le> n \<and> n \<le> 57 then Some (n - 48) else None)"

primrec parse_digits :: "nat \<Rightarrow> string \<Rightarrow> nat option" where
  "parse_digits acc [] = Some acc"
| "parse_digits acc (x # xs) =
     (case digit_value x of None \<Rightarrow> None | Some d \<Rightarrow> parse_digits (10 * acc + d) xs)"

text \<open>\<open>strconv.ParseUint(s, 10, bits)\<close>\<close>

definition ParseUint :: "nat \<Rightarrow> string \<Rightarrow> nat option" where
  "ParseUint bits s =
     (if s = [] then None
      else case parse_digits 0 s of None \<Rightarrow> None | Some n \<Rightarrow> if n < 2 ^ bits then Some n else None)"

lemma digit_value_digit [simp]: "digit_value (digit n) = Some (n mod 10)"
proof -
  have "n mod 10 < 10" by simp
  then show ?thesis unfolding digit_value_def Let_def digit_code by simp
qed

lemma parse_digits_append:
  "parse_digits acc (xs @ ys) = (case parse_digits acc xs of None \<Rightarrow> None | Some n \<Rightarrow> parse_digits n ys)"
  by (induction xs arbitrary: acc) (auto split: option.splits)

lemma parse_decimal: "parse_digits 0 (decimal n) = Some n"
proof (induction n rule: decimal.induct)
  case (1 n)
  show ?case
  proof (cases "n < 10")
    case True
    then show ?thesis by (subst decimal.simps) simp
  next
    case False
    with 1 show ?thesis by (subst decimal.simps) (simp add: parse_digits_append)
  qed
qed

lemma ParseUint_decimal: "n < 2 ^ bits \<Longrightarrow> ParseUint bits (decimal n) = Some n"
  by (simp add: ParseUint_def parse_decimal)

lemma ParseUint_bound: "ParseUint bits s = Some n \<Longrightarrow> n < 2 ^ bits"
  by (auto simp: ParseUint_def split: if_splits option.splits)

lemma decimal_avoids:
  assumes "(of_char c :: nat) < 48 \<or> 57 < (of_char c :: nat)"
  shows "c \<notin> set (decimal n)"
proof
  assume "c \<in> set (decimal n)"
  then obtain k where "c = digit k" using decimal_digits by blast
  then have "(of_char c :: nat) = 48 + k mod 10" by simp
  moreover have "k mod 10 < 10" by simp
  ultimately show False using assms by linarith
qed

section \<open>Base64 without padding\<close>

text \<open>\<open>url\<close> selects \<open>RawURLEncoding\<close>, otherwise it is \<open>RawStdEncoding\<close>.\<close>

definition b64_char :: "bool \<Rightarrow> nat \<Rightarrow> char" where
  "b64_char url v = char_of
     (if v < 26 then v + 65 else if v < 52 then v + 71 else if v < 62 then v - 4
      else if v = 62 then (if url then 45 else 43) else (if url then 95 else 47))"

definition b64_value :: "bool \<Rightarrow> char \<Rightarrow> nat option" where
  "b64_value url ch =
     (let n = of_char ch :: nat in
      if 65 \<le> n \<and> n \<le> 90 then Some (n - 65)
      else if 97 \<le> n \<and> n \<le> 122 then Some (n - 71)
      else if 48 \<le> n \<and> n \<le> 57 then Some (n + 4)
      else if n = (if url then 45 else 43) then Some 62
      else if n = (if url then 95 else 47) then Some 63
      else None)"

fun b64_sextets :: "nat list \<Rightarrow> nat list" where
  "b64_sextets [] = []"
| "b64_sextets [a] = [a div 4, a mod 4 * 16]"
| "b64_sextets [a, b] = [a div 4, a mod 4 * 16 + b div 16, b mod 16 * 4]"
| "b64_sextets (a # b # c # r) =
     a div 4 # (a mod 4 * 16 + b div 16) # (b mod 16 * 4 + c div 64) # c mod 64 # b64_sextets r"

text \<open>A lone last character is an error; the spare bits of a short last group are ignored.\<close>

fun b64_octets :: "nat list \<Rightarrow> nat list option" where
  "b64_octets [] = Some []"
| "b64_octets [a] = None"
| "b64_octets [a, b] = Some [a * 4 + b div 16]"
| "b64_octets [a, b, c] = Some [a * 4 + b div 16, b mod 16 * 16 + c div 4]"
| "b64_octets (a # b # c # d # r) =
     map_option (\<lambda>xs. (a * 4 + b div 16) # (b mod 16 * 16 + c div 4) # (c mod 4 * 64 + d) # xs) (b64_octets r)"

definition EncodeToString :: "bool \<Rightarrow> bytes \<Rightarrow> string" where
  "EncodeToString url s = map (b64_char url) (b64_sextets (map of_char s))"

text \<open>The decoder skips carriage returns and newlines.\<close>

definition DecodeString :: "bool \<Rightarrow> string \<Rightarrow> bytes option" where
  "DecodeString url s =
     (case those (map (b64_value url) (filter (\<lambda>ch. ch \<noteq> CHR 0x0A \<and> ch \<noteq> CHR 0x0D) s)) of
        None \<Rightarrow> None
      | Some vs \<Rightarrow> map_option (map char_of) (b64_octets vs))"

lemma b64_value_char: "v < 64 \<Longrightarrow> b64_value url (b64_char url v) = Some v"
  by (auto simp: b64_value_def b64_char_def Let_def)

lemma b64_char_plain:
  assumes "(of_char c :: nat) \<notin> {43, 45, 47, 95} \<union> {48..57} \<union> {65..90} \<union> {97..122}"
  shows "v < 64 \<Longrightarrow> b64_char url v \<noteq> c"
proof
  assume "v < 64" and "b64_char url v = c"
  then have "(of_char c :: nat) = (if v < 26 then v + 65 else if v < 52 then v + 71 else if v < 62 then v - 4
      else if v = 62 then (if url then 45 else 43) else (if url then 95 else 47))"
    by (auto simp: b64_char_def)
  with assms \<open>v < 64\<close> show False by (auto split: if_splits)
qed

lemma b64_sextets_bound: "\<forall>x \<in> set xs. x < 256 \<Longrightarrow> \<forall>v \<in> set (b64_sextets xs). v < 64"
proof (induction xs rule: b64_sextets.induct)
  case (4 a b c r)
  then have "\<forall>v \<in> set (b64_sextets r). v < 64" by simp
  moreover from 4(2) have "a div 4 < 64" "b div 16 < 16" "c div 64 < 4" by auto
  moreover have "a mod 4 < 4" "b mod 16 < 16" "c mod 64 < 64" by simp_all
  ultimately show ?case by (simp del: mod_less_divisor)
next
  case (3 a b)
  then have "a div 4 < 64" "b div 16 < 16" by auto
  moreover have "a mod 4 < 4" "b mod 16 < 16" by simp_all
  ultimately show ?case by (simp del: mod_less_divisor)
next
  case (2 a)
  then have "a div 4 < 64" by auto
  moreover have "a mod 4 < 4" by simp
  ultimately show ?case by (simp del: mod_less_divisor)
qed simp

lemma b64_octets_sextets: "\<forall>x \<in> set xs. x < 256 \<Longrightarrow> b64_octets (b64_sextets xs) = Some xs"
proof (induction xs rule: b64_sextets.induct)
  case (4 a b c r)
  then have "b64_octets (b64_sextets r) = Some r" by simp
  moreover from 4(2) have "b div 16 < 16" "c div 64 < 4" by auto
  ultimately show ?case by simp
next
  case (3 a b)
  then have "b div 16 < 16" by auto
  then show ?case by simp
qed simp_all

lemma those_map_value: "\<forall>v \<in> set vs. v < 64 \<Longrightarrow> those (map (b64_value url) (map (b64_char url) vs)) = Some vs"
  by (induction vs) (auto simp: b64_value_char)

lemma EncodeToString_avoids:
  assumes "(of_char c :: nat) \<notin> {43, 45, 47, 95} \<union> {48..57} \<union> {65..90} \<union> {97..122}"
  shows "c \<notin> set (EncodeToString url s)"
proof
  assume "c \<in> set (EncodeToString url s)"
  then obtain v where "v \<in> set (b64_sextets (map of_char s))" "c = b64_char url v"
    by (auto simp: EncodeToString_def)
  moreover have "\<forall>v \<in> set (b64_sextets (map of_char s)). v < 64"
    by (rule b64_sextets_bound) auto
  ultimately show False using b64_char_plain [OF assms] by blast
qed

lemma Decode_Encode: "DecodeString url (EncodeToString url s) = Some s"
proof -
  let ?vs = "b64_sextets (map of_char s)"
  have "CHR 0x0A \<notin> set (EncodeToString url s)" "CHR 0x0D \<notin> set (EncodeToString url s)"
    by (rule EncodeToString_avoids, simp)+
  then have "filter (\<lambda>ch. ch \<noteq> CHR 0x0A \<and> ch \<noteq> CHR 0x0D) (EncodeToString url s) = EncodeToString url s"
    by (auto simp: filter_id_conv)
  moreover have "\<forall>v \<in> set ?vs. v < 64" by (rule b64_sextets_bound) auto
  moreover have "b64_octets ?vs = Some (map of_char s)"
    by (rule b64_octets_sextets) auto
  moreover have "map char_of (map (of_char :: char \<Rightarrow> nat) s) = s" by (induction s) simp_all
  ultimately show ?thesis
    using those_map_value [of ?vs url]
    by (simp add: DecodeString_def EncodeToString_def comp_def del: map_map)
qed

text \<open>\<open>URLEncoding\<close> with padding, on text without line breaks: one or two equals signs fill the last group.\<close>

definition DecodePadded :: "string \<Rightarrow> bytes option" where
  "DecodePadded s =
     (let body = (if take 2 (rev s) = ''=='' then take (length s - 2) s
                  else if take 1 (rev s) = ''='' then take (length s - 1) s else s)
      in if length s mod 4 \<noteq> 0 then None
         else case those (map (b64_value True) body) of
           None \<Rightarrow> None
         | Some vs \<Rightarrow> map_option (map char_of) (b64_octets vs))"

section \<open>Base64 with padding\<close>

text \<open>\<open>StdEncoding\<close>: the last group is filled with equals signs; the decoder skips line breaks.\<close>

definition EncodeStd :: "bytes \<Rightarrow> string" where
  "EncodeStd s = EncodeToString False s @ replicate ((3 - length s mod 3) mod 3) (CHR ''='')"

definition DecodeStd :: "string \<Rightarrow> bytes option" where
  "DecodeStd s =
     (let s = filter (\<lambda>ch. ch \<noteq> CHR 0x0A \<and> ch \<noteq> CHR 0x0D) s;
          body = (if take 2 (rev s) = ''=='' then take (length s - 2) s
                  else if take 1 (rev s) = ''='' then take (length s - 1) s else s)
      in if length s mod 4 \<noteq> 0 then None else DecodeString False body)"

lemma b64_sextets_length: "(length (b64_sextets xs) + (3 - length xs mod 3) mod 3) mod 4 = 0"
proof (induction xs rule: b64_sextets.induct)
  case (4 a b c r)
  have "length (a # b # c # r) mod 3 = length r mod 3" by simp
  then have "length (b64_sextets (a # b # c # r)) + (3 - length (a # b # c # r) mod 3) mod 3 =
      4 + (length (b64_sextets r) + (3 - length r mod 3) mod 3)" by simp
  then show ?case using 4 by (metis mod_add_self1)
qed auto

lemma strip_padding:
  assumes eq: "CHR ''='' \<notin> set xs" and k: "k < 3" and ne: "k \<noteq> 0 \<Longrightarrow> xs \<noteq> []"
  shows "(let s = xs @ replicate k (CHR ''='') in
    if take 2 (rev s) = ''=='' then take (length s - 2) s else if take 1 (rev s) = ''='' then take (length s - 1) s else s) = xs"
proof -
  have hd: "hd (rev xs) \<noteq> CHR ''=''" if "xs \<noteq> []" using eq that by (metis hd_in_set rev_is_Nil_conv set_rev)
  consider "k = 0" | "k = 1" | "k = 2" using k by linarith
  then show ?thesis
  proof cases
    case 1
    have "take 2 (rev xs) \<noteq> ''==''" "take 1 (rev xs) \<noteq> ''=''" using hd
      by (cases "rev xs"; auto simp: numeral_2_eq_2)+
    then show ?thesis using 1 by (simp add: Let_def)
  next
    case 2
    with ne hd have "take 2 (rev (xs @ ''='')) \<noteq> ''==''" by (cases "rev xs") (auto simp: numeral_2_eq_2)
    then show ?thesis using 2 by (simp add: Let_def)
  next
    case 3
    then show ?thesis by (simp add: Let_def numeral_2_eq_2)
  qed
qed

lemma DecodeStd_EncodeStd: "DecodeStd (EncodeStd s) = Some s"
proof -
  let ?k = "(3 - length s mod 3) mod 3" and ?x = "EncodeToString False s"
  have av: "CHR ''='' \<notin> set ?x" "CHR 0x0A \<notin> set ?x" "CHR 0x0D \<notin> set ?x" by (rule EncodeToString_avoids, simp)+
  have f: "filter (\<lambda>ch. ch \<noteq> CHR 0x0A \<and> ch \<noteq> CHR 0x0D) (EncodeStd s) = EncodeStd s"
    using av by (auto simp: EncodeStd_def filter_id_conv)
  have l: "length (EncodeStd s) mod 4 = 0"
    using b64_sextets_length [of "map of_char s"] by (simp add: EncodeStd_def EncodeToString_def)
  have ne: "?k \<noteq> 0 \<Longrightarrow> ?x \<noteq> []" by (cases s) (use b64_sextets_length [of "map of_char s"] in \<open>auto simp: EncodeToString_def\<close>)
  from strip_padding [OF av(1) _ ne] have
    "(let s = EncodeStd s in if take 2 (rev s) = ''=='' then take (length s - 2) s else if take 1 (rev s) = ''='' then take (length s - 1) s else s) = ?x"
    by (simp add: EncodeStd_def)
  then show ?thesis unfolding DecodeStd_def f Let_def using l Decode_Encode [of False s] by simp
qed

section \<open>Hexadecimal\<close>

definition hex_digit :: "nat \<Rightarrow> char" where
  "hex_digit n = (if n < 10 then char_of (48 + n) else char_of (87 + n))"

definition hex_encode :: "bytes \<Rightarrow> string" where
  "hex_encode b = concat (map (\<lambda>ch. let n = of_char ch :: nat in [hex_digit (n div 16), hex_digit (n mod 16)]) b)"

lemma hex_digit_inj: "a < 16 \<Longrightarrow> b < 16 \<Longrightarrow> hex_digit a = hex_digit b \<Longrightarrow> a = b"
proof -
  assume "a < 16" "b < 16" "hex_digit a = hex_digit b"
  then have "of_char (hex_digit a) = (of_char (hex_digit b) :: nat)" by simp
  with \<open>a < 16\<close> \<open>b < 16\<close> show "a = b" by (auto simp: hex_digit_def split: if_splits)
qed

lemma hex_encode_inj: "hex_encode xs = hex_encode ys \<Longrightarrow> xs = ys"
proof (induction xs arbitrary: ys)
  case Nil
  then show ?case by (cases ys) (auto simp: hex_encode_def Let_def)
next
  case (Cons x xs)
  then obtain y ys' where ys: "ys = y # ys'" by (cases ys) (auto simp: hex_encode_def Let_def)
  have lt: "(of_char z :: nat) div 16 < 16" for z
  proof -
    have "(of_char z :: nat) < 256" by (rule nat_of_char_less_256)
    then show ?thesis by (simp add: div_less_iff_less_mult)
  qed
  have "(of_char x :: nat) div 16 = of_char y div 16" "(of_char x :: nat) mod 16 = of_char y mod 16"
    using Cons.prems hex_digit_inj lt by (auto simp: hex_encode_def Let_def ys)
  then have "(of_char x :: nat) = of_char y" by (metis div_mult_mod_eq)
  then have "x = y" by simp
  moreover have "xs = ys'" using Cons.IH [of ys'] Cons.prems by (simp add: hex_encode_def Let_def ys)
  ultimately show ?case by (simp add: ys)
qed

section \<open>UTF-8\<close>

text \<open>\<open>utf8.RuneCountInString\<close>: a well-formed sequence counts one, any other byte counts one by itself.\<close>

definition cont :: "nat \<Rightarrow> nat \<Rightarrow> nat list \<Rightarrow> nat \<Rightarrow> bool" where
  "cont lo hi xs i \<longleftrightarrow> i < length xs \<and> lo \<le> xs ! i \<and> xs ! i \<le> hi"

definition rune_tail :: "nat \<Rightarrow> nat list \<Rightarrow> nat" where
  "rune_tail x xs =
     (if 0xC2 \<le> x \<and> x \<le> 0xDF \<and> cont 0x80 0xBF xs 0 then 1
      else if 0xE0 \<le> x \<and> x \<le> 0xEF \<and>
        cont (if x = 0xE0 then 0xA0 else 0x80) (if x = 0xED then 0x9F else 0xBF) xs 0 \<and> cont 0x80 0xBF xs 1 then 2
      else if 0xF0 \<le> x \<and> x \<le> 0xF4 \<and>
        cont (if x = 0xF0 then 0x90 else 0x80) (if x = 0xF4 then 0x8F else 0xBF) xs 0 \<and> cont 0x80 0xBF xs 1 \<and> cont 0x80 0xBF xs 2 then 3
      else 0)"

fun rune_count :: "nat list \<Rightarrow> nat" where
  "rune_count [] = 0"
| "rune_count (x # xs) = Suc (rune_count (drop (rune_tail x xs) xs))"

definition RuneCountInString :: "string \<Rightarrow> nat" where
  "RuneCountInString s = rune_count (map of_char s)"

lemma rune_tail_le: "rune_tail x xs \<le> 3"
  by (simp add: rune_tail_def)

lemma rune_count_le: "rune_count xs \<le> length xs"
  by (induction xs rule: rune_count.induct) auto

lemma rune_count_ge: "length xs \<le> 4 * rune_count xs"
proof (induction xs rule: rune_count.induct)
  case (2 x xs)
  then show ?case using rune_tail_le [of x xs] by auto
qed simp

lemma rune_count_ascii: "list_all (\<lambda>x. x < 128) xs \<Longrightarrow> rune_count xs = length xs"
  by (induction xs rule: rune_count.induct) (auto simp: rune_tail_def)

section \<open>Trimming\<close>

text \<open>\<open>strings.TrimSpace\<close> on UTF-8 text: the byte sequences of the runes \<open>unicode.IsSpace\<close> accepts are
  removed from both ends.\<close>

definition white_runes :: "nat list list" where
  "white_runes = map (\<lambda>n. [n]) [9, 10, 11, 12, 13, 32] @ [[0xC2, 0x85], [0xC2, 0xA0], [0xE1, 0x9A, 0x80]] @
     map (\<lambda>n. [0xE2, 0x80, n]) ([0x80..<0x8B] @ [0xA8, 0xA9, 0xAF]) @ [[0xE2, 0x81, 0x9F], [0xE3, 0x80, 0x80]]"

function trim_runes :: "nat list list \<Rightarrow> nat list \<Rightarrow> nat list" where
  "trim_runes ws s =
     (case find (\<lambda>w. w \<noteq> [] \<and> take (length w) s = w) ws of
        None \<Rightarrow> s
      | Some w \<Rightarrow> trim_runes ws (drop (length w) s))"
  by pat_completeness auto
termination
proof (relation "measure (\<lambda>(ws, s). length s)")
  fix ws s w
  assume "find (\<lambda>w. w \<noteq> [] \<and> take (length w) s = w) ws = Some w"
  then have "w \<noteq> []" and "take (length w) s = w" by (auto simp: find_Some_iff)
  then show "((ws, drop (length w) s), ws, s) \<in> measure (\<lambda>(ws, s). length s)"
    by (cases s) auto
qed simp

declare trim_runes.simps [simp del]

definition TrimSpace :: "string \<Rightarrow> string" where
  "TrimSpace s =
     map char_of (rev (trim_runes (map rev white_runes) (rev (trim_runes white_runes (map of_char s)))))"

lemma trim_runes_length: "length (trim_runes ws s) \<le> length s"
proof (induction ws s rule: trim_runes.induct)
  case (1 ws s)
  show ?case
  proof (cases "find (\<lambda>w. w \<noteq> [] \<and> take (length w) s = w) ws")
    case None
    then show ?thesis by (subst trim_runes.simps) simp
  next
    case (Some w)
    then show ?thesis using "1.IH" [OF Some] by (subst trim_runes.simps) simp
  qed
qed

lemma TrimSpace_length: "length (TrimSpace s) \<le> length s"
  using trim_runes_length [of "map rev white_runes" "rev (trim_runes white_runes (map of_char s))"]
    trim_runes_length [of white_runes "map of_char s"] by (simp add: TrimSpace_def)

lemma TrimSpace_examples:
  "TrimSpace '' ab '' = ''ab''"
  "TrimSpace (map char_of [0xC2, 0xA0 :: nat] @ ''a'') = ''a''"
  by code_simp+

end
