(* ===== verification/Idempotency.thy ===== *)
theory Idempotency
  imports Redis Payloads Encoding
begin

text \<open>
  Sender-side deduplication in the gateway, \<^verbatim>\<open>ws-gateway/router/idempotency.go\<close>, and the request
  that hands a message to the durable ingest service, \<^verbatim>\<open>router/ingest.go\<close>.

  \<open>Reserve\<close> polls until its own reservation succeeds or a committed one is found; the model
  bounds the iterations by fuel, and \<open>tick i\<close> is what happens to the store between iterations
  (other senders, lease expiry). The two Lua scripts run atomically.
\<close>

section \<open>Definitions\<close>

definition idempotencyTTL :: duration where "idempotencyTTL = 30 * 24 * Hour"
definition pendingLeaseTTL :: duration where "pendingLeaseTTL = 5 * Second"

definition pending_prefix :: string where "pending_prefix = ''pending:''"
definition committed_prefix :: string where "committed_prefix = ''committed:''"

definition idempotencyKey :: "(bytes \<Rightarrow> bytes) \<Rightarrow> uin \<Rightarrow> string \<Rightarrow> string" where
  "idempotencyKey sha sender clientID = ''send:idempotency:'' @ itoa sender @ '':'' @ hex_encode (sha clientID)"

datatype idem_error = ErrRedis string | ErrCtxDone | ErrNoDeduper | ErrLeaseLost

definition starts_with :: "string \<Rightarrow> string \<Rightarrow> bool" where
  "starts_with p s \<longleftrightarrow> take (length p) s = p"

text \<open>Inr (id, existing); None when the fuel is used up.\<close>

fun Reserve ::
  "('r, 'x) redis_api_scheme \<Rightarrow> string \<Rightarrow> string \<Rightarrow> (nat \<Rightarrow> bool) \<Rightarrow> (nat \<Rightarrow> 'r \<Rightarrow> 'r) \<Rightarrow> nat \<Rightarrow> nat \<Rightarrow> 'r \<Rightarrow>
    (idem_error + string \<times> bool) option \<times> 'r" where
  "Reserve R key serverID ctxDone tick i 0 s = (None, s)"
| "Reserve R key serverID ctxDone tick i (Suc fuel) s =
     (case rd_setnx R key (pending_prefix @ serverID) pendingLeaseTTL s of
        (Inl e, s1) \<Rightarrow> (Some (Inl (ErrRedis e)), s1)
      | (Inr True, s1) \<Rightarrow> (Some (Inr (serverID, False)), s1)
      | (Inr False, s1) \<Rightarrow>
          (case rd_get R key (tick (2 * i) s1) of
             (Inl e, s2) \<Rightarrow> (Some (Inl (ErrRedis e)), s2)
           | (Inr None, s2) \<Rightarrow> Reserve R key serverID ctxDone tick (Suc i) fuel s2
           | (Inr (Some prior), s2) \<Rightarrow>
               if starts_with committed_prefix prior
               then (Some (Inr (drop (length committed_prefix) prior, True)), s2)
               else if ctxDone i then (Some (Inl ErrCtxDone), s2)
               else Reserve R key serverID ctxDone tick (Suc i) fuel (tick (2 * i + 1) s2)))"

declare Reserve.simps [simp del]

definition commit_script ::
  "('r, 'x) redis_api_scheme \<Rightarrow> string \<Rightarrow> string \<Rightarrow> string \<Rightarrow> duration \<Rightarrow> 'r \<Rightarrow> (string + nat) \<times> 'r" where
  "commit_script R key pending committed ttl s =
     (case rd_get R key s of
        (Inl e, s1) \<Rightarrow> (Inl e, s1)
      | (Inr v, s1) \<Rightarrow>
          if v = Some pending then
            (case rd_set R key committed ttl s1 of
               (Inl e, s2) \<Rightarrow> (Inl e, s2)
             | (Inr u, s2) \<Rightarrow> (Inr 1, s2))
          else (Inr 0, s1))"

definition Commit ::
  "('r, 'x) redis_api_scheme \<Rightarrow> string \<Rightarrow> string \<Rightarrow> string \<Rightarrow> 'r \<Rightarrow> idem_error option \<times> 'r" where
  "Commit R key clientID serverID s =
     (if clientID = [] then (None, s)
      else case commit_script R key (pending_prefix @ serverID) (committed_prefix @ serverID) idempotencyTTL s of
        (Inl e, s1) \<Rightarrow> (Some (ErrRedis e), s1)
      | (Inr n, s1) \<Rightarrow> (if n \<noteq> 1 then Some ErrLeaseLost else None, s1))"

definition release_script ::
  "('r, 'x) redis_api_scheme \<Rightarrow> string \<Rightarrow> string \<Rightarrow> 'r \<Rightarrow> (string + nat) \<times> 'r" where
  "release_script R key pending s =
     (case rd_get R key s of
        (Inl e, s1) \<Rightarrow> (Inl e, s1)
      | (Inr v, s1) \<Rightarrow> if v = Some pending then rd_del R key s1 else (Inr 0, s1))"

definition Release ::
  "('r, 'x) redis_api_scheme \<Rightarrow> string \<Rightarrow> string \<Rightarrow> string \<Rightarrow> 'r \<Rightarrow> idem_error option \<times> 'r" where
  "Release R key clientID serverID s =
     (if clientID = [] then (None, s)
      else case release_script R key (pending_prefix @ serverID) s of
        (Inl e, s1) \<Rightarrow> (Some (ErrRedis e), s1)
      | (Inr n, s1) \<Rightarrow> (None, s1))"

text \<open>\<open>reserveMessageID\<close>; \<open>d\<close>: the deduper's \<open>Reserve\<close>, if one is configured.\<close>

definition reserveMessageID ::
  "('r \<Rightarrow> (idem_error + string \<times> bool) option \<times> 'r) option \<Rightarrow> string \<Rightarrow> string \<Rightarrow> 'r \<Rightarrow>
    (idem_error + string \<times> bool) option \<times> 'r" where
  "reserveMessageID d clientID serverID s =
     (if clientID = [] then (Some (Inr (serverID, False)), s)
      else case d of None \<Rightarrow> (Some (Inl ErrNoDeduper), s) | Some reserve \<Rightarrow> reserve s)"

text \<open>\<open>requestDurableIngest\<close>: \<open>request\<close> is the broker's request-reply call (if configured), \<open>remaining\<close>
  the time to the context's deadline, \<open>expired\<close> whether it passed meanwhile.\<close>

definition requestDurableIngest ::
  "codec \<Rightarrow> (string \<Rightarrow> bytes \<Rightarrow> duration \<Rightarrow> bytes option) option \<Rightarrow> duration option \<Rightarrow> bool \<Rightarrow> Envelope \<Rightarrow> Envelope option" where
  "requestDurableIngest c request remaining expired env =
     (case request of
        None \<Rightarrow> None
      | Some req \<Rightarrow>
          let data = cd_env_out c env;
              timeout = (case remaining of None \<Rightarrow> 8 * Second
                | Some r \<Rightarrow> if r < 8 * Second then r else 8 * Second)
          in if timeout \<le> 0 then None
             else case req ''ingest.message'' data timeout of
               None \<Rightarrow> None
             | Some reply \<Rightarrow>
                 (case cd_env c reply of
                    None \<Rightarrow> None
                  | Some ack \<Rightarrow>
                      if ev_Type ack \<noteq> EnvelopeTypeAck then None
                      else case cd_ack c (ev_Payload ack) of
                        None \<Rightarrow> None
                      | Some payload \<Rightarrow>
                          if ap_State payload \<noteq> AckStatePersisted \<or> ap_MessageID payload = [] then None
                          else if expired then None else Some ack))"

section \<open>Keys\<close>

text \<open>Also: two senders, or two client ids with different digests, never share an idempotency
  record.\<close>

theorem idempotencyKey_injective:
  assumes "idempotencyKey sha a x = idempotencyKey sha b y"
  shows "a = b \<and> sha x = sha y"
  using assms append_colon_inj [of "itoa a" "hex_encode (sha x)" "itoa b" "hex_encode (sha y)"]
    itoa_inj hex_encode_inj
  by (auto simp: idempotencyKey_def)

lemma idempotencyKey_injective_witness:
  "idempotencyKey (\<lambda>x. x) 7 ''a'' \<noteq> idempotencyKey (\<lambda>x. x) 71 ''b''"
  using idempotencyKey_injective [of "\<lambda>x. x" 7 "''a''" 71 "''b''"] by auto

section \<open>Reservations\<close>

lemma prefixes: "starts_with committed_prefix (committed_prefix @ x)" "\<not> starts_with committed_prefix (pending_prefix @ x)"
  "pending_prefix @ x \<noteq> committed_prefix @ y"
  by (simp_all add: starts_with_def committed_prefix_def pending_prefix_def)

context redis_strings
begin

lemma get_both: "rd_get R k s = (Inr w, s') \<Longrightarrow> w = strs s k \<and> strs s' = strs s"
  using get_ok get_view by blast

lemma reserve_fresh:
  "Reserve R key sid dn tick i fuel s = (Some (Inr (x, False)), s') \<Longrightarrow>
     x = sid \<and> strs s' key = Some (pending_prefix @ sid)"
proof (induction fuel arbitrary: i s)
  case (Suc fuel)
  then show ?case
    by (auto simp: Reserve.simps(2) dest: setnx_ok split: prod.splits sum.splits bool.splits option.splits if_splits)
qed (simp add: Reserve.simps)

lemma reserve_existing:
  assumes "strs s key = Some (committed_prefix @ sid)" and "rd_setnx R key (pending_prefix @ other) pendingLeaseTTL s = (Inr b, s1)"
    and "tick 0 s1 = s1" and "rd_get R key s1 = (Inr v, s2)"
  shows "Reserve R key other dn tick 0 (Suc fuel) s = (Some (Inr (sid, True)), s2) \<and> strs s2 = strs s"
proof -
  have "\<not> b" "strs s1 = strs s" using setnx_ok [OF assms(2)] assms(1) by auto
  moreover have "v = Some (committed_prefix @ sid)" "strs s2 = strs s1"
    using get_ok [OF assms(4)] get_view [OF assms(4)] assms(1) calculation by simp_all
  ultimately show ?thesis using assms(2-4) by (simp add: Reserve.simps(2) prefixes)
qed

lemma commit_ok:
  assumes "Commit R key cid sid s = (None, s')" and "cid \<noteq> []"
  shows "strs s key = Some (pending_prefix @ sid) \<and> strs s' = (strs s)(key \<mapsto> committed_prefix @ sid)"
  using assms
  by (auto simp: Commit_def commit_script_def dest!: get_both dest: set_ok split: prod.splits sum.splits if_splits)

lemma commit_foreign:
  assumes "Commit R key cid sid s = (r, s')" and "cid \<noteq> []" and "strs s key \<noteq> Some (pending_prefix @ sid)"
  shows "r \<noteq> None \<and> strs s' = strs s"
  using assms
  by (auto simp: Commit_def commit_script_def dest: get_both get_view split: prod.splits sum.splits if_splits)

lemma release_foreign:
  assumes "Release R key cid sid s = (r, s')" and "strs s key \<noteq> Some (pending_prefix @ sid)"
  shows "strs s' = strs s"
  using assms
  by (auto simp: Release_def release_script_def dest: get_both get_view split: prod.splits sum.splits if_splits)

lemma release_own:
  assumes "Release R key cid sid s = (None, s')" and "cid \<noteq> []" and "strs s key = Some (pending_prefix @ sid)"
  shows "strs s' = (strs s)(key := None)"
  using assms
  by (auto simp: Release_def release_script_def dest!: get_both dest: sdel_ok split: prod.splits sum.splits if_splits)

end

text \<open>Also: once the owner of a reservation has committed it, every later reservation of the same
  message is answered with the owner's id as existing and leaves the record alone.\<close>

theorem committed_reservation_is_final:
  assumes "redis_strings R strs" and "clientID \<noteq> []"
    and "Commit R key clientID serverID s = (None, s1)"
    and "strs s2 key = strs s1 key"
    and "rd_setnx R key (pending_prefix @ other) pendingLeaseTTL s2 = (Inr b, s3)"
    and "tick 0 s3 = s3" and "rd_get R key s3 = (Inr v, s4)"
  shows "Reserve R key other ctxDone tick 0 (Suc fuel) s2 = (Some (Inr (serverID, True)), s4) \<and> strs s4 = strs s2"
proof -
  have "strs s2 key = Some (committed_prefix @ serverID)"
    using redis_strings.commit_ok [OF assms(1,3,2)] assms(4) by simp
  from redis_strings.reserve_existing [where tick = tick, OF assms(1) this assms(5,6,7)] show ?thesis .
qed

lemma committed_reservation_is_final_witness:
  "fst (Reserve mem_api ''k'' ''s2'' (\<lambda>_. False) (\<lambda>_ s. s) 0 1
     (snd (Commit mem_api ''k'' ''c'' ''s1'' (mem_empty\<lparr>mem_strs := [''k'' \<mapsto> ''pending:s1'']\<rparr>)))) =
   Some (Inr (''s1'', True))"
proof -
  let ?s = "mem_empty\<lparr>mem_strs := [''k'' \<mapsto> ''pending:s1'']\<rparr>"
  let ?s1 = "snd (Commit mem_api ''k'' ''c'' ''s1'' ?s)"
  have c: "Commit mem_api ''k'' ''c'' ''s1'' ?s = (None, ?s1)"
    "?s1 = ?s\<lparr>mem_strs := [''k'' \<mapsto> ''committed:s1'']\<rparr>"
    by (simp_all add: Commit_def commit_script_def mem_api_def mem_reply_def mem_empty_def pending_prefix_def
        committed_prefix_def)
  have "rd_setnx mem_api ''k'' (pending_prefix @ ''s2'') pendingLeaseTTL ?s1 = (Inr False, ?s1)"
    "rd_get mem_api ''k'' ?s1 = (Inr (Some ''committed:s1''), ?s1)"
    unfolding c(2) by (simp_all add: mem_api_def mem_reply_def mem_empty_def)
  from committed_reservation_is_final [OF memS.redis_strings_axioms _ c(1) refl this(1) _ this(2), of "\<lambda>_ s. s" "\<lambda>_. False" 0]
  show ?thesis by simp
qed

text \<open>Also: a reservation belongs to the server id that made it: after a fresh reservation another
  server id can neither commit nor release it, while its owner's release makes the message
  reservable again.\<close>

theorem reservation_owned:
  assumes "redis_strings R strs" and "clientID \<noteq> []" and "other \<noteq> serverID"
    and "Reserve R key serverID ctxDone tick i fuel s = (Some (Inr (x, False)), s1)"
  shows "x = serverID \<and>
    fst (Commit R key clientID other s1) \<noteq> None \<and>
    strs (snd (Commit R key clientID other s1)) = strs s1 \<and>
    strs (snd (Release R key clientID other s1)) = strs s1 \<and>
    (fst (Release R key clientID serverID s1) = None \<longrightarrow>
       strs (snd (Release R key clientID serverID s1)) key = None)"
proof -
  have r: "x = serverID" "strs s1 key = Some (pending_prefix @ serverID)"
    using redis_strings.reserve_fresh [OF assms(1,4)] by simp_all
  then have ne: "strs s1 key \<noteq> Some (pending_prefix @ other)" using assms(3) by simp
  show ?thesis
    using r ne assms(2) redis_strings.commit_foreign [OF assms(1) prod.collapse [symmetric] assms(2) ne]
      redis_strings.release_foreign [OF assms(1) prod.collapse [symmetric] ne]
      redis_strings.release_own [OF assms(1) _ assms(2) r(2), of "snd (Release R key clientID serverID s1)"]
    by (metis fun_upd_same prod.collapse)
qed

lemma reservation_owned_witness:
  "fst (Commit mem_api ''k'' ''c'' ''s2'' (snd (Reserve mem_api ''k'' ''s1'' (\<lambda>_. False) (\<lambda>_ s. s) 0 1 mem_empty))) \<noteq> None"
proof -
  have "Reserve mem_api ''k'' ''s1'' (\<lambda>_. False) (\<lambda>_ s. s) 0 1 mem_empty = (Some (Inr (''s1'', False)),
      snd (Reserve mem_api ''k'' ''s1'' (\<lambda>_. False) (\<lambda>_ s. s) 0 1 mem_empty))"
    by (simp add: Reserve.simps(2) [where fuel = 0, simplified] mem_api_def mem_reply_def mem_empty_def)
  from reservation_owned [OF memS.redis_strings_axioms _ _ this, of "''c''" "''s2''"] show ?thesis by simp
qed

text \<open>Also: a send is confirmed to the client only on a positive reply: a request that returns an
  envelope had a positive time limit of at most eight seconds, and the reply was an
  acknowledgement in state persisted that names a message.\<close>

theorem durable_request_confirmed:
  assumes "requestDurableIngest c request remaining expired env = Some ack"
  shows "\<exists>req timeout reply a. request = Some req \<and> 0 < timeout \<and> timeout \<le> 8 * Second \<and>
    (\<forall>r. remaining = Some r \<longrightarrow> timeout \<le> r) \<and>
    req ''ingest.message'' (cd_env_out c env) timeout = Some reply \<and> cd_env c reply = Some ack \<and>
    ev_Type ack = EnvelopeTypeAck \<and> cd_ack c (ev_Payload ack) = Some a \<and>
    ap_State a = AckStatePersisted \<and> ap_MessageID a \<noteq> [] \<and> \<not> expired"
proof -
  define timeout where "timeout = (case remaining of None \<Rightarrow> 8 * Second
    | Some r \<Rightarrow> if r < 8 * Second then r else 8 * Second)"
  have "timeout \<le> 8 * Second" "\<forall>r. remaining = Some r \<longrightarrow> timeout \<le> r"
    by (auto simp: timeout_def split: option.split)
  moreover have "\<exists>req reply a. request = Some req \<and> 0 < timeout \<and>
    req ''ingest.message'' (cd_env_out c env) timeout = Some reply \<and> cd_env c reply = Some ack \<and>
    ev_Type ack = EnvelopeTypeAck \<and> cd_ack c (ev_Payload ack) = Some a \<and>
    ap_State a = AckStatePersisted \<and> ap_MessageID a \<noteq> [] \<and> \<not> expired"
    using assms unfolding requestDurableIngest_def Let_def timeout_def [symmetric]
    by (auto split: option.splits if_splits)
  ultimately show ?thesis by blast
qed

definition ack_codec :: codec where
  "ack_codec = \<lparr>cd_env = (\<lambda>b. Some \<lparr>ev_Type = ''ack'', ev_ID = [], ev_TS = 0, ev_Payload = []\<rparr>), cd_direct = (\<lambda>b. None),
     cd_group = (\<lambda>b. None), cd_ack = (\<lambda>b. Some \<lparr>ap_MessageID = ''c1'', ap_State = ''persisted'', ap_RecipientUIN = 20\<rparr>),
     cd_env_out = ev_Payload, cd_group_out = gp_GroupID, cd_ack_out = ap_MessageID, cd_uuid = (\<lambda>s. None), cd_uuid_out = (\<lambda>u. [])\<rparr>"

lemma durable_request_confirmed_witness:
  "\<exists>timeout. 0 < timeout \<and> timeout \<le> Second \<and> (\<lambda>s d t. if t \<le> Second then Some d else None) ''ingest.message'' [] timeout \<noteq> None"
proof -
  let ?e = "\<lparr>ev_Type = ''message'', ev_ID = [], ev_TS = 0, ev_Payload = []\<rparr>"
  let ?r = "\<lambda>s d t. if t \<le> Second then Some d else None"
  have "requestDurableIngest ack_codec (Some ?r) (Some Second) False ?e =
      Some \<lparr>ev_Type = ''ack'', ev_ID = [], ev_TS = 0, ev_Payload = []\<rparr>" by code_simp
  from durable_request_confirmed [OF this] show ?thesis by (auto simp: ack_codec_def)
qed

end
