(* ===== verification/WipeJob.thy ===== *)
theory WipeJob
  imports Prelude
begin

text \<open>
  The durable panic-wipe job, \<^verbatim>\<open>auth-service/handlers/wipejob.go\<close>: the SQL statements on
  \<open>wipe_jobs\<close>, the lease renewal tick, the backoff, and \<open>processOneJob\<close> as one function that
  runs the claim, the cleanup phases, the three-step final erasure and the retry.

  The cleanup phases call other services; the state they change is the type parameter of
  \<open>wipe_world\<close> and each phase is a function on it. Every statement may fail, other workers may
  act between two steps (\<open>wq_env\<close>), and the renewal goroutine may cancel the job context at
  any point (\<open>wq_cancel\<close>).
\<close>

section \<open>Tables\<close>

datatype job_status = JobPending | JobProcessing | JobRetrying

record wipe_job =
  j_uin :: uin
  j_status :: job_status
  j_file_keys :: "string list"
  j_failed_phases :: "string list"
  j_retry_count :: int
  j_next_retry_at :: gotime
  j_lease_until :: "gotime option"
  j_worker_id :: "string option"

type_synonym jobs = "(int \<times> wipe_job) list"

record 'e wipe_world =
  w_users :: "uin set"
  w_wiped_accounts :: "uin set"
  w_refresh_tokens :: "(uin \<times> string) set"
  w_jobs :: jobs
  w_blocklist :: "uin set"
  w_ext :: 'e

definition wipeJobPollInterval :: duration where "wipeJobPollInterval = 5 * Second"
definition wipeJobLeaseTimeout :: duration where "wipeJobLeaseTimeout = 2 * Minute"
definition wipeJobRetryBaseWait :: duration where "wipeJobRetryBaseWait = 10 * Second"
definition wipeJobMaxBackoff :: duration where "wipeJobMaxBackoff = 10 * Minute"
definition maxSafeRetryShift :: int where "maxSafeRetryShift = 62"
definition maxBlocklistRetries :: nat where "maxBlocklistRetries = 5"

definition pollInterval :: "duration \<Rightarrow> duration" where
  "pollInterval d = (if d \<le> 0 then wipeJobPollInterval else d)"

definition leaseTimeout :: "duration \<Rightarrow> duration" where
  "leaseTimeout d = (if d \<le> 0 then wipeJobLeaseTimeout else d)"

section \<open>SQL statements\<close>

definition upd_job :: "int \<Rightarrow> (wipe_job \<Rightarrow> wipe_job) \<Rightarrow> jobs \<Rightarrow> jobs" where
  "upd_job i f js = map (\<lambda>(k, j). if k = i then (k, f j) else (k, j)) js"

text \<open>\<open>InsertWipeJobTx\<close>: the column defaults are status \<open>pending\<close>, no lease, no owner, and a
  first attempt that is due at once. \<open>fresh\<close> is the id the sequence yields.\<close>

definition InsertWipeJobTx :: "int \<Rightarrow> gotime \<Rightarrow> uin \<Rightarrow> string list option \<Rightarrow> jobs \<Rightarrow> int \<times> jobs" where
  "InsertWipeJobTx fresh now u fileKeys js =
     (fresh, js @ [(fresh, \<lparr>j_uin = u, j_status = JobPending,
        j_file_keys = (case fileKeys of None \<Rightarrow> [] | Some ks \<Rightarrow> ks),
        j_failed_phases = [], j_retry_count = 0, j_next_retry_at = now, j_lease_until = None,
        j_worker_id = None\<rparr>)])"

definition job_ready :: "gotime \<Rightarrow> wipe_job \<Rightarrow> bool" where
  "job_ready now j \<longleftrightarrow>
     (j_status j = JobPending \<or> j_status j = JobRetrying) \<and> j_next_retry_at j \<le> now \<or>
     j_status j = JobProcessing \<and> (case j_lease_until j of None \<Rightarrow> False | Some l \<Rightarrow> l < now)"

text \<open>\<open>ORDER BY next_retry_at, id LIMIT 1 FOR UPDATE SKIP LOCKED\<close>\<close>

definition job_before :: "int \<times> wipe_job \<Rightarrow> int \<times> wipe_job \<Rightarrow> bool" where
  "job_before a b \<longleftrightarrow> j_next_retry_at (snd a) < j_next_retry_at (snd b) \<or>
     j_next_retry_at (snd a) = j_next_retry_at (snd b) \<and> fst a < fst b"

fun first_ready :: "gotime \<Rightarrow> int list \<Rightarrow> jobs \<Rightarrow> (int \<times> wipe_job) option" where
  "first_ready now locked [] = None"
| "first_ready now locked (x # xs) =
     (if job_ready now (snd x) \<and> fst x \<notin> set locked then
        (case first_ready now locked xs of
           None \<Rightarrow> Some x
         | Some y \<Rightarrow> if job_before y x then Some y else Some x)
      else first_ready now locked xs)"

text \<open>\<open>qClaimPendingJob\<close>: the update and the backstop insert into \<open>wiped_accounts\<close>.\<close>

definition qClaimPendingJob ::
  "gotime \<Rightarrow> int list \<Rightarrow> gotime \<Rightarrow> string \<Rightarrow> 'e wipe_world \<Rightarrow> (int \<times> wipe_job) option \<times> 'e wipe_world" where
  "qClaimPendingJob pgnow locked lease w s =
     (case first_ready pgnow locked (w_jobs s) of
        None \<Rightarrow> (None, s)
      | Some (i, j) \<Rightarrow>
          (Some (i, j),
           s\<lparr>w_jobs := upd_job i (\<lambda>j. j\<lparr>j_status := JobProcessing, j_lease_until := Some lease,
                j_worker_id := Some w\<rparr>) (w_jobs s),
             w_wiped_accounts := (if j_uin j \<in> w_users s then insert (j_uin j) (w_wiped_accounts s)
                else w_wiped_accounts s)\<rparr>))"

text \<open>\<open>qRenewLease\<close>; the number is \<open>RowsAffected\<close>.\<close>

definition renewable :: "gotime \<Rightarrow> string \<Rightarrow> wipe_job \<Rightarrow> bool" where
  "renewable pgnow w j \<longleftrightarrow> j_worker_id j = Some w \<and> j_status j = JobProcessing \<and>
     (case j_lease_until j of None \<Rightarrow> False | Some l \<Rightarrow> pgnow < l)"

definition qRenewLease :: "gotime \<Rightarrow> int \<Rightarrow> gotime \<Rightarrow> string \<Rightarrow> 'e wipe_world \<Rightarrow> nat \<times> 'e wipe_world" where
  "qRenewLease pgnow i newLease w s =
     (length (filter (\<lambda>(k, j). k = i \<and> renewable pgnow w j) (w_jobs s)),
      s\<lparr>w_jobs := upd_job i (\<lambda>j. if renewable pgnow w j then j\<lparr>j_lease_until := Some newLease\<rparr> else j) (w_jobs s)\<rparr>)"

definition qRetryWipeJob ::
  "int \<Rightarrow> string list \<Rightarrow> gotime \<Rightarrow> string \<Rightarrow> 'e wipe_world \<Rightarrow> nat \<times> 'e wipe_world" where
  "qRetryWipeJob i failedPhases nextRetry w s =
     (length (filter (\<lambda>(k, j). k = i \<and> j_worker_id j = Some w) (w_jobs s)),
      s\<lparr>w_jobs := upd_job i (\<lambda>j. if j_worker_id j = Some w
           then j\<lparr>j_status := JobRetrying, j_retry_count := j_retry_count j + 1,
                  j_failed_phases := failedPhases, j_next_retry_at := nextRetry,
                  j_lease_until := None, j_worker_id := None\<rparr>
           else j) (w_jobs s)\<rparr>)"

definition qDeleteWipeJob :: "int \<Rightarrow> string \<Rightarrow> 'e wipe_world \<Rightarrow> nat \<times> 'e wipe_world" where
  "qDeleteWipeJob i w s =
     (length (filter (\<lambda>(k, j). k = i \<and> j_worker_id j = Some w) (w_jobs s)),
      s\<lparr>w_jobs := filter (\<lambda>(k, j). \<not> (k = i \<and> j_worker_id j = Some w)) (w_jobs s)\<rparr>)"

text \<open>The three deletes of the final transaction, \<open>refresh_tokens\<close> and \<open>wiped_accounts\<close> before
  the \<open>users\<close> row they reference.\<close>

definition finalErasure :: "uin \<Rightarrow> 'e wipe_world \<Rightarrow> 'e wipe_world" where
  "finalErasure u s =
     (let s1 = s\<lparr>w_refresh_tokens := {t \<in> w_refresh_tokens s. fst t \<noteq> u}\<rparr>;
          s2 = s1\<lparr>w_wiped_accounts := w_wiped_accounts s1 - {u}\<rparr>
      in s2\<lparr>w_users := w_users s2 - {u}\<rparr>)"

section \<open>Schema check\<close>

definition requiredWipeJobsColumns :: "string list" where
  "requiredWipeJobsColumns =
     [''id'', ''uin'', ''status'', ''file_keys'', ''failed_phases'', ''retry_count'',
      ''next_retry_at'', ''lease_until'', ''worker_id'', ''created_at'', ''updated_at'']"

datatype schema_error = SchemaQuery | SchemaNoTable | SchemaMissing "string list"

text \<open>\<open>columns\<close>: what the query returned, or None when it failed (query, scan or iteration).\<close>

definition CheckWipeJobsSchema :: "string list option \<Rightarrow> schema_error option" where
  "CheckWipeJobsSchema columns =
     (case columns of
        None \<Rightarrow> Some SchemaQuery
      | Some found \<Rightarrow>
          if found = [] then Some SchemaNoTable
          else let missing = filter (\<lambda>req. req \<notin> set found) requiredWipeJobsColumns in
               if missing \<noteq> [] then Some (SchemaMissing missing) else None)"

section \<open>Backoff\<close>

definition saturatedBackoff :: "duration \<Rightarrow> int \<Rightarrow> duration \<Rightarrow> duration" where
  "saturatedBackoff base retryCount maxBackoff =
     (let retryCount = (if retryCount < 0 then 0 else retryCount) in
      if retryCount \<ge> maxSafeRetryShift then maxBackoff
      else let shifted = wrap64 (2 ^ nat retryCount) in
           if shifted > go_div int64_max base then maxBackoff
           else let backoff = wrap64 (base * shifted) in
                if backoff > maxBackoff then maxBackoff else backoff)"

section \<open>One run of the worker\<close>

text \<open>The collaborators of \<open>WipeJobRunner\<close>, each of them optional; a call returns whether it
  succeeded. The phases run in this order.\<close>

record 'e cleaners =
  c_Scylla :: "(uin \<Rightarrow> 'e \<Rightarrow> bool \<times> 'e) option"
  c_NATS :: "(uin \<Rightarrow> 'e \<Rightarrow> bool \<times> 'e) option"
  c_Minio :: "((uin \<Rightarrow> string list \<Rightarrow> 'e \<Rightarrow> bool \<times> 'e) \<times> (uin \<Rightarrow> 'e \<Rightarrow> bool \<times> 'e)) option"
  c_Redis :: "(uin \<Rightarrow> 'e \<Rightarrow> bool \<times> 'e) option"

type_synonym 'e phase = "string \<times> ('e \<Rightarrow> bool \<times> 'e)"

definition worker_phases :: "'e cleaners \<Rightarrow> uin \<Rightarrow> string list \<Rightarrow> 'e phase list" where
  "worker_phases c u keys =
     (case c_Scylla c of None \<Rightarrow> [] | Some f \<Rightarrow> [(''scylla'', f u)]) @
     (case c_NATS c of None \<Rightarrow> [] | Some f \<Rightarrow> [(''nats'', f u)]) @
     (case c_Minio c of None \<Rightarrow> [] | Some (f, g) \<Rightarrow> [(''minio_objects'', f u keys), (''minio_grants'', g u)]) @
     (case c_Redis c of None \<Rightarrow> [] | Some f \<Rightarrow> [(''redis'', f u)])"

text \<open>
  \<open>wq_cancel\<close>: the first observation of \<open>jobCtx\<close> at which it is cancelled; phase \<open>i\<close> observes
  it as number \<open>2 i\<close> and \<open>2 i + 1\<close>, the completion check comes last.
  \<open>wq_block a\<close>: the outcome of blocklist deletion attempt \<open>a\<close>.
\<close>

record 'e wipe_io =
  wq_pool :: bool
  wq_pgnow :: gotime
  wq_now :: gotime
  wq_locked :: "int list"
  wq_claim :: outcome
  wq_cancel :: "nat option"
  wq_parent_done :: bool
  wq_begin :: bool
  wq_deletes :: bool
  wq_commit :: outcome
  wq_block :: "nat \<Rightarrow> outcome"
  wq_job_begin :: bool
  wq_job_exec :: bool
  wq_job_commit :: outcome
  wq_retry :: outcome
  wq_retry_now :: gotime
  wq_env :: "nat \<Rightarrow> 'e wipe_world \<Rightarrow> 'e wipe_world"

datatype wipe_result = NotConfigured | NoJob | ClaimFailed
  | Retry "string list" | SkippedShutdown | AlreadyCompleted | Completed

definition cancelled :: "'e wipe_io \<Rightarrow> nat \<Rightarrow> bool" where
  "cancelled io k = (case wq_cancel io of None \<Rightarrow> False | Some c \<Rightarrow> c \<le> k)"

definition containsPhase :: "string list \<Rightarrow> string \<Rightarrow> bool" where
  "containsPhase phases name \<longleftrightarrow> list_ex (\<lambda>p. p = name) phases"

definition add_lost :: "string list \<Rightarrow> string list" where
  "add_lost fs = (if \<not> containsPhase fs ''lease-lost'' then fs @ [''lease-lost''] else fs)"

definition runPhase ::
  "'e wipe_io \<Rightarrow> nat \<Rightarrow> 'e phase \<Rightarrow> string list \<times> 'e wipe_world \<Rightarrow> string list \<times> 'e wipe_world" where
  "runPhase io k ph st =
     (case st of (failedPhases, s) \<Rightarrow> case ph of (name, fn) \<Rightarrow>
        if cancelled io (2 * k) then (add_lost failedPhases, s)
        else
          let (ok, e) = fn (w_ext s);
              failedPhases = (if ok then failedPhases else failedPhases @ [name])
          in ((if cancelled io (2 * k + 1) then add_lost failedPhases else failedPhases), s\<lparr>w_ext := e\<rparr>))"

fun runPhases ::
  "'e wipe_io \<Rightarrow> nat \<Rightarrow> 'e phase list \<Rightarrow> string list \<times> 'e wipe_world \<Rightarrow> string list \<times> 'e wipe_world" where
  "runPhases io k [] st = st"
| "runPhases io k (ph # phs) st = runPhases io (Suc k) phs (runPhase io k ph st)"

definition scheduleRetry ::
  "'e wipe_io \<Rightarrow> int \<Rightarrow> string list \<Rightarrow> int \<Rightarrow> string \<Rightarrow> 'e wipe_world \<Rightarrow> 'e wipe_world" where
  "scheduleRetry io i failedPhases retryCount w s =
     (let backoff = saturatedBackoff wipeJobRetryBaseWait retryCount wipeJobMaxBackoff;
          nextRetry = wq_retry_now io + backoff
      in if took_effect (wq_retry io) then snd (qRetryWipeJob i failedPhases nextRetry w s) else s)"

fun deleteBlocklist :: "(nat \<Rightarrow> outcome) \<Rightarrow> nat \<Rightarrow> nat \<Rightarrow> uin \<Rightarrow> 'e wipe_world \<Rightarrow> bool \<times> 'e wipe_world" where
  "deleteBlocklist out attempt 0 u s = (False, s)"
| "deleteBlocklist out attempt (Suc n) u s =
     (let s' = (if took_effect (out attempt) then s\<lparr>w_blocklist := w_blocklist s - {u}\<rparr> else s) in
      if failed (out attempt) then deleteBlocklist out (Suc attempt) n u s' else (True, s'))"

text \<open>Phase 3: the job row goes, in a transaction of its own.\<close>

definition deleteJob ::
  "'e wipe_io \<Rightarrow> int \<Rightarrow> int \<Rightarrow> string \<Rightarrow> 'e wipe_world \<Rightarrow> wipe_result \<times> 'e wipe_world" where
  "deleteJob io i retryCount w s =
     (let retry = (\<lambda>s. (Retry [''job-deletion''], scheduleRetry io i [''job-deletion''] retryCount w s)) in
      if \<not> wq_job_begin io then retry s
      else if \<not> wq_job_exec io then retry s
      else let (n, s') = qDeleteWipeJob i w s in
        if n = 0 then (AlreadyCompleted, s)
        else if failed (wq_job_commit io) then retry (if took_effect (wq_job_commit io) then s' else s)
        else (Completed, s'))"

text \<open>Phases 1 and 2 of the final erasure; \<open>redis\<close>: whether Redis is configured.\<close>

definition finishJob ::
  "'e wipe_io \<Rightarrow> bool \<Rightarrow> int \<Rightarrow> uin \<Rightarrow> int \<Rightarrow> string \<Rightarrow> 'e wipe_world \<Rightarrow> wipe_result \<times> 'e wipe_world" where
  "finishJob io redis i u retryCount w s =
     (if \<not> wq_begin io \<or> \<not> wq_deletes io
      then (Retry [''final-erasure''], scheduleRetry io i [''final-erasure''] retryCount w s)
      else
        let s1 = (if took_effect (wq_commit io) then finalErasure u s else s) in
        if failed (wq_commit io)
        then (Retry [''final-erasure''], scheduleRetry io i [''final-erasure''] retryCount w s1)
        else
          let s2 = wq_env io 2 s1;
              (gone, s3) = (if redis then deleteBlocklist (wq_block io) 0 maxBlocklistRetries u s2
                            else (True, s2))
          in if \<not> gone then (Retry [''blocklist''], scheduleRetry io i [''blocklist''] retryCount w s3)
             else deleteJob io i retryCount w (wq_env io 3 s3))"

definition processOneJob ::
  "duration \<Rightarrow> string \<Rightarrow> 'e cleaners \<Rightarrow> 'e wipe_io \<Rightarrow> 'e wipe_world \<Rightarrow> wipe_result \<times> 'e wipe_world" where
  "processOneJob lease w c io s =
     (if \<not> wq_pool io then (NotConfigured, s)
      else
        let leaseUntil = wq_now io + leaseTimeout lease;
            (claimed, s1) = qClaimPendingJob (wq_pgnow io) (wq_locked io) leaseUntil w s
        in if failed (wq_claim io) then (ClaimFailed, if took_effect (wq_claim io) then s1 else s)
           else case claimed of
             None \<Rightarrow> (NoJob, s1)
           | Some (i, j) \<Rightarrow>
               let phases = worker_phases c (j_uin j) (j_file_keys j);
                   (failedPhases, s2) = runPhases io 0 phases ([], wq_env io 0 s1);
                   s3 = wq_env io 1 s2
               in if cancelled io (2 * length phases) then
                    (if \<not> wq_parent_done io
                     then (Retry (add_lost failedPhases),
                           scheduleRetry io i (add_lost failedPhases) (j_retry_count j) w s3)
                     else (SkippedShutdown, s3))
                  else if failedPhases = [] then finishJob io (\<not> Option.is_none (c_Redis c)) i (j_uin j) (j_retry_count j) w s3
                  else (Retry failedPhases, scheduleRetry io i failedPhases (j_retry_count j) w s3))"

text \<open>One tick of the renewal goroutine: whether it cancels the job, and the lease it counts
  as confirmed.\<close>

definition renewTick ::
  "outcome \<Rightarrow> gotime \<Rightarrow> gotime \<Rightarrow> duration \<Rightarrow> int \<Rightarrow> string \<Rightarrow> gotime \<Rightarrow> 'e wipe_world \<Rightarrow>
    bool \<times> gotime \<times> 'e wipe_world" where
  "renewTick out pgnow now lease i w lastConfirmed s =
     (let newLease = now + leaseTimeout lease;
          (n, s') = qRenewLease pgnow i newLease w s
      in if failed out then (True, lastConfirmed, if took_effect out then s' else s)
         else (n = 0, newLease, s'))"

section \<open>Redis keys\<close>

definition redisUserKeys :: "uin \<Rightarrow> string list" where
  "redisUserKeys u =
     [''presence:'' @ itoa u, ''undelivered:'' @ itoa u, ''poll:stream:'' @ itoa u,
      ''poll:cursors:'' @ itoa u, ''poll:cursor-order:'' @ itoa u, ''login_attempts:'' @ itoa u]"

definition redisScanPatterns :: "uin \<Rightarrow> string list" where
  "redisScanPatterns u = [''poll:{'' @ itoa u @ ''}:*'', ''poll:{'' @ itoa u @ ''}'']"

end
