(* ===== verification/WipeProperties.thy ===== *)
theory WipeProperties
  imports WipeJob
begin

text \<open>
  Properties of the wipe worker: lease ownership, completeness of a finished wipe, jobs that
  are never stranded, the order of claims and the bounds of the backoff.
\<close>

section \<open>The job table\<close>

lemma map_of_upd_job [simp]:
  "map_of (upd_job i f js) k = (if k = i then map_option f (map_of js k) else map_of js k)"
  by (induction js) (auto simp: upd_job_def)

lemma keys_upd_job [simp]: "map fst (upd_job i f js) = map fst js"
  by (induction js) (auto simp: upd_job_def)

lemma map_of_delete:
  "distinct (map fst js) \<Longrightarrow> map_of (filter (\<lambda>(k, j). k = i \<longrightarrow> \<not> P j) js) k =
     (case map_of js k of None \<Rightarrow> None | Some j \<Rightarrow> if k = i \<and> P j then None else Some j)"
proof (induction js)
  case (Cons a js)
  show ?case
  proof (cases "fst a = k")
    case True
    then have "k \<notin> fst ` set js" using Cons.prems by auto
    then have "map_of js k = None" "map_of (filter (\<lambda>(k, j). k = i \<longrightarrow> \<not> P j) js) k = None"
      by (auto simp: map_of_eq_None_iff image_iff)
    with True show ?thesis by (cases a) auto
  next
    case False
    with Cons show ?thesis by (cases a) auto
  qed
qed simp

lemma map_of_delete_other:
  "k \<noteq> i \<Longrightarrow> map_of (filter (\<lambda>(k, j). k = i \<longrightarrow> \<not> P j) js) k = map_of js k"
  by (induction js) auto

lemma rows_affected:
  "distinct (map fst js) \<Longrightarrow> map_of js i = Some j \<Longrightarrow>
     length (filter (\<lambda>(k, j). k = i \<and> P j) js) = (if P j then 1 else 0)"
proof (induction js)
  case (Cons a js)
  show ?case
  proof (cases "fst a = i")
    case True
    then have "i \<notin> fst ` set js" using Cons.prems(1) by auto
    then have "filter (\<lambda>(k, j). k = i \<and> P j) js = []" by (force simp: filter_empty_conv)
    with True Cons.prems(2) show ?thesis by (cases a) auto
  next
    case False
    with Cons show ?thesis by (cases a) auto
  qed
qed simp

lemma first_ready_SomeD:
  "first_ready now locked js = Some x \<Longrightarrow> x \<in> set js \<and> job_ready now (snd x) \<and> fst x \<notin> set locked"
  by (induction js arbitrary: x) (auto split: if_splits option.splits)

lemma first_ready_None: "first_ready now locked js = None \<longleftrightarrow>
    (\<forall>x \<in> set js. job_ready now (snd x) \<longrightarrow> fst x \<in> set locked)"
  by (induction js) (auto split: option.splits)

lemma job_before_trans: "job_before a b \<Longrightarrow> job_before b c \<Longrightarrow> job_before a c"
  by (auto simp: job_before_def)

lemma job_before_asym: "job_before a b \<Longrightarrow> \<not> job_before b a"
  by (auto simp: job_before_def)

lemma job_before_cotrans: "job_before a b \<Longrightarrow> job_before a c \<or> job_before c b"
  by (auto simp: job_before_def)

lemma first_ready_least:
  "first_ready now locked js = Some x \<Longrightarrow> y \<in> set js \<Longrightarrow> job_ready now (snd y) \<Longrightarrow>
    fst y \<notin> set locked \<Longrightarrow> \<not> job_before y x"
proof (induction js arbitrary: x)
  case (Cons a js)
  show ?case
  proof (cases "first_ready now locked js")
    case None
    then have "y \<notin> set js" using Cons.prems(3,4) by (auto simp: first_ready_None)
    with Cons.prems None have "x = a" "y = a" by auto
    then show ?thesis by (simp add: job_before_def)
  next
    case (Some z)
    have z: "y \<in> set js \<Longrightarrow> \<not> job_before y z" using Cons.IH [OF Some] Cons.prems(3,4) by blast
    have irr: "\<not> job_before a a" by (simp add: job_before_def)
    show ?thesis
    proof (cases "x = z")
      case True
      with Cons.prems Some z irr show ?thesis
        by (auto split: if_splits dest: job_before_asym)
    next
      case False
      with Cons.prems(1) Some have "x = a" "\<not> job_before z a" by (auto split: if_splits)
      with Cons.prems(2) z irr show ?thesis using job_before_cotrans [of y a z] by auto
    qed
  qed
qed simp

section \<open>Invariants of the worker\<close>

text \<open>What every statement of the worker \<open>w\<close> keeps, a whole run keeps, provided the other
  workers keep it too.\<close>

locale worker_inv =
  fixes I :: "'e wipe_world \<Rightarrow> bool" and w :: string and pgnow :: gotime
  assumes inv_ext: "I s \<Longrightarrow> I (s\<lparr>w_ext := e\<rparr>)"
    and inv_claim: "I s \<Longrightarrow> I (snd (qClaimPendingJob pgnow locked lease w s))"
    and inv_retry: "I s \<Longrightarrow> I (snd (qRetryWipeJob i fs n w s))"
    and inv_delete: "I s \<Longrightarrow> I (snd (qDeleteWipeJob i w s))"
    and inv_erase: "I s \<Longrightarrow> I (finalErasure u s)"
    and inv_block: "I s \<Longrightarrow> I (s\<lparr>w_blocklist := w_blocklist s - {u}\<rparr>)"
begin

lemma inv_phase: "I (snd st) \<Longrightarrow> I (snd (runPhase io k ph st))"
  by (auto simp: runPhase_def Let_def intro: inv_ext split: prod.split)

lemma inv_phases: "I (snd st) \<Longrightarrow> I (snd (runPhases io k phs st))"
  by (induction phs arbitrary: k st) (simp_all add: inv_phase)

lemma inv_schedule: "I s \<Longrightarrow> I (scheduleRetry io i fs n w s)"
  by (simp add: scheduleRetry_def inv_retry Let_def)

lemma inv_blocklist: "I s \<Longrightarrow> I (snd (deleteBlocklist out a n u s))"
  by (induction n arbitrary: a s) (auto simp: Let_def inv_block)

lemma inv_deleteJob: "I s \<Longrightarrow> I (snd (deleteJob io i n w s))"
  using inv_delete [of s i] by (auto simp: deleteJob_def Let_def inv_schedule split: prod.split)

lemma inv_finish:
  assumes "\<forall>k s. I s \<longrightarrow> I (wq_env io k s)" and "I s"
  shows "I (snd (finishJob io redis i u n w s))"
proof -
  let ?s1 = "if took_effect (wq_commit io) then finalErasure u s else s"
  let ?b = "if redis then deleteBlocklist (wq_block io) 0 maxBlocklistRetries u (wq_env io 2 ?s1)
     else (True, wq_env io 2 ?s1)"
  have 1: "I ?s1" using assms(2) inv_erase by simp
  then have "I (snd ?b)" using assms(1) inv_blocklist by simp
  with 1 assms show ?thesis
    by (cases ?b) (auto simp: finishJob_def Let_def intro!: inv_schedule inv_deleteJob)
qed

lemma inv_process:
  assumes "\<forall>k s. I s \<longrightarrow> I (wq_env io k s)" and "wq_pgnow io = pgnow" and "I s"
  shows "I (snd (processOneJob lease w c io s))"
proof -
  obtain cl s1 where cl: "qClaimPendingJob (wq_pgnow io) (wq_locked io) (wq_now io + leaseTimeout lease) w s = (cl, s1)"
    by force
  have s1: "I s1" using inv_claim [OF assms(3)] cl assms(2) by (metis snd_conv)
  show ?thesis
  proof (cases cl)
    case None
    with cl s1 assms(3) show ?thesis by (simp add: processOneJob_def)
  next
    case (Some ij)
    obtain i j where ij: "ij = (i, j)" by force
    obtain fs s2 where ph: "runPhases io 0 (worker_phases c (j_uin j) (j_file_keys j)) ([], wq_env io 0 s1) = (fs, s2)"
      by force
    have "I s2" using inv_phases [of "([], wq_env io 0 s1)" io 0 "worker_phases c (j_uin j) (j_file_keys j)"]
      assms(1) s1 ph by simp
    then have "I (wq_env io 1 s2)" using assms(1) by simp
    with s1 assms(1,3) show ?thesis
      by (simp add: processOneJob_def cl Some ij ph inv_schedule inv_finish Let_def)
  qed
qed

end

section \<open>Interpretations\<close>

text \<open>A job that another worker holds under a live lease.\<close>

definition held_by_other :: "gotime \<Rightarrow> string \<Rightarrow> int \<Rightarrow> wipe_job \<Rightarrow> 'e wipe_world \<Rightarrow> bool" where
  "held_by_other pgnow w i j s \<longleftrightarrow> map_of (w_jobs s) i = Some j \<and> distinct (map fst (w_jobs s)) \<and>
     \<not> job_ready pgnow j \<and> j_worker_id j \<noteq> Some w"

lemma distinct_filter_fst: "distinct (map fst xs) \<Longrightarrow> distinct (map fst (filter P xs))"
  by (rule distinct_map_filter)

interpretation held: worker_inv "held_by_other pgnow w i j" w pgnow for pgnow w i j
proof
  fix s :: "'e wipe_world" and locked lease
  assume h: "held_by_other pgnow w i j s"
  show "held_by_other pgnow w i j (snd (qClaimPendingJob pgnow locked lease w s))"
  proof (cases "first_ready pgnow locked (w_jobs s)")
    case (Some x)
    obtain k j' where x: "x = (k, j')" by force
    have "map_of (w_jobs s) k = Some j'" "job_ready pgnow j'"
      using first_ready_SomeD [OF Some] h by (simp_all add: x held_by_other_def)
    with h have "k \<noteq> i" by (auto simp: held_by_other_def)
    with h Some show ?thesis by (simp add: qClaimPendingJob_def x held_by_other_def)
  qed (use h in \<open>simp add: qClaimPendingJob_def\<close>)
qed (auto simp: held_by_other_def qRetryWipeJob_def qDeleteWipeJob_def finalErasure_def Let_def
    map_of_delete distinct_filter_fst)

text \<open>The foreign keys of \<open>wiped_accounts\<close> and \<open>refresh_tokens\<close>, and unique job ids.\<close>

definition tables_ok :: "'e wipe_world \<Rightarrow> bool" where
  "tables_ok s \<longleftrightarrow> w_wiped_accounts s \<subseteq> w_users s \<and> fst ` w_refresh_tokens s \<subseteq> w_users s \<and>
     distinct (map fst (w_jobs s))"

interpretation tabs: worker_inv tables_ok w pgnow for w pgnow
  by unfold_locales
     (auto simp: tables_ok_def qClaimPendingJob_def qRetryWipeJob_def qDeleteWipeJob_def
      finalErasure_def Let_def distinct_filter_fst split: option.split)

section \<open>Ownership\<close>


definition sample_wipe_io :: "gotime \<Rightarrow> 'e wipe_io" where
  "sample_wipe_io now = \<lparr>wq_pool = True, wq_pgnow = now, wq_now = now, wq_locked = [], wq_claim = Done,
     wq_cancel = None, wq_parent_done = False, wq_begin = True, wq_deletes = True, wq_commit = Done,
     wq_block = (\<lambda>_. Done), wq_job_begin = True, wq_job_exec = True, wq_job_commit = Done,
     wq_retry = Done, wq_retry_now = now, wq_env = (\<lambda>_ s. s)\<rparr>"

definition sample_job :: wipe_job where
  "sample_job = \<lparr>j_uin = 5, j_status = JobPending, j_file_keys = [''a''], j_failed_phases = [],
     j_retry_count = 0, j_next_retry_at = 0, j_lease_until = None, j_worker_id = None\<rparr>"

definition held_job :: wipe_job where
  "held_job = sample_job\<lparr>j_status := JobProcessing, j_lease_until := Some 200, j_worker_id := Some ''w-a''\<rparr>"

definition sample_world :: "jobs \<Rightarrow> nat wipe_world" where
  "sample_world js = \<lparr>w_users = {5, 6}, w_wiped_accounts = {5}, w_refresh_tokens = {(5, ''t'')},
     w_jobs = js, w_blocklist = {5}, w_ext = 0\<rparr>"

definition sample_cleaners :: "nat cleaners" where
  "sample_cleaners = \<lparr>c_Scylla = Some (\<lambda>u e. (True, e + 1)), c_NATS = Some (\<lambda>u e. (True, e + 1)),
     c_Minio = Some (\<lambda>u ks e. (True, e + length ks), \<lambda>u e. (True, e)), c_Redis = Some (\<lambda>u e. (True, e))\<rparr>"


text \<open>Also: a renewal tick extends a lease only for the worker that holds it and while it has not
  expired; otherwise it reports the loss and the job row stays as it is.\<close>

theorem renewal_guard:
  assumes "distinct (map fst (w_jobs s))" and "map_of (w_jobs s) i = Some j"
  shows "(renewable pgnow w j \<longrightarrow>
      fst (renewTick Done pgnow now lease i w confirmed s) = False \<and>
      map_of (w_jobs (snd (snd (renewTick Done pgnow now lease i w confirmed s)))) i =
        Some (j\<lparr>j_lease_until := Some (now + leaseTimeout lease)\<rparr>)) \<and>
    (\<not> renewable pgnow w j \<longrightarrow>
      fst (renewTick out pgnow now lease i w confirmed s) \<and>
      map_of (w_jobs (snd (snd (renewTick out pgnow now lease i w confirmed s)))) i = Some j)"
  using assms(2) rows_affected [OF assms]
  by (simp add: renewTick_def qRenewLease_def Let_def)

lemma renewal_guard_witness:
  "fst (renewTick Done 100 101 0 1 ''w-a'' 0 (sample_world [(1, held_job)])) = False \<and>
   fst (renewTick Done 200 201 0 1 ''w-a'' 0 (sample_world [(1, held_job)]))"
  using renewal_guard [of "sample_world [(1, held_job)]" 1 held_job 100 "''w-a''" 101 0 0 Done]
    renewal_guard [of "sample_world [(1, held_job)]" 1 held_job 200 "''w-a''" 201 0 0 Done]
  by (simp add: sample_world_def held_job_def sample_job_def renewable_def)

section \<open>Completeness of a wipe\<close>

fun phases_succeed :: "'e phase list \<Rightarrow> 'e \<Rightarrow> bool" where
  "phases_succeed [] e \<longleftrightarrow> True"
| "phases_succeed (ph # phs) e \<longleftrightarrow> fst (snd ph e) \<and> phases_succeed phs (snd (snd ph e))"

lemma runPhase_mono: "fst (runPhase io k ph st) = [] \<Longrightarrow> fst st = []"
  by (auto simp: runPhase_def Let_def add_lost_def split: prod.splits if_splits)

lemma runPhases_mono: "fst (runPhases io k phs st) = [] \<Longrightarrow> fst st = []"
proof (induction phs arbitrary: k st)
  case (Cons ph phs)
  then have "fst (runPhase io k ph st) = []" by (metis runPhases.simps(2))
  then show ?case by (rule runPhase_mono)
qed simp

lemma runPhases_succeed:
  "fst (runPhases io k phs ([], s)) = [] \<Longrightarrow> phases_succeed phs (w_ext s)"
proof (induction phs arbitrary: k s)
  case (Cons ph phs)
  from runPhases_mono Cons.prems have e: "fst (runPhase io k ph ([], s)) = []" by fastforce
  obtain ok x where fx: "snd ph (w_ext s) = (ok, x)" by force
  have "ok" "runPhase io k ph ([], s) = ([], s\<lparr>w_ext := x\<rparr>)"
    using e fx by (auto simp: runPhase_def add_lost_def containsPhase_def Let_def split: prod.splits if_splits)
  with Cons fx show ?case by fastforce
qed simp

lemma runPhases_frame:
  "\<exists>e. snd (runPhases io k phs st) = (snd st)\<lparr>w_ext := e\<rparr>"
proof (induction phs arbitrary: k st)
  case (Cons ph phs)
  have "\<exists>e. snd (runPhase io k ph st) = (snd st)\<lparr>w_ext := e\<rparr>"
    by (auto simp: runPhase_def Let_def intro: exI [of _ "w_ext (snd st)"] split: prod.split)
  with Cons [of "Suc k" "runPhase io k ph st"] show ?case by auto
next
  case Nil
  show ?case by (auto intro: exI [of _ "w_ext (snd st)"])
qed

text \<open>What the other workers and handlers may do to the account of \<open>u\<close>: they never bring the
  user row or the blocklist key back, a marker or token needs the user row, and they leave
  the job to its owner.\<close>

definition env_ok :: "uin \<Rightarrow> int \<Rightarrow> ('e wipe_world \<Rightarrow> 'e wipe_world) \<Rightarrow> bool" where
  "env_ok u i f \<longleftrightarrow> (\<forall>s. (u \<notin> w_users s \<longrightarrow> u \<notin> w_users (f s)) \<and>
     (u \<notin> w_blocklist s \<longrightarrow> u \<notin> w_blocklist (f s)) \<and>
     (tables_ok s \<longrightarrow> tables_ok (f s)) \<and> map_of (w_jobs (f s)) i = map_of (w_jobs s) i)"

definition erased :: "uin \<Rightarrow> bool \<Rightarrow> 'e wipe_world \<Rightarrow> bool" where
  "erased u redis s \<longleftrightarrow> u \<notin> w_users s \<and> u \<notin> w_wiped_accounts s \<and> u \<notin> fst ` w_refresh_tokens s \<and>
     (redis \<longrightarrow> u \<notin> w_blocklist s)"

lemma scheduleRetry_frame [simp]:
  "w_users (scheduleRetry io i fs n w s) = w_users s"
  "w_wiped_accounts (scheduleRetry io i fs n w s) = w_wiped_accounts s"
  "w_refresh_tokens (scheduleRetry io i fs n w s) = w_refresh_tokens s"
  "w_blocklist (scheduleRetry io i fs n w s) = w_blocklist s"
  by (simp_all add: scheduleRetry_def qRetryWipeJob_def Let_def)

lemma scheduleRetry_keeps [simp]:
  "map_of (w_jobs (scheduleRetry io i fs n w s)) k = None \<longleftrightarrow> map_of (w_jobs s) k = None"
  by (simp add: scheduleRetry_def qRetryWipeJob_def Let_def)

lemma deleteBlocklist_frame:
  "w_jobs (snd (deleteBlocklist out a n u s)) = w_jobs s \<and> w_users (snd (deleteBlocklist out a n u s)) = w_users s"
  by (induction n arbitrary: a s) (auto simp: Let_def)

lemma deleteBlocklist_done:
  "deleteBlocklist out a n u s = (True, s') \<Longrightarrow> u \<notin> w_blocklist s'"
  by (induction n arbitrary: a s) (auto simp: Let_def split: if_splits)

lemma deleteJob_removed:
  assumes "map_of (w_jobs s) i = Some j" and "map_of (w_jobs (snd (deleteJob io i n w s))) i = None"
    and "erased u redis s"
  shows "erased u redis (snd (deleteJob io i n w s)) \<and> fst (deleteJob io i n w s) \<in> {Completed, Retry [''job-deletion'']}"
  using assms
  by (auto simp: deleteJob_def Let_def erased_def qDeleteWipeJob_def)

lemma finishJob_removed:
  assumes env: "env_ok u i (wq_env io 2)" "env_ok u i (wq_env io 3)" and ok: "tables_ok s"
    and j: "map_of (w_jobs s) i = Some j"
    and gone: "map_of (w_jobs (snd (finishJob io redis i u n w s))) i = None"
  shows "erased u redis (snd (finishJob io redis i u n w s)) \<and>
    fst (finishJob io redis i u n w s) \<in> {Completed, Retry [''job-deletion'']}"
proof -
  let ?s2 = "wq_env io 2 (finalErasure u s)"
  obtain b s3 where b: "(if redis then deleteBlocklist (wq_block io) 0 maxBlocklistRetries u ?s2 else (True, ?s2)) = (b, s3)"
    by force
  have fe: "u \<notin> w_users (finalErasure u s)" "tables_ok (finalErasure u s)"
      "map_of (w_jobs (finalErasure u s)) i = Some j"
    using tabs.inv_erase [OF ok] j by (simp_all add: finalErasure_def Let_def)
  have s3: "u \<notin> w_users s3" "map_of (w_jobs s3) i = Some j" "tables_ok s3" "b \<and> redis \<Longrightarrow> u \<notin> w_blocklist s3"
    using b fe env(1) deleteBlocklist_frame [of "wq_block io" 0 maxBlocklistRetries u ?s2]
      tabs.inv_blocklist [of ?s2 "wq_block io" 0 maxBlocklistRetries u]
      deleteBlocklist_done [of "wq_block io" 0 maxBlocklistRetries u ?s2 s3]
    by (auto simp: env_ok_def split: if_splits)
  have e4: "u \<notin> w_users (wq_env io 3 s3)" "tables_ok (wq_env io 3 s3)"
    "map_of (w_jobs (wq_env io 3 s3)) i = Some j" "b \<and> redis \<Longrightarrow> u \<notin> w_blocklist (wq_env io 3 s3)"
    using env(2) s3 by (simp_all add: env_ok_def)
  then have er: "b \<Longrightarrow> erased u redis (wq_env io 3 s3)"
    by (auto simp: erased_def tables_ok_def)
  have "finishJob io redis i u n w s = deleteJob io i n w (wq_env io 3 s3) \<and> b"
    using gone j fe(3) b s3(2) by (auto simp: finishJob_def Let_def split: if_splits)
  with gone er deleteJob_removed [OF e4(3)] show ?thesis by simp
qed

lemma deleteJob_other:
  "k \<noteq> i \<Longrightarrow> map_of (w_jobs (snd (deleteJob io i n w s))) k = None \<longleftrightarrow> map_of (w_jobs s) k = None"
  by (auto simp: deleteJob_def qDeleteWipeJob_def map_of_delete_other Let_def)

lemma finishJob_other:
  assumes "k \<noteq> i" and "\<forall>n. env_ok u k (wq_env io n)" and "map_of (w_jobs s) k \<noteq> None"
  shows "map_of (w_jobs (snd (finishJob io redis i v m w s))) k \<noteq> None"
proof -
  have env: "map_of (w_jobs (wq_env io n t)) k = map_of (w_jobs t) k" for n t
    using assms(2) by (simp add: env_ok_def)
  have bl: "w_jobs s3 = w_jobs t" if "deleteBlocklist out a n x t = (b, s3)" for out a n x t b s3
    using deleteBlocklist_frame [of out a n x t] that by simp
  have fe: "w_jobs (finalErasure v s) = w_jobs s" by (simp add: finalErasure_def Let_def)
  show ?thesis
    using assms(1,3)
    by (auto simp: finishJob_def Let_def deleteJob_other env fe simp del: not_None_eq dest!: bl split: prod.split)
qed


definition sample_wipe_run :: "wipe_result \<times> nat wipe_world" where
  "sample_wipe_run = processOneJob 0 ''w-b'' sample_cleaners (sample_wipe_io 100) (sample_world [(1, held_job), (2, sample_job)])"


section \<open>Claims and retries\<close>

text \<open>Also: a claim takes a job that is due (or whose lease has expired) and unlocked, none of
  those that come before it in the order of \<open>next_retry_at\<close> and id, gives it to the worker with the
  new lease, and marks the account wiped exactly when its user row still exists; with no such
  job nothing changes.\<close>

theorem claim_earliest:
  assumes "distinct (map fst (w_jobs s))"
  shows "case qClaimPendingJob pgnow locked lease w s of
      (None, s') \<Rightarrow> s' = s \<and> (\<forall>(k, j) \<in> set (w_jobs s). job_ready pgnow j \<longrightarrow> k \<in> set locked)
    | (Some (i, j), s') \<Rightarrow> map_of (w_jobs s) i = Some j \<and> job_ready pgnow j \<and> i \<notin> set locked \<and>
        (\<forall>(k, j') \<in> set (w_jobs s). job_ready pgnow j' \<and> k \<notin> set locked \<longrightarrow> \<not> job_before (k, j') (i, j)) \<and>
        map_of (w_jobs s') i = Some (j\<lparr>j_status := JobProcessing, j_lease_until := Some lease, j_worker_id := Some w\<rparr>) \<and>
        (\<forall>k. k \<noteq> i \<longrightarrow> map_of (w_jobs s') k = map_of (w_jobs s) k) \<and>
        (j_uin j \<in> w_users s \<longrightarrow> j_uin j \<in> w_wiped_accounts s') \<and>
        (j_uin j \<notin> w_users s \<longrightarrow> w_wiped_accounts s' = w_wiped_accounts s)"
proof (cases "first_ready pgnow locked (w_jobs s)")
  case None
  then have "qClaimPendingJob pgnow locked lease w s = (None, s)" by (simp add: qClaimPendingJob_def)
  with None show ?thesis by (auto simp: first_ready_None)
next
  case (Some x)
  obtain i j where x: "x = (i, j)" by force
  have m: "map_of (w_jobs s) i = Some j" using first_ready_SomeD [OF Some] assms by (simp add: x)
  have l: "\<forall>(k, j') \<in> set (w_jobs s). job_ready pgnow j' \<and> k \<notin> set locked \<longrightarrow> \<not> job_before (k, j') (i, j)"
    using first_ready_least [OF Some] by (auto simp: x)
  have e: "qClaimPendingJob pgnow locked lease w s = (Some (i, j),
      s\<lparr>w_jobs := upd_job i (\<lambda>j. j\<lparr>j_status := JobProcessing, j_lease_until := Some lease, j_worker_id := Some w\<rparr>) (w_jobs s),
        w_wiped_accounts := (if j_uin j \<in> w_users s then insert (j_uin j) (w_wiped_accounts s) else w_wiped_accounts s)\<rparr>)"
    using Some by (simp add: qClaimPendingJob_def x)
  show ?thesis
    unfolding e prod.case option.case
    using first_ready_SomeD [OF Some] l
    by (intro conjI) (simp_all add: x m del: map_of_eq_Some_iff)
qed

lemma claim_earliest_witness:
  "map_of (w_jobs (snd (qClaimPendingJob 100 [] 220 ''w-b'' (sample_world [(1, held_job), (2, sample_job)])))) 2 =
     Some (sample_job\<lparr>j_status := JobProcessing, j_lease_until := Some 220, j_worker_id := Some ''w-b''\<rparr>)"
proof -
  have "fst (qClaimPendingJob 100 [] 220 ''w-b'' (sample_world [(1, held_job), (2, sample_job)])) = Some (2, sample_job)"
    by code_simp
  then obtain s' where "qClaimPendingJob 100 [] 220 ''w-b'' (sample_world [(1, held_job), (2, sample_job)]) = (Some (2, sample_job), s')"
    by (metis prod.collapse)
  then show ?thesis
    using claim_earliest [where s = "sample_world [(1, held_job), (2, sample_job)]" and pgnow = 100 and
      locked = "[]" and lease = 220 and w = "''w-b''"]
    by (simp add: sample_world_def)
qed

lemma div_less_times:
  fixes m b x :: int
  assumes "0 < b"
  shows "m div b < x \<longleftrightarrow> m < b * x"
proof
  assume "m div b < x"
  then have "b * (m div b + 1) \<le> b * x" using assms by (intro mult_left_mono) auto
  moreover have "b * (m div b) + m mod b = m" "b * (m div b + 1) = b * (m div b) + b"
    by (simp_all add: distrib_left)
  ultimately show "m < b * x" using pos_mod_bound [OF assms, of m] by linarith
next
  assume "m < b * x"
  show "m div b < x"
  proof (rule ccontr)
    assume "\<not> m div b < x"
    then have "b * x \<le> b * (m div b)" using assms by (intro mult_left_mono) auto
    moreover have "b * (m div b) + m mod b = m" by simp
    ultimately show False using \<open>m < b * x\<close> pos_mod_sign [OF assms, of m] by linarith
  qed
qed

text \<open>Also: the retry delay is the base wait doubled with every retry and capped at the maximum: for
  every retry count the computation neither overflows nor leaves the range from base to maximum.\<close>

theorem saturatedBackoff_exact:
  assumes "0 < base" and "base \<le> maxBackoff" and "is_int64 maxBackoff" and "maxBackoff \<le> base * 2 ^ 62"
  shows "saturatedBackoff base n maxBackoff = min (base * 2 ^ nat n) maxBackoff \<and>
    base \<le> saturatedBackoff base n maxBackoff \<and> saturatedBackoff base n maxBackoff \<le> maxBackoff"
proof -
  let ?r = "if n < 0 then 0 else n"
  have nat: "nat ?r = nat n" by simp
  have ge: "base \<le> base * 2 ^ k" for k :: nat using assms(1) by simp
  have "saturatedBackoff base n maxBackoff = min (base * 2 ^ nat n) maxBackoff"
  proof (cases "62 \<le> ?r")
    case True
    then have "(62::nat) \<le> nat n" by (auto split: if_splits)
    then have "(2::int) ^ 62 \<le> 2 ^ nat n" by (rule power_increasing) simp
    then have "base * 2 ^ 62 \<le> base * 2 ^ nat n" by (intro mult_left_mono) (use assms(1) in simp_all)
    with assms(4) True show ?thesis
      by (simp add: saturatedBackoff_def maxSafeRetryShift_def Let_def min_def)
  next
    case False
    then have "nat n \<le> 61" by (auto split: if_splits)
    then have "(2::int) ^ nat n \<le> 2 ^ 61" by (rule power_increasing) simp
    then have sh: "wrap64 (2 ^ nat n) = 2 ^ nat n"
      by (intro wrap64_id) (auto simp: is_int64_def int64_min_def int64_max_def intro: order.trans [of _ 0])
    have dv: "go_div int64_max base < 2 ^ nat n \<longleftrightarrow> int64_max < base * 2 ^ nat n"
      using assms(1) by (simp add: int64_max_def div_less_times)
    have w: "wrap64 (base * 2 ^ nat n) = base * 2 ^ nat n" if "base * 2 ^ nat n \<le> int64_max"
      using that assms(1) by (intro wrap64_id) (auto simp: is_int64_def int64_min_def intro: order.trans [of _ 0])
    from False assms(3) show ?thesis
      by (simp only: saturatedBackoff_def Let_def maxSafeRetryShift_def nat sh dv)
         (auto simp: w is_int64_def min_def not_less)
  qed
  with ge [of "nat n"] assms(2) show ?thesis by simp
qed

lemma saturatedBackoff_exact_witness:
  "saturatedBackoff wipeJobRetryBaseWait 3 wipeJobMaxBackoff = 80 * Second \<and>
   saturatedBackoff wipeJobRetryBaseWait 9223372036854775807 wipeJobMaxBackoff \<le> 10 * Minute"
  using saturatedBackoff_exact [of wipeJobRetryBaseWait wipeJobMaxBackoff 3]
    saturatedBackoff_exact [of wipeJobRetryBaseWait wipeJobMaxBackoff 9223372036854775807, THEN conjunct2]
  by (simp add: wipeJobRetryBaseWait_def wipeJobMaxBackoff_def duration_defs is_int64_def
      int64_min_def int64_max_def)

text \<open>Also: a run whose cleanup did not fully succeed, or that lost its lease, deletes nothing of the
  account and puts the job back with the failed phases, one more retry counted, neither owner
  nor lease, and due again after the capped exponential delay.\<close>

theorem incomplete_cleanup_retried:
  assumes "tables_ok s" and "wq_pool io" and "wq_claim io = Done" and "\<forall>k s. wq_env io k s = s"
    and "wq_retry io = Done" and "first_ready (wq_pgnow io) (wq_locked io) (w_jobs s) = Some (i, j)"
    and "\<not> (\<exists>e. phases_succeed (worker_phases c (j_uin j) (j_file_keys j)) e) \<or>
         cancelled io (2 * length (worker_phases c (j_uin j) (j_file_keys j))) \<and> \<not> wq_parent_done io"
    and "\<not> (cancelled io (2 * length (worker_phases c (j_uin j) (j_file_keys j))) \<and> wq_parent_done io)"
  shows "\<exists>fs s'. processOneJob lease w c io s = (Retry fs, s') \<and> fs \<noteq> [] \<and> w_users s' = w_users s \<and>
    w_refresh_tokens s' = w_refresh_tokens s \<and> w_blocklist s' = w_blocklist s \<and>
    map_of (w_jobs s') i = Some (j\<lparr>j_status := JobRetrying, j_retry_count := j_retry_count j + 1,
      j_failed_phases := fs,
      j_next_retry_at := wq_retry_now io + saturatedBackoff wipeJobRetryBaseWait (j_retry_count j) wipeJobMaxBackoff,
      j_lease_until := None, j_worker_id := None\<rparr>)"
proof -
  let ?phs = "worker_phases c (j_uin j) (j_file_keys j)"
  obtain s1 where cl: "qClaimPendingJob (wq_pgnow io) (wq_locked io) (wq_now io + leaseTimeout lease) w s = (Some (i, j), s1)"
    and s1: "w_users s1 = w_users s" "w_refresh_tokens s1 = w_refresh_tokens s" "w_blocklist s1 = w_blocklist s"
      "w_jobs s1 = upd_job i (\<lambda>j. j\<lparr>j_status := JobProcessing, j_lease_until := Some (wq_now io + leaseTimeout lease), j_worker_id := Some w\<rparr>) (w_jobs s)"
    using assms(6) by (simp add: qClaimPendingJob_def)
  have j: "map_of (w_jobs s) i = Some j"
    using first_ready_SomeD [OF assms(6)] assms(1) by (simp add: tables_ok_def)
  obtain fs s2 where ph: "runPhases io 0 ?phs ([], s1) = (fs, s2)" by force
  obtain e where s2: "s2 = s1\<lparr>w_ext := e\<rparr>" using runPhases_frame [of io 0 ?phs "([], s1)"] ph by auto
  let ?fs = "if cancelled io (2 * length ?phs) then add_lost fs else fs"
  have ne: "?fs \<noteq> []"
    using assms(7) runPhases_succeed [of io 0 ?phs s1] ph
    by (auto simp: add_lost_def containsPhase_def)
  have "processOneJob lease w c io s = (Retry ?fs, scheduleRetry io i ?fs (j_retry_count j) w s2)"
    using assms(2-4,8) ne by (auto simp: processOneJob_def cl ph Let_def)
  moreover have "map_of (w_jobs (scheduleRetry io i ?fs (j_retry_count j) w s2)) i =
      Some (j\<lparr>j_status := JobRetrying, j_retry_count := j_retry_count j + 1, j_failed_phases := ?fs,
      j_next_retry_at := wq_retry_now io + saturatedBackoff wipeJobRetryBaseWait (j_retry_count j) wipeJobMaxBackoff,
      j_lease_until := None, j_worker_id := None\<rparr>)"
    using assms(5) j by (simp add: scheduleRetry_def qRetryWipeJob_def Let_def s2 s1(4) took_effect_def del: map_of_eq_Some_iff)
  ultimately show ?thesis using ne s1(1-3) s2 by auto
qed

definition failing_cleaners :: "nat cleaners" where
  "failing_cleaners = sample_cleaners\<lparr>c_NATS := Some (\<lambda>u e. (False, e))\<rparr>"

lemma incomplete_cleanup_retried_witness:
  "\<exists>fs s'. processOneJob 0 ''w-b'' failing_cleaners (sample_wipe_io 100) (sample_world [(2, sample_job)]) = (Retry fs, s') \<and>
     w_users s' = {5, 6}"
proof -
  have "first_ready 100 [] [(2, sample_job)] = Some (2, sample_job)" by code_simp
  then show ?thesis
    using incomplete_cleanup_retried [of "sample_world [(2, sample_job)]" "sample_wipe_io 100" 2 sample_job failing_cleaners 0 "''w-b''"]
    by (auto simp: sample_world_def sample_wipe_io_def tables_ok_def worker_phases_def failing_cleaners_def
        sample_cleaners_def cancelled_def)
qed

definition job_wf :: "wipe_job \<Rightarrow> bool" where
  "job_wf j \<longleftrightarrow> (j_status j = JobProcessing \<longrightarrow> j_lease_until j \<noteq> None)"

definition jobs_wf :: "'e wipe_world \<Rightarrow> bool" where
  "jobs_wf s \<longleftrightarrow> list_all (job_wf \<circ> snd) (w_jobs s)"

lemma list_all_upd_job:
  "list_all (P \<circ> snd) js \<Longrightarrow> (\<And>j. P j \<Longrightarrow> P (f j)) \<Longrightarrow> list_all (P \<circ> snd) (upd_job i f js)"
  by (induction js) (auto simp: upd_job_def)

interpretation wf: worker_inv jobs_wf w pgnow for w pgnow
proof
  fix s :: "'e wipe_world" and locked lease i fs n u e
  assume wf: "jobs_wf s"
  show "jobs_wf (snd (qClaimPendingJob pgnow locked lease w s))"
    using wf by (auto simp: jobs_wf_def qClaimPendingJob_def job_wf_def intro: list_all_upd_job split: option.split)
  show "jobs_wf (snd (qRetryWipeJob i fs n w s))"
    using wf by (auto simp: jobs_wf_def qRetryWipeJob_def job_wf_def intro: list_all_upd_job)
  show "jobs_wf (snd (qDeleteWipeJob i w s))"
    using wf by (auto simp: jobs_wf_def qDeleteWipeJob_def list_all_iff)
qed (simp_all add: jobs_wf_def finalErasure_def Let_def)

lemma job_wf_claimable: "job_wf j \<Longrightarrow> \<exists>t. \<forall>t' \<ge> t. job_ready t' j"
  by (cases "j_status j")
     (auto simp: job_wf_def job_ready_def intro: exI [of _ "j_next_retry_at j"] exI [of _ "the (j_lease_until j) + 1"])

text \<open>C27: no job is ever stranded: whatever a run meets, every job row it leaves behind can be
  claimed again from some time on (there is no terminal failure, and a job in processing always
  carries the lease that will expire).\<close>

theorem job_never_stranded:
  assumes "jobs_wf s" and "\<forall>k s. jobs_wf s \<longrightarrow> jobs_wf (wq_env io k s)"
    and "(k, j) \<in> set (w_jobs (snd (processOneJob lease w c io s)))"
  shows "\<exists>t. \<forall>t' \<ge> t. job_ready t' j"
proof -
  have "jobs_wf (snd (processOneJob lease w c io s))"
    using wf.inv_process [OF assms(2) refl assms(1)] .
  with assms(3) have "job_wf j" by (auto simp: jobs_wf_def list_all_iff)
  then show ?thesis by (rule job_wf_claimable)
qed

lemma job_never_stranded_witness:
  "\<exists>j. (1, j) \<in> set (w_jobs (snd sample_wipe_run)) \<and> (\<exists>t. \<forall>t' \<ge> t. job_ready t' j)"
proof -
  have "map_of (w_jobs (snd sample_wipe_run)) 1 = Some held_job" by code_simp
  then have "(1, held_job) \<in> set (w_jobs (snd sample_wipe_run))" by (rule map_of_SomeD)
  then show ?thesis
    using job_never_stranded [of "sample_world [(1, held_job), (2, sample_job)]" "sample_wipe_io 100" 1 held_job 0 "''w-b''" sample_cleaners]
    by (auto simp: sample_wipe_run_def jobs_wf_def job_wf_def sample_world_def held_job_def sample_job_def sample_wipe_io_def)
qed

end
