(* ===== verification/Tokens.thy ===== *)
theory Tokens
  imports Redis
begin

text \<open>
  Session tokens, \<^verbatim>\<open>shared/jwt/jwt.go\<close>: the strength check of the signing secret, issue,
  verification and revocation. The JWT library (signing, parsing with the pinned algorithm and
  issuer) is the record \<open>jwt_lib\<close>; \<open>jwt_lib_ok\<close> states what the code relies on. The tables it
  reads are the record \<open>auth_tables\<close>; Redis is the interface of \<open>Redis\<close>.
\<close>

section \<open>Definitions\<close>

datatype jwt_error = ErrTokenInvalid | ErrTokenExpired | ErrTokenRevoked | ErrTokenWrongType
  | ErrMissingSecret | ErrSecretTooWeak | ErrSessionEpochLookup | ErrBlocklistLookup string
  | ErrUnknownType | ErrRandom | ErrSign | ErrRevokeStore string | ErrNilRedis | ErrNilPostgres

definition minSecretBytes :: nat where "minSecretBytes = 32"
definition expectedIssuer :: string where "expectedIssuer = ''iceq''"
definition TokenTypeAccess :: string where "TokenTypeAccess = ''access''"
definition TokenTypeRefresh :: string where "TokenTypeRefresh = ''refresh''"
definition AccessTokenTTL :: duration where "AccessTokenTTL = 15 * Minute"
definition RefreshTokenTTL :: duration where "RefreshTokenTTL = 7 * 24 * Hour"
definition blocklistKeyPrefix :: string where "blocklistKeyPrefix = ''jwt:revoked:''"
definition minBlocklistTTL :: duration where "minBlocklistTTL = Second"

definition knownWeakSecrets :: "string list" where
  "knownWeakSecrets = [''changeme'', ''secret'', ''password'', ''test'', ''dev'', ''iceq'']"

text \<open>\<open>strings.ToLower\<close> on ASCII text.\<close>

definition lower :: "char \<Rightarrow> char" where
  "lower ch = (let n = of_char ch :: nat in if 65 \<le> n \<and> n \<le> 90 then char_of (n + 32) else ch)"

definition to_lower :: "string \<Rightarrow> string" where "to_lower = map lower"

text \<open>\<open>redis\<close>, \<open>pg\<close>: whether the collaborator is there; the manager keeps the secret.\<close>

definition NewManager :: "string \<Rightarrow> bool \<Rightarrow> bool \<Rightarrow> jwt_error + string" where
  "NewManager secret redis pg =
     (if secret = [] then Inl ErrMissingSecret
      else if length secret < minSecretBytes then Inl ErrSecretTooWeak
      else if to_lower secret \<in> set knownWeakSecrets then Inl ErrSecretTooWeak
      else if \<not> redis then Inl ErrNilRedis
      else if \<not> pg then Inl ErrNilPostgres
      else Inr secret)"

record claims =
  cl_UIN :: uin
  cl_JTI :: string
  cl_Type :: string
  cl_IssuedAt :: "gotime option"
  cl_ExpiresAt :: "gotime option"
  cl_NotBefore :: "gotime option"
  cl_Issuer :: string
  cl_Subject :: string

datatype parsed = Parsed claims | ParseExpired | ParseError

record jwt_lib =
  jl_sign :: "claims \<Rightarrow> string option"
  jl_parse :: "gotime \<Rightarrow> string \<Rightarrow> parsed"
  jl_parse_unvalidated :: "string \<Rightarrow> claims option"

text \<open>\<open>jwt.NewNumericDate\<close> keeps seconds.\<close>

definition NewNumericDate :: "gotime \<Rightarrow> gotime" where
  "NewNumericDate t = trunc_time t Second"

text \<open>What the library documents: a parsed token carries the issuer and an expiry in the future;
  a token it signed parses back to its claims while they are valid, and always without
  validation.\<close>

definition jwt_lib_ok :: "jwt_lib \<Rightarrow> bool" where
  "jwt_lib_ok lib \<longleftrightarrow>
     (\<forall>now raw c. jl_parse lib now raw = Parsed c \<longrightarrow>
        cl_Issuer c = expectedIssuer \<and> (\<exists>e. cl_ExpiresAt c = Some e \<and> now < e)) \<and>
     (\<forall>c raw. jl_sign lib c = Some raw \<longrightarrow> jl_parse_unvalidated lib raw = Some c) \<and>
     (\<forall>c raw now i e n. jl_sign lib c = Some raw \<and> cl_Issuer c = expectedIssuer \<and>
        cl_IssuedAt c = Some i \<and> i \<le> now \<and> cl_NotBefore c = Some n \<and> n \<le> now \<and>
        cl_ExpiresAt c = Some e \<and> now < e \<longrightarrow> jl_parse lib now raw = Parsed c)"

text \<open>\<open>jti\<close>: the random identifier, None when the generator fails.\<close>

definition Sign :: "jwt_lib \<Rightarrow> gotime \<Rightarrow> string option \<Rightarrow> uin \<Rightarrow> string \<Rightarrow> jwt_error + string \<times> string" where
  "Sign lib now jti u tokenType =
     (case (if tokenType = TokenTypeAccess then Some AccessTokenTTL
            else if tokenType = TokenTypeRefresh then Some RefreshTokenTTL else None) of
        None \<Rightarrow> Inl ErrUnknownType
      | Some ttl \<Rightarrow>
          (case jti of
             None \<Rightarrow> Inl ErrRandom
           | Some j \<Rightarrow>
               (case jl_sign lib \<lparr>cl_UIN = u, cl_JTI = j, cl_Type = tokenType,
                      cl_IssuedAt = Some (NewNumericDate now),
                      cl_ExpiresAt = Some (NewNumericDate (now + ttl)),
                      cl_NotBefore = Some (NewNumericDate now), cl_Issuer = expectedIssuer,
                      cl_Subject = itoa u\<rparr> of
                  None \<Rightarrow> Inl ErrSign
                | Some raw \<Rightarrow> Inr (raw, j))))"

text \<open>The users' session epochs (a row per user), the wipe markers, and the stored refresh tokens.\<close>

record refresh_row =
  rr_uin :: uin
  rr_hash :: string
  rr_expires :: gotime

record auth_tables =
  at_epoch :: "uin \<rightharpoonup> gotime"
  at_wiped :: "uin set"
  at_refresh :: "refresh_row list"

definition IsAccountWiped :: "bool \<Rightarrow> uin \<Rightarrow> auth_tables \<Rightarrow> bool option" where
  "IsAccountWiped ok u t = (if ok then Some (u \<in> at_wiped t) else None)"

definition IsAccountWipedOrMissing :: "bool \<Rightarrow> uin \<Rightarrow> auth_tables \<Rightarrow> bool option" where
  "IsAccountWipedOrMissing ok u t = (if ok then Some (u \<in> at_wiped t \<or> at_epoch t u = None) else None)"

text \<open>A missing user row is an error of the query.\<close>

definition SessionEpoch :: "bool \<Rightarrow> uin \<Rightarrow> auth_tables \<Rightarrow> gotime option" where
  "SessionEpoch ok u t = (if ok then at_epoch t u else None)"

definition BumpSessionEpoch :: "outcome \<Rightarrow> gotime \<Rightarrow> uin \<Rightarrow> auth_tables \<Rightarrow> bool \<times> auth_tables" where
  "BumpSessionEpoch out pgnow u t =
     (\<not> failed out,
      if took_effect out then
        t\<lparr>at_epoch := (case at_epoch t u of None \<Rightarrow> at_epoch t | Some e \<Rightarrow> (at_epoch t)(u \<mapsto> pgnow))\<rparr>
      else t)"

text \<open>\<open>wipedOk\<close>, \<open>epochOk\<close>: whether the two queries succeed.\<close>

definition Verify ::
  "('r, 'x) redis_api_scheme \<Rightarrow> jwt_lib \<Rightarrow> bool \<Rightarrow> bool \<Rightarrow> gotime \<Rightarrow> string \<Rightarrow> string \<Rightarrow> auth_tables \<Rightarrow> 'r \<Rightarrow>
    (jwt_error + claims) \<times> 'r" where
  "Verify R lib wipedOk epochOk now raw expectedType t s =
     (case jl_parse lib now raw of
        ParseExpired \<Rightarrow> (Inl ErrTokenExpired, s)
      | ParseError \<Rightarrow> (Inl ErrTokenInvalid, s)
      | Parsed c \<Rightarrow>
          if cl_Type c \<noteq> expectedType then (Inl ErrTokenWrongType, s)
          else case IsAccountWiped wipedOk (cl_UIN c) t of
            None \<Rightarrow> (Inl ErrSessionEpochLookup, s)
          | Some True \<Rightarrow> (Inl ErrTokenRevoked, s)
          | Some False \<Rightarrow>
              (case rd_exists R (blocklistKeyPrefix @ cl_JTI c) s of
                 (Inl e, s1) \<Rightarrow> (Inl (ErrBlocklistLookup e), s1)
               | (Inr n, s1) \<Rightarrow>
                   if n > 0 then (Inl ErrTokenRevoked, s1)
                   else case SessionEpoch epochOk (cl_UIN c) t of
                     None \<Rightarrow> (Inl ErrSessionEpochLookup, s1)
                   | Some epoch \<Rightarrow>
                       if (case cl_IssuedAt c of None \<Rightarrow> False | Some i \<Rightarrow> i < epoch)
                       then (Inl ErrTokenRevoked, s1) else (Inr c, s1)))"

definition extractClaimsForRevocation :: "jwt_lib \<Rightarrow> string \<Rightarrow> jwt_error + claims \<times> gotime" where
  "extractClaimsForRevocation lib raw =
     (case jl_parse_unvalidated lib raw of
        None \<Rightarrow> Inl ErrTokenInvalid
      | Some c \<Rightarrow>
          if cl_JTI c = [] then Inl ErrTokenInvalid
          else case cl_ExpiresAt c of None \<Rightarrow> Inl ErrTokenInvalid | Some e \<Rightarrow> Inr (c, e))"

definition Revoke ::
  "('r, 'x) redis_api_scheme \<Rightarrow> jwt_lib \<Rightarrow> gotime \<Rightarrow> string \<Rightarrow> 'r \<Rightarrow> jwt_error option \<times> 'r" where
  "Revoke R lib now raw s =
     (case extractClaimsForRevocation lib raw of
        Inl e \<Rightarrow> (Some e, s)
      | Inr (c, e) \<Rightarrow>
          let ttl = e - now in
          if ttl \<le> minBlocklistTTL then (None, s)
          else case rd_set R (blocklistKeyPrefix @ cl_JTI c) ''1'' ttl s of
            (Inl err, s1) \<Rightarrow> (Some (ErrRevokeStore err), s1)
          | (Inr u, s1) \<Rightarrow> (None, s1))"

text \<open>\<open>classifyJWTError\<close> of the middleware: the error code shown to clients.\<close>

definition classifyJWTError :: "jwt_error \<Rightarrow> string" where
  "classifyJWTError e =
     (if e = ErrTokenExpired then ''TOKEN_EXPIRED''
      else if e = ErrTokenRevoked then ''TOKEN_REVOKED''
      else if e = ErrTokenWrongType then ''TOKEN_WRONG_TYPE''
      else ''TOKEN_INVALID'')"

section \<open>Lemmas\<close>

lemma jwt_parsed:
  "jwt_lib_ok lib \<Longrightarrow> jl_parse lib now raw = Parsed c \<Longrightarrow>
     cl_Issuer c = expectedIssuer \<and> (\<exists>e. cl_ExpiresAt c = Some e \<and> now < e)"
  unfolding jwt_lib_ok_def by blast

lemma jwt_unvalidated: "jwt_lib_ok lib \<Longrightarrow> jl_sign lib c = Some raw \<Longrightarrow> jl_parse_unvalidated lib raw = Some c"
  unfolding jwt_lib_ok_def by blast

lemma jwt_roundtrip:
  assumes "jwt_lib_ok lib" and "jl_sign lib c = Some raw" and "cl_Issuer c = expectedIssuer"
    and "cl_IssuedAt c = Some i" and "i \<le> now" and "cl_NotBefore c = Some n" and "n \<le> now"
    and "cl_ExpiresAt c = Some e" and "now < e"
  shows "jl_parse lib now raw = Parsed c"
  using assms unfolding jwt_lib_ok_def by blast

lemma Verify_Inr:
  assumes "Verify R lib wok eok now raw ty t s = (Inr c, s')"
  shows "jl_parse lib now raw = Parsed c \<and> cl_Type c = ty \<and> cl_UIN c \<notin> at_wiped t \<and>
    (\<exists>n. rd_exists R (blocklistKeyPrefix @ cl_JTI c) s = (Inr n, s') \<and> n = 0) \<and>
    (\<exists>e. at_epoch t (cl_UIN c) = Some e \<and> (\<forall>i. cl_IssuedAt c = Some i \<longrightarrow> e \<le> i))"
  using assms
  by (auto simp: Verify_def IsAccountWiped_def SessionEpoch_def
      split: parsed.splits if_splits option.splits bool.splits prod.splits sum.splits)

lemma Sign_Inr:
  assumes "Sign lib now jti u ty = Inr (raw, j)"
  shows "\<exists>ttl. (ty = TokenTypeAccess \<and> ttl = AccessTokenTTL \<or> ty = TokenTypeRefresh \<and> ttl = RefreshTokenTTL) \<and>
    jti = Some j \<and> jl_sign lib \<lparr>cl_UIN = u, cl_JTI = j, cl_Type = ty,
      cl_IssuedAt = Some (NewNumericDate now), cl_ExpiresAt = Some (NewNumericDate (now + ttl)),
      cl_NotBefore = Some (NewNumericDate now), cl_Issuer = expectedIssuer, cl_Subject = itoa u\<rparr> = Some raw"
  using assms by (auto simp: Sign_def split: option.splits if_splits)

context redis_strings
begin

lemma Verify_not_blocked:
  assumes "Verify R lib wok eok now raw ty t s = (Inr c, s')"
  shows "strs s (blocklistKeyPrefix @ cl_JTI c) = None"
  using Verify_Inr [OF assms] exists_reply by (metis less_irrefl)

lemma Revoke_blocks:
  assumes "Revoke R lib now raw s = (None, s')" and "jl_parse_unvalidated lib raw = Some c"
    and "cl_ExpiresAt c = Some e" and "now + minBlocklistTTL < e"
  shows "strs s' (blocklistKeyPrefix @ cl_JTI c) = Some ''1''"
  using assms
  by (auto simp: Revoke_def extractClaimsForRevocation_def Let_def dest: set_ok
      split: if_splits prod.splits sum.splits)

end

end
