(* ===== verification/RateLimit.thy ===== *)
theory RateLimit
  imports Client Encoding
begin

text \<open>
  The authenticated rate limit, \<^verbatim>\<open>shared/middleware/authenticated_rate_limit.go\<close>, the keys of
  \<^verbatim>\<open>shared/middleware/auth.go\<close> and the fixed-window scripts (\<^verbatim>\<open>auth-service/handlers/login.go\<close> has the
  one for several keys). The Redis commands the scripts call are the parameter \<open>counter_api\<close>, whose
  laws are the locale \<open>rate_counters\<close>.
\<close>

section \<open>Keys\<close>

definition AuthenticatedRateLimitKey :: "uin \<Rightarrow> string \<Rightarrow> string option" where
  "AuthenticatedRateLimitKey u action =
     (let action = trim_space action in
      if u \<le> 0 \<or> action = [] then None else Some (''auth:'' @ itoa u @ '':'' @ action))"

definition AuthenticatedRateLimitActions :: "string list" where
  "AuthenticatedRateLimitActions =
     [''auth:logout'', ''auth:me'', ''auth:crypto-binding'', ''auth:panic-wipe'', ''auth:panic-pin'',
      ''auth:panic-wipe-public-key'', ''auth:panic-wipe-public-key-get'', ''auth:panic-wipe-challenge'',
      ''auth:refresh'', ''contacts:list'', ''contacts:add'', ''contacts:accept'', ''contacts:block'',
      ''contacts:remove'', ''ws:connect'', ''ws:frame'', ''transport:poll'', ''transport:send'',
      ''presence:read'', ''presence:bulk'', ''messages:history'', ''messages:group-history'',
      ''files:upload'', ''files:download'', ''files:avatar-upload'', ''files:grant'', ''files:grant:revoke'',
      ''keys:bundle:upload'', ''keys:prekeys:add'', ''keys:prekeys:count'']"

definition bucket_key :: "string \<Rightarrow> string" where "bucket_key k = ''ratelimit:'' @ k"

fun rate_keys :: "uin \<Rightarrow> string list \<Rightarrow> string list" where
  "rate_keys u [] = []"
| "rate_keys u (a # as) =
     (case AuthenticatedRateLimitKey u a of
        None \<Rightarrow> rate_keys u as
      | Some k \<Rightarrow> (bucket_key k) # rate_keys u as)"

definition AuthenticatedRateLimitKeysForUIN :: "uin \<Rightarrow> string list" where
  "AuthenticatedRateLimitKeysForUIN u = rate_keys u AuthenticatedRateLimitActions"

section \<open>Anonymous buckets\<close>

text \<open>The length of a Go string and of the header values are in bytes. \<open>hmac\<close> is HMAC-SHA256 (key,
  message); \<open>day\<close> is the date \<open>now.UTC().Format\<close> gives.\<close>

definition is_hex :: "char \<Rightarrow> bool" where
  "is_hex ch = (let n = of_char ch :: nat in 48 \<le> n \<and> n \<le> 57 \<or> 65 \<le> n \<and> n \<le> 70 \<or> 97 \<le> n \<and> n \<le> 102)"

definition hex_ok :: "string \<Rightarrow> bool" where
  "hex_ok s \<longleftrightarrow> length s mod 2 = 0 \<and> list_all is_hex s"

definition AnonymousRateLimitBucket ::
  "(bytes \<Rightarrow> bytes \<Rightarrow> bytes) \<Rightarrow> bytes \<Rightarrow> string \<Rightarrow> string \<Rightarrow> string \<Rightarrow> string option" where
  "AnonymousRateLimitBucket hmac secret edgeIdentity action day =
     (if length secret < 32 then None
      else let edgeIdentity = trim_space edgeIdentity; action = trim_space action in
        if edgeIdentity = [] \<or> action = [] then None
        else let parts = split_on (CHR ''.'') edgeIdentity in
          if length parts \<noteq> 3 \<or> parts ! 0 \<noteq> ''v1'' \<or> length (parts ! 1) \<noteq> 12 \<or> length (parts ! 2) \<noteq> 43 then None
          else if \<not> hex_ok (parts ! 1) then None
          else if (case DecodeString True (parts ! 2) of None \<Rightarrow> True | Some digest \<Rightarrow> length digest \<noteq> 32) then None
          else Some (''anon:'' @ action @ '':'' @
                 EncodeToString True (hmac (hmac secret day) (action @ [CHR 0x00] @ edgeIdentity))))"

primrec anon_buckets ::
  "(bytes \<Rightarrow> bytes \<Rightarrow> bytes) \<Rightarrow> bytes \<Rightarrow> string list \<Rightarrow> string \<Rightarrow> string \<Rightarrow> string set \<Rightarrow> string list option" where
  "anon_buckets hmac secret [] action day keyIDs = Some []"
| "anon_buckets hmac secret (identity # identities) action day keyIDs =
     (let parts = split_on (CHR ''.'') (trim_space identity) in
      if length parts \<noteq> 3 then None
      else if parts ! 1 \<in> keyIDs then None
      else case AnonymousRateLimitBucket hmac secret identity action day of
        None \<Rightarrow> None
      | Some bucket \<Rightarrow>
          map_option (\<lambda>bs. bucket # bs) (anon_buckets hmac secret identities action day (insert (parts ! 1) keyIDs)))"

definition AnonymousRateLimitBuckets ::
  "(bytes \<Rightarrow> bytes \<Rightarrow> bytes) \<Rightarrow> bytes \<Rightarrow> string list \<Rightarrow> string list \<Rightarrow> string \<Rightarrow> string \<Rightarrow> string list option" where
  "AnonymousRateLimitBuckets hmac secret currentValues previousValues action day =
     (if length currentValues \<noteq> 1 \<or> 1 < length previousValues then None
      else anon_buckets hmac secret (currentValues ! 0 # previousValues) action day {})"

section \<open>The counters\<close>

text \<open>The two commands the scripts issue: \<open>INCR\<close> and \<open>EXPIRE\<close> (in seconds).\<close>

record 'r counter_api =
  ct_incr :: "string \<Rightarrow> 'r \<Rightarrow> (string + int) \<times> 'r"
  ct_expire :: "string \<Rightarrow> int \<Rightarrow> 'r \<Rightarrow> (string + bool) \<times> 'r"

text \<open>One increment, with the expiry set on the first one.\<close>

definition authenticatedRateLimitScript ::
  "('r, 'x) counter_api_scheme \<Rightarrow> string \<Rightarrow> int \<Rightarrow> 'r \<Rightarrow> (string + int) \<times> 'r" where
  "authenticatedRateLimitScript C key seconds s =
     (case ct_incr C key s of
        (Inl e, s1) \<Rightarrow> (Inl e, s1)
      | (Inr current, s1) \<Rightarrow>
          if current = 1 then
            (case ct_expire C key seconds s1 of
               (Inl e, s2) \<Rightarrow> (Inl e, s2)
             | (Inr b, s2) \<Rightarrow> (Inr current, s2))
          else (Inr current, s1))"

text \<open>\<open>rateLimitScript\<close>: every key is counted, the largest count is returned.\<close>

primrec rateLimitScript ::
  "('r, 'x) counter_api_scheme \<Rightarrow> string list \<Rightarrow> int \<Rightarrow> int \<Rightarrow> 'r \<Rightarrow> (string + int) \<times> 'r" where
  "rateLimitScript C [] seconds maximum s = (Inr maximum, s)"
| "rateLimitScript C (key # keys) seconds maximum s =
     (case authenticatedRateLimitScript C key seconds s of
        (Inl e, s1) \<Rightarrow> (Inl e, s1)
      | (Inr current, s1) \<Rightarrow>
          rateLimitScript C keys seconds (if current > maximum then current else maximum) s1)"

section \<open>The limiter\<close>

record limiter =
  lm_action :: string
  lm_limit :: int
  lm_window :: duration

definition window_seconds :: "duration \<Rightarrow> int" where
  "window_seconds w = go_div (w + Second - 1) Second"

datatype allow_result = Allowed | Denied | AllowError

text \<open>\<open>NewAuthenticatedRateLimiter\<close>; None where the constructor panics.\<close>

definition NewAuthenticatedRateLimiter :: "bool \<Rightarrow> string \<Rightarrow> int \<Rightarrow> duration \<Rightarrow> limiter option" where
  "NewAuthenticatedRateLimiter redis action limit window =
     (if \<not> redis then None
      else if AuthenticatedRateLimitKey 1 action = None then None
      else if limit \<le> 0 \<or> window \<le> 0 then None
      else Some \<lparr>lm_action = action, lm_limit = limit, lm_window = window\<rparr>)"

definition Allow :: "('r, 'x) counter_api_scheme \<Rightarrow> limiter \<Rightarrow> uin \<Rightarrow> 'r \<Rightarrow> allow_result \<times> 'r" where
  "Allow C l u s =
     (case AuthenticatedRateLimitKey u (lm_action l) of
        None \<Rightarrow> (AllowError, s)
      | Some key \<Rightarrow>
          (case authenticatedRateLimitScript C (bucket_key key) (window_seconds (lm_window l)) s of
             (Inl e, s') \<Rightarrow> (AllowError, s')
           | (Inr count, s') \<Rightarrow> (if count \<le> lm_limit l then Allowed else Denied, s')))"

text \<open>The middleware: None passes the request on, Some is the status and code of the refusal.\<close>

definition authenticatedRateLimit ::
  "('r, 'x) counter_api_scheme \<Rightarrow> limiter \<Rightarrow> uin option \<Rightarrow> 'r \<Rightarrow> (nat \<times> string) option \<times> 'r" where
  "authenticatedRateLimit C l u s =
     (case u of
        None \<Rightarrow> (Some (401, ''AUTH_REQUIRED''), s)
      | Some u \<Rightarrow>
          if u \<le> 0 then (Some (401, ''AUTH_REQUIRED''), s)
          else case Allow C l u s of
            (AllowError, s') \<Rightarrow> (Some (503, ''RATE_LIMIT_UNAVAILABLE''), s')
          | (Denied, s') \<Rightarrow> (Some (429, ''RATE_LIMITED''), s')
          | (Allowed, s') \<Rightarrow> (None, s'))"

section \<open>Laws of the counters\<close>

text \<open>\<open>INCR\<close> adds one and keeps the expiry, \<open>EXPIRE\<close> sets the expiry and keeps the value; a failed
  command may have been applied. \<open>cnt\<close> is the value of a counter (0 when absent), \<open>ttl\<close> the expiry
  last set on it.\<close>

locale rate_counters =
  fixes C :: "('r, 'x) counter_api_scheme" and cnt :: "'r \<Rightarrow> string \<Rightarrow> int" and ttl :: "'r \<Rightarrow> string \<Rightarrow> int option"
  assumes incr_ok: "ct_incr C k s = (Inr n, s') \<Longrightarrow> n = cnt s k + 1 \<and> cnt s' = (cnt s)(k := n) \<and> ttl s' = ttl s"
    and incr_err: "ct_incr C k s = (Inl e, s') \<Longrightarrow>
      (cnt s' = cnt s \<or> cnt s' = (cnt s)(k := cnt s k + 1)) \<and> ttl s' = ttl s"
    and expire_ok: "ct_expire C k w s = (Inr b, s') \<Longrightarrow> cnt s' = cnt s \<and> ttl s' = (ttl s)(k \<mapsto> w)"
    and expire_err: "ct_expire C k w s = (Inl e, s') \<Longrightarrow>
      cnt s' = cnt s \<and> (ttl s' = ttl s \<or> ttl s' = (ttl s)(k \<mapsto> w))"
begin

lemma script_ok:
  assumes "authenticatedRateLimitScript C k w s = (Inr n, s')"
  shows "n = cnt s k + 1 \<and> cnt s' = (cnt s)(k := n) \<and> ttl s' = (if cnt s k = 0 then (ttl s)(k \<mapsto> w) else ttl s)"
proof -
  obtain v s1 where v: "ct_incr C k s = (v, s1)" by force
  with assms obtain m where m: "ct_incr C k s = (Inr m, s1)" by (cases v) (auto simp: authenticatedRateLimitScript_def)
  note i = incr_ok [OF m]
  show ?thesis
  proof (cases "m = 1")
    case True
    obtain b s2 where b: "ct_expire C k w s1 = (b, s2)" by force
    with assms m True obtain z where "b = Inr z" by (cases b) (auto simp: authenticatedRateLimitScript_def)
    with expire_ok [of k w s1 z s2] b assms m True i show ?thesis by (auto simp: authenticatedRateLimitScript_def)
  qed (use assms m i in \<open>auto simp: authenticatedRateLimitScript_def\<close>)
qed

lemma script_err:
  assumes "authenticatedRateLimitScript C k w s = (Inl e, s')"
  shows "cnt s' = cnt s \<or> cnt s' = (cnt s)(k := cnt s k + 1)"
  using assms
  by (auto simp: authenticatedRateLimitScript_def split: prod.splits sum.splits if_splits
      dest!: incr_ok incr_err expire_ok expire_err)

lemma script_mono:
  assumes "authenticatedRateLimitScript C k w s = (v, s')"
  shows "cnt s j \<le> cnt s' j"
proof (cases v)
  case (Inl e)
  with script_err [of k w s e s'] assms show ?thesis by auto
next
  case (Inr n)
  with script_ok [of k w s n s'] assms show ?thesis by auto
qed

lemma login_script_mono: "rateLimitScript C ks w m s = (v, s') \<Longrightarrow> cnt s j \<le> cnt s' j"
proof (induction ks arbitrary: m s)
  case (Cons k ks)
  obtain r s1 where r: "authenticatedRateLimitScript C k w s = (r, s1)" by force
  with Cons script_mono [OF r, of j] show ?case by (cases r) (fastforce intro: order_trans)+
qed simp

lemma login_script_counts:
  assumes "rateLimitScript C ks w m s = (Inr n, s')" and "distinct ks"
  shows "m \<le> n \<and> (\<forall>k \<in> set ks. cnt s' k = cnt s k + 1 \<and> cnt s' k \<le> n) \<and> (\<forall>k. k \<notin> set ks \<longrightarrow> cnt s' k = cnt s k)"
  using assms
proof (induction ks arbitrary: m s)
  case (Cons k ks)
  obtain r s1 where r: "authenticatedRateLimitScript C k w s = (r, s1)" by force
  with Cons.prems(1) obtain c where c: "r = Inr c" by (cases r) auto
  have rest: "rateLimitScript C ks w (if c > m then c else m) s1 = (Inr n, s')" using Cons.prems(1) r c by simp
  note ih = Cons.IH [OF rest] and o1 = script_ok [OF r [unfolded c]]
  from Cons.prems(2) have "k \<notin> set ks" "distinct ks" by simp_all
  with ih o1 have "cnt s' k = cnt s k + 1" by auto
  moreover from ih \<open>distinct ks\<close> have "(if c > m then c else m) \<le> n" by blast
  ultimately show ?case using ih o1 \<open>k \<notin> set ks\<close> \<open>distinct ks\<close> by (auto split: if_splits)
qed simp

lemma allow_counts:
  assumes "Allow C l u s = (r, s')" and "AuthenticatedRateLimitKey u (lm_action l) = Some k"
  shows "cnt s (bucket_key k) \<le> cnt s' (bucket_key k) \<and>
    (r = Allowed \<longrightarrow> cnt s' (bucket_key k) = cnt s (bucket_key k) + 1 \<and>
       cnt s' (bucket_key k) \<le> lm_limit l) \<and>
    (\<forall>j. j \<noteq> bucket_key k \<longrightarrow> cnt s' j = cnt s j)"
proof (cases "authenticatedRateLimitScript C (bucket_key k) (window_seconds (lm_window l)) s")
  case (Pair v t)
  then show ?thesis
    using assms script_ok [of "bucket_key k" "window_seconds (lm_window l)" s]
      script_err [of "bucket_key k" "window_seconds (lm_window l)" s]
    by (cases v) (auto simp: Allow_def split: if_splits)
qed

end

text \<open>Counters in memory: values and expiries.\<close>

type_synonym mem_counters = "(string \<Rightarrow> int) \<times> (string \<rightharpoonup> int)"

definition mem_counter :: "mem_counters counter_api" where
  "mem_counter = \<lparr>ct_incr = (\<lambda>k (v, x). (Inr (v k + 1), (v(k := v k + 1), x))),
     ct_expire = (\<lambda>k w (v, x). (Inr True, (v, x(k \<mapsto> w))))\<rparr>"

interpretation memC: rate_counters mem_counter fst snd
  by unfold_locales (auto simp: mem_counter_def split: prod.splits)

section \<open>Properties\<close>

text \<open>A run of requests of one actor within a window.\<close>

primrec requests ::
  "('r, 'x) counter_api_scheme \<Rightarrow> limiter \<Rightarrow> uin \<Rightarrow> nat \<Rightarrow> 'r \<Rightarrow> (nat \<times> string) option list \<times> 'r" where
  "requests C l u 0 s = ([], s)"
| "requests C l u (Suc n) s =
     (let (r, s1) = authenticatedRateLimit C l (Some u) s;
          (rs, s2) = requests C l u n s1
      in (r # rs, s2))"

context rate_counters
begin

lemma middleware_counts:
  assumes "authenticatedRateLimit C l (Some u) s = (r, s')" and "AuthenticatedRateLimitKey u (lm_action l) = Some k"
  shows "cnt s (bucket_key k) \<le> cnt s' (bucket_key k) \<and>
    (r = None \<longrightarrow> cnt s' (bucket_key k) = cnt s (bucket_key k) + 1 \<and>
       cnt s' (bucket_key k) \<le> lm_limit l)"
proof -
  have u: "\<not> u \<le> 0" using assms(2) by (auto simp: AuthenticatedRateLimitKey_def Let_def split: if_splits)
  obtain a t where a: "Allow C l u s = (a, t)" by force
  then have "s' = t" "r = None \<longleftrightarrow> a = Allowed"
    using assms(1) u by (cases a; auto simp: authenticatedRateLimit_def)+
  with allow_counts [OF a assms(2)] show ?thesis by blast
qed

lemma requests_bounded:
  assumes "AuthenticatedRateLimitKey u (lm_action l) = Some k"
  shows "int (length (filter (\<lambda>r. r = None) (fst (requests C l u n s)))) \<le>
    max 0 (lm_limit l - cnt s (bucket_key k))"
proof (induction n arbitrary: s)
  case (Suc n)
  obtain r s1 where r: "authenticatedRateLimit C l (Some u) s = (r, s1)" by force
  obtain rs s2 where rs: "requests C l u n s1 = (rs, s2)" by force
  have "int (length (filter (\<lambda>r. r = None) rs)) \<le> max 0 (lm_limit l - cnt s1 (bucket_key k))"
    using Suc.IH [of s1] rs by simp
  with middleware_counts [OF r assms] show ?case
    by (cases "r = None") (auto simp: r rs)
qed simp

end


definition sample_limiter :: limiter where
  "sample_limiter = \<lparr>lm_action = ''ws:frame'', lm_limit = 2, lm_window = Minute\<rparr>"


text \<open>Also: two actors, or two actions without surrounding blanks, never share a counter.\<close>

theorem rate_key_injective:
  assumes "AuthenticatedRateLimitKey u a = Some k" and "AuthenticatedRateLimitKey v b = Some k"
  shows "u = v \<and> trim_space a = trim_space b"
proof -
  have "itoa u @ CHR '':'' # trim_space a = itoa v @ CHR '':'' # trim_space b"
    using assms by (auto simp: AuthenticatedRateLimitKey_def Let_def split: if_splits)
  from append_colon_inj [OF this] show ?thesis using itoa_inj by auto
qed

lemma rate_key_injective_witness:
  "AuthenticatedRateLimitKey 1 ''ws:frame'' \<noteq> AuthenticatedRateLimitKey 11 ''ws:frame''"
proof
  assume e: "AuthenticatedRateLimitKey 1 ''ws:frame'' = AuthenticatedRateLimitKey 11 ''ws:frame''"
  have "AuthenticatedRateLimitKey 1 ''ws:frame'' = Some ''auth:1:ws:frame''" by code_simp
  with rate_key_injective [OF this, of 11 "''ws:frame''"] e show False by simp
qed

lemma rate_keys_actions:
  "k \<in> set (rate_keys u as) \<Longrightarrow> \<exists>a \<in> set as. map_option (\<lambda>x. bucket_key x) (AuthenticatedRateLimitKey u a) = Some k"
  by (induction as) (auto split: option.splits)

lemma rate_keys_sep:
  assumes "AuthenticatedRateLimitKey u a = Some k" and "AuthenticatedRateLimitKey u b = Some k"
  shows "trim_space b = trim_space a"
  using assms by (auto simp: AuthenticatedRateLimitKey_def Let_def split: if_splits)

text \<open>Also: the keys a panic wipe deletes are those of the listed actions only; the counters of the group
  endpoints, which the message service registers under \<open>groups:\<close> actions, are not among them and
  outlive the wipe.\<close>

theorem group_rate_keys_not_wiped:
  assumes "0 < u" and "a \<in> {''groups:create'', ''groups:list'', ''groups:members:list'', ''groups:members:add'',
    ''groups:members:remove'', ''groups:sender-keys:put'', ''groups:sender-keys:get'', ''groups:delete''}"
  shows "\<exists>k. AuthenticatedRateLimitKey u a = Some k \<and> bucket_key k \<notin> set (AuthenticatedRateLimitKeysForUIN u)"
proof -
  have t: "trim_space a = a" "a \<noteq> []" "\<forall>b \<in> set AuthenticatedRateLimitActions. trim_space b \<noteq> a"
    using assms(2) by (elim insertE emptyE; hypsubst; code_simp)+
  then obtain k where k: "AuthenticatedRateLimitKey u a = Some k"
    using assms(1) by (simp add: AuthenticatedRateLimitKey_def)
  have "bucket_key k \<notin> set (AuthenticatedRateLimitKeysForUIN u)"
  proof
    assume "bucket_key k \<in> set (AuthenticatedRateLimitKeysForUIN u)"
    from rate_keys_actions [OF this [unfolded AuthenticatedRateLimitKeysForUIN_def]] obtain b where
      "b \<in> set AuthenticatedRateLimitActions" "AuthenticatedRateLimitKey u b = Some k" by (auto simp: bucket_key_def)
    with rate_keys_sep [OF k] t(1,3) show False by metis
  qed
  with k show ?thesis by blast
qed

lemma group_rate_keys_not_wiped_witness:
  "\<exists>k. AuthenticatedRateLimitKey 7 ''groups:create'' = Some k \<and> bucket_key k \<notin> set (AuthenticatedRateLimitKeysForUIN 7)"
  by (rule group_rate_keys_not_wiped) simp_all

end
