(* ===== verification/Sessions.thy ===== *)
theory Sessions
  imports Tokens RateLimit
begin

text \<open>
  The session handlers of the auth service: refresh-token rotation (\<^verbatim>\<open>handlers/refresh.go\<close>), logout
  (\<^verbatim>\<open>logout.go\<close>), session issue (\<^verbatim>\<open>session.go\<close>), the token in the request (\<^verbatim>\<open>session_cookies.go\<close>), the
  error mapping (\<^verbatim>\<open>common.go\<close>) and the bearer middleware (\<^verbatim>\<open>shared/middleware/auth.go\<close>).

  A transaction runs under the lock of the user row and takes effect as a whole at its commit; the
  statements before it can only make it fail. \<open>sha\<close> is SHA-256 in hex, \<open>now\<close> values are clock
  readings, other requests act between verification and transaction (\<open>fq_env\<close>).
\<close>

section \<open>Requests\<close>

text \<open>A response: an error, an error that also clears the session cookies, or a success. The success
  responses also set the session cookies to the tokens they carry.\<close>

datatype auth_http = AuthError nat string | Cleared nat string | Issued string string | LoggedOut
  | LoggedIn uin string string | Registered uin string string

datatype db_error = UniqueViolation | ForeignKeyViolation | OtherDBError

definition writeDBError :: "db_error \<Rightarrow> auth_http" where
  "writeDBError e =
     (case e of
        UniqueViolation \<Rightarrow> AuthError 409 ''USER_EXISTS''
      | ForeignKeyViolation \<Rightarrow> AuthError 500 ''DB_CONSTRAINT''
      | OtherDBError \<Rightarrow> AuthError 500 ''DB_ERROR'')"

text \<open>\<open>decodeJSON\<close>: the decoded body, or the kind of failure.\<close>

datatype 'a body = Body 'a | BodyTooLarge | BodyMalformed

definition decodeJSON :: "'a body \<Rightarrow> auth_http + 'a" where
  "decodeJSON b =
     (case b of
        Body x \<Rightarrow> Inr x
      | BodyTooLarge \<Rightarrow> Inl (AuthError 413 ''BODY_TOO_LARGE'')
      | BodyMalformed \<Rightarrow> Inl (AuthError 400 ''MALFORMED_JSON''))"

datatype bearer_error = BearerMissing | BearerScheme | BearerEmpty

definition bearer_prefix :: string where "bearer_prefix = ''Bearer ''"

text \<open>\<open>extractBearerToken\<close>; the header's value, empty when absent.\<close>

definition extractBearerToken :: "string \<Rightarrow> bearer_error + string" where
  "extractBearerToken h =
     (if h = [] then Inl BearerMissing
      else if length h \<le> length bearer_prefix \<or> take (length bearer_prefix) h \<noteq> bearer_prefix then Inl BearerScheme
      else let tok = trim_space (drop (length bearer_prefix) h) in
           if tok = [] then Inl BearerEmpty else Inr tok)"

text \<open>\<open>extractRawBearer\<close> of the logout handler drops every blank and tab (of an ASCII header).\<close>

definition extractRawBearer :: "string \<Rightarrow> bearer_error + string" where
  "extractRawBearer h =
     (if length h \<le> length bearer_prefix \<or> take (length bearer_prefix) h \<noteq> bearer_prefix then Inl BearerScheme
      else let tok = filter (\<lambda>ch. ch \<noteq> CHR '' '' \<and> ch \<noteq> CHR 0x09) (drop (length bearer_prefix) h) in
           if tok = [] then Inl BearerEmpty else Inr tok)"

text \<open>The middleware: the refusal, or the actor the request continues with.\<close>

definition bearerAuth ::
  "('r, 'x) redis_api_scheme \<Rightarrow> jwt_lib \<Rightarrow> bool \<Rightarrow> bool \<Rightarrow> gotime \<Rightarrow> string \<Rightarrow> auth_tables \<Rightarrow> 'r \<Rightarrow>
    (nat \<times> string + uin) \<times> 'r" where
  "bearerAuth R lib wipedOk epochOk now h t s =
     (case extractBearerToken h of
        Inl e \<Rightarrow> (Inl (401, ''AUTH_MISSING_BEARER''), s)
      | Inr raw \<Rightarrow>
          (case Verify R lib wipedOk epochOk now raw TokenTypeAccess t s of
             (Inl e, s1) \<Rightarrow> (Inl (401, classifyJWTError e), s1)
           | (Inr c, s1) \<Rightarrow> (Inr (cl_UIN c), s1)))"

section \<open>Statements\<close>

text \<open>\<open>qInsertRefreshToken\<close>, \<open>qConsumeRefreshTokenByHash\<close> (the deleted row is returned), the deletion of a
  user's rows, and \<open>qRevokeAllSessionsOnRefreshReuse\<close>.\<close>

definition qInsertRefreshToken :: "uin \<Rightarrow> string \<Rightarrow> gotime \<Rightarrow> auth_tables \<Rightarrow> auth_tables" where
  "qInsertRefreshToken u h e t = t\<lparr>at_refresh := at_refresh t @ [\<lparr>rr_uin = u, rr_hash = h, rr_expires = e\<rparr>]\<rparr>"

definition qConsumeRefreshTokenByHash :: "string \<Rightarrow> auth_tables \<Rightarrow> refresh_row option \<times> auth_tables" where
  "qConsumeRefreshTokenByHash h t =
     (find (\<lambda>r. rr_hash r = h) (at_refresh t), t\<lparr>at_refresh := filter (\<lambda>r. rr_hash r \<noteq> h) (at_refresh t)\<rparr>)"

definition drop_refresh :: "uin \<Rightarrow> auth_tables \<Rightarrow> auth_tables" where
  "drop_refresh u t = t\<lparr>at_refresh := filter (\<lambda>r. rr_uin r \<noteq> u) (at_refresh t)\<rparr>"

text \<open>A PostgreSQL microsecond is 1000 of our nanoseconds.\<close>

definition qRevokeAllSessionsOnRefreshReuse :: "gotime \<Rightarrow> uin \<Rightarrow> auth_tables \<Rightarrow> auth_tables" where
  "qRevokeAllSessionsOnRefreshReuse pgnow u t =
     (case at_epoch t u of
        None \<Rightarrow> t
      | Some e \<Rightarrow> drop_refresh u (t\<lparr>at_epoch := (at_epoch t)(u \<mapsto> max pgnow (e + 1000))\<rparr>))"

section \<open>Refresh\<close>

text \<open>\<open>refreshTokenFromRequest\<close> reads the context value and then the cookie; \<open>decodeRefreshRequest\<close> puts the
  body's token, if it has one, or the cookie's into the context. \<open>body\<close> is None without a body.\<close>

definition refreshTokenFromRequest :: "string option \<Rightarrow> string option \<Rightarrow> string option" where
  "refreshTokenFromRequest ctx cookie =
     (case ctx of
        Some token \<Rightarrow> if token \<noteq> [] then Some token
          else (case cookie of None \<Rightarrow> None | Some v \<Rightarrow> if trim_space v = [] then None else Some (trim_space v))
      | None \<Rightarrow> (case cookie of None \<Rightarrow> None | Some v \<Rightarrow> if trim_space v = [] then None else Some (trim_space v)))"

definition decodeRefreshRequest :: "string body option \<Rightarrow> string option \<Rightarrow> auth_http + string option" where
  "decodeRefreshRequest body cookie =
     (let fallback = (case refreshTokenFromRequest None cookie of
            Some token \<Rightarrow> Inr (Some (trim_space token))
          | None \<Rightarrow> Inl (AuthError 422 ''REFRESH_TOKEN_REQUIRED''))
      in case body of
        None \<Rightarrow> fallback
      | Some b \<Rightarrow>
          (case decodeJSON b of
             Inl e \<Rightarrow> Inl e
           | Inr token \<Rightarrow> if trim_space token \<noteq> [] then Inr (Some (trim_space token)) else fallback))"

text \<open>What one refresh meets: the clock readings, the failures of its statements (None: success) and what
  other requests do between verification and transaction.\<close>

record refresh_io =
  fq_body :: "string body option"
  fq_cookie :: "string option"
  fq_now :: gotime
  fq_wipedOk :: bool
  fq_epochOk :: bool
  fq_env :: "auth_tables \<Rightarrow> auth_tables"
  fq_begin :: "db_error option"
  fq_lock :: bool
  fq_marker :: bool
  fq_consume :: "db_error option"
  fq_check :: gotime
  fq_reuse :: bool
  fq_pgnow :: gotime
  fq_sign_access :: "gotime \<times> string option"
  fq_sign_refresh :: "gotime \<times> string option"
  fq_stored :: gotime
  fq_insert :: bool
  fq_commit :: outcome
  fq_commit_error :: db_error

definition commit_tx :: "outcome \<Rightarrow> 'a \<Rightarrow> 'a \<Rightarrow> 'a" where
  "commit_tx out new old = (if took_effect out then new else old)"

text \<open>The reuse branch: the response after the revocation, and the tables.\<close>

definition commitRefreshReuseRevocation ::
  "refresh_io \<Rightarrow> uin \<Rightarrow> auth_tables \<Rightarrow> auth_tables \<Rightarrow> auth_http \<times> auth_tables" where
  "commitRefreshReuseRevocation io u t0 t =
     (if \<not> fq_reuse io then (AuthError 500 ''SESSION_REVOCATION_FAILED'', t0)
      else let t' = qRevokeAllSessionsOnRefreshReuse (fq_pgnow io) u t in
        (if failed (fq_commit io) then AuthError 500 ''SESSION_REVOCATION_FAILED''
         else Cleared 401 ''REFRESH_REVOKED'', commit_tx (fq_commit io) t' t0))"

text \<open>The transaction of a rotation for the verified user \<open>u\<close>; \<open>t\<close> are the tables at its start.\<close>

definition rotateRefresh ::
  "jwt_lib \<Rightarrow> (string \<Rightarrow> string) \<Rightarrow> refresh_io \<Rightarrow> string \<Rightarrow> uin \<Rightarrow> auth_tables \<Rightarrow> auth_http \<times> auth_tables" where
  "rotateRefresh lib sha io raw u t =
     (case fq_begin io of
        Some e \<Rightarrow> (writeDBError e, t)
      | None \<Rightarrow>
          if \<not> fq_lock io \<or> at_epoch t u = None then (Cleared 401 ''REFRESH_REVOKED'', t)
          else if \<not> fq_marker io then (Cleared 401 ''REFRESH_REVOKED'', t)
          else if u \<in> at_wiped t then (Cleared 401 ''REFRESH_REVOKED'', t)
          else case fq_consume io of
            Some e \<Rightarrow> (writeDBError e, t)
          | None \<Rightarrow>
              (case qConsumeRefreshTokenByHash (sha raw) t of
                 (None, t1) \<Rightarrow> commitRefreshReuseRevocation io u t t1
               | (Some row, t1) \<Rightarrow>
                   if fq_check io > rr_expires row then
                     (if failed (fq_commit io) then writeDBError (fq_commit_error io) else Cleared 401 ''REFRESH_EXPIRED'',
                      commit_tx (fq_commit io) t1 t)
                   else if rr_uin row \<noteq> u then commitRefreshReuseRevocation io u t t1
                   else case Sign lib (fst (fq_sign_access io)) (snd (fq_sign_access io)) u TokenTypeAccess of
                     Inl e \<Rightarrow> (AuthError 500 ''TOKEN_ISSUE_FAILED'', t)
                   | Inr (access, _) \<Rightarrow>
                       (case Sign lib (fst (fq_sign_refresh io)) (snd (fq_sign_refresh io)) u TokenTypeRefresh of
                          Inl e \<Rightarrow> (AuthError 500 ''TOKEN_ISSUE_FAILED'', t)
                        | Inr (refresh, _) \<Rightarrow>
                            if \<not> fq_insert io then (AuthError 500 ''DB_ERROR'', t)
                            else
                              let t2 = qInsertRefreshToken u (sha refresh) (fq_stored io + RefreshTokenTTL) t1 in
                              (if failed (fq_commit io) then writeDBError (fq_commit_error io) else Issued access refresh,
                               commit_tx (fq_commit io) t2 t))))"

text \<open>\<open>RedisRefreshRateLimiter.Allow\<close>: the limit and window of the login limiter.\<close>

definition rateLimitPerMinute :: int where "rateLimitPerMinute = 5"
definition rateLimitWindow :: duration where "rateLimitWindow = Minute"

definition RefreshAllow :: "('c, 'y) counter_api_scheme \<Rightarrow> uin \<Rightarrow> string \<Rightarrow> 'c \<Rightarrow> allow_result \<times> 'c" where
  "RefreshAllow C u action cs =
     (case AuthenticatedRateLimitKey u action of
        None \<Rightarrow> (AllowError, cs)
      | Some key \<Rightarrow>
          (case rateLimitScript C [bucket_key key] (go_div rateLimitWindow Second) 0 cs of
             (Inl e, cs') \<Rightarrow> (AllowError, cs')
           | (Inr count, cs') \<Rightarrow> (if count \<le> rateLimitPerMinute then Allowed else Denied, cs')))"

text \<open>The handler. A request that does not decode has its error written before the cookies are cleared, so
  the clearing headers are lost there. The keys Redis holds for tokens (\<open>s\<close>) and its counters (\<open>cs\<close>) are disjoint.\<close>

definition refreshHandler ::
  "('r, 'x) redis_api_scheme \<Rightarrow> ('c, 'y) counter_api_scheme \<Rightarrow> jwt_lib \<Rightarrow> (string \<Rightarrow> string) \<Rightarrow> refresh_io \<Rightarrow>
    auth_tables \<Rightarrow> 'r \<Rightarrow> 'c \<Rightarrow> auth_http \<times> auth_tables \<times> 'r \<times> 'c" where
  "refreshHandler R C lib sha io t s cs =
     (case decodeRefreshRequest (fq_body io) (fq_cookie io) of
        Inl e \<Rightarrow> (e, t, s, cs)
      | Inr ctx \<Rightarrow>
          let raw = (case refreshTokenFromRequest ctx (fq_cookie io) of None \<Rightarrow> [] | Some token \<Rightarrow> token) in
          (case Verify R lib (fq_wipedOk io) (fq_epochOk io) (fq_now io) raw TokenTypeRefresh t s of
             (Inl e, s1) \<Rightarrow> (Cleared 401 (classifyJWTError e), t, s1, cs)
           | (Inr c, s1) \<Rightarrow>
               (case RefreshAllow C (cl_UIN c) ''auth:refresh'' cs of
                  (AllowError, cs1) \<Rightarrow> (AuthError 503 ''RATE_LIMITER_UNAVAILABLE'', t, s1, cs1)
                | (Denied, cs1) \<Rightarrow> (AuthError 429 ''RATE_LIMITED'', t, s1, cs1)
                | (Allowed, cs1) \<Rightarrow>
                    let (r, t') = rotateRefresh lib sha io raw (cl_UIN c) (fq_env io t) in (r, t', s1, cs1))))"

section \<open>Logout\<close>

definition logoutHandler ::
  "('r, 'x) redis_api_scheme \<Rightarrow> jwt_lib \<Rightarrow> unit body \<Rightarrow> outcome \<Rightarrow> outcome \<Rightarrow> gotime \<Rightarrow> gotime \<Rightarrow> uin option \<Rightarrow> string \<Rightarrow>
    auth_tables \<Rightarrow> 'r \<Rightarrow> auth_http \<times> auth_tables \<times> 'r" where
  "logoutHandler R lib body bump delete now pgnow u h t s =
     (case u of
        None \<Rightarrow> (AuthError 401 ''AUTH_MISSING_BEARER'', t, s)
      | Some u \<Rightarrow>
          (case decodeJSON body of
             Inl e \<Rightarrow> (e, t, s)
           | Inr _ \<Rightarrow>
               (case extractRawBearer h of
                  Inl e \<Rightarrow> (AuthError 401 ''AUTH_MISSING_BEARER'', t, s)
                | Inr raw \<Rightarrow>
                    (case Revoke R lib now raw s of
                       (Some e, s1) \<Rightarrow> (Cleared 503 ''LOGOUT_FAILED'', t, s1)
                     | (None, s1) \<Rightarrow>
                         (case BumpSessionEpoch bump pgnow u t of
                            (False, t1) \<Rightarrow> (Cleared 503 ''LOGOUT_FAILED'', t1, s1)
                          | (True, t1) \<Rightarrow>
                              (LoggedOut, if took_effect delete then drop_refresh u t1 else t1, s1))))))"

section \<open>Session issue\<close>

text \<open>\<open>issueSessionTx\<close>: the new tokens and the table with the hash of the refresh token. \<open>A\<close>, \<open>B\<close>: clock and
  random identifier of the two tokens; \<open>now\<close>: the clock when the row is stored.\<close>

definition issueSessionTx ::
  "jwt_lib \<Rightarrow> (string \<Rightarrow> string) \<Rightarrow> gotime \<times> string option \<Rightarrow> gotime \<times> string option \<Rightarrow> gotime \<Rightarrow> outcome \<Rightarrow> uin \<Rightarrow>
    auth_tables \<Rightarrow> (string \<times> string) option \<times> auth_tables" where
  "issueSessionTx lib sha A B now ins u t =
     (case Sign lib (fst A) (snd A) u TokenTypeAccess of
        Inl e \<Rightarrow> (None, t)
      | Inr (access, _) \<Rightarrow>
          (case Sign lib (fst B) (snd B) u TokenTypeRefresh of
             Inl e \<Rightarrow> (None, t)
           | Inr (refresh, _) \<Rightarrow>
               (if failed ins then None else Some (access, refresh),
                if took_effect ins then qInsertRefreshToken u (sha refresh) (now + RefreshTokenTTL) t else t)))"

end
