(* ===== verification/Passwords.thy ===== *)
theory Passwords
  imports Encoding
begin

text \<open>
  Password hashes, \<^verbatim>\<open>auth-service/handlers/password_hash.go\<close>: the encoded Argon2id string that is
  stored, its parser, and verification with the legacy bcrypt branch. Argon2 and bcrypt are
  libraries: \<open>idkey\<close> and \<open>bcrypt\<close>.
\<close>

section \<open>Definitions\<close>

definition argon2_Version :: nat where "argon2_Version = 19"
definition argon2idMemory :: nat where "argon2idMemory = 64 * 1024"
definition argon2idIterations :: nat where "argon2idIterations = 3"
definition argon2idParallelism :: nat where "argon2idParallelism = 4"
definition argon2idSaltLength :: nat where "argon2idSaltLength = 16"
definition argon2idKeyLength :: nat where "argon2idKeyLength = 32"

lemmas argon2_defs = argon2_Version_def argon2idMemory_def argon2idIterations_def argon2idParallelism_def
  argon2idKeyLength_def

record argon2idParams =
  ar_memory :: nat
  ar_iterations :: nat
  ar_parallelism :: nat

text \<open>\<open>argon2.IDKey\<close>: password, salt, iterations, memory, threads, key length.\<close>

type_synonym idkey = "bytes \<Rightarrow> bytes \<Rightarrow> nat \<Rightarrow> nat \<Rightarrow> nat \<Rightarrow> nat \<Rightarrow> bytes"

text \<open>\<open>salt\<close>: the random salt, None when the generator fails.\<close>

definition hashPassword :: "idkey \<Rightarrow> bytes option \<Rightarrow> string \<Rightarrow> string option" where
  "hashPassword idkey salt password =
     (case salt of
        None \<Rightarrow> None
      | Some salt \<Rightarrow>
          let hash = idkey password salt argon2idIterations argon2idMemory argon2idParallelism argon2idKeyLength in
          Some (''$argon2id$v='' @ decimal argon2_Version @ ''$m='' @ decimal argon2idMemory @
            '',t='' @ decimal argon2idIterations @ '',p='' @ decimal argon2idParallelism @
            ''$'' @ EncodeToString False salt @ ''$'' @ EncodeToString False hash))"

text \<open>The loop over the fields; a repeated key keeps its last value.\<close>

primrec parse_fields :: "string list \<Rightarrow> (string \<rightharpoonup> nat) \<Rightarrow> (string \<rightharpoonup> nat) option" where
  "parse_fields [] values = Some values"
| "parse_fields (part # parts) values =
     (case cut (CHR ''='') part of
        None \<Rightarrow> None
      | Some (key, value) \<Rightarrow>
          (case ParseUint 32 value of
             None \<Rightarrow> None
           | Some parsed \<Rightarrow> if parsed = 0 then None else parse_fields parts (values(key \<mapsto> parsed))))"

definition parseArgon2idParams :: "string \<Rightarrow> argon2idParams option" where
  "parseArgon2idParams raw =
     (case parse_fields (split_on (CHR '','') raw) Map.empty of
        None \<Rightarrow> None
      | Some values \<Rightarrow>
          (case (values ''m'', values ''t'', values ''p'') of
             (Some memory, Some iterations, Some parallelism) \<Rightarrow>
               if parallelism > 255 then None
               else Some \<lparr>ar_memory = memory, ar_iterations = iterations, ar_parallelism = parallelism\<rparr>
           | _ \<Rightarrow> None))"

definition parseArgon2idHash :: "string \<Rightarrow> (argon2idParams \<times> bytes \<times> bytes) option" where
  "parseArgon2idHash storedHash =
     (let parts = split_on (CHR ''$'') storedHash in
      if length parts \<noteq> 6 \<or> parts ! 1 \<noteq> ''argon2id'' then None
      else if parts ! 2 \<noteq> ''v='' @ decimal argon2_Version then None
      else case parseArgon2idParams (parts ! 3) of
        None \<Rightarrow> None
      | Some params \<Rightarrow>
          (case DecodeString False (parts ! 4) of
             None \<Rightarrow> None
           | Some salt \<Rightarrow>
               if salt = [] then None
               else case DecodeString False (parts ! 5) of
                 None \<Rightarrow> None
               | Some hash \<Rightarrow> if hash = [] then None else Some (params, salt, hash)))"

record passwordVerifyResult =
  pv_OK :: bool
  pv_NeedsRehash :: bool

definition verifyArgon2idPassword :: "idkey \<Rightarrow> string \<Rightarrow> string \<Rightarrow> passwordVerifyResult" where
  "verifyArgon2idPassword idkey storedHash password =
     (case parseArgon2idHash storedHash of
        None \<Rightarrow> \<lparr>pv_OK = False, pv_NeedsRehash = False\<rparr>
      | Some (params, salt, expected) \<Rightarrow>
          \<lparr>pv_OK = (idkey password salt (ar_iterations params) (ar_memory params) (ar_parallelism params) (length expected) = expected),
           pv_NeedsRehash = False\<rparr>)"

definition argon2_prefix :: string where "argon2_prefix = ''$argon2id$''"

definition verifyPassword :: "idkey \<Rightarrow> (string \<Rightarrow> string \<Rightarrow> bool) \<Rightarrow> string \<Rightarrow> string \<Rightarrow> passwordVerifyResult" where
  "verifyPassword idkey bcrypt storedHash password =
     (if take (length argon2_prefix) storedHash = argon2_prefix then verifyArgon2idPassword idkey storedHash password
      else if bcrypt storedHash password then \<lparr>pv_OK = True, pv_NeedsRehash = True\<rparr>
      else \<lparr>pv_OK = False, pv_NeedsRehash = False\<rparr>)"

section \<open>Lemmas\<close>

lemma decimal_plain [simp]: "CHR ''$'' \<notin> set (decimal n)" "CHR '','' \<notin> set (decimal n)" "CHR ''='' \<notin> set (decimal n)"
  by (rule decimal_avoids, simp)+

lemma field_parse:
  assumes "CHR ''='' \<notin> set key" and "0 < n" and "n < 2 ^ 32"
  shows "parse_fields ((key @ CHR ''='' # decimal n) # parts) vs = parse_fields parts (vs(key \<mapsto> n))"
  using assms by (simp add: cut_field ParseUint_decimal)

lemma params_roundtrip:
  assumes "0 < m" "m < 2 ^ 32" "0 < t" "t < 2 ^ 32" "0 < p" "p < 2 ^ 8"
  shows "parseArgon2idParams (''m='' @ decimal m @ '',t='' @ decimal t @ '',p='' @ decimal p) =
    Some \<lparr>ar_memory = m, ar_iterations = t, ar_parallelism = p\<rparr>"
proof -
  have "split_on (CHR '','') (''m='' @ decimal m @ '',t='' @ decimal t @ '',p='' @ decimal p) =
      [''m'' @ CHR ''='' # decimal m, ''t'' @ CHR ''='' # decimal t, ''p'' @ CHR ''='' # decimal p]"
    using split_on_field [of "CHR '',''" "''m='' @ decimal m" "(''t='' @ decimal t) @ CHR '','' # ''p='' @ decimal p"]
      split_on_field [of "CHR '',''" "''t='' @ decimal t" "''p='' @ decimal p"]
      split_on_none [of "CHR '',''" "''p='' @ decimal p"] by simp
  moreover have k: "CHR ''='' \<notin> set ''m''" "CHR ''='' \<notin> set ''t''" "CHR ''='' \<notin> set ''p''" "p < 2 ^ 32"
    using assms(6) by simp_all
  ultimately have "parse_fields (split_on (CHR '','') (''m='' @ decimal m @ '',t='' @ decimal t @ '',p='' @ decimal p)) Map.empty =
      Some [''m'' \<mapsto> m, ''t'' \<mapsto> t, ''p'' \<mapsto> p]"
    by (simp only: field_parse [OF k(1) assms(1,2)] field_parse [OF k(2) assms(3,4)] field_parse [OF k(3) assms(5) k(4)]
        parse_fields.simps(1))
  then show ?thesis using assms by (simp add: parseArgon2idParams_def)
qed

lemma params_plain: "CHR ''$'' \<notin> set (''m='' @ decimal m @ '',t='' @ decimal t @ '',p='' @ decimal p)"
  by simp

lemma version_plain: "CHR ''$'' \<notin> set (''v='' @ decimal v)"
  by simp

lemma hash_split:
  "split_on (CHR ''$'') (''$argon2id$v='' @ decimal argon2_Version @ ''$m='' @ decimal argon2idMemory @
      '',t='' @ decimal argon2idIterations @ '',p='' @ decimal argon2idParallelism @
      ''$'' @ EncodeToString False salt @ ''$'' @ EncodeToString False hash) =
    [[], ''argon2id'', ''v='' @ decimal argon2_Version,
     ''m='' @ decimal argon2idMemory @ '',t='' @ decimal argon2idIterations @ '',p='' @ decimal argon2idParallelism,
     EncodeToString False salt, EncodeToString False hash]"
proof -
  have e: "CHR ''$'' \<notin> set (EncodeToString False x)" for x by (rule EncodeToString_avoids) simp
  have a: "CHR ''$'' \<notin> set ''argon2id''" by simp
  show ?thesis
    using split_on_field [OF a, where rest = "(''v='' @ decimal argon2_Version) @ CHR ''$'' # (''m='' @ decimal argon2idMemory @ '',t='' @ decimal argon2idIterations @ '',p='' @ decimal argon2idParallelism) @ CHR ''$'' # EncodeToString False salt @ CHR ''$'' # EncodeToString False hash"]
      split_on_field [OF version_plain, where rest = "(''m='' @ decimal argon2idMemory @ '',t='' @ decimal argon2idIterations @ '',p='' @ decimal argon2idParallelism) @ CHR ''$'' # EncodeToString False salt @ CHR ''$'' # EncodeToString False hash"]
      split_on_field [OF params_plain, where rest = "EncodeToString False salt @ CHR ''$'' # EncodeToString False hash"]
      split_on_field [OF e, where rest = "EncodeToString False hash"] split_on_none [OF e, of hash]
    by simp
qed

lemma parse_fields_bounds:
  assumes "parse_fields parts vs = Some values" and "\<forall>k n. vs k = Some n \<longrightarrow> 0 < n \<and> n < 2 ^ 32"
  shows "\<forall>k n. values k = Some n \<longrightarrow> 0 < n \<and> n < 2 ^ 32"
  using assms
proof (induction parts arbitrary: vs)
  case (Cons part parts)
  from Cons.prems(1) obtain key val n where n: "ParseUint 32 val = Some n" "n \<noteq> 0"
    and r: "parse_fields parts (vs(key \<mapsto> n)) = Some values"
    by (auto split: option.splits prod.splits if_splits)
  have "\<forall>k m. (vs(key \<mapsto> n)) k = Some m \<longrightarrow> 0 < m \<and> m < 2 ^ 32"
    using Cons.prems(2) n ParseUint_bound [OF n(1)] by (simp del: power_numeral)
  from Cons.IH [OF r this] show ?case .
qed simp

lemma parse_stored:
  assumes "hashPassword idkey (Some salt) password = Some stored" and "salt \<noteq> []"
    and "hash = idkey password salt argon2idIterations argon2idMemory argon2idParallelism argon2idKeyLength" and "hash \<noteq> []"
  shows "parseArgon2idHash stored = Some (\<lparr>ar_memory = argon2idMemory, ar_iterations = argon2idIterations,
      ar_parallelism = argon2idParallelism\<rparr>, salt, hash) \<and> take (length argon2_prefix) stored = argon2_prefix"
proof -
  have st: "stored = ''$argon2id$v='' @ decimal argon2_Version @ ''$m='' @ decimal argon2idMemory @
      '',t='' @ decimal argon2idIterations @ '',p='' @ decimal argon2idParallelism @
      ''$'' @ EncodeToString False salt @ ''$'' @ EncodeToString False hash"
    using assms(1,3) by (simp add: hashPassword_def Let_def)
  have "parseArgon2idHash stored = Some (\<lparr>ar_memory = argon2idMemory, ar_iterations = argon2idIterations,
      ar_parallelism = argon2idParallelism\<rparr>, salt, hash)"
    unfolding parseArgon2idHash_def st hash_split
    using assms(2,4) params_roundtrip [of argon2idMemory argon2idIterations argon2idParallelism]
    by (simp add: Decode_Encode argon2_defs)
  then show ?thesis by (simp add: st argon2_prefix_def)
qed

lemma verify_stored:
  assumes "hashPassword idkey (Some salt) password = Some stored" and "length salt = argon2idSaltLength"
    and "\<forall>p s t m q n. length (idkey p s t m q n) = n"
  shows "verifyPassword idkey bcrypt stored candidate =
    \<lparr>pv_OK = (idkey candidate salt argon2idIterations argon2idMemory argon2idParallelism argon2idKeyLength =
              idkey password salt argon2idIterations argon2idMemory argon2idParallelism argon2idKeyLength),
     pv_NeedsRehash = False\<rparr>"
proof -
  let ?h = "idkey password salt argon2idIterations argon2idMemory argon2idParallelism argon2idKeyLength"
  have l: "length ?h = argon2idKeyLength" using assms(3) by blast
  then have "?h \<noteq> []" "salt \<noteq> []" using assms(2) by (auto simp: argon2idKeyLength_def argon2idSaltLength_def)
  with parse_stored [OF assms(1) _ refl] l show ?thesis by (simp add: verifyPassword_def verifyArgon2idPassword_def)
qed

section \<open>Properties\<close>

text \<open>C33: a stored hash reads back: verifying any password against the string produced for a password,
  with a full-length salt, compares exactly the two Argon2id keys under the same salt and the
  configured cost, so the right password is accepted, and no rehash is asked for.\<close>

theorem password_roundtrip:
  assumes "hashPassword idkey (Some salt) password = Some stored" and "length salt = argon2idSaltLength"
    and "\<forall>p s t m q n. length (idkey p s t m q n) = n"
  shows "verifyPassword idkey bcrypt stored candidate =
    \<lparr>pv_OK = (idkey candidate salt argon2idIterations argon2idMemory argon2idParallelism argon2idKeyLength =
              idkey password salt argon2idIterations argon2idMemory argon2idParallelism argon2idKeyLength),
     pv_NeedsRehash = False\<rparr>"
  using assms by (rule verify_stored)

definition pad_key :: idkey where
  "pad_key p s t m q n = take n (p @ replicate n (CHR ''x''))"

lemma pad_key_length: "\<forall>p s t m q n. length (pad_key p s t m q n) = n"
  by (simp add: pad_key_def min_def)

lemma password_roundtrip_witness:
  "pv_OK (verifyPassword pad_key (\<lambda>h p. False)
     (the (hashPassword pad_key (Some (replicate 16 (CHR ''s''))) ''right'')) ''right'')"
proof -
  let ?h = "the (hashPassword pad_key (Some (replicate 16 (CHR ''s''))) ''right'')"
  have "hashPassword pad_key (Some (replicate 16 (CHR ''s''))) ''right'' = Some ?h" by (simp add: hashPassword_def Let_def)
  from password_roundtrip [OF this _ pad_key_length] show ?thesis by (simp add: argon2idSaltLength_def)
qed

text \<open>Also: whatever string is stored, a parsed hash has cost parameters that fit the machine types and are
  positive, so Argon2 is never called with a zero cost (on which it panics), and a rehash is asked
  for exactly when a legacy bcrypt hash matched.\<close>

theorem stored_hash_safe:
  "(parseArgon2idHash stored = Some (params, salt, hash) \<longrightarrow>
      0 < ar_memory params \<and> ar_memory params < 2 ^ 32 \<and> 0 < ar_iterations params \<and> ar_iterations params < 2 ^ 32 \<and>
      0 < ar_parallelism params \<and> ar_parallelism params < 2 ^ 8 \<and> salt \<noteq> [] \<and> hash \<noteq> []) \<and>
   (pv_NeedsRehash (verifyPassword idkey bcrypt stored password) \<longleftrightarrow>
      take (length argon2_prefix) stored \<noteq> argon2_prefix \<and> bcrypt stored password) \<and>
   (pv_NeedsRehash (verifyPassword idkey bcrypt stored password) \<longrightarrow> pv_OK (verifyPassword idkey bcrypt stored password))"
proof -
  have "0 < ar_memory params \<and> ar_memory params < 2 ^ 32 \<and> 0 < ar_iterations params \<and> ar_iterations params < 2 ^ 32 \<and>
      0 < ar_parallelism params \<and> ar_parallelism params < 2 ^ 8" if h: "parseArgon2idParams raw = Some params" for raw
  proof -
    obtain vs where vs: "parse_fields (split_on (CHR '','') raw) Map.empty = Some vs"
      and p: "vs ''m'' = Some (ar_memory params)" "vs ''t'' = Some (ar_iterations params)"
        "vs ''p'' = Some (ar_parallelism params)" "ar_parallelism params \<le> 255"
      using h by (auto simp: parseArgon2idParams_def split: option.splits if_splits)
    from parse_fields_bounds [OF vs] p show ?thesis by auto
  qed
  moreover have "\<exists>raw. parseArgon2idParams raw = Some params \<and> salt \<noteq> [] \<and> hash \<noteq> []"
    if "parseArgon2idHash stored = Some (params, salt, hash)"
    using that by (auto simp: parseArgon2idHash_def Let_def split: option.splits if_splits)
  ultimately show ?thesis
    by (auto simp: verifyPassword_def verifyArgon2idPassword_def split: option.splits prod.splits)
qed

lemma stored_hash_safe_witness:
  "\<exists>stored params. parseArgon2idHash stored = Some (params, ''s'', pad_key ''right'' ''s'' 3 65536 4 32) \<and> 0 < ar_iterations params"
proof -
  have h: "hashPassword pad_key (Some ''s'') ''right'' = Some (the (hashPassword pad_key (Some ''s'') ''right''))"
    by (simp add: hashPassword_def Let_def)
  have "pad_key ''right'' ''s'' 3 65536 4 32 \<noteq> []" by (simp add: pad_key_def)
  with parse_stored [OF h _ refl] obtain params :: argon2idParams where
    p: "parseArgon2idHash (the (hashPassword pad_key (Some ''s'') ''right'')) = Some (params, ''s'', pad_key ''right'' ''s'' 3 65536 4 32)"
    by (auto simp: argon2_defs)
  with stored_hash_safe [of "the (hashPassword pad_key (Some ''s'') ''right'')" params "''s''" "pad_key ''right'' ''s'' 3 65536 4 32"]
  have "0 < ar_iterations params" by blast
  with p show ?thesis by blast
qed

end
