(* ===== verification/Accounts.thy ===== *)
theory Accounts
  imports Sessions Passwords
begin

text \<open>
  Accounts: request validation (\<^verbatim>\<open>auth-service/models/requests.go\<close>), login (\<^verbatim>\<open>handlers/login.go\<close>) and
  registration (\<^verbatim>\<open>handlers/register.go\<close>) with the users table of \<^verbatim>\<open>handlers/queries.go\<close>. The address
  parser \<open>mail.ParseAddress\<close> is the parameter \<open>address_ok\<close>.
\<close>

section \<open>Requests\<close>

record RegisterRequest =
  rg_Username :: string
  rg_Email :: string
  rg_Password :: string
  rg_IdentityKey :: string

record LoginRequest =
  lg_Username :: string
  lg_Email :: string
  lg_Password :: string

datatype validation_error = ErrUsernameInvalid | ErrEmailInvalid | ErrPasswordTooShort | ErrPasswordTooLong
  | ErrFieldRequired | ErrIdentityKeyRequired | ErrIdentityKeyInvalid | ErrLoginIdentifierMissing

definition writeValidationError :: "validation_error \<Rightarrow> auth_http" where
  "writeValidationError e =
     (case e of
        ErrUsernameInvalid \<Rightarrow> AuthError 422 ''USERNAME_INVALID''
      | ErrEmailInvalid \<Rightarrow> AuthError 422 ''EMAIL_INVALID''
      | ErrPasswordTooShort \<Rightarrow> AuthError 422 ''PASSWORD_TOO_SHORT''
      | ErrPasswordTooLong \<Rightarrow> AuthError 422 ''PASSWORD_TOO_LONG''
      | ErrFieldRequired \<Rightarrow> AuthError 422 ''FIELD_REQUIRED''
      | ErrIdentityKeyRequired \<Rightarrow> AuthError 422 ''IDENTITY_KEY_REQUIRED''
      | ErrIdentityKeyInvalid \<Rightarrow> AuthError 422 ''IDENTITY_KEY_INVALID''
      | ErrLoginIdentifierMissing \<Rightarrow> AuthError 422 ''LOGIN_IDENTIFIER_REQUIRED'')"

definition is_alnum :: "char \<Rightarrow> bool" where
  "is_alnum ch = (let n = of_char ch :: nat in 48 \<le> n \<and> n \<le> 57 \<or> 65 \<le> n \<and> n \<le> 90 \<or> 97 \<le> n \<and> n \<le> 122)"

text \<open>The pattern \<^verbatim>\<open>^[A-Za-z0-9_]{3,30}$\<close>\<close>

definition usernamePattern :: "string \<Rightarrow> bool" where
  "usernamePattern s \<longleftrightarrow> 3 \<le> length s \<and> length s \<le> 30 \<and> list_all (\<lambda>ch. is_alnum ch \<or> ch = CHR ''_'') s"

definition x25519PublicKeyLen :: nat where "x25519PublicKeyLen = 32"

definition isBase64URLChar :: "char \<Rightarrow> bool" where
  "isBase64URLChar c \<longleftrightarrow> is_alnum c \<or> c = CHR ''-'' \<or> c = CHR ''_'' \<or> c = CHR ''=''"

definition isBase64URL32 :: "string \<Rightarrow> bool" where
  "isBase64URL32 s =
     (if \<not> list_all isBase64URLChar s then False
      else case DecodePadded s of
        Some b \<Rightarrow> length b = x25519PublicKeyLen
      | None \<Rightarrow>
          (case DecodeString True s of
             Some b \<Rightarrow> length b = x25519PublicKeyLen
           | None \<Rightarrow> False))"

definition register_Validate :: "(string \<Rightarrow> bool) \<Rightarrow> RegisterRequest \<Rightarrow> validation_error option" where
  "register_Validate address_ok r =
     (if rg_Username r = [] then Some ErrFieldRequired
      else if \<not> usernamePattern (rg_Username r) then Some ErrUsernameInvalid
      else if rg_Email r \<noteq> [] \<and> \<not> address_ok (rg_Email r) then Some ErrEmailInvalid
      else if rg_Password r = [] then Some ErrFieldRequired
      else if RuneCountInString (rg_Password r) < 8 then Some ErrPasswordTooShort
      else if RuneCountInString (rg_Password r) > 128 then Some ErrPasswordTooLong
      else if rg_IdentityKey r = [] then Some ErrIdentityKeyRequired
      else if \<not> isBase64URL32 (rg_IdentityKey r) then Some ErrIdentityKeyInvalid
      else None)"

definition login_Validate :: "LoginRequest \<Rightarrow> validation_error option" where
  "login_Validate r =
     (if trim_space (lg_Username r) = [] \<and> trim_space (lg_Email r) = [] then Some ErrLoginIdentifierMissing
      else if lg_Password r = [] then Some ErrFieldRequired
      else None)"

definition LoginIdentifier :: "LoginRequest \<Rightarrow> string \<times> bool" where
  "LoginIdentifier r =
     (if trim_space (lg_Username r) \<noteq> [] then (trim_space (lg_Username r), True)
      else (trim_space (lg_Email r), False))"

section \<open>The users table\<close>

text \<open>Username and e-mail are unique, a missing e-mail (NULL) excepted. The session epoch of a user is
  in the tables of the token checks, where a new row starts at the zero of PostgreSQL's clock.\<close>

record user_row =
  us_uin :: uin
  us_username :: string
  us_email :: "string option"
  us_hash :: string
  us_identity :: string

definition qInsertUser :: "uin \<Rightarrow> string \<Rightarrow> string \<Rightarrow> string \<Rightarrow> string \<Rightarrow> user_row list \<Rightarrow> db_error + user_row list" where
  "qInsertUser nextval username email hash identity us =
     (let email = (if email = [] then None else Some email) in
      if list_ex (\<lambda>r. us_username r = username \<or> email \<noteq> None \<and> us_email r = email \<or> us_uin r = nextval) us then Inl UniqueViolation
      else Inr (us @ [\<lparr>us_uin = nextval, us_username = username, us_email = email, us_hash = hash, us_identity = identity\<rparr>]))"

definition qSelectUser :: "bool \<Rightarrow> string \<Rightarrow> user_row list \<Rightarrow> user_row option" where
  "qSelectUser byUsername v us =
     find (\<lambda>r. if byUsername then us_username r = v else us_email r = Some v) us"

definition qUpdateUserPasswordHash :: "string \<Rightarrow> uin \<Rightarrow> user_row list \<Rightarrow> user_row list" where
  "qUpdateUserPasswordHash h u us = map (\<lambda>r. if us_uin r = u then r\<lparr>us_hash := h\<rparr> else r) us"

section \<open>Limits of anonymous requests\<close>

definition rateLimitKeyPrefix :: string where "rateLimitKeyPrefix = ''ratelimit:login:''"
definition registerKeyPrefix :: string where "registerKeyPrefix = ''ratelimit:register:''"

text \<open>The identity headers of a request, with the HMAC, its secret and the date.\<close>

record edge =
  ed_hmac :: "bytes \<Rightarrow> bytes \<Rightarrow> bytes"
  ed_secret :: bytes
  ed_current :: "string list"
  ed_previous :: "string list"
  ed_day :: string

text \<open>The check both handlers start with: the buckets of the presented identities are counted.\<close>

definition anonymous_limit ::
  "('c, 'y) counter_api_scheme \<Rightarrow> edge \<Rightarrow> string \<Rightarrow> string \<Rightarrow> int \<Rightarrow> 'c \<Rightarrow> auth_http option \<times> 'c" where
  "anonymous_limit C ed action prefix limit cs =
     (case AnonymousRateLimitBuckets (ed_hmac ed) (ed_secret ed) (ed_current ed) (ed_previous ed) action (ed_day ed) of
        None \<Rightarrow> (Some (AuthError 503 ''RATE_LIMIT_IDENTITY_UNAVAILABLE''), cs)
      | Some buckets \<Rightarrow>
          (case rateLimitScript C (map (\<lambda>b. prefix @ b) buckets) (go_div rateLimitWindow Second) 0 cs of
             (Inl e, cs') \<Rightarrow> (Some (AuthError 503 ''RATE_LIMITER_UNAVAILABLE''), cs')
           | (Inr count, cs') \<Rightarrow>
               (if count > limit then Some (AuthError 429 ''RATE_LIMITED'') else None, cs')))"

section \<open>Login\<close>

record login_io =
  lq_body :: "LoginRequest body"
  lq_edge :: edge
  lq_lookup :: "db_error option"
  lq_salt :: "bytes option"
  lq_rehash :: outcome
  lq_env :: "auth_tables \<Rightarrow> auth_tables"
  lq_begin :: bool
  lq_lock :: bool
  lq_marker :: bool
  lq_sign_access :: "gotime \<times> string option"
  lq_sign_refresh :: "gotime \<times> string option"
  lq_stored :: gotime
  lq_insert :: bool
  lq_commit :: outcome

text \<open>The transaction after the password check.\<close>

definition login_tx ::
  "jwt_lib \<Rightarrow> (string \<Rightarrow> string) \<Rightarrow> login_io \<Rightarrow> uin \<Rightarrow> auth_tables \<Rightarrow> auth_http \<times> auth_tables" where
  "login_tx lib sha io u t =
     (if \<not> lq_begin io then (AuthError 503 ''AUTH_SERVICE_UNAVAILABLE'', t)
      else if \<not> lq_lock io \<or> at_epoch t u = None then (AuthError 401 ''INVALID_CREDENTIALS'', t)
      else if \<not> lq_marker io then (AuthError 401 ''INVALID_CREDENTIALS'', t)
      else if u \<in> at_wiped t then (AuthError 401 ''INVALID_CREDENTIALS'', t)
      else case issueSessionTx lib sha (lq_sign_access io) (lq_sign_refresh io) (lq_stored io)
             (if lq_insert io then Done else FailedBefore) u t of
        (None, t1) \<Rightarrow> (AuthError 500 ''TOKEN_ISSUE_FAILED'', t)
      | (Some (access, refresh), t1) \<Rightarrow>
          (if failed (lq_commit io) then AuthError 500 ''TOKEN_ISSUE_FAILED'' else LoggedIn u access refresh,
           commit_tx (lq_commit io) t1 t))"

definition loginHandler ::
  "('c, 'y) counter_api_scheme \<Rightarrow> jwt_lib \<Rightarrow> (string \<Rightarrow> string) \<Rightarrow> idkey \<Rightarrow> (string \<Rightarrow> string \<Rightarrow> bool) \<Rightarrow> login_io \<Rightarrow>
    auth_tables \<Rightarrow> user_row list \<Rightarrow> 'c \<Rightarrow> auth_http \<times> auth_tables \<times> user_row list \<times> 'c" where
  "loginHandler C lib sha idkey bcrypt io t us cs =
     (case decodeJSON (lq_body io) of
        Inl e \<Rightarrow> (e, t, us, cs)
      | Inr req \<Rightarrow>
          (case login_Validate req of
             Some e \<Rightarrow> (writeValidationError e, t, us, cs)
           | None \<Rightarrow>
               (case anonymous_limit C (lq_edge io) ''login'' rateLimitKeyPrefix rateLimitPerMinute cs of
                  (Some e, cs1) \<Rightarrow> (e, t, us, cs1)
                | (None, cs1) \<Rightarrow>
                    (case lq_lookup io of
                       Some e \<Rightarrow> (writeDBError e, t, us, cs1)
                     | None \<Rightarrow>
                         (case qSelectUser (snd (LoginIdentifier req)) (fst (LoginIdentifier req)) us of
                            None \<Rightarrow> (AuthError 401 ''INVALID_CREDENTIALS'', t, us, cs1)
                          | Some user \<Rightarrow>
                              let res = verifyPassword idkey bcrypt (us_hash user) (lg_Password req) in
                              if \<not> pv_OK res then (AuthError 401 ''INVALID_CREDENTIALS'', t, us, cs1)
                              else
                                let us1 = (if pv_NeedsRehash res then
                                      (case hashPassword idkey (lq_salt io) (lg_Password req) of
                                         None \<Rightarrow> us
                                       | Some h \<Rightarrow> if took_effect (lq_rehash io) then qUpdateUserPasswordHash h (us_uin user) us else us)
                                      else us);
                                    (r, t1) = login_tx lib sha io (us_uin user) (lq_env io t)
                                in (r, t1, us1, cs1))))))"

section \<open>Registration\<close>

record register_io =
  gq_edge :: edge
  gq_body :: "RegisterRequest body"
  gq_salt :: "bytes option"
  gq_insert :: "db_error option"
  gq_lost :: bool
  gq_nextval :: uin
  gq_epoch0 :: gotime
  gq_sign_access :: "gotime \<times> string option"
  gq_sign_refresh :: "gotime \<times> string option"
  gq_stored :: gotime
  gq_session :: outcome

text \<open>\<open>gq_insert\<close>: a failure of the insert other than a duplicate; \<open>gq_lost\<close>: whether the row was stored
  although the reply failed. The new row's epoch is the column default.\<close>

definition registerHandler ::
  "('c, 'y) counter_api_scheme \<Rightarrow> jwt_lib \<Rightarrow> (string \<Rightarrow> string) \<Rightarrow> idkey \<Rightarrow> (string \<Rightarrow> bool) \<Rightarrow> register_io \<Rightarrow>
    auth_tables \<Rightarrow> user_row list \<Rightarrow> 'c \<Rightarrow> auth_http \<times> auth_tables \<times> user_row list \<times> 'c" where
  "registerHandler C lib sha idkey address_ok io t us cs =
     (case anonymous_limit C (gq_edge io) ''register'' registerKeyPrefix 3 cs of
        (Some e, cs1) \<Rightarrow> (e, t, us, cs1)
      | (None, cs1) \<Rightarrow>
          (case decodeJSON (gq_body io) of
             Inl e \<Rightarrow> (e, t, us, cs1)
           | Inr req \<Rightarrow>
               (case register_Validate address_ok req of
                  Some e \<Rightarrow> (writeValidationError e, t, us, cs1)
                | None \<Rightarrow>
                    (case hashPassword idkey (gq_salt io) (rg_Password req) of
                       None \<Rightarrow> (AuthError 500 ''HASH_FAILED'', t, us, cs1)
                     | Some hash \<Rightarrow>
                         (case qInsertUser (gq_nextval io) (rg_Username req) (rg_Email req) hash (rg_IdentityKey req) us of
                            Inl e \<Rightarrow> (writeDBError e, t, us, cs1)
                          | Inr us1 \<Rightarrow>
                              let t1 = t\<lparr>at_epoch := (at_epoch t)(gq_nextval io \<mapsto> gq_epoch0 io)\<rparr> in
                              (case gq_insert io of
                                 Some e \<Rightarrow> if gq_lost io then (writeDBError e, t1, us1, cs1) else (writeDBError e, t, us, cs1)
                               | None \<Rightarrow>
                                   (case issueSessionTx lib sha (gq_sign_access io) (gq_sign_refresh io) (gq_stored io)
                                           (gq_session io) (gq_nextval io) t1 of
                                      (None, t2) \<Rightarrow> (AuthError 500 ''TOKEN_ISSUE_FAILED'', t2, us1, cs1)
                                    | (Some (access, refresh), t2) \<Rightarrow>
                                        (Registered (gq_nextval io) access refresh, t2, us1, cs1))))))))"

end
