(* ===== verification/TokenProperties.thy ===== *)
theory TokenProperties
  imports Tokens
begin

text \<open>Properties of session tokens: what an accepted token proves, the three ways to revoke it,
  the sign/verify round trip and its one-second gap, and the secret check.\<close>


text \<open>A library with unsigned tokens kept in a table, for the witnesses.\<close>

definition sample_claims :: claims where
  "sample_claims = \<lparr>cl_UIN = 7, cl_JTI = ''j'', cl_Type = ''access'', cl_IssuedAt = Some (100 * Second),
     cl_ExpiresAt = Some (1000 * Second), cl_NotBefore = Some (100 * Second), cl_Issuer = ''iceq'', cl_Subject = ''7''\<rparr>"

definition sample_lib :: jwt_lib where
  "sample_lib = \<lparr>jl_sign = (\<lambda>c. if c = sample_claims then Some ''tok'' else None),
     jl_parse = (\<lambda>now raw. if raw = ''tok'' \<and> 100 * Second \<le> now then
        (if now < 1000 * Second then Parsed sample_claims else ParseExpired) else ParseError),
     jl_parse_unvalidated = (\<lambda>raw. if raw = ''tok'' then Some sample_claims else None)\<rparr>"

lemma sample_lib_ok: "jwt_lib_ok sample_lib"
  by (auto simp: jwt_lib_ok_def sample_lib_def sample_claims_def expectedIssuer_def split: if_splits)

definition sample_tables :: auth_tables where
  "sample_tables = \<lparr>at_epoch = [7 \<mapsto> 0], at_wiped = {}, at_refresh = []\<rparr>"

lemma sample_verify:
  "Verify mem_api sample_lib True True (200 * Second) ''tok'' ''access'' sample_tables mem_empty = (Inr sample_claims, mem_empty)"
  by (simp add: Verify_def sample_lib_def sample_claims_def IsAccountWiped_def SessionEpoch_def sample_tables_def
      mem_api_def mem_reply_def mem_empty_def duration_defs)


text \<open>Also: a token presented where the other kind is expected is never accepted: a refresh token does
  not pass as an access token, nor the other way round.\<close>

theorem token_type_separation:
  assumes "jwt_lib_ok lib" and "Sign lib issued jti u ty = Inr (raw, j)" and "ty \<noteq> ty'"
    and "NewNumericDate issued \<le> now" and "now < NewNumericDate (issued + AccessTokenTTL)"
  shows "fst (Verify R lib wipedOk epochOk now raw ty' t s) = Inl ErrTokenWrongType"
proof -
  obtain ttl where s: "jl_sign lib \<lparr>cl_UIN = u, cl_JTI = j, cl_Type = ty,
      cl_IssuedAt = Some (NewNumericDate issued), cl_ExpiresAt = Some (NewNumericDate (issued + ttl)),
      cl_NotBefore = Some (NewNumericDate issued), cl_Issuer = expectedIssuer, cl_Subject = itoa u\<rparr> = Some raw"
    and ttl: "ttl = AccessTokenTTL \<or> ttl = RefreshTokenTTL"
    using Sign_Inr [OF assms(2)] by blast
  have "NewNumericDate (issued + AccessTokenTTL) \<le> NewNumericDate (issued + RefreshTokenTTL)"
    by (simp add: NewNumericDate_def trunc_time_def AccessTokenTTL_def RefreshTokenTTL_def duration_defs
        minus_mod_eq_div_mult zdiv_mono1)
  then have "now < NewNumericDate (issued + ttl)" using ttl assms(5) by auto
  with assms(1,4) s have "jl_parse lib now raw = Parsed \<lparr>cl_UIN = u, cl_JTI = j, cl_Type = ty,
      cl_IssuedAt = Some (NewNumericDate issued), cl_ExpiresAt = Some (NewNumericDate (issued + ttl)),
      cl_NotBefore = Some (NewNumericDate issued), cl_Issuer = expectedIssuer, cl_Subject = itoa u\<rparr>"
    by (intro jwt_roundtrip [OF assms(1) s]) simp_all
  with assms(3) show ?thesis by (simp add: Verify_def)
qed

definition refresh_claims :: claims where
  "refresh_claims = sample_claims\<lparr>cl_Type := ''refresh'', cl_ExpiresAt := Some (604900 * Second)\<rparr>"

definition refresh_lib :: jwt_lib where
  "refresh_lib = \<lparr>jl_sign = (\<lambda>c. if c = refresh_claims then Some ''tok'' else None),
     jl_parse = (\<lambda>now raw. if raw = ''tok'' \<and> 100 * Second \<le> now \<and> now < 604900 * Second then Parsed refresh_claims else ParseError),
     jl_parse_unvalidated = (\<lambda>raw. if raw = ''tok'' then Some refresh_claims else None)\<rparr>"

lemma refresh_lib_ok: "jwt_lib_ok refresh_lib"
  by (auto simp: jwt_lib_ok_def refresh_lib_def refresh_claims_def sample_claims_def expectedIssuer_def split: if_splits)

lemma refresh_sign: "Sign refresh_lib (100 * Second + 900 * Millisecond) (Some ''j'') 7 TokenTypeRefresh = Inr (''tok'', ''j'')"
  by code_simp

lemma token_type_separation_witness:
  "fst (Verify mem_api refresh_lib True True (200 * Second) ''tok'' ''access'' sample_tables mem_empty) = Inl ErrTokenWrongType"
proof -
  have "NewNumericDate (100 * Second + 900 * Millisecond) = 100 * Second"
    "NewNumericDate (100 * Second + 900 * Millisecond + AccessTokenTTL) = 1000 * Second" by code_simp+
  then show ?thesis
    using token_type_separation [OF refresh_lib_ok refresh_sign, of "''access''" "200 * Second"]
    by (simp add: TokenTypeRefresh_def duration_defs)
qed

text \<open>Also: advancing the session epoch revokes every token of the account that was issued before it,
  of either kind, for as long as the epoch does not move back.\<close>

theorem epoch_bump_revokes:
  assumes "at_epoch t u \<noteq> None" and "t1 = snd (BumpSessionEpoch Done pgnow u t)"
    and "\<forall>e. at_epoch t2 u = Some e \<longrightarrow> the (at_epoch t1 u) \<le> e"
    and "cl_UIN c = u" and "cl_IssuedAt c = Some i" and "i < pgnow"
  shows "fst (Verify R lib wipedOk epochOk now raw ty t2 s) \<noteq> Inr c"
proof
  assume "fst (Verify R lib wipedOk epochOk now raw ty t2 s) = Inr c"
  then obtain s' where "Verify R lib wipedOk epochOk now raw ty t2 s = (Inr c, s')"
    by (metis prod.collapse)
  from Verify_Inr [OF this] assms(4,5) obtain e where "at_epoch t2 u = Some e" "e \<le> i" by auto
  moreover have "the (at_epoch t1 u) = pgnow"
    using assms(1,2) by (auto simp: BumpSessionEpoch_def took_effect_def)
  ultimately show False using assms(3,6) by auto
qed

lemma epoch_bump_revokes_witness:
  "fst (Verify mem_api sample_lib True True (200 * Second) ''tok'' ''access''
     (snd (BumpSessionEpoch Done (150 * Second) 7 sample_tables)) mem_empty) \<noteq> Inr sample_claims"
  by (rule epoch_bump_revokes [where t = sample_tables and u = 7 and
      ?t1.0 = "snd (BumpSessionEpoch Done (150 * Second) 7 sample_tables)" and pgnow = "150 * Second" and i = "100 * Second"])
     (simp_all add: sample_tables_def sample_claims_def duration_defs BumpSessionEpoch_def took_effect_def)

text \<open>Also: revoking a token that has more than a second to live puts it on the blocklist, and while
  the entry stands the token is not accepted.\<close>

theorem revoked_token_rejected:
  assumes "redis_strings R strs" and "jwt_lib_ok lib" and "jl_sign lib c = Some raw"
    and "cl_ExpiresAt c = Some e" and "now + minBlocklistTTL < e"
    and "Revoke R lib now raw s = (None, s1)"
    and "strs s2 (blocklistKeyPrefix @ cl_JTI c) = strs s1 (blocklistKeyPrefix @ cl_JTI c)"
  shows "fst (Verify R lib wipedOk epochOk later raw ty t s2) \<noteq> Inr c"
proof
  assume "fst (Verify R lib wipedOk epochOk later raw ty t s2) = Inr c"
  then obtain s' where "Verify R lib wipedOk epochOk later raw ty t s2 = (Inr c, s')"
    by (metis prod.collapse)
  from redis_strings.Verify_not_blocked [OF assms(1) this]
    redis_strings.Revoke_blocks [OF assms(1,6) jwt_unvalidated [OF assms(2,3)] assms(4,5)] assms(7)
  show False by simp
qed

lemma revoked_token_rejected_witness:
  "fst (Verify mem_api sample_lib True True (201 * Second) ''tok'' ''access'' sample_tables
     (snd (Revoke mem_api sample_lib (200 * Second) ''tok'' mem_empty))) \<noteq> Inr sample_claims"
proof (rule revoked_token_rejected [OF memS.redis_strings_axioms sample_lib_ok, of sample_claims _ "1000 * Second"])
  show "Revoke mem_api sample_lib (200 * Second) ''tok'' mem_empty = (None, snd (Revoke mem_api sample_lib (200 * Second) ''tok'' mem_empty))"
    by (simp add: Revoke_def extractClaimsForRevocation_def sample_lib_def sample_claims_def mem_api_def mem_reply_def
        mem_empty_def duration_defs minBlocklistTTL_def)
qed (simp_all add: sample_lib_def sample_claims_def duration_defs minBlocklistTTL_def)

text \<open>Also: a token signed for an existing, not wiped account verifies, within its lifetime and with
  both stores reachable, exactly when the session epoch is not later than its issue time cut to
  the second. So a token issued later than the epoch but within the same second is refused as
  revoked.\<close>

theorem sign_verify_iff:
  assumes "jwt_lib_ok lib" and "Sign lib issued jti u ty = Inr (raw, j)"
    and "NewNumericDate issued \<le> now" and "now < NewNumericDate (issued + AccessTokenTTL)"
    and "u \<notin> at_wiped t" and "at_epoch t u = Some epoch"
    and "rd_exists R (blocklistKeyPrefix @ j) s = (Inr 0, s')"
  shows "(epoch \<le> NewNumericDate issued \<longrightarrow>
      (\<exists>c. fst (Verify R lib True True now raw ty t s) = Inr c \<and> cl_UIN c = u \<and> cl_JTI c = j)) \<and>
    (NewNumericDate issued < epoch \<longrightarrow> fst (Verify R lib True True now raw ty t s) = Inl ErrTokenRevoked)"
proof -
  obtain ttl where s: "jl_sign lib \<lparr>cl_UIN = u, cl_JTI = j, cl_Type = ty,
      cl_IssuedAt = Some (NewNumericDate issued), cl_ExpiresAt = Some (NewNumericDate (issued + ttl)),
      cl_NotBefore = Some (NewNumericDate issued), cl_Issuer = expectedIssuer, cl_Subject = itoa u\<rparr> = Some raw"
    and ttl: "ttl = AccessTokenTTL \<or> ttl = RefreshTokenTTL"
    using Sign_Inr [OF assms(2)] by blast
  have "NewNumericDate (issued + AccessTokenTTL) \<le> NewNumericDate (issued + RefreshTokenTTL)"
    by (simp add: NewNumericDate_def trunc_time_def AccessTokenTTL_def RefreshTokenTTL_def duration_defs
        minus_mod_eq_div_mult zdiv_mono1)
  then have "now < NewNumericDate (issued + ttl)" using ttl assms(4) by auto
  then have "jl_parse lib now raw = Parsed \<lparr>cl_UIN = u, cl_JTI = j, cl_Type = ty,
      cl_IssuedAt = Some (NewNumericDate issued), cl_ExpiresAt = Some (NewNumericDate (issued + ttl)),
      cl_NotBefore = Some (NewNumericDate issued), cl_Issuer = expectedIssuer, cl_Subject = itoa u\<rparr>"
    using assms(3) by (intro jwt_roundtrip [OF assms(1) s]) simp_all
  with assms(5-7) show ?thesis
    by (simp add: Verify_def IsAccountWiped_def SessionEpoch_def)
qed

lemma sign_verify_iff_witness:
  "fst (Verify mem_api refresh_lib True True (101 * Second) ''tok'' TokenTypeRefresh
     (sample_tables\<lparr>at_epoch := [7 \<mapsto> 100 * Second + 700 * Millisecond]\<rparr>) mem_empty) = Inl ErrTokenRevoked \<and>
   (\<exists>c. fst (Verify mem_api refresh_lib True True (101 * Second) ''tok'' TokenTypeRefresh sample_tables mem_empty) = Inr c)"
proof -
  have n: "NewNumericDate (100 * Second + 900 * Millisecond) = 100 * Second"
    "NewNumericDate (100 * Second + 900 * Millisecond + AccessTokenTTL) = 1000 * Second" by code_simp+
  have x: "rd_exists mem_api (blocklistKeyPrefix @ ''j'') mem_empty = (Inr 0, mem_empty)"
    by (simp add: mem_api_def mem_reply_def mem_empty_def)
  show ?thesis
    using sign_verify_iff [OF refresh_lib_ok refresh_sign _ _ _ _ x, of "101 * Second"
        "sample_tables\<lparr>at_epoch := [7 \<mapsto> 100 * Second + 700 * Millisecond]\<rparr>" "100 * Second + 700 * Millisecond"]
      sign_verify_iff [OF refresh_lib_ok refresh_sign _ _ _ _ x, of "101 * Second" sample_tables 0] n
    by (auto simp: sample_tables_def duration_defs)
qed

text \<open>Also: a manager is built exactly for secrets of at least 32 bytes with both stores present; the
  list of known weak secrets never decides, since each of its entries is already too short.\<close>

theorem secret_check_is_length_check:
  "NewManager secret redis pg = Inr k \<longleftrightarrow> k = secret \<and> 32 \<le> length secret \<and> redis \<and> pg"
proof -
  have "to_lower secret \<notin> set knownWeakSecrets" if "32 \<le> length secret"
  proof
    assume "to_lower secret \<in> set knownWeakSecrets"
    then have "length (to_lower secret) \<le> 8" by (auto simp: knownWeakSecrets_def)
    with that show False by (simp add: to_lower_def)
  qed
  then show ?thesis by (auto simp: NewManager_def minSecretBytes_def)
qed

end
