(* ===== verification/SessionProperties.thy ===== *)
theory SessionProperties
  imports Accounts TokenProperties
begin

text \<open>Properties of the session handlers: a refresh token is used once, its reuse ends every session of
  the account, a wiped account gets no session, and logout ends the sessions that exist.\<close>

section \<open>Lemmas\<close>

lemma drop_refresh_rows [simp]: "r \<in> set (at_refresh (drop_refresh u t)) \<longleftrightarrow> r \<in> set (at_refresh t) \<and> rr_uin r \<noteq> u"
  by (auto simp: drop_refresh_def)

lemma drop_refresh_frame [simp]: "at_epoch (drop_refresh u t) = at_epoch t" "at_wiped (drop_refresh u t) = at_wiped t"
  by (simp_all add: drop_refresh_def)

text \<open>The token a refresh request presents.\<close>

definition presented :: "refresh_io \<Rightarrow> string" where
  "presented io = (case decodeRefreshRequest (fq_body io) (fq_cookie io) of
     Inl e \<Rightarrow> []
   | Inr ctx \<Rightarrow> (case refreshTokenFromRequest ctx (fq_cookie io) of None \<Rightarrow> [] | Some token \<Rightarrow> token))"

lemma refresh_error_not_issued: "decodeRefreshRequest b c = Inl e \<Longrightarrow> e \<noteq> Issued a r"
  by (auto simp: decodeRefreshRequest_def decodeJSON_def Let_def split: option.splits body.splits if_splits)

lemma refreshHandler_Issued:
  assumes "refreshHandler R C lib sha io t s cs = (Issued access refresh, t', s', cs')"
  shows "\<exists>c. Verify R lib (fq_wipedOk io) (fq_epochOk io) (fq_now io) (presented io) TokenTypeRefresh t s = (Inr c, s') \<and>
    rotateRefresh lib sha io (presented io) (cl_UIN c) (fq_env io t) = (Issued access refresh, t')"
proof -
  obtain ctx where d: "decodeRefreshRequest (fq_body io) (fq_cookie io) = Inr ctx"
    using assms refresh_error_not_issued [of "fq_body io" "fq_cookie io"]
    by (cases "decodeRefreshRequest (fq_body io) (fq_cookie io)") (auto simp: refreshHandler_def)
  let ?raw = "case refreshTokenFromRequest ctx (fq_cookie io) of None \<Rightarrow> [] | Some token \<Rightarrow> token"
  have p: "presented io = ?raw" by (simp add: presented_def d)
  obtain v s1 where v: "Verify R lib (fq_wipedOk io) (fq_epochOk io) (fq_now io) ?raw TokenTypeRefresh t s = (v, s1)" by force
  with assms d obtain c where c: "v = Inr c" by (cases v) (auto simp: refreshHandler_def Let_def)
  obtain a cs1 where a: "RefreshAllow C (cl_UIN c) ''auth:refresh'' cs = (a, cs1)" by force
  with assms d v c have "a = Allowed" by (cases a) (auto simp: refreshHandler_def Let_def)
  with assms d v c a p show ?thesis by (auto simp: refreshHandler_def Let_def split: prod.splits)
qed

lemma reuse_not_issued: "commitRefreshReuseRevocation io u t0 t \<noteq> (Issued a r, t')"
  by (simp add: commitRefreshReuseRevocation_def Let_def)

lemma db_error_not_issued [simp]: "writeDBError e \<noteq> Issued a r" "writeDBError e \<noteq> LoggedIn u a r" "writeDBError e \<noteq> Registered u a r"
  by (simp_all add: writeDBError_def split: db_error.splits)

lemma rotateRefresh_Issued:
  assumes "rotateRefresh lib sha io raw u t = (Issued access refresh, t')"
  shows "u \<notin> at_wiped t \<and> at_epoch t u \<noteq> None \<and>
    (\<exists>row. find (\<lambda>r. rr_hash r = sha raw) (at_refresh t) = Some row \<and> rr_uin row = u \<and> fq_check io \<le> rr_expires row) \<and>
    t' = qInsertRefreshToken u (sha refresh) (fq_stored io + RefreshTokenTTL) (snd (qConsumeRefreshTokenByHash (sha raw) t))"
proof -
  obtain f t1 where f: "qConsumeRefreshTokenByHash (sha raw) t = (f, t1)" by force
  then have row: "f = find (\<lambda>r. rr_hash r = sha raw) (at_refresh t)" by (simp add: qConsumeRefreshTokenByHash_def)
  have g: "fq_begin io = None" "at_epoch t u \<noteq> None" "u \<notin> at_wiped t" "fq_consume io = None" "f \<noteq> None"
    using assms f reuse_not_issued [of io u t t1 access refresh t'] unfolding rotateRefresh_def
    by (auto split: option.splits if_splits)
  then obtain r where r: "f = Some r" by blast
  have "\<not> fq_check io > rr_expires r \<and> rr_uin r = u \<and>
      t' = qInsertRefreshToken u (sha refresh) (fq_stored io + RefreshTokenTTL) t1"
    using assms f g r reuse_not_issued [of io u t t1 access refresh t'] unfolding rotateRefresh_def
    by (auto simp: Let_def commit_tx_def took_effect_def failed_def split: if_splits sum.splits outcome.splits)
  with g r row f show ?thesis by auto
qed

lemma not_verified_before_epoch:
  assumes "at_epoch t (cl_UIN c) = Some e" and "cl_IssuedAt c = Some i" and "i < e"
  shows "fst (Verify R lib wok eok now raw ty t s) \<noteq> Inr c"
proof
  assume "fst (Verify R lib wok eok now raw ty t s) = Inr c"
  then obtain s' where "Verify R lib wok eok now raw ty t s = (Inr c, s')" by (metis prod.collapse)
  from Verify_Inr [OF this] assms show False by auto
qed

section \<open>Properties\<close>


text \<open>For the witnesses: an account 7 with one refresh token, and a library that signs as above.\<close>

definition pair_claims :: "string \<Rightarrow> string \<Rightarrow> int \<Rightarrow> int \<Rightarrow> claims" where
  "pair_claims j ty i e = \<lparr>cl_UIN = 7, cl_JTI = j, cl_Type = ty, cl_IssuedAt = Some (i * Second),
     cl_ExpiresAt = Some (e * Second), cl_NotBefore = Some (i * Second), cl_Issuer = ''iceq'', cl_Subject = ''7''\<rparr>"

text \<open>The old refresh token, and the pair issued at second 200.\<close>

definition pair_table :: "(string \<times> claims) list" where
  "pair_table = [(''old'', pair_claims ''j0'' ''refresh'' 100 604900),
     (''acc'', pair_claims ''j1'' ''access'' 200 1100), (''new'', pair_claims ''j2'' ''refresh'' 200 605000)]"

definition pair_lib :: jwt_lib where
  "pair_lib = \<lparr>jl_sign = (\<lambda>c. map_of (map (\<lambda>(raw, d). (d, raw)) pair_table) c),
     jl_parse = (\<lambda>now raw. case map_of pair_table raw of
        None \<Rightarrow> ParseError
      | Some c \<Rightarrow> if now < the (cl_ExpiresAt c) then Parsed c else ParseExpired),
     jl_parse_unvalidated = map_of pair_table\<rparr>"

lemma pair_lib_ok: "jwt_lib_ok pair_lib"
  by (auto simp: jwt_lib_ok_def pair_lib_def pair_table_def pair_claims_def expectedIssuer_def split: if_splits)

definition pair_tables :: "refresh_row list \<Rightarrow> auth_tables" where
  "pair_tables rs = \<lparr>at_epoch = [7 \<mapsto> 0], at_wiped = {}, at_refresh = rs\<rparr>"

definition old_row :: refresh_row where
  "old_row = \<lparr>rr_uin = 7, rr_hash = ''old'', rr_expires = 604900 * Second\<rparr>"

definition calm_refresh :: refresh_io where
  "calm_refresh = \<lparr>fq_body = None, fq_cookie = Some ''old'', fq_now = 200 * Second, fq_wipedOk = True, fq_epochOk = True,
     fq_env = (\<lambda>t. t), fq_begin = None, fq_lock = True, fq_marker = True, fq_consume = None, fq_check = 200 * Second,
     fq_reuse = True, fq_pgnow = 200 * Second, fq_sign_access = (200 * Second, Some ''j1''),
     fq_sign_refresh = (200 * Second, Some ''j2''), fq_stored = 200 * Second, fq_insert = True, fq_commit = Done,
     fq_commit_error = OtherDBError\<rparr>"

lemma calm_presented: "presented calm_refresh = ''old''"
proof -
  have "trim_space ''old'' = ''old''" by code_simp
  then show ?thesis
    by (simp add: presented_def calm_refresh_def decodeRefreshRequest_def refreshTokenFromRequest_def)
qed

lemma pair_sign:
  "Sign pair_lib (200 * Second) (Some ''j1'') 7 TokenTypeAccess = Inr (''acc'', ''j1'')"
  "Sign pair_lib (200 * Second) (Some ''j2'') 7 TokenTypeRefresh = Inr (''new'', ''j2'')"
  by code_simp+

lemma pair_verify:
  "Verify mem_api pair_lib True True (200 * Second) ''old'' TokenTypeRefresh (pair_tables rs) mem_empty =
      (Inr (pair_claims ''j0'' ''refresh'' 100 604900), mem_empty)"
  by (simp add: Verify_def pair_lib_def pair_table_def pair_claims_def IsAccountWiped_def SessionEpoch_def
      pair_tables_def mem_api_def mem_reply_def mem_empty_def duration_defs TokenTypeRefresh_def)

lemma pair_allowed: "fst (RefreshAllow mem_counter 7 ''auth:refresh'' (\<lambda>_. 0, Map.empty)) = Allowed"
proof -
  have "AuthenticatedRateLimitKey 7 ''auth:refresh'' = Some ''auth:7:auth:refresh''" by code_simp
  then show ?thesis
    by (simp add: RefreshAllow_def authenticatedRateLimitScript_def mem_counter_def rateLimitPerMinute_def)
qed

lemma calm_handler:
  "\<exists>cs'. refreshHandler mem_api mem_counter pair_lib (\<lambda>x. x) calm_refresh (pair_tables rs) mem_empty (\<lambda>_. 0, Map.empty) =
     (let (r, t') = rotateRefresh pair_lib (\<lambda>x. x) calm_refresh ''old'' 7 (pair_tables rs) in (r, t', mem_empty, cs'))"
proof -
  obtain cs' where a: "RefreshAllow mem_counter 7 ''auth:refresh'' (\<lambda>_. 0, Map.empty) = (Allowed, cs')"
    using pair_allowed by (metis prod.collapse)
  have "trim_space ''old'' = ''old''" by code_simp
  then have d: "decodeRefreshRequest (fq_body calm_refresh) (fq_cookie calm_refresh) = Inr (Some ''old'')"
    by (simp add: calm_refresh_def decodeRefreshRequest_def refreshTokenFromRequest_def)
  have p: "(case refreshTokenFromRequest (Some ''old'') (fq_cookie calm_refresh) of None \<Rightarrow> [] | Some token \<Rightarrow> token) = ''old''"
    using calm_presented by (simp add: presented_def d)
  have f: "fq_wipedOk calm_refresh" "fq_epochOk calm_refresh" "fq_now calm_refresh = 200 * Second" "fq_env calm_refresh = (\<lambda>t. t)"
    by (simp_all add: calm_refresh_def)
  have u: "cl_UIN (pair_claims ''j0'' ''refresh'' 100 604900) = 7" by (simp add: pair_claims_def)
  show ?thesis by (rule exI [of _ cs']) (simp add: refreshHandler_def d p pair_verify f u a Let_def)
qed

lemma pair_rotate:
  "rotateRefresh pair_lib (\<lambda>x. x) calm_refresh ''old'' 7 (pair_tables [old_row]) =
     (Issued ''acc'' ''new'', pair_tables [\<lparr>rr_uin = 7, rr_hash = ''new'', rr_expires = 200 * Second + RefreshTokenTTL\<rparr>])"
proof -
  have c: "qConsumeRefreshTokenByHash ''old'' (pair_tables [old_row]) = (Some old_row, pair_tables [])"
    by (simp add: qConsumeRefreshTokenByHash_def pair_tables_def old_row_def)
  have o1: "rr_uin old_row = 7" "\<not> 200 * Second > rr_expires old_row" by (simp_all add: old_row_def duration_defs)
  have t: "at_epoch (pair_tables rs) 7 = Some 0" "at_wiped (pair_tables rs) = {}" for rs by (simp_all add: pair_tables_def)
  show ?thesis
    by (simp add: rotateRefresh_def calm_refresh_def t)
       (simp add: c o1 pair_sign commit_tx_def qInsertRefreshToken_def, simp add: pair_tables_def)
qed


text \<open>Also: presenting a refresh token whose hash is not stored (spent before, or never issued) for an
  account that exists, when the statements succeed, answers that it is revoked, clears the cookies
  and ends every session: no refresh token of the account is left, the session epoch strictly
  advances, and every token issued before the new epoch is refused from then on. Other accounts
  are untouched.\<close>

theorem refresh_reuse_ends_sessions:
  assumes "rotateRefresh lib sha io raw u t = (resp, t')" and "\<forall>r \<in> set (at_refresh t). rr_hash r \<noteq> sha raw"
    and "at_epoch t u = Some e" and "u \<notin> at_wiped t" and "fq_begin io = None" and "fq_lock io \<and> fq_marker io"
    and "fq_consume io = None" and "fq_reuse io" and "fq_commit io = Done"
  shows "resp = Cleared 401 ''REFRESH_REVOKED'' \<and> (\<forall>r \<in> set (at_refresh t'). rr_uin r \<noteq> u) \<and>
    (\<exists>e'. at_epoch t' u = Some e' \<and> e < e' \<and>
      (\<forall>d i wok eok now raw' ty s2. cl_UIN d = u \<and> cl_IssuedAt d = Some i \<and> i < e' \<longrightarrow>
         fst (Verify (R :: ('q, 'y) redis_api_scheme) lib wok eok now raw' ty t' s2) \<noteq> Inr d)) \<and>
    (\<forall>v. v \<noteq> u \<longrightarrow> at_epoch t' v = at_epoch t v) \<and>
    (\<forall>r. rr_uin r \<noteq> u \<longrightarrow> (r \<in> set (at_refresh t') \<longleftrightarrow> r \<in> set (at_refresh t)))"
proof -
  let ?e = "max (fq_pgnow io) (e + 1000)"
  have "find (\<lambda>r. rr_hash r = sha raw) (at_refresh t) = None" using assms(2) by (simp add: find_None_iff)
  moreover have "filter (\<lambda>r. rr_hash r \<noteq> sha raw) (at_refresh t) = at_refresh t" using assms(2) by (simp add: filter_id_conv)
  ultimately have q: "qConsumeRefreshTokenByHash (sha raw) t = (None, t)"
    by (simp add: qConsumeRefreshTokenByHash_def)
  have t': "t' = drop_refresh u (t\<lparr>at_epoch := (at_epoch t)(u \<mapsto> ?e)\<rparr>)"
    and resp: "resp = Cleared 401 ''REFRESH_REVOKED''"
    using assms q
    by (auto simp: rotateRefresh_def commitRefreshReuseRevocation_def qRevokeAllSessionsOnRefreshReuse_def commit_tx_def Let_def)
  have ep: "at_epoch t' u = Some ?e" by (simp add: t')
  then have "\<forall>d i wok eok now raw' ty s2. cl_UIN d = u \<and> cl_IssuedAt d = Some i \<and> i < ?e \<longrightarrow>
         fst (Verify (R :: ('q, 'y) redis_api_scheme) lib wok eok now raw' ty t' s2) \<noteq> Inr d"
    by (intro allI impI not_verified_before_epoch [where e = ?e]) auto
  moreover have "e < ?e" by simp
  ultimately show ?thesis using ep resp by (auto simp: t')
qed

lemma refresh_reuse_ends_sessions_witness:
  "at_epoch (snd (rotateRefresh pair_lib (\<lambda>x. x) calm_refresh ''old'' 7 (pair_tables [old_row\<lparr>rr_hash := ''new''\<rparr>]))) 7 \<noteq> Some 0"
proof -
  let ?t = "pair_tables [old_row\<lparr>rr_hash := ''new''\<rparr>]"
  obtain resp t' where h: "rotateRefresh pair_lib (\<lambda>x. x) calm_refresh ''old'' 7 ?t = (resp, t')" by force
  have "\<exists>e'. at_epoch t' 7 = Some e' \<and> 0 < e'"
    using refresh_reuse_ends_sessions [OF h, where R = mem_api and e = 0]
    by (auto simp: calm_refresh_def pair_tables_def)
  with h show ?thesis by auto
qed

text \<open>Also: a wiped account gets no session: neither a refresh nor a login whose transaction sees the
  wipe marker answers with tokens, and neither changes the session tables.\<close>

theorem wiped_account_gets_no_session:
  assumes "u \<in> at_wiped t"
  shows "(\<forall>a b. fst (rotateRefresh lib sha io raw u t) \<noteq> Issued a b) \<and> snd (rotateRefresh lib sha io raw u t) = t \<and>
    (\<forall>v a b. fst (login_tx lib sha lo u t) \<noteq> LoggedIn v a b) \<and> snd (login_tx lib sha lo u t) = t"
  using assms by (auto simp: rotateRefresh_def login_tx_def split: option.splits)

lemma wiped_account_gets_no_session_witness:
  "fst (rotateRefresh pair_lib (\<lambda>x. x) calm_refresh ''old'' 7 (pair_tables [old_row]\<lparr>at_wiped := {7}\<rparr>)) \<noteq> Issued ''acc'' ''new''"
  using wiped_account_gets_no_session [of 7 "pair_tables [old_row]\<lparr>at_wiped := {7}\<rparr>"] by simp

text \<open>Also: when logout reports success, every token of the account issued before the new epoch, access or
  refresh, is refused as long as the epoch does not move back, and the very token presented is on
  the blocklist if it had more than a second to live; this holds even where the deletion of the
  stored refresh tokens failed.\<close>

theorem logout_ends_sessions:
  assumes "redis_strings R strs" and "logoutHandler R lib body bump delete now pgnow (Some u) h t s = (LoggedOut, t', s')"
    and "at_epoch t u \<noteq> None"
  shows "\<exists>raw. extractRawBearer h = Inr raw \<and>
    (\<forall>c e. jl_parse_unvalidated lib raw = Some c \<and> cl_ExpiresAt c = Some e \<and> now + Second < e \<longrightarrow>
       strs s' (blocklistKeyPrefix @ cl_JTI c) = Some ''1'') \<and>
    at_epoch t' u = Some pgnow \<and> at_wiped t' = at_wiped t \<and>
    (\<forall>c i t2 e2. cl_UIN c = u \<and> cl_IssuedAt c = Some i \<and> i < pgnow \<and> at_epoch t2 u = Some e2 \<and> pgnow \<le> e2 \<longrightarrow>
       (\<forall>wok eok later raw2 ty s2. fst (Verify R lib wok eok later raw2 ty t2 s2) \<noteq> Inr c))"
proof -
  have nb: "decodeJSON b \<noteq> Inl LoggedOut" for b :: "unit body" by (simp add: decodeJSON_def split: body.splits)
  then obtain y where y: "decodeJSON body = Inr y"
    using assms(2) by (cases "decodeJSON body") (auto simp: logoutHandler_def)
  obtain raw s1 t1 where raw: "extractRawBearer h = Inr raw" and rv: "Revoke R lib now raw s = (None, s1)"
    and b: "BumpSessionEpoch bump pgnow u t = (True, t1)" and s': "s' = s1"
    and t': "t' = (if took_effect delete then drop_refresh u t1 else t1)"
    using assms(2) y by (auto simp: logoutHandler_def split: sum.splits prod.splits option.splits bool.splits)
  have t1: "at_epoch t1 u = Some pgnow" "at_wiped t1 = at_wiped t"
    using b assms(3) by (auto simp: BumpSessionEpoch_def failed_def took_effect_def split: outcome.splits if_splits)
  then have "at_epoch t' u = Some pgnow" "at_wiped t' = at_wiped t" by (auto simp: t')
  moreover have "fst (Verify R lib wok eok later raw2 ty t2 s2) \<noteq> Inr c"
    if "cl_UIN c = u" "cl_IssuedAt c = Some i" "i < pgnow" "at_epoch t2 u = Some e2" "pgnow \<le> e2" for c i t2 e2 wok eok later raw2 ty s2
    using that by (intro not_verified_before_epoch [of _ _ e2 i]) auto
  moreover have "strs s' (blocklistKeyPrefix @ cl_JTI c) = Some ''1''"
    if "jl_parse_unvalidated lib raw = Some c" "cl_ExpiresAt c = Some e" "now + Second < e" for c e
    using redis_strings.Revoke_blocks [OF assms(1) rv] that by (simp add: s' minBlocklistTTL_def)
  ultimately show ?thesis using raw by blast
qed

lemma logout_ends_sessions_witness:
  "at_epoch (fst (snd (logoutHandler mem_api sample_lib (Body ()) Done FailedBefore (200 * Second) (201 * Second) (Some 7)
     ''Bearer tok'' sample_tables mem_empty))) 7 = Some (201 * Second)"
proof -
  have "extractRawBearer ''Bearer tok'' = Inr ''tok''" by code_simp
  moreover obtain s1 where "Revoke mem_api sample_lib (200 * Second) ''tok'' mem_empty = (None, s1)"
    by (simp add: Revoke_def extractClaimsForRevocation_def sample_lib_def sample_claims_def mem_api_def mem_reply_def
        mem_empty_def duration_defs minBlocklistTTL_def)
  ultimately obtain t' s' where h: "logoutHandler mem_api sample_lib (Body ()) Done FailedBefore (200 * Second) (201 * Second) (Some 7)
     ''Bearer tok'' sample_tables mem_empty = (LoggedOut, t', s')"
    by (auto simp: logoutHandler_def BumpSessionEpoch_def decodeJSON_def)
  moreover have "at_epoch sample_tables 7 \<noteq> None" by (simp add: sample_tables_def)
  ultimately show ?thesis using logout_ends_sessions [OF memS.redis_strings_axioms h] by auto
qed

end
