(* ===== verification/AccountProperties.thy ===== *)
theory AccountProperties
  imports SessionProperties
begin

text \<open>Properties of login and registration: the attempts an identity has, what a success requires and
  stores, that failures are uniform, and that the users table keeps its uniqueness.\<close>

section \<open>Lemmas\<close>

lemma anonymous_limit_pass:
  assumes "anonymous_limit C ed action prefix limit cs = (None, cs')"
  shows "\<exists>buckets n. AnonymousRateLimitBuckets (ed_hmac ed) (ed_secret ed) (ed_current ed) (ed_previous ed) action (ed_day ed) = Some buckets \<and>
    rateLimitScript C (map (\<lambda>b. prefix @ b) buckets) (go_div rateLimitWindow Second) 0 cs = (Inr n, cs') \<and> n \<le> limit"
  using assms by (auto simp: anonymous_limit_def split: option.splits prod.splits sum.splits if_splits)

lemma anonymous_limit_errors:
  assumes "anonymous_limit C ed action prefix limit cs = (Some e, cs')"
  shows "e \<in> {AuthError 503 ''RATE_LIMIT_IDENTITY_UNAVAILABLE'', AuthError 503 ''RATE_LIMITER_UNAVAILABLE'', AuthError 429 ''RATE_LIMITED''}"
  using assms by (auto simp: anonymous_limit_def split: option.splits prod.splits sum.splits if_splits)

lemma validation_not_success [simp]:
  "writeValidationError e \<noteq> LoggedIn u a r" "writeValidationError e \<noteq> Registered u a r"
  by (simp_all add: writeValidationError_def split: validation_error.splits)

lemma decode_not_success: "decodeJSON b = Inl e \<Longrightarrow> e \<noteq> LoggedIn u a r \<and> e \<noteq> Registered u a r"
  by (auto simp: decodeJSON_def split: body.splits)

lemma login_tx_success:
  assumes "login_tx lib sha io u t = (LoggedIn v access refresh, t')"
  shows "v = u \<and> u \<notin> at_wiped t \<and> at_epoch t u \<noteq> None \<and>
    t' = qInsertRefreshToken u (sha refresh) (lq_stored io + RefreshTokenTTL) t"
  using assms
  by (auto simp: login_tx_def issueSessionTx_def commit_tx_def failed_def took_effect_def
      split: if_splits option.splits prod.splits sum.splits outcome.splits)

context rate_counters
begin

lemma anonymous_limit_counts:
  assumes "anonymous_limit C ed action prefix limit s = (None, s')" and "ed_current ed = [identity]"
    and "AnonymousRateLimitBucket (ed_hmac ed) (ed_secret ed) identity action (ed_day ed) = Some b"
  shows "cnt s (prefix @ b) + 1 \<le> cnt s' (prefix @ b) \<and> cnt s (prefix @ b) + 1 \<le> limit"
proof -
  from anonymous_limit_pass [OF assms(1)] obtain bs n where
    bs: "AnonymousRateLimitBuckets (ed_hmac ed) (ed_secret ed) (ed_current ed) (ed_previous ed) action (ed_day ed) = Some bs"
    and r: "rateLimitScript C (map (\<lambda>b. prefix @ b) bs) (go_div rateLimitWindow Second) 0 s = (Inr n, s')" and n: "n \<le> limit"
    by blast
  have "\<exists>rest. bs = b # rest"
    using bs assms(2,3) by (auto simp: AnonymousRateLimitBuckets_def Let_def split: if_splits option.splits)
  then obtain rest where "bs = b # rest" ..
  with r obtain c s1 where c: "authenticatedRateLimitScript C (prefix @ b) (go_div rateLimitWindow Second) s = (Inr c, s1)"
    and rest: "rateLimitScript C (map (\<lambda>b. prefix @ b) rest) (go_div rateLimitWindow Second) (if c > 0 then c else 0) s1 = (Inr n, s')"
    by (auto split: prod.splits sum.splits)
  have m: "m \<le> n'" if "rateLimitScript C ks w m x = (Inr n', x')" for ks w m n' x x'
    using that
  proof (induction ks arbitrary: m x)
    case (Cons k ks)
    then show ?case by (fastforce split: prod.splits sum.splits if_splits)
  qed simp
  from script_ok [OF c] m [OF rest] login_script_mono [OF rest, of "prefix @ b"] n show ?thesis
    by (auto split: if_splits)
qed

end

section \<open>Properties\<close>

text \<open>Also: a login that succeeds passed the limiter, validation and the password check for the stored account the
  request names, which exists and is not wiped at the time of the transaction; it stores one row
  for the new refresh token of exactly that account, seven days ahead, and changes no other user.\<close>

theorem login_success:
  assumes "loginHandler C lib sha idkey bcrypt io t us cs = (LoggedIn u access refresh, t', us', cs')"
  shows "\<exists>req user. lq_body io = Body req \<and> lg_Password req \<noteq> [] \<and>
    qSelectUser (snd (LoginIdentifier req)) (fst (LoginIdentifier req)) us = Some user \<and> us_uin user = u \<and>
    pv_OK (verifyPassword idkey bcrypt (us_hash user) (lg_Password req)) \<and>
    anonymous_limit C (lq_edge io) ''login'' ''ratelimit:login:'' 5 cs = (None, cs') \<and>
    u \<notin> at_wiped (lq_env io t) \<and> at_epoch (lq_env io t) u \<noteq> None \<and>
    t' = (lq_env io t)\<lparr>at_refresh := at_refresh (lq_env io t) @
      [\<lparr>rr_uin = u, rr_hash = sha refresh, rr_expires = lq_stored io + 7 * 24 * Hour\<rparr>]\<rparr> \<and>
    map us_uin us' = map us_uin us \<and> (\<forall>i < length us. us_uin (us ! i) \<noteq> u \<longrightarrow> us' ! i = us ! i)"
proof -
  obtain req where req: "decodeJSON (lq_body io) = Inr req"
    using assms decode_not_success [of "lq_body io"] by (cases "decodeJSON (lq_body io)") (auto simp: loginHandler_def)
  then have b: "lq_body io = Body req" by (auto simp: decodeJSON_def split: body.splits)
  have val: "login_Validate req = None" using assms req by (auto simp: loginHandler_def split: option.splits)
  obtain l cs1 where l: "anonymous_limit C (lq_edge io) ''login'' rateLimitKeyPrefix rateLimitPerMinute cs = (l, cs1)" by force
  have l0: "l = None"
    using assms req val l anonymous_limit_errors [of C "lq_edge io" "''login''" rateLimitKeyPrefix rateLimitPerMinute cs]
    by (cases l) (auto simp: loginHandler_def)
  obtain user where user: "qSelectUser (snd (LoginIdentifier req)) (fst (LoginIdentifier req)) us = Some user"
    and ok: "pv_OK (verifyPassword idkey bcrypt (us_hash user) (lg_Password req))"
    and tx: "login_tx lib sha io (us_uin user) (lq_env io t) = (LoggedIn u access refresh, t')" and cs: "cs' = cs1"
    and us': "us' = us \<or> (\<exists>h. us' = qUpdateUserPasswordHash h (us_uin user) us)"
    using assms req val l l0
    by (auto simp: loginHandler_def Let_def split: option.splits if_splits prod.splits)
  note s = login_tx_success [OF tx]
  have keep: "map us_uin us' = map us_uin us" "\<forall>i < length us. us_uin (us ! i) \<noteq> u \<longrightarrow> us' ! i = us ! i"
    using us' s by (auto simp: qUpdateUserPasswordHash_def)
  have "lg_Password req \<noteq> []" using val by (auto simp: login_Validate_def split: if_splits)
  with b user ok s keep l l0 cs show ?thesis
    by (auto simp: rateLimitKeyPrefix_def rateLimitPerMinute_def qInsertRefreshToken_def RefreshTokenTTL_def)
qed

text \<open>Also: no account enumeration: a login for an unknown name, for a wrong password, and for an account that
  is wiped or was erased meanwhile get the very same answer, and none of them changes a session.\<close>

theorem login_failures_uniform:
  assumes "decodeJSON (lq_body io) = Inr req" and "login_Validate req = None"
    and "anonymous_limit C (lq_edge io) ''login'' rateLimitKeyPrefix rateLimitPerMinute cs = (None, cs')"
    and "lq_lookup io = None" and "lq_begin io" and "lq_env io t = t"
    and "case qSelectUser (snd (LoginIdentifier req)) (fst (LoginIdentifier req)) us of None \<Rightarrow> True
       | Some user \<Rightarrow> \<not> pv_OK (verifyPassword idkey bcrypt (us_hash user) (lg_Password req)) \<or>
           us_uin user \<in> at_wiped t \<or> at_epoch t (us_uin user) = None"
    and "loginHandler C lib sha idkey bcrypt io t us cs = (resp, t', us', cs'')"
  shows "resp = AuthError 401 ''INVALID_CREDENTIALS'' \<and> t' = t \<and> map us_uin us' = map us_uin us"
proof (cases "qSelectUser (snd (LoginIdentifier req)) (fst (LoginIdentifier req)) us")
  case None
  with assms show ?thesis by (simp add: loginHandler_def)
next
  case (Some user)
  show ?thesis
  proof (cases "pv_OK (verifyPassword idkey bcrypt (us_hash user) (lg_Password req))")
    case False
    with assms Some show ?thesis by (simp add: loginHandler_def)
  next
    case True
    with assms(7) Some have "us_uin user \<in> at_wiped t \<or> at_epoch t (us_uin user) = None" by simp
    with assms(5) have "login_tx lib sha io (us_uin user) t = (AuthError 401 ''INVALID_CREDENTIALS'', t)"
      by (auto simp: login_tx_def)
    with assms Some True show ?thesis
      by (auto simp: loginHandler_def Let_def qUpdateUserPasswordHash_def split: if_splits option.splits)
  qed
qed

text \<open>A login at an account 7 with password \<open>right\<close>, for the witnesses.\<close>

definition edge_identity :: string where
  "edge_identity = ''v1.0123456789ab.AAAAAAAAAAAAAAAAAAAAAAAAAAAAAAAAAAAAAAAAAAA''"

definition sample_edge :: edge where
  "sample_edge = \<lparr>ed_hmac = (\<lambda>k m. ''mac''), ed_secret = replicate 32 (CHR ''k''), ed_current = [edge_identity],
     ed_previous = [], ed_day = ''2026-01-01''\<rparr>"

definition sample_user :: user_row where
  "sample_user = \<lparr>us_uin = 7, us_username = ''ann'', us_email = None, us_hash = ''legacy'', us_identity = []\<rparr>"

definition calm_login :: login_io where
  "calm_login = \<lparr>lq_body = Body \<lparr>lg_Username = ''ann'', lg_Email = [], lg_Password = ''right''\<rparr>, lq_edge = sample_edge,
     lq_lookup = None, lq_salt = None, lq_rehash = Done, lq_env = (\<lambda>t. t), lq_begin = True, lq_lock = True, lq_marker = True,
     lq_sign_access = (200 * Second, Some ''j1''), lq_sign_refresh = (200 * Second, Some ''j2''), lq_stored = 200 * Second,
     lq_insert = True, lq_commit = Done\<rparr>"

lemma those_replicate: "those (replicate n (Some x)) = Some (replicate n x)"
  by (induction n) auto

lemma octets_replicate: "\<exists>d. b64_octets (replicate (4 * n + 3) 0) = Some d \<and> length d = 3 * n + 2"
proof (induction n)
  case (Suc n)
  have "replicate (4 * Suc n + 3) (0 :: nat) = 0 # 0 # 0 # 0 # replicate (4 * n + 3) 0" by (simp add: numeral_eq_Suc)
  with Suc show ?case by auto
next
  case 0
  have "replicate 3 (0 :: nat) = [0, 0, 0]" by (simp add: numeral_3_eq_3)
  then show ?case by simp
qed

lemma key_decodes: "\<exists>d. DecodeString True (replicate 43 (CHR ''A'')) = Some d \<and> length d = 32"
proof -
  have v: "b64_value True (CHR ''A'') = Some 0" by (simp add: b64_value_def)
  have "those (map (b64_value True) (replicate 43 (CHR ''A''))) = Some (replicate 43 0)"
    using those_replicate [of 43 0] by (simp add: v)
  then show ?thesis using octets_replicate [of 10] by (auto simp: DecodeString_def)
qed

lemma sample_bucket:
  assumes "trim_space action = action" and "action \<noteq> []"
  shows "AnonymousRateLimitBuckets (ed_hmac sample_edge) (ed_secret sample_edge) (ed_current sample_edge) (ed_previous sample_edge) action (ed_day sample_edge)
     = Some [''anon:'' @ action @ '':bWFj'']"
proof -
  have t: "trim_space edge_identity = edge_identity" unfolding edge_identity_def by code_simp
  have sp: "split_on (CHR ''.'') edge_identity = [''v1'', ''0123456789ab'', replicate 43 (CHR ''A'')]"
    by (simp add: edge_identity_def numeral_eq_Suc)
  have hx: "hex_ok ''0123456789ab''" by (simp add: hex_ok_def is_hex_def)
  have enc: "EncodeToString True ''mac'' = ''bWFj''" by (simp add: EncodeToString_def b64_char_def) code_simp
  have ne: "edge_identity \<noteq> []" by (simp add: edge_identity_def)
  show ?thesis using key_decodes
    by (auto simp: AnonymousRateLimitBuckets_def sample_edge_def AnonymousRateLimitBucket_def t assms sp hx enc ne Let_def)
qed

lemma sample_actions: "trim_space ''login'' = ''login''" "trim_space ''register'' = ''register''"
  by code_simp+

lemmas sample_bucket_login = sample_bucket [OF sample_actions(1), simplified]
lemmas sample_bucket_register = sample_bucket [OF sample_actions(2), simplified]

lemma sample_limit:
  "\<exists>cs'. anonymous_limit mem_counter sample_edge ''login'' rateLimitKeyPrefix rateLimitPerMinute (\<lambda>_. 0, Map.empty) = (None, cs')"
  by (simp add: anonymous_limit_def sample_bucket_login authenticatedRateLimitScript_def mem_counter_def rateLimitPerMinute_def)

lemma calm_login_facts:
  "decodeJSON (lq_body calm_login) = Inr \<lparr>lg_Username = ''ann'', lg_Email = [], lg_Password = pw\<rparr> \<longleftrightarrow> pw = ''right''"
  "login_Validate \<lparr>lg_Username = ''ann'', lg_Email = [], lg_Password = ''right''\<rparr> = None"
  "LoginIdentifier \<lparr>lg_Username = ''ann'', lg_Email = [], lg_Password = ''right''\<rparr> = (''ann'', True)"
  "qSelectUser True ''ann'' [sample_user] = Some sample_user"
proof -
  have t: "trim_space ''ann'' = ''ann''" by code_simp
  show "decodeJSON (lq_body calm_login) = Inr \<lparr>lg_Username = ''ann'', lg_Email = [], lg_Password = pw\<rparr> \<longleftrightarrow> pw = ''right''"
    by (auto simp: decodeJSON_def calm_login_def)
  show "login_Validate \<lparr>lg_Username = ''ann'', lg_Email = [], lg_Password = ''right''\<rparr> = None" by (simp add: login_Validate_def t)
  show "LoginIdentifier \<lparr>lg_Username = ''ann'', lg_Email = [], lg_Password = ''right''\<rparr> = (''ann'', True)" by (simp add: LoginIdentifier_def t)
  show "qSelectUser True ''ann'' [sample_user] = Some sample_user" by (simp add: qSelectUser_def sample_user_def)
qed

lemma legacy_password: "verifyPassword pad_key (\<lambda>h p. p = ''right'') (us_hash sample_user) pw = \<lparr>pv_OK = (pw = ''right''), pv_NeedsRehash = (pw = ''right'')\<rparr>"
  by (simp add: verifyPassword_def sample_user_def argon2_prefix_def)

lemma calm_login_io [simp]: "lq_edge calm_login = sample_edge" "lq_lookup calm_login = None" "lq_env calm_login = (\<lambda>t. t)" "lq_begin calm_login"
    "lq_salt calm_login = None"
  by (simp_all add: calm_login_def)

lemma calm_login_tx:
  "login_tx pair_lib (\<lambda>x. x) calm_login 7 (pair_tables []) =
    (LoggedIn 7 ''acc'' ''new'', qInsertRefreshToken 7 ''new'' (200 * Second + RefreshTokenTTL) (pair_tables []))"
proof -
  have t: "at_epoch (pair_tables []) 7 = Some 0" "at_wiped (pair_tables []) = {}" by (simp_all add: pair_tables_def)
  show ?thesis
    by (simp add: login_tx_def calm_login_def t issueSessionTx_def) (simp add: pair_sign commit_tx_def)
qed

lemma calm_login_handler:
  "\<exists>t' us' cs'. loginHandler mem_counter pair_lib (\<lambda>x. x) pad_key (\<lambda>h p. p = ''right'') calm_login (pair_tables []) [sample_user]
    (\<lambda>_. 0, Map.empty) = (LoggedIn 7 ''acc'' ''new'', t', us', cs')"
proof -
  obtain cs' where l: "anonymous_limit mem_counter sample_edge ''login'' rateLimitKeyPrefix rateLimitPerMinute (\<lambda>_. 0, Map.empty) = (None, cs')"
    using sample_limit by blast
  have b: "decodeJSON (lq_body calm_login) = Inr \<lparr>lg_Username = ''ann'', lg_Email = [], lg_Password = ''right''\<rparr>"
    by (simp add: calm_login_facts(1))
  have u: "us_uin sample_user = 7" by (simp add: sample_user_def)
  show ?thesis
    by (simp add: loginHandler_def b calm_login_facts(2-4) l legacy_password calm_login_tx u hashPassword_def)
qed

lemma login_success_witness:
  "\<exists>r \<in> set (at_refresh (fst (snd (loginHandler mem_counter pair_lib (\<lambda>x. x) pad_key (\<lambda>h p. p = ''right'') calm_login (pair_tables [])
    [sample_user] (\<lambda>_. 0, Map.empty))))). rr_uin r = 7 \<and> rr_hash r = ''new''"
proof -
  obtain t' us' cs' where h: "loginHandler mem_counter pair_lib (\<lambda>x. x) pad_key (\<lambda>h p. p = ''right'') calm_login (pair_tables [])
    [sample_user] (\<lambda>_. 0, Map.empty) = (LoggedIn 7 ''acc'' ''new'', t', us', cs')"
    using calm_login_handler by blast
  from login_success [OF h] have "at_refresh t' = at_refresh (pair_tables []) @
      [\<lparr>rr_uin = 7, rr_hash = ''new'', rr_expires = lq_stored calm_login + 7 * 24 * Hour\<rparr>]" by auto
  with h show ?thesis by simp
qed

lemma login_failures_uniform_witness:
  "fst (loginHandler mem_counter pair_lib (\<lambda>x. x) pad_key (\<lambda>h p. False) calm_login (pair_tables []) [sample_user]
    (\<lambda>_. 0, Map.empty)) = AuthError 401 ''INVALID_CREDENTIALS''"
proof -
  obtain cs' where l: "anonymous_limit mem_counter sample_edge ''login'' rateLimitKeyPrefix rateLimitPerMinute (\<lambda>_. 0, Map.empty) = (None, cs')"
    using sample_limit by blast
  have b: "decodeJSON (lq_body calm_login) = Inr \<lparr>lg_Username = ''ann'', lg_Email = [], lg_Password = ''right''\<rparr>"
    by (simp add: calm_login_facts(1))
  obtain resp t' us' cs'' where h: "loginHandler mem_counter pair_lib (\<lambda>x. x) pad_key (\<lambda>h p. False) calm_login (pair_tables []) [sample_user]
    (\<lambda>_. 0, Map.empty) = (resp, t', us', cs'')" by (metis prod.collapse)
  have w: "\<not> pv_OK (verifyPassword pad_key (\<lambda>h p. False) (us_hash sample_user) ''right'')"
    by (simp add: verifyPassword_def sample_user_def argon2_prefix_def)
  from login_failures_uniform [OF b calm_login_facts(2) _ _ _ _ _ h, of cs'] l w h show ?thesis
    by (simp add: calm_login_facts(3,4))
qed

text \<open>A run of attempts that present the same current identity, whatever previous identity they add.\<close>

primrec attempts ::
  "('c, 'y) counter_api_scheme \<Rightarrow> edge list \<Rightarrow> string \<Rightarrow> string \<Rightarrow> int \<Rightarrow> 'c \<Rightarrow> nat" where
  "attempts C [] action prefix limit s = 0"
| "attempts C (ed # eds) action prefix limit s =
     (case anonymous_limit C ed action prefix limit s of
        (None, s') \<Rightarrow> Suc (attempts C eds action prefix limit s')
      | (Some e, s') \<Rightarrow> attempts C eds action prefix limit s')"

context rate_counters
begin

lemma anonymous_limit_mono:
  assumes "anonymous_limit C ed action prefix limit s = (r, s')" shows "cnt s k \<le> cnt s' k"
  using assms login_script_mono
  by (auto simp: anonymous_limit_def split: option.splits prod.splits sum.splits if_splits)

lemma attempts_bounded:
  assumes "\<forall>ed \<in> set eds. ed_current ed = [identity] \<and> AnonymousRateLimitBucket (ed_hmac ed) (ed_secret ed) identity action (ed_day ed) = Some b"
  shows "int (attempts C eds action prefix limit s) \<le> max 0 (limit - cnt s (prefix @ b))"
  using assms
proof (induction eds arbitrary: s)
  case (Cons ed eds)
  obtain r s' where r: "anonymous_limit C ed action prefix limit s = (r, s')" by force
  have ih: "int (attempts C eds action prefix limit s') \<le> max 0 (limit - cnt s' (prefix @ b))" using Cons by simp
  show ?case
  proof (cases r)
    case None
    with anonymous_limit_counts [of ed action prefix limit s s' identity b] Cons.prems r ih show ?thesis by auto
  next
    case (Some e)
    with anonymous_limit_mono [OF r, of "prefix @ b"] ih r show ?thesis by auto
  qed
qed simp

end

text \<open>Also: an edge identity gets at most five login attempts, and three registrations, past the limiter while its
  counter lives, however the attempts rotate the previous identity they also present.\<close>

theorem login_attempts_bounded:
  assumes "rate_counters C cnt ttl" and "cnt s (''ratelimit:login:'' @ b) = 0" and "cnt s' (''ratelimit:register:'' @ b') = 0"
    and "\<forall>ed \<in> set eds. ed_current ed = [identity] \<and>
      AnonymousRateLimitBucket (ed_hmac ed) (ed_secret ed) identity ''login'' (ed_day ed) = Some b"
    and "\<forall>ed \<in> set eds'. ed_current ed = [identity] \<and>
      AnonymousRateLimitBucket (ed_hmac ed) (ed_secret ed) identity ''register'' (ed_day ed) = Some b'"
  shows "attempts C eds ''login'' rateLimitKeyPrefix rateLimitPerMinute s \<le> 5 \<and>
    attempts C eds' ''register'' registerKeyPrefix 3 s' \<le> 3"
  using rate_counters.attempts_bounded [OF assms(1,4), of "''ratelimit:login:''" 5 s]
    rate_counters.attempts_bounded [OF assms(1,5), of "''ratelimit:register:''" 3 s'] assms(2,3)
  by (simp add: rateLimitKeyPrefix_def registerKeyPrefix_def rateLimitPerMinute_def)

lemma login_attempts_bounded_witness:
  "attempts mem_counter (replicate 9 sample_edge) ''login'' rateLimitKeyPrefix rateLimitPerMinute (\<lambda>_. 0, Map.empty) \<le> 5"
proof -
  have c: "ed_current sample_edge = [edge_identity]" by (simp add: sample_edge_def)
  have b: "AnonymousRateLimitBucket (ed_hmac sample_edge) (ed_secret sample_edge) edge_identity ''login'' (ed_day sample_edge)
      = Some ''anon:login:bWFj''"
    using sample_bucket_login by (auto simp: AnonymousRateLimitBuckets_def sample_edge_def Let_def split: if_splits option.splits)
  show ?thesis
    using login_attempts_bounded [OF memC.rate_counters_axioms, where eds' = "[]" and eds = "replicate 9 sample_edge"
      and identity = edge_identity and b = "''anon:login:bWFj''" and s = "(\<lambda>_. 0, Map.empty)" and s' = "(\<lambda>_. 0, Map.empty)"] c b
    by auto
qed

text \<open>The uniqueness constraints of the users table.\<close>

definition wf_users :: "user_row list \<Rightarrow> bool" where
  "wf_users us \<longleftrightarrow> distinct (map us_uin us) \<and> distinct (map us_username us) \<and>
     distinct (filter (\<lambda>e. e \<noteq> None) (map us_email us))"

lemma wf_users_insert:
  assumes "wf_users us" and "qInsertUser n name email h k us = Inr us'"
  shows "wf_users us'"
  using assms by (auto simp: wf_users_def qInsertUser_def Let_def list_ex_iff split: if_splits) metis+

lemma wf_users_update: "wf_users us \<Longrightarrow> wf_users (qUpdateUserPasswordHash h u us)"
proof -
  have "map us_uin (qUpdateUserPasswordHash h u us) = map us_uin us"
    "map us_username (qUpdateUserPasswordHash h u us) = map us_username us"
    "map us_email (qUpdateUserPasswordHash h u us) = map us_email us"
    by (auto simp: qUpdateUserPasswordHash_def)
  then show "wf_users us \<Longrightarrow> wf_users (qUpdateUserPasswordHash h u us)" by (simp add: wf_users_def)
qed

lemma registerHandler_users:
  assumes "registerHandler C lib sha idkey address_ok io t us cs = (resp, t', us', cs')"
  shows "us' = us \<or> (\<exists>n name email h k. qInsertUser n name email h k us = Inr us')"
  using assms
  by (auto simp: registerHandler_def Let_def split: prod.splits option.splits sum.splits if_splits)

lemma loginHandler_users:
  assumes "loginHandler C lib sha idkey bcrypt io t us cs = (resp, t', us', cs')"
  shows "us' = us \<or> (\<exists>h u. us' = qUpdateUserPasswordHash h u us)"
  using assms
  by (auto simp: loginHandler_def Let_def split: prod.splits option.splits sum.splits if_splits)



text \<open>Also: a registration that succeeds had valid input (a name of 3 to 30 letters, digits or underscores, a
  password of 8 to 128 characters, a 32-byte identity key), stored the account under a new number,
  and the stored hash accepts the chosen password at the next login under that name.\<close>

theorem register_then_login:
  assumes "registerHandler C lib sha idkey address_ok io t us cs = (Registered u access refresh, t', us', cs')"
    and "\<forall>salt. gq_salt io = Some salt \<longrightarrow> length salt = argon2idSaltLength"
    and "\<forall>p s t m q n. length (idkey p s t m q n) = n"
  shows "\<exists>req user. gq_body io = Body req \<and> usernamePattern (rg_Username req) \<and>
    8 \<le> RuneCountInString (rg_Password req) \<and> RuneCountInString (rg_Password req) \<le> 128 \<and> isBase64URL32 (rg_IdentityKey req) \<and>
    u \<notin> us_uin ` set us \<and> us' = us @ [user] \<and> us_uin user = u \<and> at_epoch t' u = Some (gq_epoch0 io) \<and>
    qSelectUser True (rg_Username req) us' = Some user \<and>
    verifyPassword idkey bcrypt (us_hash user) (rg_Password req) = \<lparr>pv_OK = True, pv_NeedsRehash = False\<rparr>"
proof -
  obtain l cs1 where l: "anonymous_limit C (gq_edge io) ''register'' registerKeyPrefix 3 cs = (l, cs1)" by force
  have l0: "l = None"
    using assms(1) l anonymous_limit_errors [of C "gq_edge io" "''register''" registerKeyPrefix 3 cs]
    by (cases l) (auto simp: registerHandler_def)
  obtain req where req: "decodeJSON (gq_body io) = Inr req"
    using assms(1) l l0 decode_not_success [of "gq_body io"] by (cases "decodeJSON (gq_body io)") (auto simp: registerHandler_def)
  then have b: "gq_body io = Body req" by (auto simp: decodeJSON_def split: body.splits)
  have val: "register_Validate address_ok req = None"
    using assms(1) l l0 req by (auto simp: registerHandler_def split: option.splits)
  obtain hash where h: "hashPassword idkey (gq_salt io) (rg_Password req) = Some hash"
    using assms(1) l l0 req val by (auto simp: registerHandler_def split: option.splits)
  then obtain salt where salt: "gq_salt io = Some salt" by (auto simp: hashPassword_def split: option.splits)
  have ins: "qInsertUser (gq_nextval io) (rg_Username req) (rg_Email req) hash (rg_IdentityKey req) us = Inr us'"
    and u: "u = gq_nextval io" and ep: "at_epoch t' u = Some (gq_epoch0 io)"
    using assms(1) l l0 req val h
    by (auto simp: registerHandler_def Let_def issueSessionTx_def qInsertRefreshToken_def
        split: option.splits sum.splits prod.splits if_splits)
  let ?user = "\<lparr>us_uin = u, us_username = rg_Username req, us_email = (if rg_Email req = [] then None else Some (rg_Email req)),
      us_hash = hash, us_identity = rg_IdentityKey req\<rparr>"
  have us': "us' = us @ [?user]" and new: "\<forall>r \<in> set us. us_username r \<noteq> rg_Username req \<and> us_uin r \<noteq> u"
    using ins u by (auto simp: qInsertUser_def Let_def list_ex_iff split: if_splits)
  have "find (\<lambda>r. us_username r = rg_Username req) us = None" using new by (simp add: find_None_iff)
  then have sel: "qSelectUser True (rg_Username req) us' = Some ?user"
    using new by (simp add: us' qSelectUser_def) (induction us, auto)
  have v: "verifyPassword idkey bcrypt hash (rg_Password req) = \<lparr>pv_OK = True, pv_NeedsRehash = False\<rparr>"
  proof -
    let ?k = "idkey (rg_Password req) salt argon2idIterations argon2idMemory argon2idParallelism argon2idKeyLength"
    have len: "length ?k = argon2idKeyLength" "length salt = argon2idSaltLength" using assms(2,3) salt by auto
    then have "?k \<noteq> []" "salt \<noteq> []" by (auto simp: argon2idKeyLength_def argon2idSaltLength_def)
    with parse_stored [OF h [unfolded salt] _ refl] len show ?thesis by (simp add: verifyPassword_def verifyArgon2idPassword_def)
  qed
  have "usernamePattern (rg_Username req)" "8 \<le> RuneCountInString (rg_Password req)" "RuneCountInString (rg_Password req) \<le> 128"
    "isBase64URL32 (rg_IdentityKey req)" using val by (auto simp: register_Validate_def split: if_splits)
  moreover have "u \<notin> us_uin ` set us" using new by auto
  ultimately show ?thesis using b us' ep sel v by (intro exI [of _ req] exI [of _ ?user]) simp
qed

definition calm_register :: register_io where
  "calm_register = \<lparr>gq_edge = sample_edge, gq_body = Body \<lparr>rg_Username = ''bob'', rg_Email = [], rg_Password = ''12345678'',
     rg_IdentityKey = replicate 43 (CHR ''A'')\<rparr>, gq_salt = Some (replicate 16 (CHR ''s'')), gq_insert = None, gq_lost = False,
     gq_nextval = 7, gq_epoch0 = 0, gq_sign_access = (200 * Second, Some ''j1''), gq_sign_refresh = (200 * Second, Some ''j2''),
     gq_stored = 200 * Second, gq_session = Done\<rparr>"

lemma calm_register_handler:
  "\<exists>t' us' cs'. registerHandler mem_counter pair_lib (\<lambda>x. x) pad_key (\<lambda>a. True) calm_register (pair_tables []) []
    (\<lambda>_. 0, Map.empty) = (Registered 7 ''acc'' ''new'', t', us', cs')"
proof -
  obtain cs' where l: "anonymous_limit mem_counter sample_edge ''register'' registerKeyPrefix 3 (\<lambda>_. 0, Map.empty) = (None, cs')"
    by (simp add: anonymous_limit_def sample_bucket_register authenticatedRateLimitScript_def mem_counter_def)
  have k: "isBase64URL32 (replicate 43 (CHR ''A''))"
    using key_decodes by (auto simp: isBase64URL32_def isBase64URLChar_def is_alnum_def DecodePadded_def x25519PublicKeyLen_def list_all_iff Let_def)
  have "RuneCountInString ''12345678'' = 8" by (simp add: RuneCountInString_def rune_count_ascii del: rune_count.simps)
  then have v: "register_Validate (\<lambda>a. True) \<lparr>rg_Username = ''bob'', rg_Email = [], rg_Password = ''12345678'',
     rg_IdentityKey = replicate 43 (CHR ''A'')\<rparr> = None"
    using k by (simp add: register_Validate_def usernamePattern_def is_alnum_def)
  show ?thesis
    by (simp add: registerHandler_def calm_register_def l decodeJSON_def v)
       (simp add: hashPassword_def qInsertUser_def issueSessionTx_def pair_sign Let_def)
qed

lemma register_then_login_witness:
  "\<exists>user. qSelectUser True ''bob'' (fst (snd (snd (registerHandler mem_counter pair_lib (\<lambda>x. x) pad_key (\<lambda>a. True) calm_register
    (pair_tables []) [] (\<lambda>_. 0, Map.empty))))) = Some user \<and>
    pv_OK (verifyPassword pad_key (\<lambda>h p. False) (us_hash user) ''12345678'')"
proof -
  obtain t' us' cs' where h: "registerHandler mem_counter pair_lib (\<lambda>x. x) pad_key (\<lambda>a. True) calm_register (pair_tables []) []
    (\<lambda>_. 0, Map.empty) = (Registered 7 ''acc'' ''new'', t', us', cs')" using calm_register_handler by blast
  have "\<forall>salt. gq_salt calm_register = Some salt \<longrightarrow> length salt = argon2idSaltLength"
    by (simp add: calm_register_def argon2idSaltLength_def)
  from register_then_login [OF h this pad_key_length, where bcrypt = "\<lambda>h p. False"] obtain req user where
    "gq_body calm_register = Body req" "qSelectUser True (rg_Username req) us' = Some user"
    "verifyPassword pad_key (\<lambda>h p. False) (us_hash user) (rg_Password req) = \<lparr>pv_OK = True, pv_NeedsRehash = False\<rparr>" by blast
  with h show ?thesis by (auto simp: calm_register_def)
qed

end
