(* ===== verification/ChatGroups.thy ===== *)
theory ChatGroups
  imports Encoding Envelope "HOL-Library.Product_Lexorder"
begin

text \<open>
  Group management of the message service: \<^verbatim>\<open>message-service/handlers/groups.go\<close> with the statements of
  \<^verbatim>\<open>handlers/queries.go\<close> and the reading of request bodies of \<^verbatim>\<open>handlers/common.go\<close>.

  The tables are lists of rows. PostgreSQL runs the statements at its default isolation level (read
  committed): a statement reads the rows its snapshot \<open>snap\<close> holds, taken when it starts, while a row it
  locks, changes or checks for a conflict is the version in the tables \<open>cur\<close> at the time it gets the lock on
  the group. A statement that did not wait has \<open>snap = cur\<close>. The parser \<open>gocql.ParseUUID\<close> is the parameter
  \<open>ParseUUID\<close>; \<open>now\<close> is the clock of PostgreSQL.
\<close>

section \<open>Tables\<close>

type_synonym group_id = string

record group_row =
  gr_id :: group_id
  gr_name :: string
  gr_owner :: "uin option"
  gr_epoch :: int
  gr_created :: gotime

record member_row =
  mb_group :: group_id
  mb_uin :: uin
  mb_role :: string
  mb_joined :: gotime

record skd_row =
  sk_group :: group_id
  sk_epoch :: int
  sk_recipient :: uin
  sk_sender :: uin
  sk_id :: string
  sk_ciphertext :: string
  sk_msg_type :: string
  sk_created :: gotime
  sk_retired :: "gotime option"

record profile =
  pf_uin :: uin
  pf_username :: string
  pf_avatar :: "string option"

record group_tables =
  gt_users :: "profile list"
  gt_groups :: "group_row list"
  gt_members :: "member_row list"
  gt_keys :: "skd_row list"

definition find_group :: "group_tables \<Rightarrow> group_id \<Rightarrow> group_row option" where
  "find_group t g = find (\<lambda>r. gr_id r = g) (gt_groups t)"

definition members_of :: "group_tables \<Rightarrow> group_id \<Rightarrow> member_row list" where
  "members_of t g = filter (\<lambda>r. mb_group r = g) (gt_members t)"

definition is_member :: "group_tables \<Rightarrow> group_id \<Rightarrow> uin \<Rightarrow> bool" where
  "is_member t g u = list_ex (\<lambda>r. mb_group r = g \<and> mb_uin r = u) (gt_members t)"

definition is_admin :: "group_tables \<Rightarrow> group_id \<Rightarrow> uin \<Rightarrow> bool" where
  "is_admin t g u = list_ex (\<lambda>r. mb_group r = g \<and> mb_uin r = u \<and> mb_role r = ''admin'') (gt_members t)"

definition user_exists :: "group_tables \<Rightarrow> uin \<Rightarrow> bool" where
  "user_exists t u = list_ex (\<lambda>p. pf_uin p = u) (gt_users t)"

definition skd_key :: "skd_row \<Rightarrow> group_id \<times> int \<times> uin \<times> uin \<times> string" where
  "skd_key r = (sk_group r, sk_epoch r, sk_recipient r, sk_sender r, sk_id r)"

text \<open>A row of the current table the snapshot has too.\<close>

definition key_visible :: "group_tables \<Rightarrow> skd_row \<Rightarrow> bool" where
  "key_visible snap r = list_ex (\<lambda>r'. skd_key r' = skd_key r) (gt_keys snap)"

definition retire :: "gotime \<Rightarrow> skd_row \<Rightarrow> skd_row" where
  "retire now r = r\<lparr>sk_retired := Some (case sk_retired r of None \<Rightarrow> now | Some t \<Rightarrow> t)\<rparr>"

definition upd_group :: "group_id \<Rightarrow> (group_row \<Rightarrow> group_row) \<Rightarrow> group_tables \<Rightarrow> group_tables" where
  "upd_group g f t = t\<lparr>gt_groups := map (\<lambda>r. if gr_id r = g then f r else r) (gt_groups t)\<rparr>"

section \<open>Statements\<close>

text \<open>A failing statement (a violated constraint, a \<open>BIGINT\<close> overflow) gives None and changes nothing.\<close>

definition qCreateGroup :: "gotime \<Rightarrow> group_id \<Rightarrow> string \<Rightarrow> uin \<Rightarrow> group_tables \<Rightarrow> (group_row \<times> group_tables) option" where
  "qCreateGroup now uuid name owner t =
     (if find_group t uuid \<noteq> None \<or> \<not> user_exists t owner then None
      else let r = \<lparr>gr_id = uuid, gr_name = name, gr_owner = Some owner, gr_epoch = 1, gr_created = now\<rparr>
           in Some (r, t\<lparr>gt_groups := gt_groups t @ [r]\<rparr>))"

definition insert_member :: "gotime \<Rightarrow> group_id \<Rightarrow> uin \<Rightarrow> string \<Rightarrow> group_tables \<Rightarrow> group_tables" where
  "insert_member now g u role t =
     t\<lparr>gt_members := gt_members t @ [\<lparr>mb_group = g, mb_uin = u, mb_role = role, mb_joined = now\<rparr>]\<rparr>"

definition qInsertGroupAdmin :: "gotime \<Rightarrow> group_id \<Rightarrow> uin \<Rightarrow> group_tables \<Rightarrow> group_tables option" where
  "qInsertGroupAdmin now g u t =
     (if find_group t g = None \<or> \<not> user_exists t u \<or> is_member t g u then None
      else Some (insert_member now g u ''admin'' t))"

record groupItem =
  gi_GroupID :: group_id
  gi_Name :: string
  gi_OwnerUIN :: uin
  gi_MemberCount :: nat
  gi_CreatedAt :: gotime
  gi_CryptoEpoch :: int

text \<open>The rows in the order of \<open>ORDER BY created_at DESC\<close>; a NULL owner does not scan into an integer.\<close>

definition qListGroupsForMember :: "uin \<Rightarrow> group_tables \<Rightarrow> (group_row \<times> nat) list" where
  "qListGroupsForMember u t =
     sort_key (\<lambda>(r, n). - gr_created r)
       (concat (map (\<lambda>r. map (\<lambda>m. (r, length (members_of t (gr_id r))))
          (filter (\<lambda>m. mb_group m = gr_id r \<and> mb_uin m = u) (gt_members t))) (gt_groups t)))"

record groupMember =
  gm_UIN :: uin
  gm_Username :: string
  gm_AvatarURL :: string
  gm_Role :: string

definition qListGroupMembers :: "group_id \<Rightarrow> group_tables \<Rightarrow> groupMember list" where
  "qListGroupMembers g t =
     concat (map (\<lambda>m. map (\<lambda>p. \<lparr>gm_UIN = pf_uin p, gm_Username = pf_username p,
         gm_AvatarURL = (case pf_avatar p of None \<Rightarrow> [] | Some a \<Rightarrow> a), gm_Role = mb_role m\<rparr>)
       (filter (\<lambda>p. pf_uin p = mb_uin m) (gt_users t))) (sort_key mb_joined (members_of t g)))"

definition qGetGroupRole :: "group_id \<Rightarrow> uin \<Rightarrow> group_tables \<Rightarrow> string option" where
  "qGetGroupRole g u t = map_option mb_role (find (\<lambda>r. mb_group r = g \<and> mb_uin r = u) (gt_members t))"

definition qGetGroupName :: "group_id \<Rightarrow> group_tables \<Rightarrow> string option" where
  "qGetGroupName g t = map_option gr_name (find_group t g)"

definition qGetGroupEpoch :: "group_id \<Rightarrow> group_tables \<Rightarrow> int option" where
  "qGetGroupEpoch g t = map_option gr_epoch (find_group t g)"

text \<open>The common table expressions of \<open>qInsertGroupMember\<close> in order: \<open>locked\<close>, \<open>actor\<close>, \<open>inserted\<close>,
  \<open>updated\<close>, \<open>retired\<close>; the reply is (authorized, inserted).\<close>

definition qInsertGroupMember ::
  "gotime \<Rightarrow> group_id \<Rightarrow> uin \<Rightarrow> uin \<Rightarrow> group_tables \<Rightarrow> group_tables \<Rightarrow> (bool \<times> bool \<times> group_tables) option" where
  "qInsertGroupMember now g actorUIN newUIN snap cur =
     (case (find_group snap g, find_group cur g) of
        (Some _, Some locked) \<Rightarrow>
          let actor = is_admin snap g actorUIN;
              inserted = actor \<and> \<not> is_member cur g newUIN
          in if \<not> inserted then Some (actor, False, cur)
             else if \<not> user_exists cur newUIN \<or> gr_epoch locked + 1 > int64_max then None
             else
               let t1 = insert_member now g newUIN ''member'' cur;
                   t2 = upd_group g (\<lambda>r. r\<lparr>gr_epoch := gr_epoch r + 1\<rparr>) t1;
                   t3 = t2\<lparr>gt_keys := map (\<lambda>r. if sk_group r = g \<and> sk_epoch r = gr_epoch locked \<and> key_visible snap r
                          then retire now r else r) (gt_keys t2)\<rparr>
               in Some (True, True, t3)
      | _ \<Rightarrow> Some (False, False, cur))"

text \<open>The oldest member other than \<open>u\<close>, by \<open>joined_at\<close> and then \<open>uin\<close>.\<close>

definition successor :: "group_id \<Rightarrow> uin \<Rightarrow> group_tables \<Rightarrow> uin option" where
  "successor g u t =
     (case sort_key (\<lambda>r. (mb_joined r, mb_uin r)) (filter (\<lambda>r. mb_uin r \<noteq> u) (members_of t g)) of
        [] \<Rightarrow> None | r # _ \<Rightarrow> Some (mb_uin r))"

text \<open>\<open>DELETE FROM groups\<close> with its cascades.\<close>

definition delete_group :: "group_id \<Rightarrow> group_tables \<Rightarrow> group_tables" where
  "delete_group g t =
     t\<lparr>gt_groups := filter (\<lambda>r. gr_id r \<noteq> g) (gt_groups t),
       gt_members := filter (\<lambda>r. mb_group r \<noteq> g) (gt_members t),
       gt_keys := filter (\<lambda>r. sk_group r \<noteq> g) (gt_keys t)\<rparr>"

definition delete_member :: "group_id \<Rightarrow> uin \<Rightarrow> group_tables \<Rightarrow> group_tables" where
  "delete_member g u t = t\<lparr>gt_members := filter (\<lambda>r. \<not> (mb_group r = g \<and> mb_uin r = u)) (gt_members t)\<rparr>"

definition promote :: "group_id \<Rightarrow> uin option \<Rightarrow> group_tables \<Rightarrow> group_tables" where
  "promote g s t =
     t\<lparr>gt_members := map (\<lambda>r. if mb_group r = g \<and> s = Some (mb_uin r) then r\<lparr>mb_role := ''admin''\<rparr> else r) (gt_members t)\<rparr>"

text \<open>\<open>removed\<close>, \<open>promoted\<close>, \<open>updated\<close>, \<open>retired\<close>, \<open>deleted\<close>; \<open>remaining\<close> and \<open>successor\<close> are read from the
  snapshot. The reply is (removed, remaining).\<close>

definition qRemoveGroupMemberAtomically ::
  "gotime \<Rightarrow> group_id \<Rightarrow> uin \<Rightarrow> uin \<Rightarrow> group_tables \<Rightarrow> group_tables \<Rightarrow> (bool \<times> nat \<times> group_tables) option" where
  "qRemoveGroupMemberAtomically now g actorUIN target snap cur =
     (let remaining = length (filter (\<lambda>r. mb_uin r \<noteq> target) (members_of snap g));
          s = successor g target snap
      in case (find_group snap g, find_group cur g) of
        (Some _, Some locked) \<Rightarrow>
          if \<not> (is_member snap g target \<and> is_member cur g target \<and> (actorUIN = target \<or> is_admin snap g actorUIN))
          then Some (False, remaining, cur)
          else if remaining > 0 \<and> gr_epoch locked + 1 > int64_max then None
          else
            let t1 = delete_member g target cur;
                t2 = (if gr_owner locked = Some target then promote g s t1 else t1);
                t3 = (if remaining > 0 then
                        upd_group g (\<lambda>r. r\<lparr>gr_epoch := gr_epoch r + 1,
                          gr_owner := (if gr_owner r = Some target then s else gr_owner r)\<rparr>) t2
                      else t2);
                t4 = t3\<lparr>gt_keys := map (\<lambda>r. if sk_group r = g \<and> key_visible snap r then retire now r else r) (gt_keys t3)\<rparr>;
                t5 = (if remaining = 0 then delete_group g t4 else t4)
            in Some (True, remaining, t5)
      | _ \<Rightarrow> Some (False, remaining, cur))"

text \<open>\<open>qWipeGroupMemberships\<close> of \<^verbatim>\<open>auth-service/handlers/queries.go\<close> removes a user from every group:
  \<open>affected\<close>, \<open>removed\<close>, \<open>survivors\<close>, \<open>promoted\<close>, \<open>updated\<close>, \<open>retired\<close> and the final DELETE.\<close>

definition wipe_affects :: "uin \<Rightarrow> group_tables \<Rightarrow> group_tables \<Rightarrow> group_id \<Rightarrow> bool" where
  "wipe_affects u snap cur g \<longleftrightarrow>
     find_group snap g \<noteq> None \<and> find_group cur g \<noteq> None \<and> is_member snap g u \<and> is_member cur g u"

definition owned_by :: "uin \<Rightarrow> group_tables \<Rightarrow> group_id \<Rightarrow> bool" where
  "owned_by u t g = (case find_group t g of None \<Rightarrow> False | Some r \<Rightarrow> gr_owner r = Some u)"

definition qWipeGroupMemberships :: "gotime \<Rightarrow> uin \<Rightarrow> group_tables \<Rightarrow> group_tables \<Rightarrow> group_tables option" where
  "qWipeGroupMemberships now u snap cur =
     (let affected = wipe_affects u snap cur;
          survivor = (\<lambda>g. successor g u snap);
          removed = filter (\<lambda>r. \<not> (mb_uin r = u \<and> is_member snap (mb_group r) u)) (gt_members cur);
          promoted = map (\<lambda>r. if affected (mb_group r) \<and> survivor (mb_group r) = Some (mb_uin r) \<and> owned_by u cur (mb_group r)
                       then r\<lparr>mb_role := ''admin''\<rparr> else r) removed;
          updated = map (\<lambda>r. if affected (gr_id r) \<and> survivor (gr_id r) \<noteq> None then
                        r\<lparr>gr_epoch := gr_epoch r + 1,
                          gr_owner := (if gr_owner r = Some u then survivor (gr_id r) else gr_owner r)\<rparr> else r) (gt_groups cur);
          retired = map (\<lambda>r. if affected (sk_group r) \<and> key_visible snap r then retire now r else r) (gt_keys cur);
          gone = (\<lambda>g. affected g \<and> survivor g = None)
      in if list_ex (\<lambda>r. affected (gr_id r) \<and> survivor (gr_id r) \<noteq> None \<and> gr_epoch r + 1 > int64_max) (gt_groups cur) then None
         else Some (cur\<lparr>gt_groups := filter (\<lambda>r. \<not> gone (gr_id r)) updated,
                gt_members := filter (\<lambda>r. \<not> gone (mb_group r)) promoted,
                gt_keys := filter (\<lambda>r. \<not> gone (sk_group r)) retired\<rparr>))"

section \<open>Requests\<close>

datatype group_http = GroupError nat string | GroupCreated groupItem | GroupList "groupItem list"
  | MemberList "groupMember list" int | MemberAdded | NoContent

datatype 'a request_body = Decoded 'a | TooLarge | Malformed

definition group_decodeJSON :: "'a request_body \<Rightarrow> group_http + 'a" where
  "group_decodeJSON b =
     (case b of
        Decoded x \<Rightarrow> Inr x
      | TooLarge \<Rightarrow> Inl (GroupError 413 ''BODY_TOO_LARGE'')
      | Malformed \<Rightarrow> Inl (GroupError 400 ''MALFORMED_JSON''))"

text \<open>The path parameter, trimmed and parsed. PostgreSQL reads the text as the same identifier.\<close>

definition parseGroupIDParam :: "(string \<Rightarrow> group_id option) \<Rightarrow> string \<Rightarrow> group_id option" where
  "parseGroupIDParam ParseUUID raw =
     (let raw = TrimSpace raw in if raw = [] then None else ParseUUID raw)"

text \<open>\<open>strconv.ParseInt(s, 10, 64)\<close>\<close>

definition ParseInt64 :: "string \<Rightarrow> int option" where
  "ParseInt64 s =
     (let (neg, ds) = (case s of [] \<Rightarrow> (False, []) | x # xs \<Rightarrow>
            if x = CHR ''-'' then (True, xs) else if x = CHR ''+'' then (False, xs) else (False, s))
      in if ds = [] then None
         else case parse_digits 0 ds of
           None \<Rightarrow> None
         | Some n \<Rightarrow> let v = (if neg then - int n else int n) in if is_int64 v then Some v else None)"

text \<open>\<open>isMemberOf\<close> and \<open>getGroupRole\<close>; \<open>ok\<close>: the query does not fail for another reason than no rows.\<close>

definition isMemberOf :: "bool \<Rightarrow> group_tables \<Rightarrow> group_id \<Rightarrow> uin \<Rightarrow> bool option" where
  "isMemberOf ok t g u = (if ok then Some (qGetGroupRole g u t \<noteq> None) else None)"

definition getGroupRole :: "bool \<Rightarrow> group_tables \<Rightarrow> group_id \<Rightarrow> uin \<Rightarrow> string option" where
  "getGroupRole ok t g u =
     (if ok then Some (case qGetGroupRole g u t of None \<Rightarrow> [] | Some role \<Rightarrow> role) else None)"

section \<open>Handlers\<close>

text \<open>The io records hold the actor the middleware put into the context, the request, and how the
  statements fare; \<open>_wait\<close> is what other transactions commit while a statement waits for the lock on its
  group, \<open>_env\<close> what they commit between two statements.\<close>

record create_io =
  cg_uin :: "uin option"
  cg_body :: "string request_body"
  cg_begin :: bool
  cg_uuid :: group_id
  cg_now :: gotime
  cg_insert :: bool
  cg_admin :: bool
  cg_commit :: outcome

definition createGroupHandler :: "create_io \<Rightarrow> group_tables \<Rightarrow> group_http \<times> group_tables" where
  "createGroupHandler io t =
     (case cg_uin io of
        None \<Rightarrow> (GroupError 401 ''AUTH_MISSING_BEARER'', t)
      | Some ownerUIN \<Rightarrow>
          (case group_decodeJSON (cg_body io) of
             Inl e \<Rightarrow> (e, t)
           | Inr reqName \<Rightarrow>
               let name = TrimSpace reqName; runeCount = RuneCountInString name in
               if runeCount < 3 \<or> runeCount > 50 then (GroupError 422 ''NAME_LENGTH'', t)
               else if \<not> cg_begin io then (GroupError 500 ''DB_ERROR'', t)
               else case (if cg_insert io then qCreateGroup (cg_now io) (cg_uuid io) name ownerUIN t else None) of
                 None \<Rightarrow> (GroupError 500 ''DB_ERROR'', t)
               | Some (r, t1) \<Rightarrow>
                   (case (if cg_admin io then qInsertGroupAdmin (cg_now io) (gr_id r) ownerUIN t1 else None) of
                      None \<Rightarrow> (GroupError 500 ''DB_ERROR'', t)
                    | Some t2 \<Rightarrow>
                        if failed (cg_commit io) then (GroupError 500 ''DB_ERROR'', if took_effect (cg_commit io) then t2 else t)
                        else (GroupCreated \<lparr>gi_GroupID = gr_id r, gi_Name = gr_name r, gi_OwnerUIN = ownerUIN,
                                gi_MemberCount = 1, gi_CreatedAt = gr_created r, gi_CryptoEpoch = 1\<rparr>, t2))))"

text \<open>The row scan of the list handler; None when a row does not scan.\<close>

definition scan_group :: "group_row \<times> nat \<Rightarrow> groupItem option" where
  "scan_group rn =
     (case gr_owner (fst rn) of
        None \<Rightarrow> None
      | Some ow \<Rightarrow> Some \<lparr>gi_GroupID = gr_id (fst rn), gi_Name = gr_name (fst rn), gi_OwnerUIN = ow,
          gi_MemberCount = snd rn, gi_CreatedAt = gr_created (fst rn), gi_CryptoEpoch = gr_epoch (fst rn)\<rparr>)"

definition listGroupsHandler :: "bool \<Rightarrow> bool \<Rightarrow> uin option \<Rightarrow> group_tables \<Rightarrow> group_http" where
  "listGroupsHandler query iter uin t =
     (case uin of
        None \<Rightarrow> GroupError 401 ''AUTH_MISSING_BEARER''
      | Some u \<Rightarrow>
          if \<not> query then GroupError 500 ''DB_ERROR''
          else case those (map scan_group (qListGroupsForMember u t)) of
            None \<Rightarrow> GroupError 500 ''DB_ERROR''
          | Some groups \<Rightarrow> if \<not> iter then GroupError 500 ''DB_ERROR'' else GroupList groups)"

text \<open>The three queries of the member list run one after the other; \<open>env1\<close>, \<open>env2\<close>: changes between them.\<close>

record members_io =
  lm_uin :: "uin option"
  lm_group :: string
  lm_check :: bool
  lm_env1 :: "group_tables \<Rightarrow> group_tables"
  lm_query :: bool
  lm_iter :: bool
  lm_env2 :: "group_tables \<Rightarrow> group_tables"
  lm_epoch :: bool

definition listGroupMembersHandler :: "(string \<Rightarrow> group_id option) \<Rightarrow> members_io \<Rightarrow> group_tables \<Rightarrow> group_http" where
  "listGroupMembersHandler ParseUUID io t =
     (case lm_uin io of
        None \<Rightarrow> GroupError 401 ''AUTH_MISSING_BEARER''
      | Some u \<Rightarrow>
          (case parseGroupIDParam ParseUUID (lm_group io) of
             None \<Rightarrow> GroupError 400 ''GROUP_ID_INVALID''
           | Some g \<Rightarrow>
               (case isMemberOf (lm_check io) t g u of
                  None \<Rightarrow> GroupError 500 ''DB_ERROR''
                | Some False \<Rightarrow> GroupError 403 ''NOT_A_MEMBER''
                | Some True \<Rightarrow>
                    let t1 = lm_env1 io t; t2 = lm_env2 io t1 in
                    if \<not> lm_query io \<or> \<not> lm_iter io then GroupError 500 ''DB_ERROR''
                    else case (if lm_epoch io then qGetGroupEpoch g t2 else None) of
                      None \<Rightarrow> GroupError 500 ''DB_ERROR''
                    | Some epoch \<Rightarrow> MemberList (qListGroupMembers g t1) epoch)))"

record NotificationPayload =
  np_Kind :: string
  np_Title :: string
  np_Body :: string
  np_Data :: "(string \<times> json) list"

definition NotificationKindGroupInvite :: string where "NotificationKindGroupInvite = ''group_invite''"

text \<open>The messages handed to the bus: subject and notification.\<close>

definition publishGroupInviteNotification ::
  "bool \<Rightarrow> uin \<Rightarrow> group_id \<Rightarrow> string \<Rightarrow> uin \<Rightarrow> (string \<times> NotificationPayload) list" where
  "publishGroupInviteNotification bus targetUIN g groupName fromUIN =
     (if \<not> bus then []
      else [(''notification.'' @ itoa targetUIN,
             \<lparr>np_Kind = NotificationKindGroupInvite, np_Title = ''Added to a group'', np_Body = ''You have been added to a group'',
              np_Data = [(''group_id'', JStr g), (''group_name'', JStr groupName), (''from_uin'', JNum fromUIN)]\<rparr>)])"

record add_io =
  am_uin :: "uin option"
  am_group :: string
  am_body :: "int request_body"
  am_wait :: "group_tables \<Rightarrow> group_tables"
  am_now :: gotime
  am_exec :: outcome
  am_name :: bool
  am_bus :: bool

definition addGroupMemberHandler ::
  "(string \<Rightarrow> group_id option) \<Rightarrow> add_io \<Rightarrow> group_tables \<Rightarrow> group_http \<times> (string \<times> NotificationPayload) list \<times> group_tables" where
  "addGroupMemberHandler ParseUUID io t =
     (case am_uin io of
        None \<Rightarrow> (GroupError 401 ''AUTH_MISSING_BEARER'', [], t)
      | Some actorUIN \<Rightarrow>
          (case parseGroupIDParam ParseUUID (am_group io) of
             None \<Rightarrow> (GroupError 400 ''GROUP_ID_INVALID'', [], t)
           | Some g \<Rightarrow>
               (case group_decodeJSON (am_body io) of
                  Inl e \<Rightarrow> (e, [], t)
                | Inr reqUIN \<Rightarrow>
                    if reqUIN \<le> 0 then (GroupError 422 ''FIELD_INVALID'', [], t)
                    else
                      let cur = am_wait io t in
                      case qInsertGroupMember (am_now io) g actorUIN reqUIN t cur of
                        None \<Rightarrow> (GroupError 500 ''DB_ERROR'', [], cur)
                      | Some (authorized, inserted, t1) \<Rightarrow>
                          if failed (am_exec io) then
                            (GroupError 500 ''DB_ERROR'', [], if took_effect (am_exec io) then t1 else cur)
                          else if \<not> authorized then (GroupError 403 ''NOT_ADMIN'', [], t1)
                          else
                            (MemberAdded,
                             if inserted then
                               publishGroupInviteNotification (am_bus io) reqUIN g
                                 (if am_name io then (case qGetGroupName g t1 of None \<Rightarrow> [] | Some n \<Rightarrow> n) else []) actorUIN
                             else [], t1))))"

record remove_io =
  rm_uin :: "uin option"
  rm_group :: string
  rm_target :: string
  rm_role :: bool
  rm_env :: "group_tables \<Rightarrow> group_tables"
  rm_wait :: "group_tables \<Rightarrow> group_tables"
  rm_now :: gotime
  rm_exec :: outcome

definition removeGroupMemberHandler ::
  "(string \<Rightarrow> group_id option) \<Rightarrow> remove_io \<Rightarrow> group_tables \<Rightarrow> group_http \<times> group_tables" where
  "removeGroupMemberHandler ParseUUID io t =
     (case rm_uin io of
        None \<Rightarrow> (GroupError 401 ''AUTH_MISSING_BEARER'', t)
      | Some actorUIN \<Rightarrow>
          (case parseGroupIDParam ParseUUID (rm_group io) of
             None \<Rightarrow> (GroupError 400 ''GROUP_ID_INVALID'', t)
           | Some g \<Rightarrow>
               (case ParseInt64 (rm_target io) of
                  None \<Rightarrow> (GroupError 400 ''FIELD_INVALID'', t)
                | Some targetUIN \<Rightarrow>
                    if targetUIN \<le> 0 then (GroupError 400 ''FIELD_INVALID'', t)
                    else case getGroupRole (rm_role io) t g actorUIN of
                      None \<Rightarrow> (GroupError 500 ''DB_ERROR'', t)
                    | Some actorRole \<Rightarrow>
                        if targetUIN = actorUIN \<and> actorRole = [] then (GroupError 404 ''NOT_A_MEMBER'', t)
                        else if targetUIN \<noteq> actorUIN \<and> actorRole \<noteq> ''admin'' then (GroupError 403 ''NOT_ADMIN'', t)
                        else
                          let snap = rm_env io t; cur = rm_wait io snap in
                          case qRemoveGroupMemberAtomically (rm_now io) g actorUIN targetUIN snap cur of
                            None \<Rightarrow> (GroupError 500 ''DB_ERROR'', cur)
                          | Some (removed, remaining, t1) \<Rightarrow>
                              if failed (rm_exec io) then
                                (GroupError 500 ''DB_ERROR'', if took_effect (rm_exec io) then t1 else cur)
                              else if \<not> removed then (GroupError 404 ''NOT_A_MEMBER'', t1)
                              else (NoContent, t1))))"

text \<open>\<open>DELETE FROM groups WHERE id = $1 AND owner_uin = $2\<close>: the number of rows and the tables.\<close>

definition delete_owned_group :: "group_id \<Rightarrow> uin \<Rightarrow> group_tables \<Rightarrow> nat \<times> group_tables" where
  "delete_owned_group g u t =
     (case find_group t g of
        None \<Rightarrow> (0, t)
      | Some r \<Rightarrow> if gr_owner r = Some u then (1, delete_group g t) else (0, t))"

definition deleteGroupHandler ::
  "(string \<Rightarrow> group_id option) \<Rightarrow> outcome \<Rightarrow> uin option \<Rightarrow> string \<Rightarrow> group_tables \<Rightarrow> group_http \<times> group_tables" where
  "deleteGroupHandler ParseUUID exec actor raw t =
     (case actor of
        None \<Rightarrow> (GroupError 401 ''AUTH_MISSING_BEARER'', t)
      | Some actorUIN \<Rightarrow>
          (case parseGroupIDParam ParseUUID raw of
             None \<Rightarrow> (GroupError 400 ''GROUP_ID_INVALID'', t)
           | Some g \<Rightarrow>
               let (n, t1) = delete_owned_group g actorUIN t in
               if failed exec then (GroupError 500 ''DB_ERROR'', if took_effect exec then t1 else t)
               else if n = 0 then (GroupError 404 ''NOT_OWNER'', t1)
               else (NoContent, t1)))"

end
