(* ===== verification/SenderKeys.thy ===== *)
theory SenderKeys
  imports ChatGroups
begin

text \<open>
  The inbox of sender-key distributions (\<^verbatim>\<open>message-service/handlers/sender_key_inbox.go\<close>): a member leaves
  an opaque, encrypted sender key for another member of the group at the current epoch.

  \<open>coll\<close> is the collation of the database (an injective key per text), \<open>timeJSON\<close> the JSON text of a time;
  the JSON size of the other fields is computed as \<^verbatim>\<open>encoding/json\<close> does.
\<close>

section \<open>Statements\<close>

definition day :: duration where "day = 24 * Hour"

definition expired :: "gotime \<Rightarrow> skd_row \<Rightarrow> bool" where
  "expired now r = (case sk_retired r of None \<Rightarrow> False | Some t \<Rightarrow> t < now - day)"

text \<open>\<open>ROW_NUMBER\<close> over \<open>created_at DESC, distribution_id DESC\<close> within \<open>rows\<close>.\<close>

definition rank_in :: "(string \<Rightarrow> 'k::linorder) \<Rightarrow> skd_row list \<Rightarrow> skd_row \<Rightarrow> nat" where
  "rank_in coll rows r =
     Suc (length (filter (\<lambda>q. (sk_created q, coll (sk_id q)) > (sk_created r, coll (sk_id r))) rows))"

definition senderKeyDepth :: nat where "senderKeyDepth = 4"

record putSenderKeyDistributionRequest =
  ps_RecipientUIN :: uin
  ps_Epoch :: int
  ps_DistributionID :: string
  ps_Ciphertext :: string
  ps_MsgType :: string

text \<open>The active keys of one sender for one recipient at an epoch.\<close>

definition active_keys :: "group_id \<Rightarrow> int \<Rightarrow> uin \<Rightarrow> uin \<Rightarrow> group_tables \<Rightarrow> skd_row list" where
  "active_keys g epoch recipient sender t =
     filter (\<lambda>r. sk_group r = g \<and> sk_epoch r = epoch \<and> sk_recipient r = recipient \<and> sk_sender r = sender \<and>
       sk_retired r = None) (gt_keys t)"

definition put_eligible :: "group_id \<Rightarrow> uin \<Rightarrow> uin \<Rightarrow> int \<Rightarrow> group_tables \<Rightarrow> group_tables \<Rightarrow> bool" where
  "put_eligible g sender recipient epoch snap cur \<longleftrightarrow>
     map_option gr_epoch (find_group snap g) = Some epoch \<and> map_option gr_epoch (find_group cur g) = Some epoch \<and>
     is_member snap g sender \<and> is_member snap g recipient"

text \<open>The common table expressions \<open>expired\<close>, \<open>eligible\<close>, \<open>trimmed\<close>, \<open>inserted\<close>.\<close>

definition qPutSenderKeyDistribution ::
  "(string \<Rightarrow> 'k::linorder) \<Rightarrow> gotime \<Rightarrow> group_id \<Rightarrow> uin \<Rightarrow> putSenderKeyDistributionRequest \<Rightarrow>
    group_tables \<Rightarrow> group_tables \<Rightarrow> bool \<times> bool \<times> group_tables" where
  "qPutSenderKeyDistribution coll now g sender req snap cur =
     (let recipient = ps_RecipientUIN req; epoch = ps_Epoch req;
          new = \<lparr>sk_group = g, sk_epoch = epoch, sk_recipient = recipient, sk_sender = sender, sk_id = ps_DistributionID req,
                 sk_ciphertext = ps_Ciphertext req, sk_msg_type = ps_MsgType req, sk_created = now, sk_retired = None\<rparr>;
          eligible = put_eligible g sender recipient epoch snap cur;
          trimming = eligible \<and> \<not> key_visible snap new;
          active = active_keys g epoch recipient sender snap;
          kept = filter (\<lambda>r. \<not> (key_visible snap r \<and>
                    (sk_group r = g \<and> sk_recipient r = recipient \<and> expired now r \<or>
                     trimming \<and> r \<in> set active \<and> rank_in coll active r \<ge> senderKeyDepth))) (gt_keys cur);
          inserted = eligible \<and> \<not> key_visible cur new
      in (eligible, inserted, cur\<lparr>gt_keys := kept @ (if inserted then [new] else [])\<rparr>))"

record senderKeyDistributionItem =
  si_Epoch :: int
  si_SenderUIN :: uin
  si_Ciphertext :: string
  si_MsgType :: string
  si_DistributionID :: string
  si_RetiredAt :: "gotime option"

definition item_of :: "skd_row \<Rightarrow> senderKeyDistributionItem" where
  "item_of r = \<lparr>si_Epoch = sk_epoch r, si_SenderUIN = sk_sender r, si_Ciphertext = sk_ciphertext r,
     si_MsgType = sk_msg_type r, si_DistributionID = sk_id r, si_RetiredAt = sk_retired r\<rparr>"

text \<open>The keys the inbox shows in the order of the statement, before the page is cut out.\<close>

definition inbox_rows :: "(string \<Rightarrow> 'k::linorder) \<Rightarrow> gotime \<Rightarrow> group_id \<Rightarrow> uin \<Rightarrow> int \<Rightarrow> group_tables \<Rightarrow> skd_row list" where
  "inbox_rows coll now g recipient epoch t =
     (let rows = filter (\<lambda>r. sk_group r = g \<and> sk_recipient r = recipient \<and>
              (sk_epoch r = epoch \<or> (case sk_retired r of None \<Rightarrow> False | Some d \<Rightarrow> d > now - day))) (gt_keys t);
          rank = (\<lambda>r. rank_in coll (filter (\<lambda>q. sk_sender q = sk_sender r \<and> sk_epoch q = sk_epoch r) rows) r)
      in sort_key (\<lambda>r. (rank r, - sk_epoch r, sk_sender r, - sk_created r))
           (rev (sort_key (\<lambda>r. coll (sk_id r)) (filter (\<lambda>r. rank r \<le> senderKeyDepth) rows))))"

definition qGetSenderKeyDistributions ::
  "(string \<Rightarrow> 'k::linorder) \<Rightarrow> gotime \<Rightarrow> group_id \<Rightarrow> uin \<Rightarrow> int \<Rightarrow> nat \<Rightarrow> nat \<Rightarrow> group_tables \<Rightarrow>
    senderKeyDistributionItem list \<times> group_tables" where
  "qGetSenderKeyDistributions coll now g recipient epoch limit offset t =
     (map item_of (take limit (drop offset (inbox_rows coll now g recipient epoch t))),
      t\<lparr>gt_keys := filter (\<lambda>r. \<not> (sk_group r = g \<and> sk_recipient r = recipient \<and> expired now r)) (gt_keys t)\<rparr>)"

section \<open>Storing a key\<close>

definition maxSenderKeyDistributionBytes :: nat where "maxSenderKeyDistributionBytes = 16 * 1024"
definition maxSenderKeyInboxPageItems :: nat where "maxSenderKeyInboxPageItems = 8"
definition maxSenderKeyInboxResponseBytes :: nat where "maxSenderKeyInboxResponseBytes = 256 * 1024"

definition distribution_valid :: "putSenderKeyDistributionRequest \<Rightarrow> bool" where
  "distribution_valid req \<longleftrightarrow>
     \<not> (ps_RecipientUIN req \<le> 0 \<or> ps_Epoch req \<le> 0 \<or> ps_DistributionID req = [] \<or> length (ps_DistributionID req) > 128 \<or>
        (case DecodeString True (ps_Ciphertext req) of
           None \<Rightarrow> True
         | Some decoded \<Rightarrow> length decoded < 1 \<or> length decoded > maxSenderKeyDistributionBytes) \<or>
        (ps_MsgType req \<noteq> ''prekey_message'' \<and> ps_MsgType req \<noteq> ''signal_message''))"

record put_io =
  pk_uin :: "uin option"
  pk_group :: string
  pk_body :: "putSenderKeyDistributionRequest request_body"
  pk_wait :: "group_tables \<Rightarrow> group_tables"
  pk_now :: gotime
  pk_exec :: outcome

definition putSenderKeyDistributionHandler ::
  "(string \<Rightarrow> 'k::linorder) \<Rightarrow> (string \<Rightarrow> group_id option) \<Rightarrow> put_io \<Rightarrow> group_tables \<Rightarrow> group_http \<times> group_tables" where
  "putSenderKeyDistributionHandler coll ParseUUID io t =
     (case pk_uin io of
        None \<Rightarrow> (GroupError 401 ''AUTH_MISSING_BEARER'', t)
      | Some sender \<Rightarrow>
          (case parseGroupIDParam ParseUUID (pk_group io) of
             None \<Rightarrow> (GroupError 400 ''GROUP_ID_INVALID'', t)
           | Some g \<Rightarrow>
               (case group_decodeJSON (pk_body io) of
                  Inl e \<Rightarrow> (e, t)
                | Inr req \<Rightarrow>
                    if \<not> distribution_valid req then (GroupError 422 ''DISTRIBUTION_INVALID'', t)
                    else
                      let cur = pk_wait io t;
                          (eligible, inserted, t1) = qPutSenderKeyDistribution coll (pk_now io) g sender req t cur
                      in if failed (pk_exec io) then
                           (GroupError 500 ''DB_ERROR'', if took_effect (pk_exec io) then t1 else cur)
                         else if \<not> eligible then (GroupError 403 ''GROUP_EPOCH_FORBIDDEN'', t1)
                         else (NoContent, t1))))"

section \<open>Reading the inbox\<close>

text \<open>The size of a JSON string body: quotes, backslash and the usual controls take two bytes, other controls,
  \<open><\<close>, \<open>>\<close>, \<open>&\<close>, the line separators U+2028 and U+2029 and broken bytes six.\<close>

definition json_ascii_size :: "nat \<Rightarrow> nat" where
  "json_ascii_size x =
     (if x \<in> {0x22, 0x5C, 0x08, 0x09, 0x0A, 0x0C, 0x0D} then 2
      else if x < 0x20 \<or> x \<in> {0x26, 0x3C, 0x3E} then 6 else 1)"

fun json_size :: "nat list \<Rightarrow> nat" where
  "json_size [] = 0"
| "json_size (x # xs) =
     (if x < 0x80 then json_ascii_size x + json_size xs
      else let k = rune_tail x xs in
        if k = 0 then 6 + json_size xs
        else if x = 0xE2 \<and> take 2 xs \<in> {[0x80, 0xA8], [0x80, 0xA9]} then 6 + json_size (drop k xs)
        else Suc k + json_size (drop k xs))"

definition json_string_size :: "string \<Rightarrow> nat" where
  "json_string_size s = 2 + json_size (map of_char s)"

text \<open>\<open>len(json.Marshal(item))\<close>; a time may have no JSON form.\<close>

definition item_size :: "(gotime \<Rightarrow> string option) \<Rightarrow> senderKeyDistributionItem \<Rightarrow> nat option" where
  "item_size timeJSON it =
     (let fixed = length ''{\"epoch\":'' + length (itoa (si_Epoch it)) + length '',\"sender_uin\":'' + length (itoa (si_SenderUIN it)) +
            length '',\"ciphertext\":'' + json_string_size (si_Ciphertext it) + length '',\"msg_type\":'' + json_string_size (si_MsgType it) +
            length '',\"distribution_id\":'' + json_string_size (si_DistributionID it) + 1
      in case si_RetiredAt it of
        None \<Rightarrow> Some fixed
      | Some d \<Rightarrow> map_option (\<lambda>txt. fixed + length '',\"retired_at\":'' + length txt) (timeJSON d))"

text \<open>The loop over the rows with the bytes used so far; None when a row does not encode.\<close>

fun take_page ::
  "(gotime \<Rightarrow> string option) \<Rightarrow> nat \<Rightarrow> senderKeyDistributionItem list \<Rightarrow> senderKeyDistributionItem list \<Rightarrow>
    senderKeyDistributionItem list option" where
  "take_page timeJSON responseBytes out [] = Some out"
| "take_page timeJSON responseBytes out (item # rows) =
     (case item_size timeJSON item of
        None \<Rightarrow> None
      | Some n \<Rightarrow>
          let separatorBytes = (if out \<noteq> [] then 1 else 0) in
          if responseBytes + separatorBytes + n > maxSenderKeyInboxResponseBytes then Some out
          else take_page timeJSON (responseBytes + separatorBytes + n) (out @ [item]) rows)"

definition page_start :: nat where
  "page_start = length ''{\"epoch\":,\"distributions\":[]}'' + 20"

datatype inbox_http = InboxError nat string | InboxPage int "senderKeyDistributionItem list"

record inbox_io =
  ix_uin :: "uin option"
  ix_group :: string
  ix_page :: string
  ix_epoch :: bool
  ix_env :: "group_tables \<Rightarrow> group_tables"
  ix_now :: gotime
  ix_query :: outcome
  ix_scan :: bool

definition getSenderKeyDistributionsHandler ::
  "(string \<Rightarrow> 'k::linorder) \<Rightarrow> (gotime \<Rightarrow> string option) \<Rightarrow> (string \<Rightarrow> group_id option) \<Rightarrow> inbox_io \<Rightarrow> group_tables \<Rightarrow>
    inbox_http \<times> group_tables" where
  "getSenderKeyDistributionsHandler coll timeJSON ParseUUID io t =
     (case ix_uin io of
        None \<Rightarrow> (InboxError 401 ''AUTH_MISSING_BEARER'', t)
      | Some recipient \<Rightarrow>
          (case parseGroupIDParam ParseUUID (ix_group io) of
             None \<Rightarrow> (InboxError 400 ''GROUP_ID_INVALID'', t)
           | Some g \<Rightarrow>
               (case (if ix_epoch io \<and> is_member t g recipient then qGetGroupEpoch g t else None) of
                  None \<Rightarrow> (InboxError 403 ''NOT_A_MEMBER'', t)
                | Some epoch \<Rightarrow>
                    (case (if ix_page io = [] then Some 0 else ParseInt64 (ix_page io)) of
                       None \<Rightarrow> (InboxError 400 ''PAGE_INVALID'', t)
                     | Some page \<Rightarrow>
                         if page < 0 \<or> page > 10000 then (InboxError 400 ''PAGE_INVALID'', t)
                         else
                           let cur = ix_env io t;
                               (items, t1) = qGetSenderKeyDistributions coll (ix_now io) g recipient epoch
                                  maxSenderKeyInboxPageItems (nat page * maxSenderKeyInboxPageItems) cur
                           in if failed (ix_query io) then
                                (InboxError 500 ''DB_ERROR'', if took_effect (ix_query io) then t1 else cur)
                              else if \<not> ix_scan io then (InboxError 500 ''DB_ERROR'', t1)
                              else case take_page timeJSON page_start [] items of
                                None \<Rightarrow> (InboxError 500 ''ENCODE_ERROR'', t1)
                              | Some out \<Rightarrow> (InboxPage epoch out, t1)))))"

end
