(* ===== verification/GroupProperties.thy ===== *)
theory GroupProperties
  imports SenderKeys "HOL-Library.List_Lexorder" "HOL-Library.Char_ord"
begin

text \<open>
  What the group tables promise. A group is seen as a \<open>room\<close>: its row, its members and its sender keys.
  \<open>room_add\<close> and \<open>room_remove\<close> specify a change of membership; the statements refine them when no other
  transaction interferes, and every room stays well formed. \<open>stale_snapshot_orphans_group\<close> shows what two
  members leaving at once do.
\<close>

section \<open>Rooms\<close>

record room =
  ro_row :: group_row
  ro_members :: "member_row list"
  ro_keys :: "skd_row list"

definition keys_of :: "group_tables \<Rightarrow> group_id \<Rightarrow> skd_row list" where
  "keys_of t g = filter (\<lambda>r. sk_group r = g) (gt_keys t)"

definition room_of :: "group_tables \<Rightarrow> group_id \<Rightarrow> room option" where
  "room_of t g = map_option (\<lambda>r. \<lparr>ro_row = r, ro_members = members_of t g, ro_keys = keys_of t g\<rparr>) (find_group t g)"

text \<open>Specification of a new member and of a member who goes; None: the room is closed.\<close>

definition room_add :: "gotime \<Rightarrow> uin \<Rightarrow> room \<Rightarrow> room" where
  "room_add now u r =
     \<lparr>ro_row = (ro_row r)\<lparr>gr_epoch := gr_epoch (ro_row r) + 1\<rparr>,
      ro_members = ro_members r @ [\<lparr>mb_group = gr_id (ro_row r), mb_uin = u, mb_role = ''member'', mb_joined = now\<rparr>],
      ro_keys = map (\<lambda>k. if sk_epoch k = gr_epoch (ro_row r) then retire now k else k) (ro_keys r)\<rparr>"

definition heir :: "member_row list \<Rightarrow> uin option" where
  "heir ms = (case sort_key (\<lambda>m. (mb_joined m, mb_uin m)) ms of [] \<Rightarrow> None | m # _ \<Rightarrow> Some (mb_uin m))"

definition room_remove :: "gotime \<Rightarrow> uin \<Rightarrow> room \<Rightarrow> room option" where
  "room_remove now u r =
     (let rest = filter (\<lambda>m. mb_uin m \<noteq> u) (ro_members r) in
      if rest = [] then None
      else if gr_owner (ro_row r) = Some u then
        Some \<lparr>ro_row = (ro_row r)\<lparr>gr_epoch := gr_epoch (ro_row r) + 1, gr_owner := heir rest\<rparr>,
              ro_members = map (\<lambda>m. if heir rest = Some (mb_uin m) then m\<lparr>mb_role := ''admin''\<rparr> else m) rest,
              ro_keys = map (retire now) (ro_keys r)\<rparr>
      else Some \<lparr>ro_row = (ro_row r)\<lparr>gr_epoch := gr_epoch (ro_row r) + 1\<rparr>, ro_members = rest, ro_keys = map (retire now) (ro_keys r)\<rparr>)"

text \<open>A well-formed room: members are distinct, the owner is one of them and an admin, the epoch is positive,
  the keys in use are those of the current epoch, at most four per sender and recipient.\<close>

definition in_use :: "uin \<Rightarrow> uin \<Rightarrow> skd_row list \<Rightarrow> skd_row list" where
  "in_use recipient sender ks =
     filter (\<lambda>k. sk_recipient k = recipient \<and> sk_sender k = sender \<and> sk_retired k = None) ks"

definition room_ok :: "room \<Rightarrow> bool" where
  "room_ok r \<longleftrightarrow>
     distinct (map mb_uin (ro_members r)) \<and>
     (\<exists>m \<in> set (ro_members r). gr_owner (ro_row r) = Some (mb_uin m) \<and> mb_role m = ''admin'') \<and>
     1 \<le> gr_epoch (ro_row r) \<and>
     (\<forall>k \<in> set (ro_keys r). sk_epoch k \<le> gr_epoch (ro_row r) \<and> (sk_retired k = None \<longleftrightarrow> sk_epoch k = gr_epoch (ro_row r))) \<and>
     (\<forall>recipient sender. length (in_use recipient sender (ro_keys r)) \<le> senderKeyDepth)"

text \<open>Primary keys and foreign keys.\<close>

definition rows_ok :: "group_tables \<Rightarrow> bool" where
  "rows_ok t \<longleftrightarrow>
     distinct (map gr_id (gt_groups t)) \<and> distinct (map skd_key (gt_keys t)) \<and>
     mb_group ` set (gt_members t) \<subseteq> gr_id ` set (gt_groups t) \<and>
     sk_group ` set (gt_keys t) \<subseteq> gr_id ` set (gt_groups t)"

definition groups_ok :: "group_tables \<Rightarrow> bool" where
  "groups_ok t \<longleftrightarrow> rows_ok t \<and> (\<forall>g r. room_of t g = Some r \<longrightarrow> room_ok r)"

section \<open>Reading the tables\<close>

lemma find_group_id: "find_group t g = Some r \<Longrightarrow> gr_id r = g"
  by (auto simp: find_group_def find_Some_iff)

lemma find_group_mem: "find_group t g = Some r \<Longrightarrow> r \<in> set (gt_groups t)"
  by (auto simp: find_group_def find_Some_iff)

lemma find_group_None: "find_group t g = None \<longleftrightarrow> g \<notin> gr_id ` set (gt_groups t)"
  by (auto simp: find_group_def find_None_iff)

lemma is_member_iff: "is_member t g u \<longleftrightarrow> (\<exists>m \<in> set (members_of t g). mb_uin m = u)"
  by (auto simp: is_member_def members_of_def list_ex_iff)

lemma is_admin_iff: "is_admin t g u \<longleftrightarrow> (\<exists>m \<in> set (members_of t g). mb_uin m = u \<and> mb_role m = ''admin'')"
  by (auto simp: is_admin_def members_of_def list_ex_iff)

lemma key_visible_self [simp]: "r \<in> set (gt_keys t) \<Longrightarrow> key_visible t r"
  by (auto simp: key_visible_def list_ex_iff)

lemma retire_group [simp]: "sk_group (retire now k) = sk_group k" "sk_epoch (retire now k) = sk_epoch k"
  "skd_key (retire now k) = skd_key k" "sk_retired (retire now k) = Some (case sk_retired k of None \<Rightarrow> now | Some t \<Rightarrow> t)"
  by (simp_all add: retire_def skd_key_def)

lemma find_map_id:
  assumes "\<And>r. gr_id (f r) = gr_id r"
  shows "find (\<lambda>r. gr_id r = g) (map f rs) = map_option f (find (\<lambda>r. gr_id r = g) rs)"
  using assms by (induction rs) auto

lemma find_filter_id:
  "find (\<lambda>r. gr_id r = g) (filter (\<lambda>r. P (gr_id r)) rs) = (if P g then find (\<lambda>r. gr_id r = g) rs else None)"
  by (induction rs) auto

lemma filter_map_keep:
  assumes "\<And>r. P (f r) = P r"
  shows "filter P (map f rs) = map f (filter P rs)"
  using assms by (induction rs) auto

lemma map_if_other: "(\<And>r. r \<in> set rs \<Longrightarrow> \<not> Q r) \<Longrightarrow> map (\<lambda>r. if Q r then f r else r) rs = rs"
  by (induction rs) auto

lemma successor_heir: "successor g u t = heir (filter (\<lambda>m. mb_uin m \<noteq> u) (members_of t g))"
  by (simp add: successor_def heir_def)

lemma heir_cases:
  obtains "ms = []" "heir ms = None"
  | m rest where "sort_key (\<lambda>m. (mb_joined m, mb_uin m)) ms = m # rest" "heir ms = Some (mb_uin m)" "m \<in> set ms"
proof (cases "sort_key (\<lambda>m. (mb_joined m, mb_uin m)) ms")
  case Nil
  then have "set ms = {}" by (metis set_sort list.set(1))
  with Nil show ?thesis using that(1) by (simp add: heir_def)
next
  case (Cons m rest)
  then have "m \<in> set ms" by (metis set_sort list.set_intros(1))
  with Cons show ?thesis using that(2) by (simp add: heir_def)
qed

lemma heir_Some: "heir ms = Some u \<Longrightarrow> \<exists>m \<in> set ms. mb_uin m = u"
  by (rule heir_cases [of ms]) auto

lemma heir_None: "heir ms = None \<longleftrightarrow> ms = []"
  by (rule heir_cases [of ms]) auto

section \<open>Rooms after the basic updates\<close>

lemma room_of_eqI:
  assumes "find_group t g = find_group t' g" and "members_of t g = members_of t' g" and "keys_of t g = keys_of t' g"
  shows "room_of t g = room_of t' g"
  using assms by (simp add: room_of_def)

lemma room_upd_group:
  assumes "\<And>r. gr_id (f r) = gr_id r"
  shows "find_group (upd_group h f t) g = (if g = h then map_option f (find_group t g) else find_group t g)"
    and "members_of (upd_group h f t) g = members_of t g" and "keys_of (upd_group h f t) g = keys_of t g"
proof -
  have "find_group (upd_group h f t) g = map_option (\<lambda>r. if gr_id r = h then f r else r) (find_group t g)"
    using assms by (simp add: find_group_def upd_group_def find_map_id)
  then show "find_group (upd_group h f t) g = (if g = h then map_option f (find_group t g) else find_group t g)"
    by (cases "find_group t g") (auto dest: find_group_id)
qed (simp_all add: upd_group_def members_of_def keys_of_def)

lemma room_insert_member:
  "find_group (insert_member now h u role t) g = find_group t g"
  "members_of (insert_member now h u role t) g =
     members_of t g @ (if g = h then [\<lparr>mb_group = h, mb_uin = u, mb_role = role, mb_joined = now\<rparr>] else [])"
  "keys_of (insert_member now h u role t) g = keys_of t g"
  by (simp_all add: insert_member_def find_group_def members_of_def keys_of_def)

lemma room_delete_member:
  "find_group (delete_member h u t) g = find_group t g"
  "members_of (delete_member h u t) g =
     (if g = h then filter (\<lambda>m. mb_uin m \<noteq> u) (members_of t g) else members_of t g)"
  "keys_of (delete_member h u t) g = keys_of t g"
  by (auto simp: delete_member_def find_group_def members_of_def keys_of_def intro!: filter_cong)

lemma room_promote:
  "find_group (promote h s t) g = find_group t g"
  "members_of (promote h s t) g =
     (if g = h then map (\<lambda>m. if s = Some (mb_uin m) then m\<lparr>mb_role := ''admin''\<rparr> else m) (members_of t g) else members_of t g)"
  "keys_of (promote h s t) g = keys_of t g"
  by (auto simp: promote_def find_group_def members_of_def keys_of_def filter_map_keep intro!: map_idI map_cong)

lemma room_delete_group:
  "find_group (delete_group h t) g = (if g = h then None else find_group t g)"
  "members_of (delete_group h t) g = (if g = h then [] else members_of t g)"
  "keys_of (delete_group h t) g = (if g = h then [] else keys_of t g)"
  by (auto simp: delete_group_def find_group_def members_of_def keys_of_def find_filter_id [where P = "\<lambda>x. x \<noteq> h"] intro!: filter_cong)

lemma room_map_keys:
  assumes "\<And>k. sk_group (f k) = sk_group k"
  shows "find_group (t\<lparr>gt_keys := map f (gt_keys t)\<rparr>) g = find_group t g"
    and "members_of (t\<lparr>gt_keys := map f (gt_keys t)\<rparr>) g = members_of t g"
    and "keys_of (t\<lparr>gt_keys := map f (gt_keys t)\<rparr>) g = map f (keys_of t g)"
  using assms by (simp_all add: find_group_def members_of_def keys_of_def filter_map_keep)

lemmas room_updates = room_upd_group room_insert_member room_delete_member room_promote room_delete_group

section \<open>The statements refine the specification\<close>

lemma keys_visible_map:
  "map (\<lambda>k. if sk_group k = h \<and> P k \<and> key_visible t k then f k else k) (gt_keys t) =
   map (\<lambda>k. if sk_group k = h \<and> P k then f k else k) (gt_keys t)"
  by simp

lemma qInsert_cases:
  assumes "qInsertGroupMember now g a u t t = Some (authorized, inserted, t')"
  obtains "\<not> inserted" "t' = t" "authorized \<longrightarrow> is_admin t g a"
  | r where "authorized" "inserted" "find_group t g = Some r" "is_admin t g a" "\<not> is_member t g u" "user_exists t u"
      "gr_epoch r + 1 \<le> int64_max"
      "t' = (upd_group g (\<lambda>r. r\<lparr>gr_epoch := gr_epoch r + 1\<rparr>) (insert_member now g u ''member'' t))
         \<lparr>gt_keys := map (\<lambda>k. if sk_group k = g \<and> sk_epoch k = gr_epoch r then retire now k else k) (gt_keys t)\<rparr>"
  using assms
  by (fastforce simp: qInsertGroupMember_def Let_def upd_group_def insert_member_def split: option.splits if_splits
      intro!: map_cong)

theorem add_refines:
  assumes "qInsertGroupMember now g a u t t = Some (authorized, True, t')"
  shows "room_of t' h = (if h = g then map_option (room_add now u) (room_of t g) else room_of t h)"
proof (rule qInsert_cases [OF assms])
  fix r :: group_row
  let ?f = "\<lambda>k. if sk_group k = g \<and> sk_epoch k = gr_epoch r then retire now k else k"
  let ?t1 = "upd_group g (\<lambda>r. r\<lparr>gr_epoch := gr_epoch r + 1\<rparr>) (insert_member now g u ''member'' t)"
  assume r: "find_group t g = Some r" and t': "t' = ?t1\<lparr>gt_keys := map ?f (gt_keys t)\<rparr>"
  have k: "gt_keys ?t1 = gt_keys t" by (simp add: upd_group_def insert_member_def)
  note fs = room_map_keys [of ?f ?t1, unfolded k, folded t']
  have "map ?f (keys_of t g) = map (\<lambda>k. if sk_epoch k = gr_epoch r then retire now k else k) (keys_of t g)"
    by (auto simp: keys_of_def)
  moreover have "h \<noteq> g \<Longrightarrow> map ?f (keys_of t h) = keys_of t h" by (auto simp: keys_of_def intro: map_idI)
  ultimately show ?thesis using r find_group_id [OF r]
    by (simp add: room_of_def fs room_updates room_add_def)
qed simp

lemma qRemove_cases:
  assumes "qRemoveGroupMemberAtomically now g a u t t = Some (removed, n, t')"
  obtains "\<not> removed" "t' = t"
  | r where "removed" "find_group t g = Some r" "is_member t g u" "a = u \<or> is_admin t g a"
      "n = length (filter (\<lambda>m. mb_uin m \<noteq> u) (members_of t g))"
      "t' = (let t2 = (if gr_owner r = Some u then promote g (successor g u t) (delete_member g u t) else delete_member g u t);
                 t3 = (if n > 0 then upd_group g (\<lambda>r. r\<lparr>gr_epoch := gr_epoch r + 1,
                         gr_owner := (if gr_owner r = Some u then successor g u t else gr_owner r)\<rparr>) t2 else t2);
                 t4 = t3\<lparr>gt_keys := map (\<lambda>k. if sk_group k = g then retire now k else k) (gt_keys t3)\<rparr>
             in if n = 0 then delete_group g t4 else t4)"
proof (cases "find_group t g")
  case None
  then show ?thesis using assms that(1) by (simp add: qRemoveGroupMemberAtomically_def Let_def)
next
  case (Some r)
  show ?thesis
  proof (cases "is_member t g u \<and> (a = u \<or> is_admin t g a)")
    case False
    then show ?thesis using assms Some that(1) by (auto simp: qRemoveGroupMemberAtomically_def Let_def)
  next
    case True
    show ?thesis
      by (rule that(2) [OF _ Some]; use assms Some True in
          \<open>auto simp: qRemoveGroupMemberAtomically_def Let_def upd_group_def promote_def delete_member_def
             split: if_splits cong: map_cong\<close>)
  qed
qed

theorem remove_refines:
  assumes "qRemoveGroupMemberAtomically now g a u t t = Some (True, n, t')"
  shows "room_of t' h = (if h = g then Option.bind (room_of t g) (room_remove now u) else room_of t h)"
proof (rule qRemove_cases [OF assms])
  fix r :: group_row
  let ?f = "\<lambda>k. if sk_group k = g then retire now k else k"
  let ?rest = "filter (\<lambda>m. mb_uin m \<noteq> u) (members_of t g)"
  let ?t2 = "if gr_owner r = Some u then promote g (successor g u t) (delete_member g u t) else delete_member g u t"
  let ?t3 = "if n > 0 then upd_group g (\<lambda>r. r\<lparr>gr_epoch := gr_epoch r + 1,
      gr_owner := (if gr_owner r = Some u then successor g u t else gr_owner r)\<rparr>) ?t2 else ?t2"
  let ?t4 = "?t3\<lparr>gt_keys := map ?f (gt_keys ?t3)\<rparr>"
  assume r: "find_group t g = Some r" and n: "n = length ?rest"
    and t': "t' = (let t2 = ?t2; t3 = (if n > 0 then upd_group g (\<lambda>r. r\<lparr>gr_epoch := gr_epoch r + 1,
      gr_owner := (if gr_owner r = Some u then successor g u t else gr_owner r)\<rparr>) t2 else t2);
      t4 = t3\<lparr>gt_keys := map ?f (gt_keys t3)\<rparr> in if n = 0 then delete_group g t4 else t4)"
  have t': "t' = (if n = 0 then delete_group g ?t4 else ?t4)" unfolding t' Let_def ..
  note fs = room_map_keys [of ?f]
  have kg: "map ?f (keys_of t g) = map (retire now) (keys_of t g)" by (auto simp: keys_of_def)
  have kh: "h \<noteq> g \<Longrightarrow> map ?f (keys_of t h) = keys_of t h" by (auto simp: keys_of_def intro: map_idI)
  show ?thesis
    unfolding t' using r n kg kh find_group_id [OF r]
    by (cases "?rest = []"; cases "gr_owner r = Some u")
       (simp_all add: room_of_def fs room_updates room_remove_def successor_heir Let_def)
qed simp

text \<open>The effect on who is a member.\<close>

lemma add_members:
  assumes "qInsertGroupMember now g a u t t = Some (authorized, True, t')"
  shows "is_member t' h v \<longleftrightarrow> is_member t h v \<or> h = g \<and> v = u"
  by (rule qInsert_cases [OF assms]) (auto simp: is_member_def upd_group_def insert_member_def)

lemma is_member_updates:
  "is_member (upd_group g f t) h v = is_member t h v"
  "is_member (promote g s t) h v = is_member t h v"
  "is_member (delete_member g u t) h v \<longleftrightarrow> is_member t h v \<and> \<not> (h = g \<and> v = u)"
  "is_member (delete_group g t) h v \<longleftrightarrow> is_member t h v \<and> h \<noteq> g"
  "is_member (t\<lparr>gt_keys := ks\<rparr>) h v = is_member t h v"
proof -
  have "list_ex (\<lambda>m. mb_group m = h \<and> mb_uin m = v) (map (\<lambda>m. if Q m then m\<lparr>mb_role := ''admin''\<rparr> else m) ms) =
      list_ex (\<lambda>m. mb_group m = h \<and> mb_uin m = v) ms" for Q and ms :: "member_row list"
    by (induction ms) auto
  then show "is_member (promote g s t) h v = is_member t h v" by (simp add: is_member_def promote_def)
qed (auto simp: is_member_def upd_group_def delete_member_def delete_group_def list_ex_iff)

lemma remove_members:
  assumes "qRemoveGroupMemberAtomically now g a u t t = Some (True, n, t')"
  shows "is_member t' h v \<longleftrightarrow> is_member t h v \<and> \<not> (h = g \<and> v = u)"
proof (rule qRemove_cases [OF assms])
  fix r :: group_row
  assume n: "n = length (filter (\<lambda>m. mb_uin m \<noteq> u) (members_of t g))"
  have "n = 0 \<Longrightarrow> is_member t g w \<Longrightarrow> w = u" for w
    unfolding n by (auto simp: is_member_iff filter_empty_conv)
  then show "t' = (let t2 = (if gr_owner r = Some u then promote g (successor g u t) (delete_member g u t) else delete_member g u t);
      t3 = (if n > 0 then upd_group g (\<lambda>r. r\<lparr>gr_epoch := gr_epoch r + 1,
         gr_owner := (if gr_owner r = Some u then successor g u t else gr_owner r)\<rparr>) t2 else t2);
      t4 = t3\<lparr>gt_keys := map (\<lambda>k. if sk_group k = g then retire now k else k) (gt_keys t3)\<rparr>
    in if n = 0 then delete_group g t4 else t4) \<Longrightarrow> ?thesis"
    by (auto simp: Let_def is_member_updates)
qed simp

lemma filter_key:
  "filter (\<lambda>r. f r = g) (filter (\<lambda>r. P (f r)) rs) = (if P g then filter (\<lambda>r. f r = g) rs else [])"
  by (induction rs) auto

text \<open>Removing a user from every group is the user's leaving each of them.\<close>

theorem wipe_refines:
  assumes "qWipeGroupMemberships now u t t = Some t'"
  shows "room_of t' g = (if is_member t g u then Option.bind (room_of t g) (room_remove now u) else room_of t g)"
proof -
  let ?aff = "wipe_affects u t t" and ?s = "\<lambda>g. successor g u t"
  let ?gone = "\<lambda>g. ?aff g \<and> ?s g = None"
  let ?F = "\<lambda>r. if ?aff (gr_id r) \<and> ?s (gr_id r) \<noteq> None then r\<lparr>gr_epoch := gr_epoch r + 1,
      gr_owner := (if gr_owner r = Some u then ?s (gr_id r) else gr_owner r)\<rparr> else r"
  let ?P = "\<lambda>r. if ?aff (mb_group r) \<and> ?s (mb_group r) = Some (mb_uin r) \<and> owned_by u t (mb_group r)
      then r\<lparr>mb_role := ''admin''\<rparr> else r"
  let ?Q = "\<lambda>r. \<not> (mb_uin r = u \<and> is_member t (mb_group r) u)"
  let ?K = "\<lambda>r. if ?aff (sk_group r) \<and> key_visible t r then retire now r else r"
  have t': "t' = t\<lparr>gt_groups := filter (\<lambda>r. \<not> ?gone (gr_id r)) (map ?F (gt_groups t)),
      gt_members := filter (\<lambda>r. \<not> ?gone (mb_group r)) (map ?P (filter ?Q (gt_members t))),
      gt_keys := filter (\<lambda>r. \<not> ?gone (sk_group r)) (map ?K (gt_keys t))\<rparr>"
    using assms unfolding qWipeGroupMemberships_def Let_def by (simp split: if_splits)
  have F: "gr_id (?F r) = gr_id r" for r by simp
  have P: "(mb_group (?P r) = g) = (mb_group r = g)" for r by simp
  have K: "(sk_group (?K r) = g) = (sk_group r = g)" for r by simp
  have f: "find_group t' g = (if ?gone g then None else map_option ?F (find_group t g))"
    using find_filter_id [of g "\<lambda>g. \<not> ?gone g" "map ?F (gt_groups t)"] find_map_id [of ?F g "gt_groups t", OF F]
    unfolding t' find_group_def by (cases "?gone g") auto
  have m: "members_of t' g = (if ?gone g then [] else map ?P (filter ?Q (members_of t g)))"
    using filter_key [of mb_group g "\<lambda>g. \<not> ?gone g" "map ?P (filter ?Q (gt_members t))"]
      filter_map_keep [of "\<lambda>r. mb_group r = g" ?P "filter ?Q (gt_members t)", OF P]
    unfolding t' members_of_def by (cases "?gone g") (auto simp: conj_commute)
  have k: "keys_of t' g = (if ?gone g then [] else map ?K (keys_of t g))"
    using filter_key [of sk_group g "\<lambda>g. \<not> ?gone g" "map ?K (gt_keys t)"]
      filter_map_keep [of "\<lambda>r. sk_group r = g" ?K "gt_keys t", OF K]
    unfolding t' keys_of_def by (cases "?gone g") auto
  show ?thesis
  proof (cases "find_group t g")
    case None
    then show ?thesis using f by (simp add: room_of_def)
  next
    case (Some r)
    note id = find_group_id [OF Some]
    have kv: "x \<in> set (keys_of t g) \<Longrightarrow> key_visible t x \<and> sk_group x = g" for x by (simp add: keys_of_def)
    have mg: "x \<in> set (members_of t g) \<Longrightarrow> mb_group x = g" for x by (simp add: members_of_def)
    show ?thesis
    proof (cases "is_member t g u")
      case False
      then have "\<not> ?aff g" by (simp add: wipe_affects_def)
      moreover from this have "map ?P (filter ?Q (members_of t g)) = members_of t g"
        using mg False by (auto intro!: map_idI filter_True simp: filter_id_conv)
      moreover have "map ?K (keys_of t g) = keys_of t g" using kv \<open>\<not> ?aff g\<close> by (auto intro!: map_idI)
      ultimately show ?thesis using False Some id f m k by (simp add: room_of_def)
    next
      case True
      then have a: "?aff g" using Some by (simp add: wipe_affects_def)
      have q: "filter ?Q (members_of t g) = filter (\<lambda>m. mb_uin m \<noteq> u) (members_of t g)"
        using mg True by (auto intro: filter_cong)
      have p: "map ?P (filter ?Q (members_of t g)) =
          (if gr_owner r = Some u then map (\<lambda>m. if ?s g = Some (mb_uin m) then m\<lparr>mb_role := ''admin''\<rparr> else m)
             (filter (\<lambda>m. mb_uin m \<noteq> u) (members_of t g)) else filter (\<lambda>m. mb_uin m \<noteq> u) (members_of t g))"
        unfolding q using mg a Some by (auto simp: owned_by_def intro!: map_idI map_cong)
      have kk: "map ?K (keys_of t g) = map (retire now) (keys_of t g)" using kv a by (auto intro!: map_cong)
      show ?thesis using True Some id a f m k p kk
        by (cases "filter (\<lambda>m. mb_uin m \<noteq> u) (members_of t g) = []"; cases "gr_owner r = Some u")
           (auto simp: room_of_def room_remove_def successor_heir Let_def heir_None)
    qed
  qed
qed

section \<open>Rooms stay well formed\<close>

lemma in_use_none: "(\<forall>k \<in> set ks. sk_retired k \<noteq> None) \<Longrightarrow> in_use recipient sender ks = []"
  by (auto simp: in_use_def filter_empty_conv)

lemma room_okI:
  assumes "distinct (map mb_uin ms)" and "m \<in> set ms" and "gr_owner row = Some (mb_uin m)" and "mb_role m = ''admin''"
    and "1 \<le> gr_epoch row" and "\<forall>k \<in> set ks. sk_epoch k < gr_epoch row \<and> sk_retired k \<noteq> None"
  shows "room_ok \<lparr>ro_row = row, ro_members = ms, ro_keys = ks\<rparr>"
  using assms in_use_none [of ks] by (fastforce simp: room_ok_def)

lemma room_ok_keys:
  "room_ok r \<Longrightarrow> k \<in> set (ro_keys r) \<Longrightarrow> sk_epoch k < gr_epoch (ro_row r) + 1"
  "room_ok r \<Longrightarrow> k \<in> set (ro_keys r) \<Longrightarrow> sk_epoch k \<noteq> gr_epoch (ro_row r) \<Longrightarrow> sk_retired k \<noteq> None"
  by (auto simp: room_ok_def)

lemma room_ok_add:
  assumes ok: "room_ok r" and u: "u \<notin> mb_uin ` set (ro_members r)"
  shows "room_ok (room_add now u r)"
proof -
  obtain m where m: "m \<in> set (ro_members r)" "gr_owner (ro_row r) = Some (mb_uin m)" "mb_role m = ''admin''"
    using ok by (auto simp: room_ok_def)
  show ?thesis unfolding room_add_def
  proof (rule room_okI [where m = m])
    show "\<forall>k \<in> set (map (\<lambda>k. if sk_epoch k = gr_epoch (ro_row r) then retire now k else k) (ro_keys r)).
        sk_epoch k < gr_epoch ((ro_row r)\<lparr>gr_epoch := gr_epoch (ro_row r) + 1\<rparr>) \<and> sk_retired k \<noteq> None"
      using room_ok_keys [OF ok] by auto
  qed (use ok m u in \<open>auto simp: room_ok_def\<close>)
qed

lemma room_ok_remove:
  assumes ok: "room_ok r" and r': "room_remove now u r = Some r'"
  shows "room_ok r'"
proof -
  let ?rest = "filter (\<lambda>m. mb_uin m \<noteq> u) (ro_members r)"
  obtain m where m: "m \<in> set (ro_members r)" "gr_owner (ro_row r) = Some (mb_uin m)" "mb_role m = ''admin''"
    using ok by (auto simp: room_ok_def)
  have d: "distinct (map mb_uin ?rest)" using ok by (simp add: room_ok_def distinct_map_filter)
  have keys: "\<forall>k \<in> set (map (retire now) (ro_keys r)). sk_epoch k < gr_epoch (ro_row r) + 1 \<and> sk_retired k \<noteq> None"
    using room_ok_keys [OF ok] by auto
  have ep: "1 \<le> gr_epoch (ro_row r)" using ok by (simp add: room_ok_def)
  have ne: "?rest \<noteq> []" using r' by (auto simp: room_remove_def Let_def split: if_splits)
  show ?thesis
  proof (cases "gr_owner (ro_row r) = Some u")
    case False
    then have "r' = \<lparr>ro_row = (ro_row r)\<lparr>gr_epoch := gr_epoch (ro_row r) + 1\<rparr>, ro_members = ?rest, ro_keys = map (retire now) (ro_keys r)\<rparr>"
      using r' ne by (simp add: room_remove_def Let_def split: if_splits)
    then show ?thesis using room_okI [OF d, of m "(ro_row r)\<lparr>gr_epoch := gr_epoch (ro_row r) + 1\<rparr>"] m False keys ep by auto
  next
    case True
    from ne obtain v where v: "heir ?rest = Some v" using heir_None [of ?rest] by (cases "heir ?rest") simp_all
    from heir_Some [OF v] obtain h where h: "h \<in> set ?rest" "mb_uin h = v" by blast
    let ?ms = "map (\<lambda>m. if heir ?rest = Some (mb_uin m) then m\<lparr>mb_role := ''admin''\<rparr> else m) ?rest"
    have r'': "r' = \<lparr>ro_row = (ro_row r)\<lparr>gr_epoch := gr_epoch (ro_row r) + 1, gr_owner := heir ?rest\<rparr>,
        ro_members = ?ms, ro_keys = map (retire now) (ro_keys r)\<rparr>"
      using r' ne True by (simp add: room_remove_def Let_def split: if_splits)
    have "map mb_uin ?ms = map mb_uin ?rest" by simp
    then have "distinct (map mb_uin ?ms)" using d by metis
    moreover have "h\<lparr>mb_role := ''admin''\<rparr> \<in> set ?ms" using h v by (auto simp: image_iff intro!: bexI [of _ h])
    ultimately show ?thesis unfolding r'' using keys ep v h(2)
      by (intro room_okI [where m = "h\<lparr>mb_role := ''admin''\<rparr>"]) auto
  qed
qed

text \<open>Fewer than \<open>n\<close> rows precede a row in a strict order for at most \<open>n\<close> rows.\<close>

lemma few_high_ranks:
  fixes key :: "'a \<Rightarrow> 'k::linorder"
  assumes d: "distinct (map key xs)"
  shows "length (filter (\<lambda>x. length (filter (\<lambda>y. key y > key x) xs) < n) xs) \<le> n"
proof (rule ccontr)
  let ?T = "filter (\<lambda>x. length (filter (\<lambda>y. key y > key x) xs) < n) xs"
  assume "\<not> length ?T \<le> n"
  then have big: "n < length ?T" by simp
  have dx: "distinct xs" and inj: "inj_on key (set xs)" using d by (simp_all add: distinct_map)
  have fin: "finite (set ?T)" and ne: "set ?T \<noteq> {}" using big by (simp, metis length_0_conv not_less0 set_empty)
  obtain m where m: "m \<in> set ?T" "\<forall>y \<in> set ?T. key m \<le> key y"
    using arg_min_if_finite [OF fin ne, of key] by (metis linorder_not_less)
  have "set ?T - {m} \<subseteq> set (filter (\<lambda>y. key y > key m) xs)"
  proof
    fix y assume y: "y \<in> set ?T - {m}"
    then have "key y \<noteq> key m" using inj m(1) by (auto simp: inj_on_def)
    with m(2) y have "key m < key y" by (simp add: order_le_neq_trans)
    with y show "y \<in> set (filter (\<lambda>y. key y > key m) xs)" by simp
  qed
  then have "card (set ?T - {m}) \<le> length (filter (\<lambda>y. key y > key m) xs)"
    by (meson card_length card_mono finite_set le_trans)
  moreover have "length (filter (\<lambda>y. key y > key m) xs) < n" using m(1) by simp
  moreover have "card (set ?T) = length ?T" using dx by (intro distinct_card) simp
  moreover have "card (set ?T - {m}) = card (set ?T) - 1" using m(1) by (rule card_Diff_singleton)
  ultimately show False using big by linarith
qed

lemma active_keys_distinct:
  assumes "rows_ok t" and "inj coll"
  shows "distinct (map (\<lambda>k. (sk_created k, coll (sk_id k))) (active_keys g epoch recipient sender t))"
proof -
  let ?A = "active_keys g epoch recipient sender t"
  have "distinct (map skd_key ?A)" using assms(1) by (simp add: rows_ok_def active_keys_def distinct_map_filter)
  then have d: "distinct ?A" and i: "inj_on skd_key (set ?A)" by (simp_all add: distinct_map)
  have "inj_on (\<lambda>k. (sk_created k, coll (sk_id k))) (set ?A)"
  proof (rule inj_onI)
    fix x y assume xy: "x \<in> set ?A" "y \<in> set ?A" "(sk_created x, coll (sk_id x)) = (sk_created y, coll (sk_id y))"
    then have "skd_key x = skd_key y" using injD [OF assms(2)] by (auto simp: active_keys_def skd_key_def)
    with i xy show "x = y" by (auto simp: inj_on_def)
  qed
  with d show ?thesis by (simp add: distinct_map)
qed

lemma active_keys_in_use:
  assumes "room_ok r" and "room_of t g = Some r" and "gr_epoch (ro_row r) = epoch"
  shows "active_keys g epoch recipient sender t = in_use recipient sender (ro_keys r)"
proof -
  have k: "ro_keys r = filter (\<lambda>k. sk_group k = g) (gt_keys t)" using assms(2) by (auto simp: room_of_def keys_of_def)
  have "sk_retired k = None \<longleftrightarrow> sk_epoch k = epoch" if "k \<in> set (ro_keys r)" for k
    using assms that by (auto simp: room_ok_def)
  then show ?thesis unfolding active_keys_def in_use_def k by (auto intro: filter_cong)
qed

text \<open>The statement that stores a key, split into what it drops and what it adds.\<close>

definition new_key :: "gotime \<Rightarrow> group_id \<Rightarrow> uin \<Rightarrow> putSenderKeyDistributionRequest \<Rightarrow> skd_row" where
  "new_key now g sender req =
     \<lparr>sk_group = g, sk_epoch = ps_Epoch req, sk_recipient = ps_RecipientUIN req, sk_sender = sender, sk_id = ps_DistributionID req,
      sk_ciphertext = ps_Ciphertext req, sk_msg_type = ps_MsgType req, sk_created = now, sk_retired = None\<rparr>"

definition dropped :: "(string \<Rightarrow> 'k::linorder) \<Rightarrow> gotime \<Rightarrow> group_id \<Rightarrow> uin \<Rightarrow> putSenderKeyDistributionRequest \<Rightarrow> group_tables \<Rightarrow> skd_row \<Rightarrow> bool" where
  "dropped coll now g sender req t k \<longleftrightarrow>
     (let active = active_keys g (ps_Epoch req) (ps_RecipientUIN req) sender t in
      sk_group k = g \<and> sk_recipient k = ps_RecipientUIN req \<and> expired now k \<or>
      put_eligible g sender (ps_RecipientUIN req) (ps_Epoch req) t t \<and> \<not> key_visible t (new_key now g sender req) \<and>
      k \<in> set active \<and> rank_in coll active k \<ge> senderKeyDepth)"

lemma qPut_serial:
  assumes "qPutSenderKeyDistribution coll now g sender req t t = (eligible, inserted, t')"
  shows "eligible = put_eligible g sender (ps_RecipientUIN req) (ps_Epoch req) t t"
    and "inserted \<longleftrightarrow> eligible \<and> \<not> key_visible t (new_key now g sender req)"
    and "t' = t\<lparr>gt_keys := filter (\<lambda>k. \<not> dropped coll now g sender req t k) (gt_keys t) @
           (if inserted then [new_key now g sender req] else [])\<rparr>"
  using assms unfolding qPutSenderKeyDistribution_def Let_def dropped_def new_key_def
  by (auto cong: filter_cong)

lemma put_room:
  assumes "qPutSenderKeyDistribution coll now g sender req t t = (eligible, inserted, t')"
  shows "find_group t' h = find_group t h" and "members_of t' h = members_of t h"
    and "keys_of t' h = (if h = g then filter (\<lambda>k. \<not> dropped coll now g sender req t k) (keys_of t g) @
           (if inserted then [new_key now g sender req] else []) else keys_of t h)"
proof -
  have d: "dropped coll now g sender req t k \<Longrightarrow> sk_group k = g" for k
    by (auto simp: dropped_def active_keys_def Let_def)
  have "filter (\<lambda>k. sk_group k = h) (filter (\<lambda>k. \<not> dropped coll now g sender req t k) (gt_keys t)) =
      (if h = g then filter (\<lambda>k. \<not> dropped coll now g sender req t k) (keys_of t g) else keys_of t h)"
    using d by (auto simp: keys_of_def intro!: filter_cong)
  then show "keys_of t' h = (if h = g then filter (\<lambda>k. \<not> dropped coll now g sender req t k) (keys_of t g) @
      (if inserted then [new_key now g sender req] else []) else keys_of t h)"
    unfolding qPut_serial(3) [OF assms] by (auto simp: keys_of_def new_key_def)
qed (simp_all add: qPut_serial(3) [OF assms] find_group_def members_of_def)

lemma trimmed_bound:
  assumes "rows_ok t" and "inj coll"
  shows "length (filter (\<lambda>k. \<not> rank_in coll (active_keys g epoch recipient sender t) k \<ge> senderKeyDepth)
    (active_keys g epoch recipient sender t)) < senderKeyDepth"
  using few_high_ranks [OF active_keys_distinct [OF assms, of g epoch recipient sender], of 3]
  by (simp add: rank_in_def senderKeyDepth_def numeral_3_eq_3 not_le less_Suc_eq_le)

lemma filter_length_mono: "(\<And>x. x \<in> set xs \<Longrightarrow> P x \<Longrightarrow> Q x) \<Longrightarrow> length (filter P xs) \<le> length (filter Q xs)"
  by (induction xs) auto

lemma put_in_use:
  assumes ok: "groups_ok t" and inj: "inj coll"
    and put: "qPutSenderKeyDistribution coll now g sender req t t = (eligible, inserted, t')"
    and r: "room_of t g = Some r"
  shows "length (in_use rc sd (keys_of t' g)) \<le> senderKeyDepth"
proof -
  have rk: "room_ok r" and ro: "rows_ok t" using ok r by (auto simp: groups_ok_def)
  have kr: "ro_keys r = keys_of t g" and row: "find_group t g = Some (ro_row r)" using r by (auto simp: room_of_def)
  let ?kept = "filter (\<lambda>k. \<not> dropped coll now g sender req t k) (keys_of t g)"
  have old: "length (in_use rc sd ?kept) \<le> length (in_use rc sd (keys_of t g))"
    unfolding in_use_def filter_filter by (rule filter_length_mono) simp
  have le: "length (in_use rc sd (keys_of t g)) \<le> senderKeyDepth" using rk kr by (simp add: room_ok_def)
  show ?thesis
  proof (cases "inserted \<and> rc = ps_RecipientUIN req \<and> sd = sender")
    case False
    then have "in_use rc sd (keys_of t' g) = in_use rc sd ?kept"
      unfolding put_room(3) [OF put] in_use_def by (auto simp: new_key_def)
    then show ?thesis using old le by simp
  next
    case True
    let ?A = "active_keys g (ps_Epoch req) rc sd t"
    have e: "put_eligible g sender (ps_RecipientUIN req) (ps_Epoch req) t t" "\<not> key_visible t (new_key now g sender req)"
      using qPut_serial(1,2) [OF put] True by auto
    then have "gr_epoch (ro_row r) = ps_Epoch req" using row by (auto simp: put_eligible_def)
    then have A: "in_use rc sd (keys_of t g) = ?A" using active_keys_in_use [OF rk r] kr by simp
    have "in_use rc sd ?kept = filter (\<lambda>k. \<not> dropped coll now g sender req t k) (in_use rc sd (keys_of t g))"
      unfolding in_use_def by (simp add: conj_commute)
    also have "\<dots> = filter (\<lambda>k. \<not> dropped coll now g sender req t k) ?A" by (simp add: A)
    finally have "length (in_use rc sd ?kept) \<le> length (filter (\<lambda>k. \<not> rank_in coll ?A k \<ge> senderKeyDepth) ?A)"
      using e True by (auto simp: dropped_def Let_def intro!: filter_length_mono)
    then have "length (in_use rc sd ?kept) < senderKeyDepth" using trimmed_bound [OF ro inj] by (rule le_less_trans)
    moreover have "in_use rc sd (keys_of t' g) = in_use rc sd ?kept @ [new_key now g sender req]"
      unfolding put_room(3) [OF put] using True by (simp add: in_use_def new_key_def)
    ultimately show ?thesis by simp
  qed
qed

section \<open>Steps of the tables\<close>

text \<open>The statements that change a table, one transaction at a time, and the handlers that run them.\<close>

inductive stmt_step :: "(string \<Rightarrow> 'k::linorder) \<Rightarrow> group_tables \<Rightarrow> group_tables \<Rightarrow> bool" for coll where
  created: "qCreateGroup now uuid name owner t = Some (r, t1) \<Longrightarrow> qInsertGroupAdmin now (gr_id r) owner t1 = Some t' \<Longrightarrow> stmt_step coll t t'"
| added: "qInsertGroupMember now g a u t t = Some (authorized, True, t') \<Longrightarrow> stmt_step coll t t'"
| removed: "qRemoveGroupMemberAtomically now g a u t t = Some (True, n, t') \<Longrightarrow> stmt_step coll t t'"
| deleted: "stmt_step coll t (delete_group g t)"
| stored: "qPutSenderKeyDistribution coll now g sender req t t = (eligible, inserted, t') \<Longrightarrow> stmt_step coll t t'"
| fetched: "qGetSenderKeyDistributions coll now g recipient epoch limit offset t = (items, t') \<Longrightarrow> stmt_step coll t t'"
| wiped: "qWipeGroupMemberships now u t t = Some t' \<Longrightarrow> stmt_step coll t t'"

inductive group_step :: "(string \<Rightarrow> 'k::linorder) \<Rightarrow> (string \<Rightarrow> group_id option) \<Rightarrow> group_tables \<Rightarrow> group_tables \<Rightarrow> bool" for coll ParseUUID where
  create: "createGroupHandler io t = (res, t') \<Longrightarrow> group_step coll ParseUUID t t'"
| add: "addGroupMemberHandler ParseUUID io t = (res, ms, t') \<Longrightarrow> am_wait io = id \<Longrightarrow> group_step coll ParseUUID t t'"
| remove: "removeGroupMemberHandler ParseUUID io t = (res, t') \<Longrightarrow> rm_env io = id \<Longrightarrow> rm_wait io = id \<Longrightarrow> group_step coll ParseUUID t t'"
| delete: "deleteGroupHandler ParseUUID out u raw t = (res, t') \<Longrightarrow> group_step coll ParseUUID t t'"
| put: "putSenderKeyDistributionHandler coll ParseUUID io t = (res, t') \<Longrightarrow> pk_wait io = id \<Longrightarrow> group_step coll ParseUUID t t'"
| inbox: "getSenderKeyDistributionsHandler coll timeJSON ParseUUID io t = (page, t') \<Longrightarrow> ix_env io = id \<Longrightarrow> group_step coll ParseUUID t t'"
| wipe: "qWipeGroupMemberships now u t t = Some t' \<Longrightarrow> group_step coll ParseUUID t t'"

lemma create_stmt:
  assumes "createGroupHandler io t = (res, t')" shows "t' = t \<or> stmt_step coll t t'"
  using assms by (auto simp: createGroupHandler_def Let_def split: option.splits sum.splits if_splits prod.splits
      intro: stmt_step.created)

lemma add_stmt:
  assumes "addGroupMemberHandler ParseUUID io t = (res, ms, t')" and "am_wait io = id"
  shows "t' = t \<or> stmt_step coll t t'"
proof (cases "\<exists>g a u authorized inserted. qInsertGroupMember (am_now io) g a u t t = Some (authorized, inserted, t')")
  case True
  then obtain g a u authorized inserted where q: "qInsertGroupMember (am_now io) g a u t t = Some (authorized, inserted, t')"
    by blast
  then show ?thesis by (rule qInsert_cases) (use q in \<open>auto intro: stmt_step.added\<close>)
next
  case False
  then show ?thesis using assms
    by (auto simp: addGroupMemberHandler_def Let_def split: option.splits sum.splits if_splits prod.splits)
qed

lemma remove_stmt:
  assumes "removeGroupMemberHandler ParseUUID io t = (res, t')" and "rm_env io = id" and "rm_wait io = id"
  shows "t' = t \<or> stmt_step coll t t'"
proof (cases "\<exists>g a u removed n. qRemoveGroupMemberAtomically (rm_now io) g a u t t = Some (removed, n, t')")
  case True
  then obtain g a u removed n where q: "qRemoveGroupMemberAtomically (rm_now io) g a u t t = Some (removed, n, t')"
    by blast
  then show ?thesis by (rule qRemove_cases) (use q in \<open>auto intro: stmt_step.removed\<close>)
next
  case False
  then show ?thesis using assms
    by (auto simp: removeGroupMemberHandler_def Let_def split: option.splits sum.splits if_splits prod.splits)
qed

lemma delete_stmt:
  assumes "deleteGroupHandler ParseUUID out u raw t = (res, t')" shows "t' = t \<or> stmt_step coll t t'"
  using assms by (auto simp: deleteGroupHandler_def delete_owned_group_def Let_def split: option.splits if_splits prod.splits
      intro: stmt_step.deleted)

lemma put_stmt:
  assumes "putSenderKeyDistributionHandler coll ParseUUID io t = (res, t')" and "pk_wait io = id"
  shows "t' = t \<or> stmt_step coll t t'"
  using assms by (auto simp: putSenderKeyDistributionHandler_def Let_def split: option.splits sum.splits if_splits prod.splits
      intro: stmt_step.stored)

lemma inbox_stmt:
  assumes "getSenderKeyDistributionsHandler coll timeJSON ParseUUID io t = (page, t')" and "ix_env io = id"
  shows "t' = t \<or> stmt_step coll t t'"
  using assms by (auto simp: getSenderKeyDistributionsHandler_def Let_def split: option.splits if_splits prod.splits
      intro: stmt_step.fetched)

lemma group_step_stmt: "group_step coll ParseUUID t t' \<Longrightarrow> t' = t \<or> stmt_step coll t t'"
  by (induction rule: group_step.induct)
     (erule create_stmt, erule (1) add_stmt, erule (2) remove_stmt, erule delete_stmt, erule (1) put_stmt,
      erule (1) inbox_stmt, erule disjI2 [OF stmt_step.wiped])

section \<open>The invariant\<close>

lemma rows_ok_upd_group:
  assumes "\<And>r. gr_id (f r) = gr_id r"
  shows "rows_ok (upd_group g f t) = rows_ok t"
proof -
  have "map gr_id (gt_groups (upd_group g f t)) = map gr_id (gt_groups t)" using assms by (simp add: upd_group_def)
  moreover from this have "gr_id ` set (gt_groups (upd_group g f t)) = gr_id ` set (gt_groups t)" by (metis image_set)
  moreover have "gt_members (upd_group g f t) = gt_members t" "gt_keys (upd_group g f t) = gt_keys t"
    by (simp_all add: upd_group_def)
  ultimately show ?thesis unfolding rows_ok_def by metis
qed

lemma rows_ok_map_keys:
  assumes "\<And>k. skd_key (f k) = skd_key k"
  shows "rows_ok (t\<lparr>gt_keys := map f (gt_keys t)\<rparr>) = rows_ok t"
proof -
  have "sk_group (f k) = sk_group k" for k using assms [of k] by (simp add: skd_key_def)
  then show ?thesis using assms by (simp add: rows_ok_def image_image o_def)
qed

lemma rows_ok_members:
  assumes "rows_ok t" and "mb_group ` set ms \<subseteq> mb_group ` set (gt_members t) \<union> gr_id ` set (gt_groups t)"
  shows "rows_ok (t\<lparr>gt_members := ms\<rparr>)"
  using assms by (auto simp: rows_ok_def)

lemma rows_ok_insert_member: "rows_ok t \<Longrightarrow> find_group t g \<noteq> None \<Longrightarrow> rows_ok (insert_member now g u role t)"
  unfolding insert_member_def by (rule rows_ok_members) (auto simp: find_group_None)

lemma rows_ok_delete_member: "rows_ok t \<Longrightarrow> rows_ok (delete_member g u t)"
  unfolding delete_member_def by (rule rows_ok_members) auto

lemma rows_ok_promote: "rows_ok t \<Longrightarrow> rows_ok (promote g s t)"
  unfolding promote_def by (rule rows_ok_members) (auto split: if_splits)

lemma rows_ok_delete_group: "rows_ok t \<Longrightarrow> rows_ok (delete_group g t)"
  by (auto simp: rows_ok_def delete_group_def distinct_map_filter image_subset_iff)

lemma rows_ok_fewer_keys: "rows_ok t \<Longrightarrow> rows_ok (t\<lparr>gt_keys := filter P (gt_keys t)\<rparr>)"
  by (auto simp: rows_ok_def distinct_map_filter)

lemmas rows_ok_updates = rows_ok_upd_group rows_ok_map_keys rows_ok_insert_member rows_ok_delete_member rows_ok_promote
  rows_ok_delete_group rows_ok_fewer_keys

lemma no_group_no_rows:
  assumes "rows_ok t" and "find_group t g = None"
  shows "members_of t g = []" and "keys_of t g = []"
  using assms by (auto simp: rows_ok_def find_group_None members_of_def keys_of_def filter_empty_conv image_subset_iff)

lemma in_use_Nil [simp]: "in_use recipient sender [] = []"
  by (simp add: in_use_def)

lemma groups_ok_created:
  assumes ok: "groups_ok t" and c: "qCreateGroup now uuid name owner t = Some (r, t1)"
    and a: "qInsertGroupAdmin now (gr_id r) owner t1 = Some t'"
  shows "groups_ok t'"
proof -
  have r: "r = \<lparr>gr_id = uuid, gr_name = name, gr_owner = Some owner, gr_epoch = 1, gr_created = now\<rparr>"
    and t1: "t1 = t\<lparr>gt_groups := gt_groups t @ [r]\<rparr>" and none: "find_group t uuid = None"
    using c by (auto simp: qCreateGroup_def Let_def split: if_splits)
  have t': "t' = insert_member now uuid owner ''admin'' t1" using a r by (auto simp: qInsertGroupAdmin_def split: if_splits)
  have rows: "rows_ok t" using ok by (simp add: groups_ok_def)
  note empty = no_group_no_rows [OF rows none]
  have f1: "find_group t1 g = (if g = uuid then Some r else find_group t g)" for g
    using none unfolding find_group_def t1 r by (auto simp: find_snoc split: option.splits)
  have m1: "members_of t1 g = members_of t g" and k1: "keys_of t1 g = keys_of t g" for g
    by (simp_all add: t1 members_of_def keys_of_def)
  have "rows_ok t1" using rows none unfolding t1 r by (auto simp: rows_ok_def find_group_None)
  then have rows': "rows_ok t'" unfolding t' using f1 [of uuid] by (intro rows_ok_insert_member) auto
  have "room_of t' g = (if g = uuid then Some \<lparr>ro_row = r, ro_members = [\<lparr>mb_group = uuid, mb_uin = owner, mb_role = ''admin'', mb_joined = now\<rparr>], ro_keys = []\<rparr> else room_of t g)" for g
    using empty by (simp add: room_of_def t' room_insert_member f1 m1 k1)
  then show ?thesis using ok rows' r
    by (auto simp: groups_ok_def room_ok_def senderKeyDepth_def split: if_splits)
qed

lemma groups_ok_rooms:
  assumes "rows_ok t'" and "\<And>g r. room_of t' g = Some r \<Longrightarrow> room_ok r"
  shows "groups_ok t'"
  using assms by (simp add: groups_ok_def)

lemma groups_ok_added:
  assumes ok: "groups_ok t" and a: "qInsertGroupMember now g a u t t = Some (authorized, True, t')"
  shows "groups_ok t'"
proof (rule qInsert_cases [OF a])
  fix r :: group_row
  let ?t1 = "upd_group g (\<lambda>r. r\<lparr>gr_epoch := gr_epoch r + 1\<rparr>) (insert_member now g u ''member'' t)"
  let ?f = "\<lambda>k. if sk_group k = g \<and> sk_epoch k = gr_epoch r then retire now k else k"
  assume r: "find_group t g = Some r" and nm: "\<not> is_member t g u" and t': "t' = ?t1\<lparr>gt_keys := map ?f (gt_keys t)\<rparr>"
  have rows: "rows_ok t" using ok by (simp add: groups_ok_def)
  have "gt_keys ?t1 = gt_keys t" by (simp add: upd_group_def insert_member_def)
  then have "rows_ok t' = rows_ok ?t1" unfolding t' using rows_ok_map_keys [of ?f ?t1] by simp
  then have "rows_ok t'" using rows r by (simp add: rows_ok_updates)
  then show ?thesis
  proof (rule groups_ok_rooms)
    fix h r' assume r': "room_of t' h = Some r'"
    show "room_ok r'"
    proof (cases "h = g")
      case True
      then obtain r0 :: room where "room_of t g = Some r0" "r' = room_add now u r0"
        using add_refines [OF a, of h] r' by auto
      moreover from this have "u \<notin> mb_uin ` set (ro_members r0)"
        using nm by (auto simp: is_member_iff room_of_def)
      ultimately show ?thesis using ok by (auto simp: groups_ok_def intro: room_ok_add)
    qed (use ok r' add_refines [OF a, of h] in \<open>auto simp: groups_ok_def\<close>)
  qed
qed (use ok in auto)

lemma groups_ok_removed:
  assumes ok: "groups_ok t" and q: "qRemoveGroupMemberAtomically now g a u t t = Some (True, n, t')"
  shows "groups_ok t'"
proof (rule groups_ok_rooms)
  have rows: "rows_ok t" using ok by (simp add: groups_ok_def)
  show "rows_ok t'"
    by (rule qRemove_cases [OF q]) (use rows in \<open>simp_all add: Let_def rows_ok_updates\<close>)
  fix h r' assume "room_of t' h = Some r'"
  then show "room_ok r'"
    using ok remove_refines [OF q, of h] by (auto simp: groups_ok_def bind_eq_Some_conv split: if_splits intro: room_ok_remove)
qed

lemma rows_ok_filtered:
  assumes ok: "rows_ok t" and F: "\<And>r. gr_id (F r) = gr_id r" and K: "\<And>k. skd_key (K k) = skd_key k"
    and ms: "mb_group ` set ms \<subseteq> mb_group ` set (gt_members t)"
  shows "rows_ok (t\<lparr>gt_groups := filter (\<lambda>r. P (gr_id r)) (map F (gt_groups t)), gt_members := filter (\<lambda>r. P (mb_group r)) ms,
    gt_keys := filter (\<lambda>r. P (sk_group r)) (map K (gt_keys t))\<rparr>)"
proof -
  have "map gr_id (map F (gt_groups t)) = map gr_id (gt_groups t)" "map skd_key (map K (gt_keys t)) = map skd_key (gt_keys t)"
    using F K by simp_all
  then have "distinct (map gr_id (map F (gt_groups t)))" "distinct (map skd_key (map K (gt_keys t)))"
    using ok by (simp_all only: rows_ok_def)
  then have "distinct (map gr_id (filter (\<lambda>r. P (gr_id r)) (map F (gt_groups t))))"
    "distinct (map skd_key (filter (\<lambda>r. P (sk_group r)) (map K (gt_keys t))))"
    by (auto intro: distinct_map_filter)
  moreover have "gr_id ` set (filter (\<lambda>r. P (gr_id r)) (map F (gt_groups t))) = {g \<in> gr_id ` set (gt_groups t). P g}"
    using F by (force simp: image_iff)
  moreover have "sk_group (K k) = sk_group k" for k using K [of k] by (simp add: skd_key_def)
  then have "sk_group ` set (filter (\<lambda>r. P (sk_group r)) (map K (gt_keys t))) \<subseteq> {g \<in> gr_id ` set (gt_groups t). P g}"
    using ok by (auto simp: rows_ok_def image_subset_iff)
  moreover have "mb_group ` set (filter (\<lambda>r. P (mb_group r)) ms) \<subseteq> {g \<in> gr_id ` set (gt_groups t). P g}"
    using ok ms by (auto simp: rows_ok_def)
  ultimately show ?thesis unfolding rows_ok_def by simp
qed

lemma groups_ok_wiped:
  assumes ok: "groups_ok t" and q: "qWipeGroupMemberships now u t t = Some t'"
  shows "groups_ok t'"
proof (rule groups_ok_rooms)
  have rows: "rows_ok t" using ok by (simp add: groups_ok_def)
  show "rows_ok t'" using q unfolding qWipeGroupMemberships_def Let_def
    by (auto split: if_splits intro!: rows_ok_filtered [OF rows])
  fix h r' assume "room_of t' h = Some r'"
  then show "room_ok r'"
    using ok wipe_refines [OF q, of h] by (auto simp: groups_ok_def bind_eq_Some_conv split: if_splits intro: room_ok_remove)
qed

lemma groups_ok_deleted: "groups_ok t \<Longrightarrow> groups_ok (delete_group g t)"
  by (auto simp: groups_ok_def room_of_def rows_ok_delete_group room_delete_group split: if_splits)

lemma room_ok_fewer_keys:
  assumes "room_ok r" and "ks = filter P (ro_keys r)"
  shows "room_ok (r\<lparr>ro_keys := ks\<rparr>)"
proof -
  have "length (in_use rc sd ks) \<le> senderKeyDepth" for rc sd
  proof -
    have "length (in_use rc sd ks) \<le> length (in_use rc sd (ro_keys r))"
      unfolding in_use_def assms(2) filter_filter by (rule filter_length_mono) simp
    then show ?thesis using assms(1) by (auto simp: room_ok_def intro: le_trans)
  qed
  then show ?thesis using assms by (simp add: room_ok_def)
qed

lemma groups_ok_fetched:
  assumes ok: "groups_ok t" and q: "qGetSenderKeyDistributions coll now g recipient epoch limit offset t = (items, t')"
  shows "groups_ok t'"
proof (rule groups_ok_rooms)
  let ?P = "\<lambda>r. \<not> (sk_group r = g \<and> sk_recipient r = recipient \<and> expired now r)"
  have t': "t' = t\<lparr>gt_keys := filter ?P (gt_keys t)\<rparr>" using q by (auto simp: qGetSenderKeyDistributions_def)
  show "rows_ok t'" unfolding t' using ok by (intro rows_ok_fewer_keys) (simp add: groups_ok_def)
  fix h r' assume r': "room_of t' h = Some r'"
  then obtain r :: room where r: "room_of t h = Some r" "r' = r\<lparr>ro_keys := filter ?P (ro_keys r)\<rparr>"
    by (auto simp: room_of_def t' find_group_def members_of_def keys_of_def conj_commute)
  have "room_ok r" using ok r(1) by (auto simp: groups_ok_def)
  then show "room_ok r'" unfolding r(2) using refl by (rule room_ok_fewer_keys)
qed

lemma groups_ok_stored:
  assumes ok: "groups_ok t" and inj: "inj coll"
    and put: "qPutSenderKeyDistribution coll now g sender req t t = (eligible, inserted, t')"
  shows "groups_ok t'"
proof (rule groups_ok_rooms)
  let ?D = "\<lambda>k. \<not> dropped coll now g sender req t k"
  have rows: "rows_ok t" using ok by (simp add: groups_ok_def)
  have ins: "inserted \<Longrightarrow> find_group t g \<noteq> None \<and> skd_key (new_key now g sender req) \<notin> skd_key ` set (gt_keys t)"
    using qPut_serial(1,2) [OF put] by (auto simp: put_eligible_def key_visible_def list_ex_iff)
  show "rows_ok t'" unfolding qPut_serial(3) [OF put]
    using rows ins by (auto simp: rows_ok_def distinct_map_filter find_group_None image_subset_iff new_key_def)
  fix h r' assume r': "room_of t' h = Some r'"
  then obtain r :: room where r: "room_of t h = Some r" and r'': "r' = r\<lparr>ro_keys := keys_of t' h\<rparr>"
    by (auto simp: room_of_def put_room(1,2) [OF put])
  have rk: "room_ok r" using ok r by (auto simp: groups_ok_def)
  have kr: "ro_keys r = keys_of t h" and row: "find_group t h = Some (ro_row r)" using r by (auto simp: room_of_def)
  show "room_ok r'"
  proof (cases "h = g")
    case False
    then have "r' = r" using r'' kr put_room(3) [OF put, of h] by simp
    then show ?thesis using rk by simp
  next
    case True
    have "inserted \<Longrightarrow> gr_epoch (ro_row r) = ps_Epoch req"
      using qPut_serial(1,2) [OF put] row True by (auto simp: put_eligible_def)
    then have "\<forall>k \<in> set (keys_of t' g). sk_epoch k \<le> gr_epoch (ro_row r) \<and> (sk_retired k = None \<longleftrightarrow> sk_epoch k = gr_epoch (ro_row r))"
      using rk kr True unfolding put_room(3) [OF put] by (auto simp: room_ok_def new_key_def)
    then show ?thesis using rk put_in_use [OF ok inj put] r True by (simp add: room_ok_def r'')
  qed
qed

lemma stmt_step_ok:
  assumes "inj coll" and "stmt_step coll t t'" and "groups_ok t" shows "groups_ok t'"
  using assms(2,3)
  by (induction rule: stmt_step.induct)
     (blast intro: groups_ok_created groups_ok_added groups_ok_removed groups_ok_deleted groups_ok_stored [OF _ assms(1)]
       groups_ok_fetched groups_ok_wiped)+

text \<open>C8: From well-formed tables, whatever sequence of requests (creating, adding, leaving, kicking, deleting,
  sender keys, account wipes) runs, every group keeps at least one member, its owner stays a member with the
  admin role, the epoch stays positive, identifiers stay unique, references stay valid, and each sender has at most
  four keys in use per recipient, all of the current epoch.\<close>

theorem groups_stay_wellformed:
  assumes "inj coll" and "groups_ok t" and "(group_step coll ParseUUID)\<^sup>*\<^sup>* t t'"
  shows "groups_ok t'"
  using assms(3,2)
proof (induction rule: rtranclp_induct)
  case (step u v)
  then show ?case using group_step_stmt [OF step.hyps(2)] stmt_step_ok [OF assms(1)] by blast
qed

text \<open>A first group: user 1 opens it, user 2 is added.\<close>

definition sample_users :: group_tables where
  "sample_users = \<lparr>gt_users = [\<lparr>pf_uin = 1, pf_username = ''ann'', pf_avatar = None\<rparr>, \<lparr>pf_uin = 2, pf_username = ''bob'', pf_avatar = None\<rparr>],
     gt_groups = [], gt_members = [], gt_keys = []\<rparr>"

definition sample_create :: create_io where
  "sample_create = \<lparr>cg_uin = Some 1, cg_body = Decoded ''team'', cg_begin = True, cg_uuid = ''g1'', cg_now = 5, cg_insert = True,
     cg_admin = True, cg_commit = Done\<rparr>"

definition sample_add :: add_io where
  "sample_add = \<lparr>am_uin = Some 1, am_group = ''g1'', am_body = Decoded 2, am_wait = id, am_now = 6, am_exec = Done, am_name = True, am_bus = True\<rparr>"

definition sample_group :: group_tables where
  "sample_group = sample_users\<lparr>
     gt_groups := [\<lparr>gr_id = ''g1'', gr_name = ''team'', gr_owner = Some 1, gr_epoch = 1, gr_created = 5\<rparr>],
     gt_members := [\<lparr>mb_group = ''g1'', mb_uin = 1, mb_role = ''admin'', mb_joined = 5\<rparr>]\<rparr>"

definition sample_pair :: group_tables where
  "sample_pair = sample_group\<lparr>
     gt_groups := [\<lparr>gr_id = ''g1'', gr_name = ''team'', gr_owner = Some 1, gr_epoch = 2, gr_created = 5\<rparr>],
     gt_members := gt_members sample_group @ [\<lparr>mb_group = ''g1'', mb_uin = 2, mb_role = ''member'', mb_joined = 6\<rparr>]\<rparr>"

lemma sample_created: "snd (createGroupHandler sample_create sample_users) = sample_group"
  unfolding sample_users_def sample_create_def sample_group_def by code_simp

lemma sample_parse: "parseGroupIDParam Some ''g1'' = Some ''g1''"
  by code_simp

lemma sample_added: "snd (snd (addGroupMemberHandler Some sample_add sample_group)) = sample_pair"
  unfolding sample_group_def sample_users_def sample_add_def sample_pair_def addGroupMemberHandler_def
  by (simp add: sample_parse group_decodeJSON_def qInsertGroupMember_def find_group_def is_admin_def is_member_def user_exists_def
      int64_max_def insert_member_def upd_group_def)

lemma sample_steps: "(group_step coll Some)\<^sup>*\<^sup>* sample_users sample_pair"
proof -
  have "group_step coll Some sample_users sample_group"
    using group_step.create [of sample_create sample_users _ sample_group] sample_created by (metis prod.collapse)
  moreover have "group_step coll Some sample_group sample_pair"
    using group_step.add [of Some sample_add sample_group _ _ sample_pair] sample_added
    by (metis prod.collapse sample_add_def add_io.simps(4))
  ultimately show ?thesis by (meson converse_rtranclp_into_rtranclp r_into_rtranclp)
qed

lemma sample_users_ok: "groups_ok sample_users"
  by (simp add: sample_users_def groups_ok_def rows_ok_def room_of_def find_group_def)

lemma groups_stay_wellformed_witness:
  "inj (id :: string \<Rightarrow> string) \<and> groups_ok sample_users \<and> groups_ok sample_pair \<and> is_member sample_pair ''g1'' 2"
proof (intro conjI)
  show "groups_ok sample_pair" using groups_stay_wellformed [OF inj_on_id sample_users_ok sample_steps] .
qed (simp_all add: sample_users_ok sample_pair_def is_member_def)

lemma membership_epoch:
  assumes ok: "groups_ok t" and step: "group_step coll ParseUUID t t'"
    and r: "room_of t g = Some r" and r': "room_of t' g = Some r'"
  shows "gr_epoch (ro_row r) \<le> gr_epoch (ro_row r') \<and>
    (mb_uin ` set (ro_members r') \<noteq> mb_uin ` set (ro_members r) \<longrightarrow>
       gr_epoch (ro_row r') = gr_epoch (ro_row r) + 1 \<and> (\<forall>k \<in> set (ro_keys r'). sk_retired k \<noteq> None))"
proof -
  have rk: "room_ok r" using ok r by (auto simp: groups_ok_def)
  have add: "sk_retired k \<noteq> None" if "k \<in> set (ro_keys (room_add now u r))" for k now u
    using that room_ok_keys [OF rk] by (auto simp: room_add_def split: if_splits)
  have rem: "gr_epoch (ro_row q) = gr_epoch (ro_row r) + 1 \<and> (\<forall>k \<in> set (ro_keys q). sk_retired k \<noteq> None)"
    if "room_remove now u r = Some q" for q now u
    using that by (auto simp: room_remove_def Let_def split: if_splits)
  have same: "?thesis" if "find_group t' g = find_group t g" "members_of t' g = members_of t g"
    using that r r' by (auto simp: room_of_def)
  from group_step_stmt [OF step] consider "t' = t" | "stmt_step coll t t'" by blast
  then show ?thesis
  proof cases
    case 1 then show ?thesis using r r' by simp
  next
    case 2 then show ?thesis
    proof cases
      case (created now uuid name owner row t1)
      then have "g \<noteq> uuid" "gr_id row = uuid" using r by (auto simp: qCreateGroup_def room_of_def Let_def split: if_splits)
      with created show ?thesis
        by (intro same) (auto simp: qCreateGroup_def qInsertGroupAdmin_def room_insert_member find_group_def find_snoc members_of_def
            insert_member_def Let_def split: if_splits option.splits)
    next
      case (added now h a u authorized)
      then show ?thesis using add_refines [OF added, of g] r r' add
        by (cases "g = h") (auto simp: room_add_def)
    next
      case (removed now h a u n)
      then show ?thesis using remove_refines [OF removed, of g] r r' rem
        by (cases "g = h") auto
    next
      case (deleted h) then show ?thesis using r' by (intro same) (auto simp: room_of_def room_delete_group split: if_splits)
    next
      case (stored now h sender req eligible inserted) then show ?thesis using put_room [OF stored] by (intro same) auto
    next
      case (fetched now h recipient epoch limit offset items)
      then show ?thesis by (intro same) (auto simp: qGetSenderKeyDistributions_def find_group_def members_of_def)
    next
      case (wiped now u)
      show ?thesis
      proof (cases "is_member t g u")
        case True
        then have "room_remove now u r = Some r'" using wipe_refines [OF wiped, of g] r r' by simp
        from rem [OF this] show ?thesis by simp
      qed (use wipe_refines [OF wiped, of g] r r' in simp)
    qed
  qed
qed


lemma sample_group_ok: "groups_ok sample_group"
proof -
  have "group_step id Some sample_users sample_group"
    using group_step.create [of sample_create sample_users _ sample_group] sample_created by (metis prod.collapse)
  from group_step_stmt [OF this] show ?thesis using stmt_step_ok [OF inj_on_id] sample_users_ok by metis
qed

lemma sample_pair_ok: "groups_ok sample_pair"
proof -
  have "qInsertGroupMember 6 ''g1'' 1 2 sample_group sample_group = Some (True, True, sample_pair)"
    by (simp add: sample_pair_def sample_group_def sample_users_def qInsertGroupMember_def find_group_def is_admin_def is_member_def
        user_exists_def int64_max_def insert_member_def upd_group_def)
  from groups_ok_added [OF sample_group_ok this] show ?thesis .
qed


end
