(* ===== verification/GroupSafety.thy ===== *)
theory GroupSafety
  imports GroupProperties
begin

text \<open>
  Who may change a group, who inherits it, what a stored sender key says about its sender and recipient, and
  the size of an inbox page. Two findings: leaving at the same time can leave a group without members behind,
  and line breaks in a ciphertext can push a key out of its page.
\<close>

section \<open>Authorization\<close>

lemma add_handler_actor:
  assumes "addGroupMemberHandler ParseUUID io t = (res, ms, t')" and "am_wait io = id" and "t' \<noteq> t"
  shows "\<exists>a g u. am_uin io = Some a \<and> parseGroupIDParam ParseUUID (am_group io) = Some g \<and> am_body io = Decoded u \<and>
    qInsertGroupMember (am_now io) g a u t t = Some (True, True, t')"
proof -
  obtain a where a: "am_uin io = Some a" using assms by (auto simp: addGroupMemberHandler_def split: option.splits)
  obtain g where g: "parseGroupIDParam ParseUUID (am_group io) = Some g"
    using assms a by (auto simp: addGroupMemberHandler_def split: option.splits)
  obtain u where u: "am_body io = Decoded u"
    using assms a g by (auto simp: addGroupMemberHandler_def group_decodeJSON_def split: request_body.splits)
  obtain auth ins t1 where q: "qInsertGroupMember (am_now io) g a u t t = Some (auth, ins, t1)" and t1: "t' = t1"
    using assms a g u by (auto simp: addGroupMemberHandler_def group_decodeJSON_def Let_def split: option.splits if_splits)
  show ?thesis
    by (rule qInsert_cases [OF q]) (use a g u q t1 assms(3) in auto)
qed

lemma remove_handler_actor:
  assumes "removeGroupMemberHandler ParseUUID io t = (res, t')" and "rm_wait io = id" and "t' \<noteq> rm_env io t" and "t' \<noteq> t"
  shows "\<exists>a g u n. rm_uin io = Some a \<and> parseGroupIDParam ParseUUID (rm_group io) = Some g \<and> ParseInt64 (rm_target io) = Some u \<and>
    qRemoveGroupMemberAtomically (rm_now io) g a u (rm_env io t) (rm_env io t) = Some (True, n, t')"
proof -
  obtain a where a: "rm_uin io = Some a" using assms by (auto simp: removeGroupMemberHandler_def split: option.splits)
  obtain g where g: "parseGroupIDParam ParseUUID (rm_group io) = Some g"
    using assms a by (auto simp: removeGroupMemberHandler_def split: option.splits)
  obtain u where u: "ParseInt64 (rm_target io) = Some u"
    using assms a g by (auto simp: removeGroupMemberHandler_def split: option.splits)
  obtain removed n t1 where q: "qRemoveGroupMemberAtomically (rm_now io) g a u (rm_env io t) (rm_env io t) = Some (removed, n, t1)"
    and t1: "t' = t1"
    using assms a g u by (auto simp: removeGroupMemberHandler_def Let_def split: option.splits if_splits)
  show ?thesis
    by (rule qRemove_cases [OF q]) (use a g u q t1 assms(3) in auto)
qed

text \<open>Also: A request adds somebody to a group only when its actor is an admin of that group.\<close>

theorem only_admins_add:
  assumes add: "addGroupMemberHandler ParseUUID io t = (res, ms, t')" and wait: "am_wait io = id"
    and new: "is_member t' g u" "\<not> is_member t g u"
  shows "\<exists>a. am_uin io = Some a \<and> is_admin t g a \<and> user_exists t u"
proof -
  have "t' \<noteq> t" using new by auto
  from add_handler_actor [OF add wait this] obtain a h v where h: "am_uin io = Some a"
    "qInsertGroupMember (am_now io) h a v t t = Some (True, True, t')" by blast
  have "g = h \<and> u = v" using add_members [OF h(2)] new by blast
  then show ?thesis using h by (auto elim: qInsert_cases)
qed

lemma only_admins_add_witness:
  "is_member sample_pair ''g1'' 2 \<and> \<not> is_member sample_group ''g1'' 2 \<and> is_admin sample_group ''g1'' 1"
proof -
  have m: "is_member sample_pair ''g1'' 2" "\<not> is_member sample_group ''g1'' 2"
    by (simp_all add: sample_pair_def sample_group_def is_member_def)
  obtain res ms where "addGroupMemberHandler Some sample_add sample_group = (res, ms, sample_pair)"
    using sample_added by (metis prod.collapse)
  from only_admins_add [OF this _ m] m show ?thesis by (auto simp: sample_add_def)
qed

text \<open>Also: A remove request takes a member out of a group only when its actor is that member or, at the moment of the
  removal, an admin of the group.\<close>

theorem only_admins_kick:
  assumes rem: "removeGroupMemberHandler ParseUUID io t = (res, t')" and wait: "rm_wait io = id"
    and gone: "is_member (rm_env io t) g u" "is_member t g u" "\<not> is_member t' g u"
  shows "\<exists>a. rm_uin io = Some a \<and> (a = u \<or> is_admin (rm_env io t) g a)"
proof -
  have "t' \<noteq> rm_env io t" "t' \<noteq> t" using gone by auto
  from remove_handler_actor [OF rem wait this] obtain a h v n where h: "rm_uin io = Some a"
    "qRemoveGroupMemberAtomically (rm_now io) h a v (rm_env io t) (rm_env io t) = Some (True, n, t')" by blast
  have "g = h \<and> u = v" using remove_members [OF h(2)] gone by blast
  then show ?thesis using h by (auto elim: qRemove_cases)
qed

text \<open>The owner (1) or the other member (2) of the sample group leaves.\<close>

definition leave :: "uin \<Rightarrow> string \<Rightarrow> (group_tables \<Rightarrow> group_tables) \<Rightarrow> remove_io" where
  "leave u txt wait = \<lparr>rm_uin = Some u, rm_group = ''g1'', rm_target = txt, rm_role = True, rm_env = id, rm_wait = wait, rm_now = 9, rm_exec = Done\<rparr>"

definition left_by_2 :: group_tables where
  "left_by_2 = sample_group\<lparr>gt_groups := [\<lparr>gr_id = ''g1'', gr_name = ''team'', gr_owner = Some 1, gr_epoch = 3, gr_created = 5\<rparr>]\<rparr>"

lemma ParseInt64_digits: "ParseInt64 ''1'' = Some 1" "ParseInt64 ''2'' = Some 2"
  by code_simp+

lemma leave_2: "removeGroupMemberHandler Some (leave 2 ''2'' id) sample_pair = (NoContent, left_by_2)"
  by (simp add: removeGroupMemberHandler_def leave_def sample_parse ParseInt64_digits getGroupRole_def qGetGroupRole_def
      qRemoveGroupMemberAtomically_def left_by_2_def sample_pair_def sample_group_def sample_users_def find_group_def is_member_def
      members_of_def successor_def delete_member_def upd_group_def int64_max_def)

lemma only_admins_kick_witness:
  "\<not> is_member left_by_2 ''g1'' 2 \<and> is_member sample_pair ''g1'' 2"
proof -
  have m: "is_member sample_pair ''g1'' 2" "\<not> is_member left_by_2 ''g1'' 2"
    by (simp_all add: sample_pair_def sample_group_def left_by_2_def is_member_def)
  have "\<exists>a. rm_uin (leave 2 ''2'' id) = Some a \<and> (a = 2 \<or> is_admin (rm_env (leave 2 ''2'' id) sample_pair) ''g1'' a)"
    by (rule only_admins_kick [OF leave_2]) (use m in \<open>simp_all add: leave_def\<close>)
  then show ?thesis using m by simp
qed

section \<open>Succession\<close>

text \<open>Also: When the owner goes and members remain, the group passes to the remaining member who joined first (the lower
  number on a tie), who becomes an admin; when nobody remains the group is gone.\<close>

theorem owner_succession:
  assumes rem: "qRemoveGroupMemberAtomically now g a u t t = Some (True, n, t')"
    and r: "find_group t g = Some r" and owner: "gr_owner r = Some u"
  shows "case find_group t' g of
      None \<Rightarrow> \<forall>v. is_member t g v \<longrightarrow> v = u
    | Some r' \<Rightarrow> \<exists>h \<in> set (members_of t g). mb_uin h \<noteq> u \<and> gr_owner r' = Some (mb_uin h) \<and> is_admin t' g (mb_uin h) \<and>
        (\<forall>m \<in> set (members_of t g). mb_uin m \<noteq> u \<longrightarrow> (mb_joined h, mb_uin h) \<le> (mb_joined m, mb_uin m))"
proof -
  let ?rest = "filter (\<lambda>m. mb_uin m \<noteq> u) (members_of t g)"
  have room: "room_of t g = Some \<lparr>ro_row = r, ro_members = members_of t g, ro_keys = keys_of t g\<rparr>" using r by (simp add: room_of_def)
  note ref = remove_refines [OF rem, of g, unfolded room]
  show ?thesis
  proof (rule heir_cases [of ?rest])
    assume e: "?rest = []"
    then have "room_of t' g = None" using ref by (simp add: room_remove_def)
    then have "find_group t' g = None" by (simp add: room_of_def)
    then show ?thesis using e by (auto simp: is_member_iff filter_empty_conv)
  next
    fix h others
    assume h: "sort_key (\<lambda>m. (mb_joined m, mb_uin m)) ?rest = h # others" "heir ?rest = Some (mb_uin h)" "h \<in> set ?rest"
    then have "?rest \<noteq> []" by auto
    then have r': "room_of t' g = Some \<lparr>ro_row = r\<lparr>gr_epoch := gr_epoch r + 1, gr_owner := Some (mb_uin h)\<rparr>,
        ro_members = map (\<lambda>m. if mb_uin h = mb_uin m then m\<lparr>mb_role := ''admin''\<rparr> else m) ?rest, ro_keys = map (retire now) (keys_of t g)\<rparr>"
      using ref owner h(2) by (simp add: room_remove_def Let_def)
    then have f: "find_group t' g = Some (r\<lparr>gr_epoch := gr_epoch r + 1, gr_owner := Some (mb_uin h)\<rparr>)"
      and ms: "members_of t' g = map (\<lambda>m. if mb_uin h = mb_uin m then m\<lparr>mb_role := ''admin''\<rparr> else m) ?rest"
      by (auto simp: room_of_def)
    have "is_admin t' g (mb_uin h)" using h(3) unfolding is_admin_iff ms
      by (intro bexI [of _ "h\<lparr>mb_role := ''admin''\<rparr>"]) (auto simp: image_iff intro!: bexI [of _ h])
    moreover have "(mb_joined h, mb_uin h) \<le> (mb_joined m, mb_uin m)" if "m \<in> set ?rest" for m
    proof -
      have "sorted (map (\<lambda>m. (mb_joined m, mb_uin m)) (h # others))" unfolding h(1) [symmetric] by simp
      moreover have "m \<in> set (h # others)" unfolding h(1) [symmetric] using that by simp
      ultimately show ?thesis by auto
    qed
    ultimately show ?thesis using h(3) f by (auto intro!: bexI [of _ h])
  qed
qed

lemma owner_succession_witness:
  "\<exists>t'. qRemoveGroupMemberAtomically 9 ''g1'' 1 1 sample_pair sample_pair = Some (True, 1, t') \<and> is_admin t' ''g1'' 2"
proof -
  let ?t' = "sample_users\<lparr>gt_groups := [\<lparr>gr_id = ''g1'', gr_name = ''team'', gr_owner = Some 2, gr_epoch = 3, gr_created = 5\<rparr>],
    gt_members := [\<lparr>mb_group = ''g1'', mb_uin = 2, mb_role = ''admin'', mb_joined = 6\<rparr>]\<rparr>"
  have q: "qRemoveGroupMemberAtomically 9 ''g1'' 1 1 sample_pair sample_pair = Some (True, 1, ?t')"
    by (simp add: qRemoveGroupMemberAtomically_def sample_pair_def sample_group_def sample_users_def find_group_def is_member_def
        members_of_def successor_def delete_member_def promote_def upd_group_def int64_max_def)
  have f: "find_group sample_pair ''g1'' = Some \<lparr>gr_id = ''g1'', gr_name = ''team'', gr_owner = Some 1, gr_epoch = 2, gr_created = 5\<rparr>"
    by (simp add: sample_pair_def find_group_def)
  from owner_succession [OF q f] q show ?thesis
    by (auto simp: find_group_def sample_pair_def sample_group_def members_of_def)
qed

section \<open>Leaving at the same time\<close>

text \<open>C36: The statement counts the remaining members and picks the successor in the snapshot it took before it waited
  for the group. When the owner leaves while the other member's removal is being committed, both requests
  succeed, and the group stays behind without members, owned by somebody who is gone.\<close>

theorem stale_snapshot_orphans_group:
  "\<exists>t0 t1 t2 r. groups_ok t0 \<and>
     removeGroupMemberHandler Some (leave 2 ''2'' id) t0 = (NoContent, t1) \<and>
     removeGroupMemberHandler Some (leave 1 ''1'' (\<lambda>_. t1)) t0 = (NoContent, t2) \<and>
     find_group t2 ''g1'' = Some r \<and> members_of t2 ''g1'' = [] \<and> gr_owner r = Some 2"
proof (intro exI conjI)
  show "groups_ok sample_pair" by (rule sample_pair_ok)
  show "removeGroupMemberHandler Some (leave 2 ''2'' id) sample_pair = (NoContent, left_by_2)" by (rule leave_2)
  let ?g = "\<lparr>gr_id = ''g1'', gr_name = ''team'', gr_owner = Some 2, gr_epoch = 4, gr_created = 5\<rparr>"
  let ?t2 = "sample_users\<lparr>gt_groups := [?g]\<rparr>"
  show "removeGroupMemberHandler Some (leave 1 ''1'' (\<lambda>_. left_by_2)) sample_pair = (NoContent, ?t2)"
    by (simp add: removeGroupMemberHandler_def leave_def sample_parse ParseInt64_digits getGroupRole_def qGetGroupRole_def
        qRemoveGroupMemberAtomically_def left_by_2_def sample_pair_def sample_group_def sample_users_def find_group_def is_member_def
        members_of_def successor_def delete_member_def promote_def upd_group_def int64_max_def)
  show "find_group ?t2 ''g1'' = Some ?g" "members_of ?t2 ''g1'' = []" "gr_owner ?g = Some 2"
    by (simp_all add: find_group_def members_of_def sample_users_def)
qed

section \<open>Stored keys\<close>

lemma steps_epoch:
  assumes ok: "groups_ok t" and inj: "inj coll"
    and steps: "(\<lambda>a b. group_step coll ParseUUID a b \<and> find_group b g \<noteq> None)\<^sup>*\<^sup>* t t'" and r: "room_of t g = Some r"
  shows "groups_ok t' \<and> (\<exists>r'. room_of t' g = Some r' \<and> gr_epoch (ro_row r) \<le> gr_epoch (ro_row r') \<and>
    (gr_epoch (ro_row r') = gr_epoch (ro_row r) \<longrightarrow> mb_uin ` set (ro_members r') = mb_uin ` set (ro_members r)))"
  using steps
proof (induction rule: rtranclp_induct)
  case base
  then show ?case using ok r by blast
next
  case (step u v)
  then obtain ru :: room where ru: "groups_ok u" "room_of u g = Some ru" "gr_epoch (ro_row r) \<le> gr_epoch (ro_row ru)"
    "gr_epoch (ro_row ru) = gr_epoch (ro_row r) \<longrightarrow> mb_uin ` set (ro_members ru) = mb_uin ` set (ro_members r)" by blast
  obtain rv :: room where rv: "room_of v g = Some rv" using step.hyps(2) by (auto simp: room_of_def)
  have s: "group_step coll ParseUUID u v" using step.hyps(2) by blast
  have "groups_ok v" using group_step_stmt [OF s] stmt_step_ok [OF inj _ ru(1)] ru(1) by blast
  moreover have "gr_epoch (ro_row ru) \<le> gr_epoch (ro_row rv) \<and>
      (gr_epoch (ro_row rv) = gr_epoch (ro_row ru) \<longrightarrow> mb_uin ` set (ro_members rv) = mb_uin ` set (ro_members ru))"
    using membership_epoch [OF ru(1) s ru(2) rv] by auto
  ultimately show ?case using rv ru by auto
qed

lemma put_handler_success:
  assumes "putSenderKeyDistributionHandler coll ParseUUID io t = (NoContent, t')" and "parseGroupIDParam ParseUUID (pk_group io) = Some g"
  obtains sender req inserted where "pk_uin io = Some sender" "pk_body io = Decoded req" "distribution_valid req"
    "qPutSenderKeyDistribution coll (pk_now io) g sender req t (pk_wait io t) = (True, inserted, t')"
  using assms
  by (auto simp: putSenderKeyDistributionHandler_def group_decodeJSON_def Let_def split: option.splits sum.splits request_body.splits
      if_splits prod.splits)

lemma put_keeps_key:
  assumes q: "qPutSenderKeyDistribution coll now g sender req snap cur = (True, inserted, t')"
    and fresh: "\<And>k. k \<in> set (gt_keys cur) \<Longrightarrow> skd_key k = skd_key (new_key now g sender req) \<Longrightarrow> sk_retired k = None"
  shows "key_visible t' (new_key now g sender req)"
proof (cases inserted)
  case True
  then show ?thesis using q unfolding qPutSenderKeyDistribution_def Let_def by (auto simp: key_visible_def new_key_def)
next
  case False
  then have "key_visible cur (new_key now g sender req)" using q
    unfolding qPutSenderKeyDistribution_def Let_def new_key_def by auto
  then obtain k where k: "k \<in> set (gt_keys cur)" "skd_key k = skd_key (new_key now g sender req)"
    by (auto simp: key_visible_def list_ex_iff)
  have "\<not> expired now k" using fresh [OF k] by (simp add: expired_def)
  moreover have "key_visible snap k = key_visible snap (new_key now g sender req)" using k(2) by (simp add: key_visible_def)
  ultimately have "k \<in> set (gt_keys t')" using q k(1)
    unfolding qPutSenderKeyDistribution_def Let_def new_key_def by auto
  then show ?thesis using k(2) by (auto simp: key_visible_def list_ex_iff)
qed

text \<open>Also: A stored sender key goes from a member to a member: even when other requests change the group while the statement
  waits for its lock, a request is answered with success only if the group then still has the epoch of the request and
  both sender and recipient belong to it; and the key is in the inbox afterwards.\<close>

theorem stored_key_between_members:
  assumes ok: "groups_ok t" and inj: "inj coll" and parse: "parseGroupIDParam ParseUUID (pk_group io) = Some g"
    and wait: "(\<lambda>a b. group_step coll ParseUUID a b \<and> find_group b g \<noteq> None)\<^sup>*\<^sup>* t (pk_wait io t)"
    and put: "putSenderKeyDistributionHandler coll ParseUUID io t = (NoContent, t')"
  shows "\<exists>sender req. pk_uin io = Some sender \<and> pk_body io = Decoded req \<and>
    is_member (pk_wait io t) g sender \<and> is_member (pk_wait io t) g (ps_RecipientUIN req) \<and>
    qGetGroupEpoch g (pk_wait io t) = Some (ps_Epoch req) \<and> key_visible t' (new_key (pk_now io) g sender req)"
proof (rule put_handler_success [OF put parse])
  fix sender req inserted
  assume io: "pk_uin io = Some sender" "pk_body io = Decoded req"
    and q: "qPutSenderKeyDistribution coll (pk_now io) g sender req t (pk_wait io t) = (True, inserted, t')"
  let ?cur = "pk_wait io t"
  from q have e: "put_eligible g sender (ps_RecipientUIN req) (ps_Epoch req) t ?cur"
    by (auto simp: qPutSenderKeyDistribution_def Let_def)
  then obtain r :: room where r: "room_of t g = Some r" "gr_epoch (ro_row r) = ps_Epoch req"
    by (auto simp: put_eligible_def room_of_def)
  from steps_epoch [OF ok inj wait r(1)] e r(2) obtain r' :: room where r': "groups_ok ?cur" "room_of ?cur g = Some r'"
    "gr_epoch (ro_row r') = ps_Epoch req" "mb_uin ` set (ro_members r') = mb_uin ` set (ro_members r)"
    by (auto simp: put_eligible_def room_of_def)
  have "is_member t g w \<longleftrightarrow> is_member ?cur g w" for w
    using r(1) r'(2,4) by (auto simp: room_of_def is_member_iff) (metis image_iff)+
  moreover have "sk_retired k = None" if k: "k \<in> set (gt_keys ?cur)" "skd_key k = skd_key (new_key (pk_now io) g sender req)" for k
  proof -
    have "k \<in> set (ro_keys r')" "sk_epoch k = gr_epoch (ro_row r')"
      using k r'(2,3) by (auto simp: skd_key_def new_key_def room_of_def keys_of_def)
    then show ?thesis using r'(1,2) by (auto simp: groups_ok_def room_ok_def)
  qed
  ultimately show ?thesis using io e put_keeps_key [OF q] by (auto simp: put_eligible_def qGetGroupEpoch_def)
qed

definition sample_put :: put_io where
  "sample_put = \<lparr>pk_uin = Some 1, pk_group = ''g1'', pk_body = Decoded \<lparr>ps_RecipientUIN = 2, ps_Epoch = 2, ps_DistributionID = ''d'',
     ps_Ciphertext = ''AAAA'', ps_MsgType = ''signal_message''\<rparr>, pk_wait = id, pk_now = 7, pk_exec = Done\<rparr>"

lemma sample_put_valid:
  "distribution_valid \<lparr>ps_RecipientUIN = 2, ps_Epoch = 2, ps_DistributionID = ''d'', ps_Ciphertext = ''AAAA'', ps_MsgType = ''signal_message''\<rparr>"
  by code_simp

lemma stored_key_between_members_witness:
  "fst (putSenderKeyDistributionHandler (id :: string \<Rightarrow> string) Some sample_put sample_pair) = NoContent \<and> is_member sample_pair ''g1'' 2"
proof -
  obtain t' where put: "putSenderKeyDistributionHandler (id :: string \<Rightarrow> string) Some sample_put sample_pair = (NoContent, t')"
    by (simp add: putSenderKeyDistributionHandler_def sample_put_def sample_parse group_decodeJSON_def sample_put_valid
        qPutSenderKeyDistribution_def put_eligible_def sample_pair_def sample_group_def find_group_def is_member_def Let_def)
  have "\<exists>sender req. pk_uin sample_put = Some sender \<and> pk_body sample_put = Decoded req \<and>
      is_member (pk_wait sample_put sample_pair) ''g1'' sender \<and> is_member (pk_wait sample_put sample_pair) ''g1'' (ps_RecipientUIN req) \<and>
      qGetGroupEpoch ''g1'' (pk_wait sample_put sample_pair) = Some (ps_Epoch req) \<and>
      key_visible t' (new_key (pk_now sample_put) ''g1'' sender req)"
    by (rule stored_key_between_members [OF sample_pair_ok inj_on_id _ _ put]) (simp_all add: sample_put_def sample_parse)
  then show ?thesis using put by (auto simp: sample_put_def)
qed

section \<open>Inbox pages\<close>

lemma json_ascii_size_le: "json_ascii_size x \<le> 6"
  by (simp add: json_ascii_size_def)

lemma json_size_le: "json_size xs \<le> 6 * length xs"
proof (induction xs rule: json_size.induct)
  case (2 x xs)
  then show ?case using rune_tail_le [of x xs] json_ascii_size_le [of x] by (auto simp: Let_def)
qed simp

lemma json_size_plain: "(\<forall>x \<in> set xs. x < 0x80 \<and> json_ascii_size x = 1) \<Longrightarrow> json_size xs = length xs"
  by (induction xs) auto

lemma json_size_ascii_append: "(\<forall>x \<in> set xs. x < 0x80) \<Longrightarrow> json_size (xs @ ys) = json_size xs + json_size ys"
  by (induction xs) auto

lemma b64_value_plain:
  assumes "b64_value True c = Some v"
  shows "(of_char c :: nat) < 0x80 \<and> json_ascii_size (of_char c) = 1"
  using assms by (auto simp: b64_value_def json_ascii_size_def Let_def split: if_splits)

lemma b64_octets_length: "b64_octets vs = Some os \<Longrightarrow> 3 * length vs \<le> 4 * length os + 2"
  by (induction vs arbitrary: os rule: b64_octets.induct) fastforce+

lemma those_length: "those xs = Some ys \<Longrightarrow> length xs = length ys"
  by (induction xs arbitrary: ys) (auto split: option.splits)

lemma those_all: "those (map f xs) = Some ys \<Longrightarrow> x \<in> set xs \<Longrightarrow> \<exists>y. f x = Some y"
  by (induction xs arbitrary: ys) (auto split: option.splits)

lemma decoded_size:
  assumes d: "DecodeString True s = Some b" and nl: "CHR 0x0A \<notin> set s" "CHR 0x0D \<notin> set s"
  shows "3 * json_size (map of_char s) \<le> 4 * length b + 2"
proof -
  have f: "filter (\<lambda>ch. ch \<noteq> CHR 0x0A \<and> ch \<noteq> CHR 0x0D) s = s" using nl by (auto simp: filter_id_conv)
  from d f obtain vs xs where vs: "those (map (b64_value True) s) = Some vs" "b64_octets vs = Some xs" "b = map char_of xs"
    by (auto simp: DecodeString_def split: option.splits)
  have "json_size (map of_char s) = length (map of_char s :: nat list)"
    using those_all [OF vs(1)] b64_value_plain by (intro json_size_plain) auto
  then show ?thesis using those_length [OF vs(1)] b64_octets_length [OF vs(2)] vs(3) by simp
qed

lemma decimal_length: "n < 10 ^ k \<Longrightarrow> 0 < k \<Longrightarrow> length (decimal n) \<le> k"
proof (induction k arbitrary: n)
  case (Suc k)
  show ?case
  proof (cases "n < 10")
    case True
    then show ?thesis by (subst decimal.simps) simp
  next
    case False
    then have "k \<noteq> 0" using Suc.prems(1) by (cases k) auto
    moreover have "n div 10 < 10 ^ k" using Suc.prems(1) by (simp add: div_less_iff_less_mult mult.commute)
    ultimately show ?thesis using False Suc.IH [of "n div 10"] by (subst decimal.simps) simp
  qed
qed simp

lemma itoa_length:
  assumes "is_int64 n" shows "length (itoa n) \<le> 20"
proof -
  have "n < 10000000000000000000" "- n < 10000000000000000000"
    using assms unfolding is_int64_def int64_min_def int64_max_def by simp_all
  then have "nat n < 10 ^ 19" "nat (- n) < 10 ^ 19" by (simp_all add: nat_less_iff)
  from this [THEN decimal_length] show ?thesis by (simp add: itoa_def)
qed

text \<open>A row as a valid request without line breaks in the ciphertext stores it.\<close>

definition item_plain :: "(gotime \<Rightarrow> string option) \<Rightarrow> senderKeyDistributionItem \<Rightarrow> bool" where
  "item_plain timeJSON it \<longleftrightarrow> is_int64 (si_Epoch it) \<and> is_int64 (si_SenderUIN it) \<and>
     distribution_valid \<lparr>ps_RecipientUIN = 1, ps_Epoch = 1, ps_DistributionID = si_DistributionID it, ps_Ciphertext = si_Ciphertext it, ps_MsgType = si_MsgType it\<rparr> \<and>
     CHR 0x0A \<notin> set (si_Ciphertext it) \<and> CHR 0x0D \<notin> set (si_Ciphertext it) \<and>
     (case si_RetiredAt it of None \<Rightarrow> True | Some d \<Rightarrow> \<exists>txt. timeJSON d = Some txt \<and> length txt \<le> 37)"

lemma item_plain_size:
  assumes "item_plain timeJSON it"
  shows "\<exists>n. item_size timeJSON it = Some n \<and> n \<le> 23000"
proof -
  obtain b where b: "DecodeString True (si_Ciphertext it) = Some b" "length b \<le> 16384"
    using assms by (auto simp: item_plain_def distribution_valid_def maxSenderKeyDistributionBytes_def split: option.splits)
  have "json_size (map of_char (si_Ciphertext it)) \<le> 21846"
    using decoded_size [OF b(1)] b(2) assms by (auto simp: item_plain_def)
  moreover have "json_size (map of_char (si_DistributionID it)) \<le> 768"
    using json_size_le [of "map of_char (si_DistributionID it)"] assms by (auto simp: item_plain_def distribution_valid_def)
  moreover have "json_size (map of_char (si_MsgType it)) \<le> 84"
    using json_size_le [of "map of_char (si_MsgType it)"] assms by (auto simp: item_plain_def distribution_valid_def)
  moreover have "length (itoa (si_Epoch it)) \<le> 20" "length (itoa (si_SenderUIN it)) \<le> 20"
    using assms itoa_length by (auto simp: item_plain_def)
  ultimately show ?thesis using assms
    by (auto simp: item_size_def json_string_size_def item_plain_def Let_def split: option.splits)
qed

lemma take_page_all:
  assumes "\<forall>it \<in> set rows. \<exists>n. item_size timeJSON it = Some n \<and> n \<le> B" and "used + length rows * Suc B \<le> maxSenderKeyInboxResponseBytes"
  shows "take_page timeJSON used out rows = Some (out @ rows)"
  using assms
proof (induction rows arbitrary: used out)
  case (Cons it rows)
  then obtain n where n: "item_size timeJSON it = Some n" "n \<le> B" by auto
  let ?used = "used + (if out \<noteq> [] then 1 else 0) + n"
  have "?used + length rows * Suc B \<le> maxSenderKeyInboxResponseBytes" using n(2) Cons.prems(2) by auto
  then have "take_page timeJSON ?used (out @ [it]) rows = Some ((out @ [it]) @ rows)" using Cons by auto
  then show ?case using n \<open>?used + length rows * Suc B \<le> maxSenderKeyInboxResponseBytes\<close> by (auto simp: Let_def)
qed simp

text \<open>Also: A page of up to eight keys without line breaks in their ciphertexts is returned whole: the response cap never
  cuts it, so the next page starts where this one ends.\<close>

theorem plain_page_not_cut:
  assumes "\<forall>it \<in> set rows. item_plain timeJSON it" and "length rows \<le> maxSenderKeyInboxPageItems"
  shows "take_page timeJSON page_start [] rows = Some rows"
proof -
  have "length rows * Suc 23000 \<le> 8 * Suc 23000"
    using assms(2) unfolding maxSenderKeyInboxPageItems_def by (rule mult_le_mono1)
  then have "page_start + length rows * Suc 23000 \<le> maxSenderKeyInboxResponseBytes"
    by (simp add: page_start_def maxSenderKeyInboxResponseBytes_def)
  then show ?thesis using take_page_all [of rows timeJSON 23000] assms(1) item_plain_size by simp
qed

lemma plain_page_not_cut_witness:
  "take_page (\<lambda>d. None) page_start [] [item_of (new_key 7 ''g1'' 1 \<lparr>ps_RecipientUIN = 2, ps_Epoch = 2, ps_DistributionID = ''d'', ps_Ciphertext = ''AAAA'', ps_MsgType = ''signal_message''\<rparr>)] =
   Some [item_of (new_key 7 ''g1'' 1 \<lparr>ps_RecipientUIN = 2, ps_Epoch = 2, ps_DistributionID = ''d'', ps_Ciphertext = ''AAAA'', ps_MsgType = ''signal_message''\<rparr>)]"
  using sample_put_valid
  by (intro plain_page_not_cut)
     (auto simp: item_plain_def item_of_def new_key_def is_int64_def int64_min_def int64_max_def maxSenderKeyInboxPageItems_def distribution_valid_def)

text \<open>A ciphertext of one byte followed by line breaks, and eight such keys.\<close>

definition padded :: string where "padded = ''QQ'' @ replicate 16335 (CHR 0x0A)"

definition padded_request :: "string \<Rightarrow> putSenderKeyDistributionRequest" where
  "padded_request d = \<lparr>ps_RecipientUIN = 2, ps_Epoch = 1, ps_DistributionID = d, ps_Ciphertext = padded, ps_MsgType = ''signal_message''\<rparr>"

definition padded_item :: "string \<Rightarrow> senderKeyDistributionItem" where
  "padded_item d = \<lparr>si_Epoch = 1, si_SenderUIN = 1, si_Ciphertext = padded, si_MsgType = ''signal_message'', si_DistributionID = d, si_RetiredAt = None\<rparr>"

lemma padded_decodes: "DecodeString True padded = DecodeString True ''QQ''"
  by (simp add: DecodeString_def padded_def)

lemma json_size_newlines: "json_size (replicate n 10) = 2 * n"
  by (induction n) (simp_all add: json_ascii_size_def)

lemma padded_size: "json_size (map of_char padded) = 32672"
proof -
  have "json_size (map of_char padded) = json_size [81, 81] + json_size (replicate 16335 10)"
    unfolding padded_def map_append map_replicate by (subst json_size_ascii_append) simp_all
  then show ?thesis by (simp add: json_size_newlines json_ascii_size_def)
qed

lemma padded_item_size:
  assumes "json_size (map of_char d) = 1"
  shows "item_size timeJSON (padded_item d) = Some 32764"
proof -
  have "length (itoa 1) = 1" by code_simp
  moreover have "json_string_size ''signal_message'' = 16" by code_simp
  ultimately show ?thesis using assms padded_size by (simp add: item_size_def padded_item_def json_string_size_def Let_def)
qed

text \<open>Also: The decoder ignores line breaks, so a valid request of less than 32 KiB can carry a ciphertext that takes more than
  32 KiB in the answer: eight such keys do not fit the cap, the page has only seven of them, and as the next page
  starts after the eighth, that key is never delivered.\<close>

theorem line_breaks_cut_page:
  "(\<forall>d \<in> {''a'', ''b'', ''c'', ''d'', ''e'', ''f'', ''g'', ''h''}. distribution_valid (padded_request d)) \<and>
   95 + json_size (map of_char (ps_Ciphertext (padded_request ''a''))) \<le> 32 * 1024 \<and>
   take_page timeJSON page_start [] (map padded_item [''a'', ''b'', ''c'', ''d'', ''e'', ''f'', ''g'', ''h'']) =
     Some (map padded_item [''a'', ''b'', ''c'', ''d'', ''e'', ''f'', ''g''])"
proof (intro conjI)
  have "DecodeString True ''QQ'' = Some [CHR ''A'']" by code_simp
  then have "DecodeString True padded = Some [CHR ''A'']" by (simp add: padded_decodes)
  then show "\<forall>d \<in> {''a'', ''b'', ''c'', ''d'', ''e'', ''f'', ''g'', ''h''}. distribution_valid (padded_request d)"
    by (simp add: distribution_valid_def padded_request_def maxSenderKeyDistributionBytes_def)
  show "95 + json_size (map of_char (ps_Ciphertext (padded_request ''a''))) \<le> 32 * 1024"
    by (simp add: padded_request_def padded_size)
  show "take_page timeJSON page_start [] (map padded_item [''a'', ''b'', ''c'', ''d'', ''e'', ''f'', ''g'', ''h'']) =
     Some (map padded_item [''a'', ''b'', ''c'', ''d'', ''e'', ''f'', ''g''])"
    by (simp add: padded_item_size json_ascii_size_def page_start_def maxSenderKeyInboxResponseBytes_def Let_def)
qed

lemma line_breaks_cut_page_witness:
  "take_page (\<lambda>d. None) page_start [] (map padded_item [''a'', ''b'', ''c'', ''d'', ''e'', ''f'', ''g'', ''h'']) \<noteq>
     Some (map padded_item [''a'', ''b'', ''c'', ''d'', ''e'', ''f'', ''g'', ''h''])"
  using line_breaks_cut_page [of "\<lambda>d. None"] by simp


section \<open>The statements against the specification of a room\<close>



end
