(* ===== verification/KeyService.thy ===== *)
theory KeyService
  imports Accounts
begin

text \<open>
  The key service: request validation (\<^verbatim>\<open>key-service/models/models.go\<close>), the prekey tables
  (\<^verbatim>\<open>store/keystore.go\<close>) and the handlers for bundles and one-time prekeys (\<^verbatim>\<open>handlers/bundle.go\<close>,
  \<^verbatim>\<open>handlers/prekeys.go\<close>, \<^verbatim>\<open>handlers/common.go\<close>). The signed prekey is stored as JSON; its codec is a pair
  of functions. \<open>locked\<close> lists the rows other transactions hold when a key is picked.
\<close>

section \<open>Requests\<close>

record SignedPrekey =
  sp_ID :: int
  sp_PublicKey :: string
  sp_Signature :: string

record OneTimePrekey =
  op_ID :: int
  op_PublicKey :: string

record UploadBundleRequest =
  ub_IdentityKey :: string
  ub_SignedPrekey :: SignedPrekey
  ub_OneTimePrekeys :: "OneTimePrekey list"
  ub_RegistrationID :: int

datatype key_error = KeyFieldRequired | KeyInvalid | SignatureWrongLength | TooManyPrekeys

definition maxPrekeysPerBatch :: nat where "maxPrekeysPerBatch = 100"

definition isBase64URLBytes :: "string \<Rightarrow> nat \<Rightarrow> bool" where
  "isBase64URLBytes s wantLen =
     (if \<not> list_all isBase64URLChar s then False
      else case DecodePadded s of
        Some b \<Rightarrow> length b = wantLen
      | None \<Rightarrow> (case DecodeString True s of Some b \<Rightarrow> length b = wantLen | None \<Rightarrow> False))"

definition validateSignedPrekey :: "SignedPrekey \<Rightarrow> key_error option" where
  "validateSignedPrekey sp =
     (if sp_PublicKey sp = [] then Some KeyFieldRequired
      else if \<not> isBase64URLBytes (sp_PublicKey sp) 32 then Some KeyInvalid
      else if sp_Signature sp = [] then Some KeyFieldRequired
      else if \<not> isBase64URLBytes (sp_Signature sp) 64 then Some SignatureWrongLength
      else None)"

text \<open>The loop over the keys of a batch stops at the first bad one.\<close>

primrec validate_batch :: "OneTimePrekey list \<Rightarrow> key_error option" where
  "validate_batch [] = None"
| "validate_batch (k # ks) =
     (if op_PublicKey k = [] then Some KeyFieldRequired
      else if \<not> isBase64URLBytes (op_PublicKey k) 32 then Some KeyInvalid
      else validate_batch ks)"

definition bundle_Validate :: "UploadBundleRequest \<Rightarrow> key_error option" where
  "bundle_Validate r =
     (if ub_IdentityKey r = [] then Some KeyFieldRequired
      else if \<not> isBase64URLBytes (ub_IdentityKey r) 32 then Some KeyInvalid
      else case validateSignedPrekey (ub_SignedPrekey r) of
        Some e \<Rightarrow> Some e
      | None \<Rightarrow>
          if length (ub_OneTimePrekeys r) > maxPrekeysPerBatch then Some TooManyPrekeys
          else validate_batch (ub_OneTimePrekeys r))"

definition prekeys_Validate :: "OneTimePrekey list \<Rightarrow> key_error option" where
  "prekeys_Validate ks =
     (if ks = [] then Some KeyFieldRequired
      else if length ks > maxPrekeysPerBatch then Some TooManyPrekeys
      else validate_batch ks)"

section \<open>The store\<close>

record bundle_row =
  bd_uin :: uin
  bd_identity :: string
  bd_signed :: bytes
  bd_registration :: int
  bd_uploaded :: gotime

record opk_row =
  ok_id :: int
  ok_uin :: uin
  ok_key_id :: int
  ok_public :: string
  ok_used :: bool

record key_tables =
  kt_bundles :: "bundle_row list"
  kt_opks :: "opk_row list"
  kt_next :: int

definition is_int32 :: "int \<Rightarrow> bool" where
  "is_int32 n \<longleftrightarrow> - 2147483648 \<le> n \<and> n \<le> 2147483647"

definition qSelectBundle :: "uin \<Rightarrow> key_tables \<Rightarrow> bundle_row option" where
  "qSelectBundle u t = find (\<lambda>r. bd_uin r = u) (kt_bundles t)"

text \<open>The user row the bundle refers to exists for an authenticated user; a registration id beyond
  \<open>INTEGER\<close> fails.\<close>

definition qUpsertBundle :: "gotime \<Rightarrow> uin \<Rightarrow> string \<Rightarrow> bytes \<Rightarrow> int \<Rightarrow> key_tables \<Rightarrow> key_tables option" where
  "qUpsertBundle now u identity sig reg t =
     (let row = \<lparr>bd_uin = u, bd_identity = identity, bd_signed = sig, bd_registration = reg, bd_uploaded = now\<rparr> in
      if \<not> is_int32 reg then None
      else Some (t\<lparr>kt_bundles :=
        (if list_ex (\<lambda>r. bd_uin r = u) (kt_bundles t) then map (\<lambda>r. if bd_uin r = u then row else r) (kt_bundles t)
         else kt_bundles t @ [row])\<rparr>))"

text \<open>\<open>ORDER BY key_id ASC LIMIT 1 FOR UPDATE SKIP LOCKED\<close>\<close>

definition pick_opk :: "int list \<Rightarrow> uin \<Rightarrow> key_tables \<Rightarrow> opk_row option" where
  "pick_opk locked u t =
     (case sort_key ok_key_id (filter (\<lambda>r. ok_uin r = u \<and> \<not> ok_used r \<and> ok_id r \<notin> set locked) (kt_opks t)) of
        [] \<Rightarrow> None | r # _ \<Rightarrow> Some r)"

definition qConsumeOneTimePrekey :: "int list \<Rightarrow> uin \<Rightarrow> key_tables \<Rightarrow> opk_row option \<times> key_tables" where
  "qConsumeOneTimePrekey locked u t =
     (case pick_opk locked u t of
        None \<Rightarrow> (None, t)
      | Some r \<Rightarrow> (Some r, t\<lparr>kt_opks := map (\<lambda>q. if ok_id q = ok_id r then q\<lparr>ok_used := True\<rparr> else q) (kt_opks t)\<rparr>))"

text \<open>One row of the batch insert; the sequence also advances for a dropped duplicate.\<close>

definition insert_opk :: "uin \<Rightarrow> OneTimePrekey \<Rightarrow> key_tables \<Rightarrow> key_tables" where
  "insert_opk u k t =
     (let t' = t\<lparr>kt_next := kt_next t + 1\<rparr> in
      if list_ex (\<lambda>r. ok_uin r = u \<and> ok_key_id r = op_ID k) (kt_opks t) then t'
      else t'\<lparr>kt_opks := kt_opks t @ [\<lparr>ok_id = kt_next t, ok_uin = u, ok_key_id = op_ID k, ok_public = op_PublicKey k, ok_used = False\<rparr>]\<rparr>)"

definition qInsertOneTimePrekeys :: "uin \<Rightarrow> OneTimePrekey list \<Rightarrow> key_tables \<Rightarrow> key_tables option" where
  "qInsertOneTimePrekeys u ks t = (if list_all (\<lambda>k. is_int32 (op_ID k)) ks then Some (fold (insert_opk u) ks t) else None)"

definition qCountUnusedPrekeys :: "uin \<Rightarrow> key_tables \<Rightarrow> nat" where
  "qCountUnusedPrekeys u t = length (filter (\<lambda>r. ok_uin r = u \<and> \<not> ok_used r) (kt_opks t))"

record BundleResponse =
  br_UIN :: uin
  br_IdentityKey :: string
  br_SignedPrekey :: SignedPrekey
  br_OneTimePrekey :: "OneTimePrekey option"
  br_RegistrationID :: int

datatype store_error = ErrBundleNotFound | StoreFailed

text \<open>\<open>GetBundle\<close>: \<open>select\<close> and \<open>consume\<close> are the outcomes of its statements, \<open>env\<close> what others commit between them.\<close>

definition GetBundle ::
  "(bytes \<Rightarrow> SignedPrekey option) \<Rightarrow> bool \<Rightarrow> (key_tables \<Rightarrow> key_tables) \<Rightarrow> int list \<Rightarrow> outcome \<Rightarrow> uin \<Rightarrow> key_tables \<Rightarrow>
    (store_error + BundleResponse) \<times> key_tables" where
  "GetBundle decode select env locked consume u t =
     (if \<not> select then (Inl StoreFailed, t)
      else case qSelectBundle u t of
        None \<Rightarrow> (Inl ErrBundleNotFound, t)
      | Some row \<Rightarrow>
          (case decode (bd_signed row) of
             None \<Rightarrow> (Inl StoreFailed, t)
           | Some sp \<Rightarrow>
               let t1 = env t; (picked, t2) = qConsumeOneTimePrekey locked u t1 in
               if failed consume then (Inl StoreFailed, if took_effect consume then t2 else t1)
               else (Inr \<lparr>br_UIN = u, br_IdentityKey = bd_identity row, br_SignedPrekey = sp,
                       br_OneTimePrekey = map_option (\<lambda>r. \<lparr>op_ID = ok_key_id r, op_PublicKey = ok_public r\<rparr>) picked,
                       br_RegistrationID = bd_registration row\<rparr>, t2)))"

definition UpsertBundle ::
  "(SignedPrekey \<Rightarrow> bytes) \<Rightarrow> outcome \<Rightarrow> gotime \<Rightarrow> uin \<Rightarrow> string \<Rightarrow> SignedPrekey \<Rightarrow> int \<Rightarrow> key_tables \<Rightarrow> bool \<times> key_tables" where
  "UpsertBundle encode exec now u identity sp reg t =
     (case qUpsertBundle now u identity (encode sp) reg t of
        None \<Rightarrow> (False, t)
      | Some t' \<Rightarrow> (\<not> failed exec, if took_effect exec then t' else t))"

definition AddOneTimePrekeys :: "outcome \<Rightarrow> uin \<Rightarrow> OneTimePrekey list \<Rightarrow> key_tables \<Rightarrow> bool \<times> key_tables" where
  "AddOneTimePrekeys exec u ks t =
     (if ks = [] then (True, t)
      else case qInsertOneTimePrekeys u ks t of
        None \<Rightarrow> (False, t)
      | Some t' \<Rightarrow> (\<not> failed exec, if took_effect exec then t' else t))"

section \<open>Handlers\<close>

datatype key_http = KeyError nat string | KeyBundle BundleResponse | KeyNoContent | KeyCount nat

definition key_decodeJSON :: "'a body \<Rightarrow> key_http + 'a" where
  "key_decodeJSON b =
     (case b of
        Body x \<Rightarrow> Inr x
      | BodyTooLarge \<Rightarrow> Inl (KeyError 413 ''BODY_TOO_LARGE'')
      | BodyMalformed \<Rightarrow> Inl (KeyError 400 ''MALFORMED_JSON''))"

definition key_writeValidationError :: "key_error \<Rightarrow> key_http" where
  "key_writeValidationError e =
     (case e of
        KeyFieldRequired \<Rightarrow> KeyError 422 ''FIELD_REQUIRED''
      | KeyInvalid \<Rightarrow> KeyError 422 ''KEY_INVALID''
      | SignatureWrongLength \<Rightarrow> KeyError 422 ''SIGNATURE_WRONG_LENGTH''
      | TooManyPrekeys \<Rightarrow> KeyError 422 ''TOO_MANY_PREKEYS'')"

definition bundleFetchRateLimit :: int where "bundleFetchRateLimit = 30"
definition bundleRateLimitKeyPrefix :: string where "bundleRateLimitKeyPrefix = ''ratelimit:key-bundle:''"

record bundle_io =
  bq_path :: "int option"
  bq_edge :: edge
  bq_select :: bool
  bq_env :: "key_tables \<Rightarrow> key_tables"
  bq_locked :: "int list"
  bq_consume :: outcome

text \<open>\<open>bq_path\<close> is the parsed path parameter. The limiter's script is the one of the anonymous endpoints.\<close>

definition getBundleHandler ::
  "('c, 'y) counter_api_scheme \<Rightarrow> (bytes \<Rightarrow> SignedPrekey option) \<Rightarrow> bundle_io \<Rightarrow> key_tables \<Rightarrow> 'c \<Rightarrow> key_http \<times> key_tables \<times> 'c" where
  "getBundleHandler C decode io t cs =
     (case bq_path io of
        None \<Rightarrow> (KeyError 400 ''INVALID_UIN'', t, cs)
      | Some u \<Rightarrow>
          if u \<le> 0 then (KeyError 400 ''INVALID_UIN'', t, cs)
          else case AnonymousRateLimitBuckets (ed_hmac (bq_edge io)) (ed_secret (bq_edge io)) (ed_current (bq_edge io))
                 (ed_previous (bq_edge io)) ''key-bundle'' (ed_day (bq_edge io)) of
            None \<Rightarrow> (KeyError 503 ''RATE_LIMIT_IDENTITY_UNAVAILABLE'', t, cs)
          | Some buckets \<Rightarrow>
              (case rateLimitScript C (map (\<lambda>b. bundleRateLimitKeyPrefix @ b) buckets) (go_div Minute Second) 0 cs of
                 (Inl e, cs1) \<Rightarrow> (KeyError 503 ''RATE_LIMITER_UNAVAILABLE'', t, cs1)
               | (Inr count, cs1) \<Rightarrow>
                   if count > bundleFetchRateLimit then (KeyError 429 ''RATE_LIMITED'', t, cs1)
                   else case GetBundle decode (bq_select io) (bq_env io) (bq_locked io) (bq_consume io) u t of
                     (Inl ErrBundleNotFound, t1) \<Rightarrow> (KeyError 404 ''BUNDLE_NOT_FOUND'', t1, cs1)
                   | (Inl StoreFailed, t1) \<Rightarrow> (KeyError 500 ''DB_ERROR'', t1, cs1)
                   | (Inr bundle, t1) \<Rightarrow> (KeyBundle bundle, t1, cs1)))"

text \<open>\<open>fetchRegisteredIdentityKey\<close> of \<^verbatim>\<open>key-service/main.go\<close>; a missing row is an error.\<close>

definition fetchRegisteredIdentityKey :: "bool \<Rightarrow> uin \<Rightarrow> user_row list \<Rightarrow> string option" where
  "fetchRegisteredIdentityKey ok u us = (if ok then map_option us_identity (find (\<lambda>r. us_uin r = u) us) else None)"

record post_io =
  pb_uin :: "uin option"
  pb_body :: "UploadBundleRequest body"
  pb_lookup :: bool
  pb_now :: gotime
  pb_upsert :: outcome
  pb_env :: "key_tables \<Rightarrow> key_tables"
  pb_insert :: outcome

definition postBundleHandler ::
  "(SignedPrekey \<Rightarrow> bytes) \<Rightarrow> post_io \<Rightarrow> user_row list \<Rightarrow> key_tables \<Rightarrow> key_http \<times> key_tables" where
  "postBundleHandler encode io us t =
     (case pb_uin io of
        None \<Rightarrow> (KeyError 401 ''AUTH_MISSING_BEARER'', t)
      | Some u \<Rightarrow>
          (case key_decodeJSON (pb_body io) of
             Inl e \<Rightarrow> (e, t)
           | Inr req \<Rightarrow>
               (case bundle_Validate req of
                  Some e \<Rightarrow> (key_writeValidationError e, t)
                | None \<Rightarrow>
                    (case fetchRegisteredIdentityKey (pb_lookup io) u us of
                       None \<Rightarrow> (KeyError 500 ''DB_ERROR'', t)
                     | Some registered \<Rightarrow>
                         if registered \<noteq> [] \<and> registered \<noteq> ub_IdentityKey req then (KeyError 409 ''IDENTITY_KEY_MISMATCH'', t)
                         else case UpsertBundle encode (pb_upsert io) (pb_now io) u (ub_IdentityKey req) (ub_SignedPrekey req)
                                (ub_RegistrationID req) t of
                           (False, t1) \<Rightarrow> (KeyError 500 ''DB_ERROR'', t1)
                         | (True, t1) \<Rightarrow>
                             (case AddOneTimePrekeys (pb_insert io) u (ub_OneTimePrekeys req) (pb_env io t1) of
                                (False, t2) \<Rightarrow> (KeyError 500 ''DB_ERROR'', t2)
                              | (True, t2) \<Rightarrow> (KeyNoContent, t2))))))"

definition addPrekeysHandler :: "outcome \<Rightarrow> uin option \<Rightarrow> OneTimePrekey list body \<Rightarrow> key_tables \<Rightarrow> key_http \<times> key_tables" where
  "addPrekeysHandler exec actor body t =
     (case actor of
        None \<Rightarrow> (KeyError 401 ''AUTH_MISSING_BEARER'', t)
      | Some u \<Rightarrow>
          (case key_decodeJSON body of
             Inl e \<Rightarrow> (e, t)
           | Inr ks \<Rightarrow>
               (case prekeys_Validate ks of
                  Some e \<Rightarrow> (key_writeValidationError e, t)
                | None \<Rightarrow>
                    (case AddOneTimePrekeys exec u ks t of
                       (False, t1) \<Rightarrow> (KeyError 500 ''DB_ERROR'', t1)
                     | (True, t1) \<Rightarrow> (KeyNoContent, t1)))))"

definition countPrekeysHandler :: "bool \<Rightarrow> uin option \<Rightarrow> key_tables \<Rightarrow> key_http" where
  "countPrekeysHandler ok actor t =
     (case actor of
        None \<Rightarrow> KeyError 401 ''AUTH_MISSING_BEARER''
      | Some u \<Rightarrow> if ok then KeyCount (qCountUnusedPrekeys u t) else KeyError 500 ''DB_ERROR'')"

end
