(* ===== verification/KeyProperties.thy ===== *)
theory KeyProperties
  imports KeyService AccountProperties
begin

text \<open>
  One-time prekeys are handed out once, whatever uploads and fetches run, and an uploaded bundle is what the next
  fetch serves.
\<close>

section \<open>Tables\<close>

definition keys_ok :: "key_tables \<Rightarrow> bool" where
  "keys_ok t \<longleftrightarrow> distinct (map ok_id (kt_opks t)) \<and> distinct (map (\<lambda>r. (ok_uin r, ok_key_id r)) (kt_opks t)) \<and>
     (\<forall>r \<in> set (kt_opks t). ok_id r < kt_next t)"

definition used_keys :: "key_tables \<Rightarrow> (uin \<times> int) set" where
  "used_keys t = (\<lambda>r. (ok_uin r, ok_key_id r)) ` {r \<in> set (kt_opks t). ok_used r}"

lemma insert_opk_ok: "keys_ok t \<Longrightarrow> keys_ok (insert_opk u k t)"
  by (force simp: keys_ok_def insert_opk_def Let_def list_ex_iff)

lemma insert_opk_used: "used_keys (insert_opk u k t) = used_keys t"
  by (auto simp: used_keys_def insert_opk_def Let_def)

lemma fold_insert_opk: "keys_ok t \<Longrightarrow> keys_ok (fold (insert_opk u) ks t) \<and> used_keys (fold (insert_opk u) ks t) = used_keys t"
  by (induction ks arbitrary: t) (simp_all add: insert_opk_ok insert_opk_used)

lemma qInsert_keys: "keys_ok t \<Longrightarrow> qInsertOneTimePrekeys u ks t = Some t' \<Longrightarrow> keys_ok t' \<and> used_keys t' = used_keys t"
  using fold_insert_opk by (auto simp: qInsertOneTimePrekeys_def split: if_splits)

lemma AddOneTimePrekeys_keys:
  "keys_ok t \<Longrightarrow> AddOneTimePrekeys exec u ks t = (b, t') \<Longrightarrow> keys_ok t' \<and> used_keys t' = used_keys t"
  using qInsert_keys by (auto simp: AddOneTimePrekeys_def split: if_splits option.splits)

lemma bundles_irrelevant: "keys_ok (t\<lparr>kt_bundles := bs\<rparr>) = keys_ok t" "used_keys (t\<lparr>kt_bundles := bs\<rparr>) = used_keys t"
  by (simp_all add: keys_ok_def used_keys_def)

lemma UpsertBundle_keys:
  "UpsertBundle encode exec now u i sp reg t = (b, t') \<Longrightarrow> keys_ok t' = keys_ok t \<and> used_keys t' = used_keys t"
  by (auto simp: UpsertBundle_def qUpsertBundle_def Let_def bundles_irrelevant split: if_splits option.splits)

lemma pick_opk_props:
  assumes "pick_opk locked u t = Some r"
  shows "r \<in> set (kt_opks t) \<and> ok_uin r = u \<and> \<not> ok_used r \<and> ok_id r \<notin> set locked"
proof -
  let ?c = "filter (\<lambda>r. ok_uin r = u \<and> \<not> ok_used r \<and> ok_id r \<notin> set locked) (kt_opks t)"
  obtain rest where "sort_key ok_key_id ?c = r # rest" using assms by (auto simp: pick_opk_def split: list.splits)
  then have "r \<in> set (sort_key ok_key_id ?c)" by simp
  then show ?thesis by simp
qed

lemma qConsume_keys:
  assumes ok: "keys_ok t" and q: "qConsumeOneTimePrekey locked u t = (picked, t')"
  shows "keys_ok t' \<and> (case picked of None \<Rightarrow> used_keys t' = used_keys t
    | Some r \<Rightarrow> ok_uin r = u \<and> (u, ok_key_id r) \<notin> used_keys t \<and> used_keys t' = insert (u, ok_key_id r) (used_keys t))"
proof (cases picked)
  case None
  then show ?thesis using ok q by (auto simp: qConsumeOneTimePrekey_def split: option.splits)
next
  case (Some r)
  let ?f = "\<lambda>q. if ok_id q = ok_id r then q\<lparr>ok_used := True\<rparr> else q"
  have t': "t' = t\<lparr>kt_opks := map ?f (kt_opks t)\<rparr>" and p: "pick_opk locked u t = Some r"
    using q Some by (auto simp: qConsumeOneTimePrekey_def split: option.splits)
  note r = pick_opk_props [OF p]
  have d: "distinct (map ok_id (kt_opks t))" "distinct (map (\<lambda>r. (ok_uin r, ok_key_id r)) (kt_opks t))"
    using ok by (simp_all add: keys_ok_def)
  have one: "q = r" if "q \<in> set (kt_opks t)" "ok_id q = ok_id r" for q using d(1) that r by (auto simp: distinct_map inj_on_def)
  have two: "q = r" if "q \<in> set (kt_opks t)" "(ok_uin q, ok_key_id q) = (ok_uin r, ok_key_id r)" for q
    using d(2) that r by (auto simp: distinct_map inj_on_def)
  have "map ok_id (map ?f (kt_opks t)) = map ok_id (kt_opks t)"
    "map (\<lambda>r. (ok_uin r, ok_key_id r)) (map ?f (kt_opks t)) = map (\<lambda>r. (ok_uin r, ok_key_id r)) (kt_opks t)" by simp_all
  then have "distinct (map ok_id (map ?f (kt_opks t)))" "distinct (map (\<lambda>r. (ok_uin r, ok_key_id r)) (map ?f (kt_opks t)))"
    using d by (simp_all only:)
  then have "keys_ok t'" using ok unfolding keys_ok_def t' by auto
  moreover have "(u, ok_key_id r) \<notin> used_keys t" using two r by (auto simp: used_keys_def)
  moreover have "used_keys t' = insert (u, ok_key_id r) (used_keys t)"
  proof -
    have "set (map ?f (kt_opks t)) = insert (r\<lparr>ok_used := True\<rparr>) (set (kt_opks t) - {r})"
    proof (intro set_eqI iffI)
      fix x assume "x \<in> set (map ?f (kt_opks t))"
      then obtain q where q: "q \<in> set (kt_opks t)" "x = ?f q" by auto
      then show "x \<in> insert (r\<lparr>ok_used := True\<rparr>) (set (kt_opks t) - {r})" using one [OF q(1)] by (cases "ok_id q = ok_id r") auto
    next
      fix x assume "x \<in> insert (r\<lparr>ok_used := True\<rparr>) (set (kt_opks t) - {r})"
      then show "x \<in> set (map ?f (kt_opks t))"
      proof
        assume "x = r\<lparr>ok_used := True\<rparr>"
        then have "x = ?f r" by simp
        then show ?thesis using r unfolding set_map by blast
      next
        assume x: "x \<in> set (kt_opks t) - {r}"
        then have "x = ?f x" using one by auto
        then show ?thesis using x unfolding set_map by blast
      qed
    qed
    then have "{q \<in> set (map ?f (kt_opks t)). ok_used q} = insert (r\<lparr>ok_used := True\<rparr>) {q \<in> set (kt_opks t). ok_used q}"
      using r by auto
    then show ?thesis using r by (simp add: used_keys_def t' del: set_map)
  qed
  ultimately show ?thesis using Some r by simp
qed

section \<open>Requests one after the other\<close>

text \<open>The one-time prekey a response carries, as owner and key id.\<close>

definition handed :: "key_http \<Rightarrow> (uin \<times> int) list" where
  "handed res = (case res of KeyBundle b \<Rightarrow> (case br_OneTimePrekey b of None \<Rightarrow> [] | Some k \<Rightarrow> [(br_UIN b, op_ID k)]) | _ \<Rightarrow> [])"

text \<open>A run of requests with the keys they hand out; any number of fetches, uploads and failures.\<close>

inductive key_run ::
  "('c, 'y) counter_api_scheme \<Rightarrow> (bytes \<Rightarrow> SignedPrekey option) \<Rightarrow> (SignedPrekey \<Rightarrow> bytes) \<Rightarrow> key_tables \<times> 'c \<Rightarrow> (uin \<times> int) list \<Rightarrow> key_tables \<times> 'c \<Rightarrow> bool"
  for C decode encode where
  start: "key_run C decode encode st [] st"
| fetch: "key_run C decode encode st out (t, cs) \<Longrightarrow> bq_env io = id \<Longrightarrow> getBundleHandler C decode io t cs = (res, t', cs') \<Longrightarrow>
    key_run C decode encode st (out @ handed res) (t', cs')"
| upload: "key_run C decode encode st out (t, cs) \<Longrightarrow> pb_env io = id \<Longrightarrow> postBundleHandler encode io us t = (res, t') \<Longrightarrow>
    key_run C decode encode st out (t', cs)"
| refill: "key_run C decode encode st out (t, cs) \<Longrightarrow> addPrekeysHandler exec actor body t = (res, t') \<Longrightarrow>
    key_run C decode encode st out (t', cs)"

lemma GetBundle_keys:
  assumes ok: "keys_ok t" and g: "GetBundle decode select id locked consume u t = (res, t')"
  shows "keys_ok t' \<and> used_keys t \<subseteq> used_keys t' \<and>
    (\<forall>b k. res = Inr b \<longrightarrow> br_OneTimePrekey b = Some k \<longrightarrow> (br_UIN b, op_ID k) \<in> used_keys t' - used_keys t)"
proof -
  obtain picked t2 where q: "qConsumeOneTimePrekey locked u t = (picked, t2)" by force
  note c = qConsume_keys [OF ok q]
  show ?thesis using g ok c q
    by (cases picked) (auto simp: GetBundle_def Let_def split: if_splits option.splits)
qed

lemma fetch_keys:
  assumes "keys_ok t" and "bq_env io = id" and "getBundleHandler C decode io t cs = (res, t', cs')"
  shows "keys_ok t' \<and> used_keys t \<subseteq> used_keys t' \<and> set (handed res) \<subseteq> used_keys t' - used_keys t \<and> distinct (handed res)"
proof (cases "\<exists>u r. GetBundle decode (bq_select io) id (bq_locked io) (bq_consume io) u t = (r, t') \<and>
    res = (case r of Inl ErrBundleNotFound \<Rightarrow> KeyError 404 ''BUNDLE_NOT_FOUND'' | Inl StoreFailed \<Rightarrow> KeyError 500 ''DB_ERROR'' | Inr b \<Rightarrow> KeyBundle b)")
  case True
  then obtain u r where g: "GetBundle decode (bq_select io) id (bq_locked io) (bq_consume io) u t = (r, t')" and
    res: "res = (case r of Inl ErrBundleNotFound \<Rightarrow> KeyError 404 ''BUNDLE_NOT_FOUND'' | Inl StoreFailed \<Rightarrow> KeyError 500 ''DB_ERROR'' | Inr b \<Rightarrow> KeyBundle b)"
    by blast
  show ?thesis using GetBundle_keys [OF assms(1) g] res
    by (cases r) (auto simp: handed_def split: store_error.splits option.splits)
next
  case False
  then have "t' = t \<and> handed res = []" using assms
    by (auto simp: getBundleHandler_def handed_def split: option.splits if_splits sum.splits prod.splits store_error.splits)
  then show ?thesis using assms(1) by simp
qed

lemma upload_cases:
  assumes "postBundleHandler encode io us t = (res, t')"
  obtains "t' = t"
  | u and req :: UploadBundleRequest and b t1 where "UpsertBundle encode (pb_upsert io) (pb_now io) u (ub_IdentityKey req) (ub_SignedPrekey req) (ub_RegistrationID req) t = (b, t1)" "t' = t1"
  | u and req :: UploadBundleRequest and t1 b where "UpsertBundle encode (pb_upsert io) (pb_now io) u (ub_IdentityKey req) (ub_SignedPrekey req) (ub_RegistrationID req) t = (True, t1)"
      "AddOneTimePrekeys (pb_insert io) u (ub_OneTimePrekeys req) (pb_env io t1) = (b, t')"
proof (cases "pb_uin io")
  case None
  then show ?thesis using assms that(1) by (simp add: postBundleHandler_def)
next
  case (Some u)
  show ?thesis
  proof (cases "key_decodeJSON (pb_body io)")
    case (Inl e)
    then show ?thesis using assms Some that(1) by (simp add: postBundleHandler_def)
  next
    case (Inr req)
    obtain b1 t1 where u1: "UpsertBundle encode (pb_upsert io) (pb_now io) u (ub_IdentityKey req) (ub_SignedPrekey req) (ub_RegistrationID req) t = (b1, t1)"
      by force
    obtain b2 t2 where u2: "AddOneTimePrekeys (pb_insert io) u (ub_OneTimePrekeys req) (pb_env io t1) = (b2, t2)" by force
    have "t' = t \<or> t' = t1 \<or> b1 \<and> t' = t2" using assms Some Inr u1 u2
      by (cases b1; cases b2) (simp_all add: postBundleHandler_def split: option.splits if_splits)
    then show ?thesis using that(1) that(2) [OF u1] that(3) u1 u2 by auto
  qed
qed

lemma upload_keys:
  assumes ok: "keys_ok t" and "pb_env io = id" and p: "postBundleHandler encode io us t = (res, t')"
  shows "keys_ok t' \<and> used_keys t' = used_keys t"
proof (rule upload_cases [OF p])
  fix u and req :: UploadBundleRequest and t1 b
  assume u: "UpsertBundle encode (pb_upsert io) (pb_now io) u (ub_IdentityKey req) (ub_SignedPrekey req) (ub_RegistrationID req) t = (True, t1)"
    and a: "AddOneTimePrekeys (pb_insert io) u (ub_OneTimePrekeys req) (pb_env io t1) = (b, t')"
  from AddOneTimePrekeys_keys [OF _ a] UpsertBundle_keys [OF u] ok assms(2) show ?thesis by simp
qed (use ok in \<open>auto dest!: UpsertBundle_keys\<close>)

lemma refill_keys:
  assumes "keys_ok t" and "addPrekeysHandler exec actor body t = (res, t')"
  shows "keys_ok t' \<and> used_keys t' = used_keys t"
  using assms AddOneTimePrekeys_keys
  by (auto simp: addPrekeysHandler_def split: option.splits sum.splits prod.splits bool.splits)

text \<open>C19: However fetches, uploads and refills follow each other, and whichever of their statements fail, no one-time prekey
  (owner and key id) is handed out twice, not even after the owner uploads the same key id again.\<close>

theorem one_time_prekey_single_use:
  assumes "key_run C decode encode st out st'" and "keys_ok (fst st)"
  shows "distinct out \<and> set out \<inter> used_keys (fst st) = {} \<and> set out \<subseteq> used_keys (fst st')"
proof -
  have "keys_ok (fst st') \<and> used_keys (fst st) \<subseteq> used_keys (fst st') \<and> distinct out \<and>
      set out \<inter> used_keys (fst st) = {} \<and> set out \<subseteq> used_keys (fst st')"
    using assms
  proof (induction rule: key_run.induct)
    case (fetch st out t cs io res t' cs')
    then have ih: "keys_ok t" "used_keys (fst st) \<subseteq> used_keys t" "distinct out" "set out \<inter> used_keys (fst st) = {}" "set out \<subseteq> used_keys t"
      by simp_all
    from fetch_keys [OF ih(1) fetch.hyps(2,3)] ih(2-) show ?case by auto
  next
    case (upload st out t cs io us res t')
    then show ?case using upload_keys [OF _ upload.hyps(2,3)] by auto
  next
    case (refill st out t cs exec actor body res t')
    then show ?case using refill_keys [OF _ refill.hyps(2)] by auto
  qed simp
  then show ?thesis by blast
qed

text \<open>A user with a bundle and one key; two fetches follow each other.\<close>

definition sample_keys :: key_tables where
  "sample_keys = \<lparr>kt_bundles = [\<lparr>bd_uin = 7, bd_identity = ''id'', bd_signed = ''sp'', bd_registration = 1, bd_uploaded = 0\<rparr>],
     kt_opks = [\<lparr>ok_id = 1, ok_uin = 7, ok_key_id = 4, ok_public = ''pk'', ok_used = False\<rparr>], kt_next = 2\<rparr>"

definition sample_fetch :: bundle_io where
  "sample_fetch = \<lparr>bq_path = Some 7, bq_edge = sample_edge, bq_select = True, bq_env = id, bq_locked = [], bq_consume = Done\<rparr>"

definition no_signed :: "bytes \<Rightarrow> SignedPrekey option" where
  "no_signed b = Some \<lparr>sp_ID = 0, sp_PublicKey = [], sp_Signature = []\<rparr>"

lemma key_bundle_trim: "trim_space ''key-bundle'' = ''key-bundle''"
  by code_simp

lemmas sample_bucket_keys = sample_bucket [OF key_bundle_trim, simplified]

lemma sample_script:
  "rateLimitScript mem_counter [k] w 0 (\<lambda>_. 0, Map.empty) = (Inr 1, ((\<lambda>_. 0)(k := 1), [k \<mapsto> w]))"
  by (simp add: authenticatedRateLimitScript_def mem_counter_def)

lemma sample_fetched:
  "\<exists>b t' cs'. getBundleHandler mem_counter no_signed sample_fetch sample_keys (\<lambda>_. 0, Map.empty) = (KeyBundle b, t', cs') \<and>
    br_UIN b = 7 \<and> br_OneTimePrekey b = Some \<lparr>op_ID = 4, op_PublicKey = ''pk''\<rparr>"
  by (simp add: getBundleHandler_def sample_fetch_def sample_bucket_keys sample_script bundleFetchRateLimit_def GetBundle_def qSelectBundle_def
      sample_keys_def no_signed_def qConsumeOneTimePrekey_def pick_opk_def del: rateLimitScript.simps)

lemma one_time_prekey_single_use_witness:
  "\<exists>st'. key_run mem_counter no_signed (\<lambda>_. []) (sample_keys, (\<lambda>_. 0, Map.empty)) [(7, 4)] st' \<and> (7, 4) \<in> used_keys (fst st')"
proof -
  obtain b t' cs' where f: "getBundleHandler mem_counter no_signed sample_fetch sample_keys (\<lambda>_. 0, Map.empty) = (KeyBundle b, t', cs')"
    "br_UIN b = 7" "br_OneTimePrekey b = Some \<lparr>op_ID = 4, op_PublicKey = ''pk''\<rparr>" using sample_fetched by blast
  have "bq_env sample_fetch = id" by (simp add: sample_fetch_def)
  from key_run.fetch [OF key_run.start this f(1)]
  have r: "key_run mem_counter no_signed (\<lambda>_. []) (sample_keys, (\<lambda>_. 0, Map.empty)) [(7, 4)] (t', cs')"
    using f(2,3) by (simp add: handed_def)
  have "keys_ok sample_keys" by (simp add: keys_ok_def sample_keys_def)
  with one_time_prekey_single_use [OF r] have "(7, 4) \<in> used_keys (fst (t', cs'))" by simp
  with r show ?thesis by (rule exI [where x = "(t', cs')", OF conjI])
qed

section \<open>Upload and fetch\<close>

lemma insert_opk_bundles [simp]: "kt_bundles (insert_opk u k t) = kt_bundles t"
  by (simp add: insert_opk_def Let_def)

lemma fold_insert_bundles [simp]: "kt_bundles (fold (insert_opk u) ks t) = kt_bundles t"
  by (induction ks arbitrary: t) simp_all

lemma AddOneTimePrekeys_bundles: "AddOneTimePrekeys exec u ks t = (b, t') \<Longrightarrow> kt_bundles t' = kt_bundles t"
  by (auto simp: AddOneTimePrekeys_def qInsertOneTimePrekeys_def split: if_splits)

lemma upsert_find:
  assumes "UpsertBundle encode exec now u i sp reg t = (True, t')"
  shows "qSelectBundle u t' = Some \<lparr>bd_uin = u, bd_identity = i, bd_signed = encode sp, bd_registration = reg, bd_uploaded = now\<rparr>"
proof -
  let ?row = "\<lparr>bd_uin = u, bd_identity = i, bd_signed = encode sp, bd_registration = reg, bd_uploaded = now\<rparr>"
  have a: "list_ex (\<lambda>r. bd_uin r = u) bs \<Longrightarrow> find (\<lambda>r. bd_uin r = u) (map (\<lambda>r. if bd_uin r = u then ?row else r) bs) = Some ?row" for bs
    by (induction bs) auto
  have b: "\<not> list_ex (\<lambda>r. bd_uin r = u) bs \<Longrightarrow> find (\<lambda>r. bd_uin r = u) (bs @ [?row]) = Some ?row" for bs
    by (induction bs) auto
  show ?thesis using assms a b
    by (auto simp: UpsertBundle_def qUpsertBundle_def qSelectBundle_def Let_def split: if_splits)
qed

text \<open>Also: After a successful upload, a fetch within the limit serves exactly the uploaded identity key, signed prekey and
  registration id, and the identity key is the one registered with the account when there is one.\<close>

theorem bundle_roundtrip:
  assumes codec: "decode (encode (ub_SignedPrekey req)) = Some (ub_SignedPrekey req)"
    and post: "postBundleHandler encode io us t = (KeyNoContent, t1)" "pb_uin io = Some u" "pb_body io = Body req" "pb_env io = id"
    and pos: "0 < u" and fetch: "bq_path gio = Some u" "bq_select gio" "bq_env gio = id" "bq_consume gio = Done"
    and buckets: "AnonymousRateLimitBuckets (ed_hmac (bq_edge gio)) (ed_secret (bq_edge gio)) (ed_current (bq_edge gio))
      (ed_previous (bq_edge gio)) ''key-bundle'' (ed_day (bq_edge gio)) = Some bs"
    and limit: "rateLimitScript C (map (\<lambda>b. bundleRateLimitKeyPrefix @ b) bs) (go_div Minute Second) 0 cs = (Inr count, cs1)" "count \<le> bundleFetchRateLimit"
  shows "\<exists>b t2. getBundleHandler C decode gio t1 cs = (KeyBundle b, t2, cs1) \<and> br_UIN b = u \<and> br_IdentityKey b = ub_IdentityKey req \<and>
    br_SignedPrekey b = ub_SignedPrekey req \<and> br_RegistrationID b = ub_RegistrationID req \<and>
    (\<exists>registered. fetchRegisteredIdentityKey True u us = Some registered \<and> (registered = [] \<or> br_IdentityKey b = registered))"
proof -
  obtain t0 where up: "UpsertBundle encode (pb_upsert io) (pb_now io) u (ub_IdentityKey req) (ub_SignedPrekey req) (ub_RegistrationID req) t = (True, t0)"
    and add: "AddOneTimePrekeys (pb_insert io) u (ub_OneTimePrekeys req) t0 = (True, t1)"
    and reg: "\<exists>registered. fetchRegisteredIdentityKey True u us = Some registered \<and> (registered = [] \<or> ub_IdentityKey req = registered)"
    using post
    by (auto simp: postBundleHandler_def key_decodeJSON_def key_writeValidationError_def fetchRegisteredIdentityKey_def
        split: option.splits if_splits prod.splits bool.splits key_error.splits)
  have "qSelectBundle u t1 = qSelectBundle u t0" using AddOneTimePrekeys_bundles [OF add] by (simp add: qSelectBundle_def)
  then have sel: "qSelectBundle u t1 = Some \<lparr>bd_uin = u, bd_identity = ub_IdentityKey req, bd_signed = encode (ub_SignedPrekey req),
      bd_registration = ub_RegistrationID req, bd_uploaded = pb_now io\<rparr>" using upsert_find [OF up] by simp
  obtain picked t2 where q: "qConsumeOneTimePrekey (bq_locked gio) u t1 = (picked, t2)" by force
  show ?thesis using fetch pos buckets limit sel q codec reg
    by (simp add: getBundleHandler_def GetBundle_def Let_def del: rateLimitScript.simps)
qed

definition sample_upload :: UploadBundleRequest where
  "sample_upload = \<lparr>ub_IdentityKey = replicate 43 (CHR ''A''),
     ub_SignedPrekey = \<lparr>sp_ID = 1, sp_PublicKey = replicate 43 (CHR ''A''), sp_Signature = replicate 86 (CHR ''A'')\<rparr>,
     ub_OneTimePrekeys = [], ub_RegistrationID = 3\<rparr>"

definition sample_post :: post_io where
  "sample_post = \<lparr>pb_uin = Some 7, pb_body = Body sample_upload, pb_lookup = True, pb_now = 0, pb_upsert = Done, pb_env = id, pb_insert = Done\<rparr>"

lemma octets_replicate2: "\<exists>d. b64_octets (replicate (4 * n + 2) 0) = Some d \<and> length d = 3 * n + 1"
proof (induction n)
  case (Suc n)
  have "replicate (4 * Suc n + 2) (0 :: nat) = 0 # 0 # 0 # 0 # replicate (4 * n + 2) 0" by (simp add: numeral_eq_Suc)
  with Suc show ?case by auto
next
  case 0
  have "replicate 2 (0 :: nat) = [0, 0]" by (simp add: numeral_2_eq_2)
  then show ?case by simp
qed

lemma signature_decodes: "\<exists>d. DecodeString True (replicate 86 (CHR ''A'')) = Some d \<and> length d = 64"
proof -
  have v: "b64_value True (CHR ''A'') = Some 0" by (simp add: b64_value_def)
  have "those (map (b64_value True) (replicate 86 (CHR ''A''))) = Some (replicate 86 0)"
    using those_replicate [of 86 0] by (simp add: v)
  then show ?thesis using octets_replicate2 [of 21] by (auto simp: DecodeString_def)
qed

lemma sample_upload_valid: "bundle_Validate sample_upload = None"
proof -
  have k: "isBase64URLBytes (replicate 43 (CHR ''A'')) 32"
    using key_decodes by (auto simp: isBase64URLBytes_def isBase64URLChar_def is_alnum_def DecodePadded_def list_all_iff Let_def)
  have g: "isBase64URLBytes (replicate 86 (CHR ''A'')) 64"
    using signature_decodes by (auto simp: isBase64URLBytes_def isBase64URLChar_def is_alnum_def DecodePadded_def list_all_iff Let_def)
  show ?thesis by (simp add: bundle_Validate_def sample_upload_def validateSignedPrekey_def k g maxPrekeysPerBatch_def)
qed

definition sample_codec :: "bytes \<Rightarrow> SignedPrekey option" where
  "sample_codec b = (if b = ''sp'' then Some (ub_SignedPrekey sample_upload) else None)"

lemma bundle_roundtrip_witness:
  "\<exists>t1 b t2 cs1. postBundleHandler (\<lambda>_. ''sp'') sample_post [\<lparr>us_uin = 7, us_username = ''ann'', us_email = None, us_hash = [], us_identity = []\<rparr>] sample_keys = (KeyNoContent, t1) \<and>
    getBundleHandler mem_counter sample_codec sample_fetch t1 (\<lambda>_. 0, Map.empty) = (KeyBundle b, t2, cs1) \<and> br_RegistrationID b = 3"
proof -
  let ?us = "[\<lparr>us_uin = 7, us_username = ''ann'', us_email = None, us_hash = [], us_identity = []\<rparr>]"
  obtain t1 where p: "postBundleHandler (\<lambda>_. ''sp'') sample_post ?us sample_keys = (KeyNoContent, t1)"
    by (simp add: postBundleHandler_def sample_post_def key_decodeJSON_def sample_upload_valid fetchRegisteredIdentityKey_def UpsertBundle_def
        qUpsertBundle_def Let_def) (simp add: sample_upload_def is_int32_def AddOneTimePrekeys_def)
  have "\<exists>b t2. getBundleHandler mem_counter sample_codec sample_fetch t1 (\<lambda>_. 0, Map.empty) = (KeyBundle b, t2,
        ((\<lambda>_. 0)(bundleRateLimitKeyPrefix @ ''anon:key-bundle:bWFj'' := 1), [bundleRateLimitKeyPrefix @ ''anon:key-bundle:bWFj'' \<mapsto> go_div Minute Second])) \<and>
      br_UIN b = 7 \<and> br_IdentityKey b = ub_IdentityKey sample_upload \<and>
      br_SignedPrekey b = ub_SignedPrekey sample_upload \<and> br_RegistrationID b = ub_RegistrationID sample_upload \<and>
      (\<exists>registered. fetchRegisteredIdentityKey True 7 ?us = Some registered \<and> (registered = [] \<or> br_IdentityKey b = registered))"
    by (rule bundle_roundtrip [OF _ p, where bs = "[''anon:key-bundle:bWFj'']" and count = 1])
       (simp_all add: sample_codec_def sample_post_def sample_fetch_def sample_bucket_keys sample_script bundleFetchRateLimit_def del: rateLimitScript.simps)
  then show ?thesis using p by (auto simp: sample_upload_def)
qed

end
