(* ===== verification/Contacts.thy ===== *)
theory Contacts
  imports ChatGroups Sessions
begin

text \<open>
  Contacts (\<^verbatim>\<open>auth-service/handlers/contacts.go\<close> with its statements of \<^verbatim>\<open>handlers/queries.go\<close>). A row is a
  directed edge of the contact graph; a request creates one in each direction.
\<close>

section \<open>Statements\<close>

record contact_row =
  ct_owner :: uin
  ct_target :: uin
  ct_requested :: "uin option"
  ct_status :: string

record contact_tables =
  cx_users :: "profile list"
  cx_rows :: "contact_row list"

record contactItem =
  ci_UIN :: uin
  ci_Username :: string
  ci_AvatarURL :: string
  ci_Status :: string
  ci_Direction :: string

definition qListContactsForOwner :: "uin \<Rightarrow> contact_tables \<Rightarrow> contactItem list" where
  "qListContactsForOwner u t =
     concat (map (\<lambda>c. map (\<lambda>p. \<lparr>ci_UIN = pf_uin p, ci_Username = pf_username p,
         ci_AvatarURL = (case pf_avatar p of None \<Rightarrow> [] | Some a \<Rightarrow> a), ci_Status = ct_status c,
         ci_Direction = (if ct_status c = ''pending'' \<and> ct_requested c = Some u then ''outgoing''
           else if ct_status c = ''pending'' then ''incoming'' else [])\<rparr>)
       (filter (\<lambda>p. pf_uin p = ct_target c) (cx_users t))) (filter (\<lambda>c. ct_owner c = u) (cx_rows t)))"

definition qUserExists :: "uin \<Rightarrow> contact_tables \<Rightarrow> bool" where
  "qUserExists u t = list_ex (\<lambda>p. pf_uin p = u) (cx_users t)"

definition edge_at :: "uin \<Rightarrow> uin \<Rightarrow> contact_tables \<Rightarrow> contact_row option" where
  "edge_at a b t = find (\<lambda>r. ct_owner r = a \<and> ct_target r = b) (cx_rows t)"

text \<open>An insert that violates a foreign key fails (None).\<close>

definition insert_edge :: "uin \<Rightarrow> uin \<Rightarrow> uin option \<Rightarrow> string \<Rightarrow> contact_tables \<Rightarrow> contact_tables option" where
  "insert_edge a b req status t =
     (if edge_at a b t \<noteq> None then Some t
      else if \<not> qUserExists a t \<or> \<not> qUserExists b t then None
      else Some (t\<lparr>cx_rows := cx_rows t @ [\<lparr>ct_owner = a, ct_target = b, ct_requested = req, ct_status = status\<rparr>]\<rparr>))"

definition qUpsertContact :: "uin \<Rightarrow> uin \<Rightarrow> uin \<Rightarrow> contact_tables \<Rightarrow> contact_tables option" where
  "qUpsertContact a b req t = insert_edge a b (Some req) ''pending'' t"

definition upd_edge :: "uin \<Rightarrow> uin \<Rightarrow> (contact_row \<Rightarrow> bool) \<Rightarrow> string \<Rightarrow> contact_tables \<Rightarrow> nat \<times> contact_tables" where
  "upd_edge a b P status t =
     (let hit = (\<lambda>r. ct_owner r = a \<and> ct_target r = b \<and> P r) in
      (length (filter hit (cx_rows t)), t\<lparr>cx_rows := map (\<lambda>r. if hit r then r\<lparr>ct_status := status\<rparr> else r) (cx_rows t)\<rparr>))"

definition qAcceptContact :: "uin \<Rightarrow> uin \<Rightarrow> contact_tables \<Rightarrow> nat \<times> contact_tables" where
  "qAcceptContact a b t = upd_edge a b (\<lambda>r. ct_status r = ''pending'' \<and> ct_requested r = Some b) ''accepted'' t"

definition qAcceptContactReverse :: "uin \<Rightarrow> uin \<Rightarrow> contact_tables \<Rightarrow> nat \<times> contact_tables" where
  "qAcceptContactReverse a b t = upd_edge b a (\<lambda>r. ct_status r = ''pending'' \<and> ct_requested r = Some b) ''accepted'' t"

definition qBlockContact :: "uin \<Rightarrow> uin \<Rightarrow> contact_tables \<Rightarrow> nat \<times> contact_tables" where
  "qBlockContact a b t = upd_edge a b (\<lambda>r. True) ''blocked'' t"

definition qDeleteContact :: "uin \<Rightarrow> uin \<Rightarrow> contact_tables \<Rightarrow> contact_tables" where
  "qDeleteContact a b t = t\<lparr>cx_rows := filter (\<lambda>r. \<not> (ct_owner r = a \<and> ct_target r = b)) (cx_rows t)\<rparr>"

definition qUpsertContactBlocked :: "uin \<Rightarrow> uin \<Rightarrow> contact_tables \<Rightarrow> contact_tables option" where
  "qUpsertContactBlocked a b t = insert_edge a b None ''blocked'' t"

section \<open>Handlers\<close>

datatype contact_http = ContactError nat string | ContactList "contactItem list" | ContactStatus nat string | ContactRemoved

definition NotificationKindContactRequest :: string where "NotificationKindContactRequest = ''contact_request''"
definition NotificationKindContactAccepted :: string where "NotificationKindContactAccepted = ''contact_accepted''"

definition publishContactRequestNotification :: "bool \<Rightarrow> uin \<Rightarrow> uin \<Rightarrow> (string \<times> NotificationPayload) list" where
  "publishContactRequestNotification bus targetUIN fromUIN =
     (if \<not> bus then []
      else [(''notification.'' @ itoa targetUIN,
             \<lparr>np_Kind = NotificationKindContactRequest, np_Title = ''New contact request'', np_Body = ''You have a new contact request'',
              np_Data = [(''from_uin'', JNum fromUIN)]\<rparr>)])"

definition publishContactAcceptedNotification :: "bool \<Rightarrow> uin \<Rightarrow> uin \<Rightarrow> (string \<times> NotificationPayload) list" where
  "publishContactAcceptedNotification bus requesterUIN acceptorUIN =
     (if \<not> bus then []
      else [(''notification.'' @ itoa requesterUIN,
             \<lparr>np_Kind = NotificationKindContactAccepted, np_Title = ''Contact request accepted'', np_Body = ''Your contact request was accepted'',
              np_Data = [(''from_uin'', JNum acceptorUIN)]\<rparr>)])"

definition listContactsHandler :: "bool \<Rightarrow> uin option \<Rightarrow> contact_tables \<Rightarrow> contact_http" where
  "listContactsHandler ok actor t =
     (case actor of
        None \<Rightarrow> ContactError 401 ''AUTH_MISSING_BEARER''
      | Some u \<Rightarrow> if ok then ContactList (qListContactsForOwner u t) else ContactError 500 ''DB_ERROR'')"

record contact_io =
  cq_actor :: "uin option"
  cq_body :: "int body"
  cq_path :: string
  cq_check :: bool
  cq_env :: "contact_tables \<Rightarrow> contact_tables"
  cq_begin :: bool
  cq_first :: outcome
  cq_second :: outcome
  cq_commit :: outcome
  cq_bus :: bool

definition contact_body :: "int body \<Rightarrow> contact_http + int" where
  "contact_body b =
     (case decodeJSON b of Inr n \<Rightarrow> Inr n | Inl (AuthError s c) \<Rightarrow> Inl (ContactError s c) | Inl _ \<Rightarrow> Inl (ContactError 400 ''MALFORMED_JSON''))"

definition addContactHandler ::
  "contact_io \<Rightarrow> contact_tables \<Rightarrow> contact_http \<times> (string \<times> NotificationPayload) list \<times> contact_tables" where
  "addContactHandler io t =
     (case cq_actor io of
        None \<Rightarrow> (ContactError 401 ''AUTH_MISSING_BEARER'', [], t)
      | Some ownerUIN \<Rightarrow>
          (case contact_body (cq_body io) of
             Inl e \<Rightarrow> (e, [], t)
           | Inr targetUIN \<Rightarrow>
               if targetUIN \<le> 0 then (ContactError 422 ''FIELD_INVALID'', [], t)
               else if targetUIN = ownerUIN then (ContactError 422 ''SELF_CONTACT_FORBIDDEN'', [], t)
               else if \<not> cq_check io then (ContactError 500 ''DB_ERROR'', [], t)
               else if \<not> qUserExists targetUIN t then (ContactError 404 ''USER_NOT_FOUND'', [], t)
               else
                 let t0 = cq_env io t in
                 if \<not> cq_begin io \<or> failed (cq_first io) then (ContactError 500 ''DB_ERROR'', [], t0)
                 else case qUpsertContact ownerUIN targetUIN ownerUIN t0 of
                   None \<Rightarrow> (ContactError 500 ''DB_ERROR'', [], t0)
                 | Some t1 \<Rightarrow>
                     if failed (cq_second io) then (ContactError 500 ''DB_ERROR'', [], t0)
                     else case qUpsertContact targetUIN ownerUIN ownerUIN t1 of
                       None \<Rightarrow> (ContactError 500 ''DB_ERROR'', [], t0)
                     | Some t2 \<Rightarrow>
                         if failed (cq_commit io) then
                           (ContactError 500 ''DB_ERROR'', [], if took_effect (cq_commit io) then t2 else t0)
                         else (ContactStatus 201 ''pending'', publishContactRequestNotification (cq_bus io) targetUIN ownerUIN, t2)))"

text \<open>The path parameter of the other handlers.\<close>

definition target_param :: "string \<Rightarrow> uin option" where
  "target_param s = (case ParseInt64 s of None \<Rightarrow> None | Some n \<Rightarrow> if n \<le> 0 then None else Some n)"

definition acceptContactHandler ::
  "contact_io \<Rightarrow> contact_tables \<Rightarrow> contact_http \<times> (string \<times> NotificationPayload) list \<times> contact_tables" where
  "acceptContactHandler io t =
     (case cq_actor io of
        None \<Rightarrow> (ContactError 401 ''AUTH_MISSING_BEARER'', [], t)
      | Some ownerUIN \<Rightarrow>
          (case target_param (cq_path io) of
             None \<Rightarrow> (ContactError 400 ''FIELD_INVALID'', [], t)
           | Some targetUIN \<Rightarrow>
               if \<not> cq_begin io \<or> failed (cq_first io) then (ContactError 500 ''DB_ERROR'', [], t)
               else
                 let (n, t1) = qAcceptContact ownerUIN targetUIN t in
                 if n = 0 then (ContactError 404 ''REQUEST_NOT_FOUND'', [], t)
                 else if failed (cq_second io) then (ContactError 500 ''DB_ERROR'', [], t)
                 else
                   let t2 = snd (qAcceptContactReverse ownerUIN targetUIN t1) in
                   if failed (cq_commit io) then (ContactError 500 ''DB_ERROR'', [], if took_effect (cq_commit io) then t2 else t)
                   else (ContactStatus 200 ''accepted'', publishContactAcceptedNotification (cq_bus io) targetUIN ownerUIN, t2)))"

definition blockContactHandler :: "contact_io \<Rightarrow> contact_tables \<Rightarrow> contact_http \<times> contact_tables" where
  "blockContactHandler io t =
     (case cq_actor io of
        None \<Rightarrow> (ContactError 401 ''AUTH_MISSING_BEARER'', t)
      | Some ownerUIN \<Rightarrow>
          (case target_param (cq_path io) of
             None \<Rightarrow> (ContactError 400 ''FIELD_INVALID'', t)
           | Some targetUIN \<Rightarrow>
               let (n, t1) = qBlockContact ownerUIN targetUIN t in
               if failed (cq_first io) then (ContactError 500 ''DB_ERROR'', if took_effect (cq_first io) then t1 else t)
               else if n > 0 then (ContactStatus 200 ''blocked'', t1)
               else
                 let t1 = cq_env io t1 in
                 case qUpsertContactBlocked ownerUIN targetUIN t1 of
                   None \<Rightarrow> (ContactError 500 ''DB_ERROR'', t1)
                 | Some t2 \<Rightarrow>
                     if failed (cq_second io) then (ContactError 500 ''DB_ERROR'', if took_effect (cq_second io) then t2 else t1)
                     else (ContactStatus 200 ''blocked'', t2)))"

definition removeContactHandler :: "contact_io \<Rightarrow> contact_tables \<Rightarrow> contact_http \<times> contact_tables" where
  "removeContactHandler io t =
     (case cq_actor io of
        None \<Rightarrow> (ContactError 401 ''AUTH_MISSING_BEARER'', t)
      | Some ownerUIN \<Rightarrow>
          (case target_param (cq_path io) of
             None \<Rightarrow> (ContactError 400 ''FIELD_INVALID'', t)
           | Some targetUIN \<Rightarrow>
               let t1 = qDeleteContact ownerUIN targetUIN t in
               if failed (cq_first io) then (ContactError 500 ''DB_ERROR'', if took_effect (cq_first io) then t1 else t)
               else (ContactRemoved, t1)))"

end
