(* ===== verification/ContactProperties.thy ===== *)
theory ContactProperties
  imports Contacts
begin

text \<open>
  A contact is accepted only by the one who was asked, a request that is accepted shows up on both sides, and two
  findings: a contact that was removed and added again can never be accepted, and a request that arrives between the
  two statements of a block undoes it.
\<close>

section \<open>Rows and statements\<close>

definition accepted :: "uin \<Rightarrow> uin \<Rightarrow> contact_tables \<Rightarrow> bool" where
  "accepted a b t \<longleftrightarrow> (\<exists>r \<in> set (cx_rows t). ct_owner r = a \<and> ct_target r = b \<and> ct_status r = ''accepted'')"

definition asked :: "uin \<Rightarrow> uin \<Rightarrow> contact_tables \<Rightarrow> bool" where
  "asked a b t \<longleftrightarrow> (\<exists>r \<in> set (cx_rows t). ct_owner r = a \<and> ct_target r = b \<and> ct_status r = ''pending'' \<and> ct_requested r = Some b)"

lemma insert_edge_accepted: "insert_edge a b req st t = Some t' \<Longrightarrow> st \<noteq> ''accepted'' \<Longrightarrow> accepted x y t' = accepted x y t"
  by (auto simp: insert_edge_def accepted_def split: if_splits)

lemma upd_edge_accepted:
  assumes "upd_edge a b P st t = (n, t')" and "accepted x y t'"
  shows "accepted x y t \<or> st = ''accepted'' \<and> x = a \<and> y = b \<and> (\<exists>r \<in> set (cx_rows t). ct_owner r = a \<and> ct_target r = b \<and> P r)"
  using assms by (auto simp: upd_edge_def accepted_def Let_def split: if_splits)

lemma delete_accepted: "accepted x y (qDeleteContact a b t) \<Longrightarrow> accepted x y t"
  by (auto simp: qDeleteContact_def accepted_def)

lemma upd_edge_zero: "upd_edge a b P st t = (n, t') \<Longrightarrow> n = 0 \<longleftrightarrow> (\<forall>r \<in> set (cx_rows t). \<not> (ct_owner r = a \<and> ct_target r = b \<and> P r))"
  by (auto simp: upd_edge_def Let_def filter_empty_conv)

lemma upd_edge_makes:
  assumes "upd_edge a b P ''accepted'' t = (n, t')" and "r \<in> set (cx_rows t)" and "ct_owner r = a" "ct_target r = b" "P r"
  shows "accepted a b t'"
proof -
  have "r\<lparr>ct_status := ''accepted''\<rparr> \<in> set (cx_rows t')" using assms by (auto simp: upd_edge_def Let_def)
  then show ?thesis using assms(3,4) unfolding accepted_def by (intro bexI) auto
qed

lemma upd_edge_other:
  assumes "upd_edge a b P st t = (n, t')" and "r \<in> set (cx_rows t)" and "ct_owner r \<noteq> a \<or> ct_target r \<noteq> b"
  shows "r \<in> set (cx_rows t')"
  using assms by (auto simp: upd_edge_def Let_def)

lemma edge_at_snoc:
  "edge_at a b (t\<lparr>cx_rows := rs @ [r]\<rparr>) =
     (case edge_at a b (t\<lparr>cx_rows := rs\<rparr>) of None \<Rightarrow> if ct_owner r = a \<and> ct_target r = b then Some r else None | Some q \<Rightarrow> Some q)"
  by (simp add: edge_at_def find_snoc)

section \<open>Consent\<close>

text \<open>A request to one of the handlers, with no other request in between.\<close>

inductive contact_step :: "contact_io \<Rightarrow> contact_tables \<Rightarrow> contact_tables \<Rightarrow> bool" where
  add: "addContactHandler io t = (res, ms, t') \<Longrightarrow> cq_env io = id \<Longrightarrow> contact_step io t t'"
| accept: "acceptContactHandler io t = (res, ms, t') \<Longrightarrow> contact_step io t t'"
| block: "blockContactHandler io t = (res, t') \<Longrightarrow> cq_env io = id \<Longrightarrow> contact_step io t t'"
| remove: "removeContactHandler io t = (res, t') \<Longrightarrow> contact_step io t t'"

lemma add_accepted:
  assumes "addContactHandler io t = (res, ms, t')" and "cq_env io = id"
  shows "accepted x y t' = accepted x y t"
proof -
  have "t' = t \<or> (\<exists>a b t1. insert_edge a b (Some a) ''pending'' t = Some t1 \<and> insert_edge b a (Some a) ''pending'' t1 = Some t')"
    using assms by (auto simp: addContactHandler_def qUpsertContact_def Let_def split: option.splits sum.splits if_splits)
  then show ?thesis by (auto dest!: insert_edge_accepted [where x = x and y = y])
qed

lemma block_accepted:
  assumes "blockContactHandler io t = (res, t')" and "cq_env io = id" and "accepted x y t'"
  shows "accepted x y t"
proof (cases "cq_actor io")
  case None
  then show ?thesis using assms by (simp add: blockContactHandler_def)
next
  case (Some a)
  show ?thesis
  proof (cases "target_param (cq_path io)")
    case None
    then show ?thesis using assms Some by (simp add: blockContactHandler_def)
  next
    case (Some b)
    obtain n t1 where u: "upd_edge a b (\<lambda>r. True) ''blocked'' t = (n, t1)" by force
    have one: "accepted x y t1 \<Longrightarrow> accepted x y t" using upd_edge_accepted [OF u] by auto
    have "t' = t \<or> t' = t1 \<or> insert_edge a b None ''blocked'' t1 = Some t'"
      using assms Some \<open>cq_actor io = Some a\<close> u
      by (auto simp: blockContactHandler_def qBlockContact_def qUpsertContactBlocked_def Let_def split: option.splits if_splits)
    then show ?thesis using assms(3) one by (auto dest!: insert_edge_accepted [where x = x and y = y])
  qed
qed

lemma accept_accepted:
  assumes "acceptContactHandler io t = (res, ms, t')" and "accepted x y t'" and "\<not> accepted x y t"
  shows "\<exists>a b. cq_actor io = Some a \<and> target_param (cq_path io) = Some b \<and> asked a b t \<and> {x, y} = {a, b}"
proof -
  obtain a where a: "cq_actor io = Some a" using assms by (auto simp: acceptContactHandler_def split: option.splits)
  obtain b where b: "target_param (cq_path io) = Some b" using assms a by (auto simp: acceptContactHandler_def split: option.splits)
  let ?P = "\<lambda>r. ct_status r = ''pending'' \<and> ct_requested r = Some b"
  obtain n t1 where u1: "upd_edge a b ?P ''accepted'' t = (n, t1)" by force
  obtain m t2 where u2: "upd_edge b a ?P ''accepted'' t1 = (m, t2)" by force
  have t': "t' = t2 \<and> n \<noteq> 0" using assms a b u1 u2
    by (auto simp: acceptContactHandler_def qAcceptContact_def qAcceptContactReverse_def Let_def split: if_splits)
  have "asked a b t" using upd_edge_zero [OF u1] t' by (auto simp: asked_def)
  moreover have "{x, y} = {a, b}" using upd_edge_accepted [OF u2, of x y] upd_edge_accepted [OF u1, of x y] t' assms(2,3) by auto
  ultimately show ?thesis using a b by blast
qed


section \<open>Request and acceptance\<close>

definition asks :: "uin \<Rightarrow> uin \<Rightarrow> contact_io" where
  "asks a b = \<lparr>cq_actor = Some a, cq_body = Body b, cq_path = [], cq_check = True, cq_env = id, cq_begin = True, cq_first = Done,
     cq_second = Done, cq_commit = Done, cq_bus = True\<rparr>"

definition calls :: "uin \<Rightarrow> string \<Rightarrow> contact_io" where
  "calls a path = \<lparr>cq_actor = Some a, cq_body = BodyMalformed, cq_path = path, cq_check = True, cq_env = id, cq_begin = True, cq_first = Done,
     cq_second = Done, cq_commit = Done, cq_bus = True\<rparr>"

lemma asks_result:
  assumes "0 < b" and "a \<noteq> b" and "qUserExists a t" and "qUserExists b t" and "edge_at a b t = None" and "edge_at b a t = None"
  shows "addContactHandler (asks a b) t = (ContactStatus 201 ''pending'', publishContactRequestNotification True b a,
    t\<lparr>cx_rows := cx_rows t @ [\<lparr>ct_owner = a, ct_target = b, ct_requested = Some a, ct_status = ''pending''\<rparr>,
       \<lparr>ct_owner = b, ct_target = a, ct_requested = Some a, ct_status = ''pending''\<rparr>]\<rparr>)"
proof -
  have "edge_at b a (t\<lparr>cx_rows := cx_rows t @ [\<lparr>ct_owner = a, ct_target = b, ct_requested = Some a, ct_status = ''pending''\<rparr>]\<rparr>) = None"
    using assms(2,6) by (simp add: edge_at_def find_snoc)
  then show ?thesis using assms
    by (simp add: addContactHandler_def asks_def contact_body_def decodeJSON_def qUpsertContact_def insert_edge_def qUserExists_def)
qed

text \<open>Also: Between two users who have no edge, a request followed by an acceptance of the one who was asked makes each of them an
  accepted contact of the other.\<close>

theorem request_then_accept:
  assumes "0 < b" and "a \<noteq> b" and "qUserExists a t" and "qUserExists b t" and "edge_at a b t = None" and "edge_at b a t = None"
    and path: "target_param path = Some a"
  shows "\<exists>ms t1 ms' t2. addContactHandler (asks a b) t = (ContactStatus 201 ''pending'', ms, t1) \<and>
    acceptContactHandler (calls b path) t1 = (ContactStatus 200 ''accepted'', ms', t2) \<and> accepted a b t2 \<and> accepted b a t2"
proof -
  let ?ra = "\<lparr>ct_owner = a, ct_target = b, ct_requested = Some a, ct_status = ''pending''\<rparr>"
  let ?rb = "\<lparr>ct_owner = b, ct_target = a, ct_requested = Some a, ct_status = ''pending''\<rparr>"
  let ?t1 = "t\<lparr>cx_rows := cx_rows t @ [?ra, ?rb]\<rparr>"
  obtain n u where q1: "qAcceptContact b a ?t1 = (n, u)" by force
  obtain m v where q2: "qAcceptContactReverse b a u = (m, v)" by force
  have n: "n \<noteq> 0" using upd_edge_zero [OF q1 [unfolded qAcceptContact_def]] by auto
  have "accepted b a u" by (rule upd_edge_makes [OF q1 [unfolded qAcceptContact_def], of ?rb]) simp_all
  then obtain r where "r \<in> set (cx_rows u)" "ct_owner r = b" "ct_target r = a" "ct_status r = ''accepted''" by (auto simp: accepted_def)
  then have "accepted b a v" using upd_edge_other [OF q2 [unfolded qAcceptContactReverse_def]] assms(2) by (auto simp: accepted_def)
  moreover have "?ra \<in> set (cx_rows u)" using assms(2) by (intro upd_edge_other [OF q1 [unfolded qAcceptContact_def]]) simp_all
  then have "accepted a b v" by (rule upd_edge_makes [OF q2 [unfolded qAcceptContactReverse_def]]) simp_all
  moreover have "acceptContactHandler (calls b path) ?t1 = (ContactStatus 200 ''accepted'', publishContactAcceptedNotification True a b, v)"
    using q1 q2 n path by (simp add: acceptContactHandler_def calls_def)
  ultimately show ?thesis using asks_result [OF assms(1-6)] by blast
qed

definition strangers :: contact_tables where
  "strangers = \<lparr>cx_users = [\<lparr>pf_uin = 1, pf_username = ''ann'', pf_avatar = None\<rparr>, \<lparr>pf_uin = 2, pf_username = ''bob'', pf_avatar = None\<rparr>], cx_rows = []\<rparr>"

definition ann_asked :: contact_tables where
  "ann_asked = strangers\<lparr>cx_rows := [\<lparr>ct_owner = 1, ct_target = 2, ct_requested = Some 1, ct_status = ''pending''\<rparr>,
     \<lparr>ct_owner = 2, ct_target = 1, ct_requested = Some 1, ct_status = ''pending''\<rparr>]\<rparr>"

lemma sample_params: "target_param ''1'' = Some 1" "target_param ''2'' = Some 2"
  by code_simp+

lemma strangers_facts: "qUserExists 1 strangers" "qUserExists 2 strangers" "edge_at a b strangers = None"
  by (simp_all add: strangers_def qUserExists_def edge_at_def)

lemma request_then_accept_witness:
  "\<exists>ms t1 ms' t2. addContactHandler (asks 1 2) strangers = (ContactStatus 201 ''pending'', ms, t1) \<and>
    acceptContactHandler (calls 2 ''1'') t1 = (ContactStatus 200 ''accepted'', ms', t2) \<and> accepted 1 2 t2 \<and> accepted 2 1 t2"
  by (rule request_then_accept) (simp_all add: strangers_facts sample_params)


section \<open>Findings\<close>

text \<open>Also: When a user adds somebody again who still has them as an accepted (or blocked) contact, the request is reported as
  pending, but the one who was asked has no pending edge: their acceptance is refused as not found and the contact stays
  pending for good.\<close>

theorem readded_contact_stuck:
  assumes "0 < b" and "a \<noteq> b" and "qUserExists a t" and "qUserExists b t" and "edge_at a b t = None" and "edge_at b a t \<noteq> None"
    and other: "\<forall>q \<in> set (cx_rows t). ct_owner q = b \<and> ct_target q = a \<longrightarrow> ct_status q \<noteq> ''pending''"
    and path: "target_param path = Some a"
  shows "\<exists>ms t1 r. addContactHandler (asks a b) t = (ContactStatus 201 ''pending'', ms, t1) \<and>
    edge_at a b t1 = Some r \<and> ct_status r = ''pending'' \<and>
    acceptContactHandler (calls b path) t1 = (ContactError 404 ''REQUEST_NOT_FOUND'', [], t1)"
proof -
  let ?r = "\<lparr>ct_owner = a, ct_target = b, ct_requested = Some a, ct_status = ''pending''\<rparr>"
  let ?t1 = "t\<lparr>cx_rows := cx_rows t @ [?r]\<rparr>"
  have "edge_at b a ?t1 = edge_at b a t" using assms(2) by (cases "edge_at b a t") (simp_all add: edge_at_snoc)
  then have "addContactHandler (asks a b) t = (ContactStatus 201 ''pending'', publishContactRequestNotification True b a, ?t1)"
    using assms(1-6) by (simp add: addContactHandler_def asks_def contact_body_def decodeJSON_def qUpsertContact_def insert_edge_def qUserExists_def)
  moreover have "edge_at a b ?t1 = Some ?r" using assms(5) by (simp add: edge_at_def find_snoc)
  moreover have "acceptContactHandler (calls b path) ?t1 = (ContactError 404 ''REQUEST_NOT_FOUND'', [], ?t1)"
  proof -
    obtain n u where q: "qAcceptContact b a ?t1 = (n, u)" by force
    have "n = 0" using upd_edge_zero [OF q [unfolded qAcceptContact_def]] other assms(2) by auto
    then show ?thesis using q path by (simp add: acceptContactHandler_def calls_def)
  qed
  ultimately show ?thesis by (intro exI [of _ "publishContactRequestNotification True b a"] exI [of _ ?t1] exI [of _ ?r]) simp
qed

lemma readded_contact_stuck_witness:
  "\<exists>ms t1 r. addContactHandler (asks 1 2) (strangers\<lparr>cx_rows := [\<lparr>ct_owner = 2, ct_target = 1, ct_requested = Some 1, ct_status = ''accepted''\<rparr>]\<rparr>) =
      (ContactStatus 201 ''pending'', ms, t1) \<and> edge_at 1 2 t1 = Some r \<and> ct_status r = ''pending'' \<and>
    acceptContactHandler (calls 2 ''1'') t1 = (ContactError 404 ''REQUEST_NOT_FOUND'', [], t1)"
  by (rule readded_contact_stuck) (simp_all add: strangers_def qUserExists_def edge_at_def sample_params)

text \<open>Also: A block is two statements without a transaction: when the other user's request is committed between them, the second one
  finds the new edge and leaves it, and the block is reported although the edge is a pending request.\<close>

theorem block_race_lost:
  assumes "0 < a" and "a \<noteq> b" and "qUserExists a t" and "qUserExists b t" and "edge_at a b t = None" and "edge_at b a t = None"
    and path: "target_param path = Some b"
  shows "\<exists>t' r. blockContactHandler ((calls a path)\<lparr>cq_env := \<lambda>t. snd (snd (addContactHandler (asks b a) t))\<rparr>) t = (ContactStatus 200 ''blocked'', t') \<and>
    edge_at a b t' = Some r \<and> ct_status r = ''pending''"
proof -
  let ?rb = "\<lparr>ct_owner = b, ct_target = a, ct_requested = Some b, ct_status = ''pending''\<rparr>"
  let ?ra = "\<lparr>ct_owner = a, ct_target = b, ct_requested = Some b, ct_status = ''pending''\<rparr>"
  let ?t' = "t\<lparr>cx_rows := cx_rows t @ [?rb, ?ra]\<rparr>"
  obtain n t1 where q: "qBlockContact a b t = (n, t1)" by force
  have n: "n = 0" using upd_edge_zero [OF q [unfolded qBlockContact_def]] assms(5) by (auto simp: edge_at_def find_None_iff)
  have none: "r \<in> set (cx_rows t) \<Longrightarrow> \<not> (ct_owner r = a \<and> ct_target r = b)" for r using assms(5) by (auto simp: edge_at_def find_None_iff)
  have "map (\<lambda>r. if ct_owner r = a \<and> ct_target r = b then r\<lparr>ct_status := ''blocked''\<rparr> else r) (cx_rows t) = cx_rows t"
    by (rule map_idI) (simp add: none)
  then have t1: "t1 = t" using q by (auto simp: qBlockContact_def upd_edge_def Let_def)
  have add: "addContactHandler (asks b a) t = (ContactStatus 201 ''pending'', publishContactRequestNotification True a b, ?t')"
    using asks_result [of a b t] assms by simp
  have e: "edge_at a b ?t' = Some ?ra"
    using edge_at_snoc [where t = t and rs = "cx_rows t @ [?rb]" and r = ?ra and a = a and b = b] edge_at_snoc [where t = t and rs = "cx_rows t" and r = ?rb and a = a and b = b] assms(2,5) by simp
  then have "qUpsertContactBlocked a b ?t' = Some ?t'" by (simp add: qUpsertContactBlocked_def insert_edge_def)
  then have "blockContactHandler ((calls a path)\<lparr>cq_env := \<lambda>t. snd (snd (addContactHandler (asks b a) t))\<rparr>) t = (ContactStatus 200 ''blocked'', ?t')"
    using q n t1 add path by (simp add: blockContactHandler_def calls_def)
  with e show ?thesis by auto
qed

lemma block_race_lost_witness:
  "\<exists>t' r. blockContactHandler ((calls 1 ''2'')\<lparr>cq_env := \<lambda>t. snd (snd (addContactHandler (asks 2 1) t))\<rparr>) strangers = (ContactStatus 200 ''blocked'', t') \<and>
    edge_at 1 2 t' = Some r \<and> ct_status r = ''pending''"
  by (rule block_race_lost) (simp_all add: strangers_facts sample_params)

end
