(* ===== verification/PanicWipe.thy ===== *)
theory PanicWipe
  imports Contacts KeyService WipeJob
begin

text \<open>
  Account erasure: the wipe transaction and the Redis cleanup of \<^verbatim>\<open>auth-service/handlers/panicwipe.go\<close>, its
  authorization by PIN (\<^verbatim>\<open>panicpin.go\<close>) or by a signed, single-use challenge (\<^verbatim>\<open>panicwipe_challenge.go\<close>), with
  the wipe statements of \<^verbatim>\<open>queries.go\<close>. Ed25519 verification is the parameter \<open>ed\<close> (key, message, signature);
  the dependencies are configured as \<^verbatim>\<open>auth-service/main.go\<close> requires.
\<close>

section \<open>Redis commands of the wipe\<close>

text \<open>\<open>GETDEL\<close>, and \<open>SCAN\<close> with cursor, pattern and count, which returns keys and the next cursor.\<close>

record 'r wipe_redis = "'r redis_api" +
  rd_getdel :: "string \<Rightarrow> 'r \<Rightarrow> (string + string option) \<times> 'r"
  rd_scan :: "nat \<Rightarrow> string \<Rightarrow> nat \<Rightarrow> 'r \<Rightarrow> (string + string list \<times> nat) \<times> 'r"

section \<open>Tables\<close>

record settings_row =
  ss_uin :: uin
  ss_pin :: "string option"
  ss_key :: "string option"

record wipe_pg =
  wp_users :: "user_row list"
  wp_auth :: auth_tables
  wp_groups :: group_tables
  wp_keys :: key_tables
  wp_contacts :: contact_tables
  wp_files :: "(string \<times> uin) list"
  wp_grants :: "(string \<times> uin \<times> uin) list"
  wp_settings :: "settings_row list"
  wp_jobs :: jobs

definition qWipeOneTimePrekeys :: "uin \<Rightarrow> wipe_pg \<Rightarrow> wipe_pg" where
  "qWipeOneTimePrekeys u p = p\<lparr>wp_keys := (wp_keys p)\<lparr>kt_opks := filter (\<lambda>r. ok_uin r \<noteq> u) (kt_opks (wp_keys p))\<rparr>\<rparr>"

definition qWipePrekeyBundles :: "uin \<Rightarrow> wipe_pg \<Rightarrow> wipe_pg" where
  "qWipePrekeyBundles u p = p\<lparr>wp_keys := (wp_keys p)\<lparr>kt_bundles := filter (\<lambda>r. bd_uin r \<noteq> u) (kt_bundles (wp_keys p))\<rparr>\<rparr>"

definition qWipeRefreshTokens :: "uin \<Rightarrow> wipe_pg \<Rightarrow> wipe_pg" where
  "qWipeRefreshTokens u p = p\<lparr>wp_auth := drop_refresh u (wp_auth p)\<rparr>"

definition qWipeContacts :: "uin \<Rightarrow> wipe_pg \<Rightarrow> wipe_pg" where
  "qWipeContacts u p =
     p\<lparr>wp_contacts := (wp_contacts p)\<lparr>cx_rows := filter (\<lambda>r. \<not> (ct_owner r = u \<or> ct_target r = u)) (cx_rows (wp_contacts p))\<rparr>\<rparr>"

definition qWipeFileGrants :: "uin \<Rightarrow> wipe_pg \<Rightarrow> wipe_pg" where
  "qWipeFileGrants u p = p\<lparr>wp_grants := filter (\<lambda>(k, ow, gr). \<not> (ow = u \<or> gr = u)) (wp_grants p)\<rparr>"

text \<open>Deleting an object cascades to the grants on it.\<close>

definition qWipeFileObjects :: "uin \<Rightarrow> wipe_pg \<Rightarrow> wipe_pg" where
  "qWipeFileObjects u p =
     p\<lparr>wp_files := filter (\<lambda>(k, ow). ow \<noteq> u) (wp_files p), wp_grants := filter (\<lambda>(k, ow, gr). ow \<noteq> u) (wp_grants p)\<rparr>"

definition qWipeSecuritySettings :: "uin \<Rightarrow> wipe_pg \<Rightarrow> wipe_pg" where
  "qWipeSecuritySettings u p = p\<lparr>wp_settings := filter (\<lambda>r. ss_uin r \<noteq> u) (wp_settings p)\<rparr>"

text \<open>\<open>UPDATE users SET session_epoch = NOW()\<close> and \<open>qInsertWipedAccountMarker\<close>\<close>

definition disable_account :: "gotime \<Rightarrow> uin \<Rightarrow> wipe_pg \<Rightarrow> wipe_pg" where
  "disable_account now u p =
     p\<lparr>wp_auth := (wp_auth p)\<lparr>at_epoch := (case at_epoch (wp_auth p) u of None \<Rightarrow> at_epoch (wp_auth p) | Some _ \<Rightarrow> (at_epoch (wp_auth p))(u \<mapsto> now))\<rparr>\<rparr>"

definition qInsertWipedAccountMarker :: "uin \<Rightarrow> wipe_pg \<Rightarrow> wipe_pg" where
  "qInsertWipedAccountMarker u p = p\<lparr>wp_auth := (wp_auth p)\<lparr>at_wiped := insert u (at_wiped (wp_auth p))\<rparr>\<rparr>"

definition qSelectFileObjectKeys :: "uin \<Rightarrow> wipe_pg \<Rightarrow> string list" where
  "qSelectFileObjectKeys u p = map fst (filter (\<lambda>(k, ow). ow = u) (wp_files p))"

text \<open>\<open>captureFileKeys\<close>; a nil slice when there is none.\<close>

definition captureFileKeys :: "uin \<Rightarrow> wipe_pg \<Rightarrow> string list option" where
  "captureFileKeys u p = (let keys = filter (\<lambda>k. k \<noteq> []) (qSelectFileObjectKeys u p) in if keys = [] then None else Some keys)"

section \<open>The wipe\<close>

definition legacyLoginAttemptsKeyPrefix :: string where "legacyLoginAttemptsKeyPrefix = ''login_attempts:''"
definition panicWipeBlocklistPrefix :: string where "panicWipeBlocklistPrefix = ''jwt:blocklist:wipe:''"
definition panicWipeBlocklistTTL :: duration where "panicWipeBlocklistTTL = 7 * 24 * Hour"
definition presenceKeyPrefix :: string where "presenceKeyPrefix = ''presence:''"

definition panicWipeBlocklistKey :: "uin \<Rightarrow> string" where
  "panicWipeBlocklistKey u = panicWipeBlocklistPrefix @ itoa u"

text \<open>\<open>wo_env\<close>: what others commit between the capture of the file keys and the lock on the user row; \<open>wo_wait\<close>:
  what happens to the groups while the membership statement waits; \<open>wo_stmts\<close>: no statement fails otherwise.\<close>

record wipe_io =
  wo_capture :: bool
  wo_env :: "wipe_pg \<Rightarrow> wipe_pg"
  wo_begin :: bool
  wo_lock :: bool
  wo_stmts :: bool
  wo_now :: gotime
  wo_wait :: "group_tables \<Rightarrow> group_tables"
  wo_job :: int
  wo_commit :: outcome

text \<open>The statements of the transaction in order; None: one of them fails and everything is rolled back.\<close>

definition wipe_tx :: "wipe_io \<Rightarrow> uin \<Rightarrow> string list option \<Rightarrow> wipe_pg \<Rightarrow> (int \<times> wipe_pg) option" where
  "wipe_tx io u fileKeys p =
     (if \<not> wo_lock io \<or> at_epoch (wp_auth p) u = None \<or> \<not> wo_stmts io then None
      else
        let p1 = qWipeRefreshTokens u (qWipePrekeyBundles u (qWipeOneTimePrekeys u p)) in
        case qWipeGroupMemberships (wo_now io) u (wp_groups p1) (wo_wait io (wp_groups p1)) of
          None \<Rightarrow> None
        | Some gt \<Rightarrow>
            let p2 = qWipeSecuritySettings u (qWipeFileObjects u (qWipeFileGrants u (qWipeContacts u (p1\<lparr>wp_groups := gt\<rparr>))));
                p3 = qInsertWipedAccountMarker u (disable_account (wo_now io) u p2);
                (jobID, js) = InsertWipeJobTx (wo_job io) (wo_now io) u fileKeys (wp_jobs p3)
            in Some (jobID, p3\<lparr>wp_jobs := js\<rparr>))"

text \<open>A deletion whose error is only logged, and a list of them.\<close>

definition del_ignored :: "('r, 'x) redis_api_scheme \<Rightarrow> string \<Rightarrow> 'r \<Rightarrow> 'r" where
  "del_ignored R k s = snd (rd_del R k s)"

definition del_all :: "('r, 'x) redis_api_scheme \<Rightarrow> string list \<Rightarrow> 'r \<Rightarrow> 'r" where
  "del_all R ks s = fold (del_ignored R) ks s"

text \<open>\<open>deletePattern\<close>: the cursor loop ends when \<open>SCAN\<close> returns cursor 0; None: it never does. The inner value is
  the error, if any.\<close>

partial_function (option) scan_loop ::
  "('r, 'x) wipe_redis_scheme \<Rightarrow> string \<Rightarrow> nat \<Rightarrow> 'r \<Rightarrow> (string option \<times> 'r) option" where
  "scan_loop R pattern cursor s =
     (case rd_scan R cursor pattern 100 s of
        (Inl e, s1) \<Rightarrow> Some (Some e, s1)
      | (Inr (keys, nextCursor), s1) \<Rightarrow>
          (let s2 = del_all R keys s1 in
           if nextCursor = 0 then Some (None, s2) else scan_loop R pattern nextCursor s2))"

definition deletePattern :: "('r, 'x) wipe_redis_scheme \<Rightarrow> string \<Rightarrow> 'r \<Rightarrow> (string option \<times> 'r) option" where
  "deletePattern R pattern s = scan_loop R pattern 0 s"

definition poll_keys :: "uin \<Rightarrow> string list" where
  "poll_keys u = [''poll:stream:'' @ itoa u, ''poll:cursors:'' @ itoa u, ''poll:cursor-order:'' @ itoa u]"

definition poll_patterns :: "uin \<Rightarrow> string list" where
  "poll_patterns u = [''poll:{'' @ itoa u @ ''}:*'', ''poll:{'' @ itoa u @ ''}'']"

definition cleanupPollKeys :: "('r, 'x) wipe_redis_scheme \<Rightarrow> uin \<Rightarrow> 'r \<Rightarrow> 'r option" where
  "cleanupPollKeys R u s =
     (case deletePattern R (poll_patterns u ! 0) (del_all R (poll_keys u) s) of
        None \<Rightarrow> None
      | Some (_, s1) \<Rightarrow> map_option snd (deletePattern R (poll_patterns u ! 1) s1))"

text \<open>The best-effort cleanup after the commit.\<close>

definition aux_cleanup :: "('r, 'x) wipe_redis_scheme \<Rightarrow> uin \<Rightarrow> 'r \<Rightarrow> 'r option" where
  "aux_cleanup R u s =
     map_option (del_all R (AuthenticatedRateLimitKeysForUIN u))
       (cleanupPollKeys R u (del_all R [legacyLoginAttemptsKeyPrefix @ itoa u, presenceKeyPrefix @ itoa u, ''undelivered:'' @ itoa u] s))"

datatype wipe_result = WipeFailed string | WipeDone int

definition PanicWipe ::
  "('r, 'x) wipe_redis_scheme \<Rightarrow> wipe_io \<Rightarrow> uin \<Rightarrow> wipe_pg \<Rightarrow> 'r \<Rightarrow> (wipe_result \<times> wipe_pg \<times> 'r) option" where
  "PanicWipe R io u p s =
     (let blocklistKey = panicWipeBlocklistKey u in
      case rd_set R blocklistKey ''1'' panicWipeBlocklistTTL s of
        (Inl e, s1) \<Rightarrow> Some (WipeFailed ''revoke active sessions'', p, s1)
      | (Inr _, s1) \<Rightarrow>
          if \<not> wo_capture io then Some (WipeFailed ''capture file keys'', p, del_ignored R blocklistKey s1)
          else
            let fileKeys = captureFileKeys u p; p0 = wo_env io p in
            if \<not> wo_begin io then Some (WipeFailed ''begin tx'', p0, del_ignored R blocklistKey s1)
            else case wipe_tx io u fileKeys p0 of
              None \<Rightarrow> Some (WipeFailed ''transaction'', p0, del_ignored R blocklistKey s1)
            | Some (jobID, p1) \<Rightarrow>
                if failed (wo_commit io) then
                  Some (WipeFailed ''commit'', commit_tx (wo_commit io) p1 p0, del_ignored R blocklistKey s1)
                else map_option (\<lambda>s2. (WipeDone jobID, p1, s2)) (aux_cleanup R u s1))"

section \<open>Cleanup by the worker\<close>

text \<open>The loop that stops at the first error.\<close>

fun del_until_error :: "('r, 'x) redis_api_scheme \<Rightarrow> string list \<Rightarrow> 'r \<Rightarrow> string option \<times> 'r" where
  "del_until_error R [] s = (None, s)"
| "del_until_error R (k # ks) s =
     (case rd_del R k s of (Inl e, s1) \<Rightarrow> (Some e, s1) | (Inr _, s1) \<Rightarrow> del_until_error R ks s1)"

definition user_keys :: "uin \<Rightarrow> string list" where
  "user_keys u = [''presence:'' @ itoa u, ''undelivered:'' @ itoa u, ''poll:stream:'' @ itoa u, ''poll:cursors:'' @ itoa u,
     ''poll:cursor-order:'' @ itoa u, ''login_attempts:'' @ itoa u]"

definition CleanupUserKeys :: "('r, 'x) wipe_redis_scheme \<Rightarrow> uin \<Rightarrow> 'r \<Rightarrow> (string option \<times> 'r) option" where
  "CleanupUserKeys R u s =
     (case del_until_error R (user_keys u) s of
        (Some e, s1) \<Rightarrow> Some (Some e, s1)
      | (None, s1) \<Rightarrow>
          (case del_until_error R (AuthenticatedRateLimitKeysForUIN u) s1 of
             (Some e, s2) \<Rightarrow> Some (Some e, s2)
           | (None, s2) \<Rightarrow>
               (case deletePattern R (poll_patterns u ! 0) s2 of
                  None \<Rightarrow> None
                | Some (Some e, s3) \<Rightarrow> Some (Some e, s3)
                | Some (None, s3) \<Rightarrow> deletePattern R (poll_patterns u ! 1) s3)))"

definition DeleteBlocklistKey :: "('r, 'x) redis_api_scheme \<Rightarrow> uin \<Rightarrow> 'r \<Rightarrow> string option \<times> 'r" where
  "DeleteBlocklistKey R u s =
     (case rd_del R (panicWipeBlocklistKey u) s of (Inl e, s1) \<Rightarrow> (Some e, s1) | (Inr _, s1) \<Rightarrow> (None, s1))"

end
