(* ===== verification/PanicAuth.thy ===== *)
theory PanicAuth
  imports PanicWipe
begin

text \<open>
  Authorization of an account erasure: the wipe key and its challenge (\<^verbatim>\<open>panicwipe_challenge.go\<close>), the PIN
  (\<^verbatim>\<open>panicpin.go\<close>) and the handler that decides between them (\<^verbatim>\<open>panicwipe.go\<close>). The \<open>env\<close> fields of the io records
  are what other requests commit between two reads.
\<close>

datatype panic_http = PanicError nat string | PanicCleared nat string | PanicAccepted | PanicNoContent
  | PanicKey "string option" | PanicChallenge string string

definition panic_body :: "'a body \<Rightarrow> panic_http + 'a" where
  "panic_body b =
     (case decodeJSON b of Inr n \<Rightarrow> Inr n | Inl (AuthError s c) \<Rightarrow> Inl (PanicError s c) | Inl _ \<Rightarrow> Inl (PanicError 400 ''MALFORMED_JSON''))"

section \<open>Lookups\<close>

definition find_settings :: "uin \<Rightarrow> wipe_pg \<Rightarrow> settings_row option" where
  "find_settings u p = find (\<lambda>r. ss_uin r = u) (wp_settings p)"

definition ed25519_PublicKeySize :: nat where "ed25519_PublicKeySize = 32"
definition ed25519_SignatureSize :: nat where "ed25519_SignatureSize = 64"

text \<open>\<open>NewLookupWipePublicKey\<close>: an error (Inl), no key, or the key.\<close>

definition lookupWipePublicKey :: "bool \<Rightarrow> uin \<Rightarrow> wipe_pg \<Rightarrow> unit + bytes option" where
  "lookupWipePublicKey ok u p =
     (if \<not> ok then Inl ()
      else case find_settings u p of
        None \<Rightarrow> Inr None
      | Some r \<Rightarrow>
          (case ss_key r of
             None \<Rightarrow> Inr None
           | Some encoded \<Rightarrow>
               if encoded = [] then Inr None
               else case DecodeStd encoded of
                 None \<Rightarrow> Inl ()
               | Some decoded \<Rightarrow> if length decoded \<noteq> ed25519_PublicKeySize then Inl () else Inr (Some decoded)))"

text \<open>\<open>NewLookupPasswordHash\<close> reads a missing row as the empty hash; the lookup of the PIN handler fails there.\<close>

definition lookupPasswordHash :: "bool \<Rightarrow> uin \<Rightarrow> wipe_pg \<Rightarrow> string option" where
  "lookupPasswordHash ok u p =
     (if \<not> ok then None else Some (case find (\<lambda>r. us_uin r = u) (wp_users p) of None \<Rightarrow> [] | Some r \<Rightarrow> us_hash r))"

definition qSelectPasswordHashByUIN :: "bool \<Rightarrow> uin \<Rightarrow> wipe_pg \<Rightarrow> string option" where
  "qSelectPasswordHashByUIN ok u p = (if \<not> ok then None else map_option us_hash (find (\<lambda>r. us_uin r = u) (wp_users p)))"

definition lookupPanicPinHash :: "bool \<Rightarrow> uin \<Rightarrow> wipe_pg \<Rightarrow> string option" where
  "lookupPanicPinHash ok u p =
     (if \<not> ok then None
      else Some (case find_settings u p of None \<Rightarrow> [] | Some r \<Rightarrow> (case ss_pin r of None \<Rightarrow> [] | Some h \<Rightarrow> h)))"

section \<open>Statements on the settings\<close>

definition upd_settings :: "uin \<Rightarrow> (settings_row \<Rightarrow> settings_row) \<Rightarrow> wipe_pg \<Rightarrow> wipe_pg" where
  "upd_settings u f p = p\<lparr>wp_settings := map (\<lambda>r. if ss_uin r = u then f r else r) (wp_settings p)\<rparr>"

definition new_settings :: "uin \<Rightarrow> string option \<Rightarrow> string option \<Rightarrow> wipe_pg \<Rightarrow> wipe_pg" where
  "new_settings u pin key p = p\<lparr>wp_settings := wp_settings p @ [\<lparr>ss_uin = u, ss_pin = pin, ss_key = key\<rparr>]\<rparr>"

text \<open>The number of affected rows and the tables.\<close>

definition qEnrollWipePublicKey :: "uin \<Rightarrow> string \<Rightarrow> wipe_pg \<Rightarrow> nat \<times> wipe_pg" where
  "qEnrollWipePublicKey u key p =
     (case find_settings u p of
        None \<Rightarrow> (1, new_settings u None (Some key) p)
      | Some r \<Rightarrow> if ss_key r = None then (1, upd_settings u (\<lambda>r. r\<lparr>ss_key := Some key\<rparr>) p) else (0, p))"

definition qUpdateWipePublicKey :: "uin \<Rightarrow> string \<Rightarrow> string \<Rightarrow> wipe_pg \<Rightarrow> nat \<times> wipe_pg" where
  "qUpdateWipePublicKey u old new p =
     (case find_settings u p of
        None \<Rightarrow> (0, p)
      | Some r \<Rightarrow> if ss_key r = Some old then (1, upd_settings u (\<lambda>r. r\<lparr>ss_key := Some new\<rparr>) p) else (0, p))"

definition qSetPanicPin :: "uin \<Rightarrow> string \<Rightarrow> wipe_pg \<Rightarrow> wipe_pg" where
  "qSetPanicPin u hash p =
     (case find_settings u p of
        None \<Rightarrow> new_settings u (Some hash) None p
      | Some r \<Rightarrow> upd_settings u (\<lambda>r. r\<lparr>ss_pin := Some hash\<rparr>) p)"

definition qClearPanicPin :: "uin \<Rightarrow> wipe_pg \<Rightarrow> wipe_pg" where
  "qClearPanicPin u p = upd_settings u (\<lambda>r. r\<lparr>ss_pin := None\<rparr>) p"

section \<open>Challenges\<close>

definition wipeChallengePrefix :: string where "wipeChallengePrefix = ''panic-wipe:challenge:''"
definition wipeChallengeTTL :: duration where "wipeChallengeTTL = 5 * Minute"

definition challenge_key :: "uin \<Rightarrow> string \<Rightarrow> string" where
  "challenge_key u cid = wipeChallengePrefix @ itoa u @ '':'' @ cid"

text \<open>\<open>rand\<close>, \<open>rand2\<close>: 32 and 16 random bytes, None when the source fails.\<close>

definition wipeChallengeHandler ::
  "('r, 'x) redis_api_scheme \<Rightarrow> bytes option \<Rightarrow> bytes option \<Rightarrow> uin option \<Rightarrow> 'r \<Rightarrow> panic_http \<times> 'r" where
  "wipeChallengeHandler R rand rand2 actor s =
     (case actor of
        None \<Rightarrow> (PanicError 401 ''AUTH_MISSING_BEARER'', s)
      | Some u \<Rightarrow>
          (case (rand, rand2) of
             (Some challengeBytes, Some idBytes) \<Rightarrow>
               let challengeID = hex_encode idBytes; challengeB64 = EncodeStd challengeBytes in
               (case rd_set R (challenge_key u challengeID) challengeB64 wipeChallengeTTL s of
                  (Inl e, s1) \<Rightarrow> (PanicError 503 ''CHALLENGE_FAILED'', s1)
                | (Inr _, s1) \<Rightarrow> (PanicChallenge challengeID challengeB64, s1))
           | _ \<Rightarrow> (PanicError 500 ''CHALLENGE_FAILED'', s)))"

text \<open>\<open>VerifyWipeSignature\<close>; True: verified.\<close>

definition VerifyWipeSignature ::
  "('r, 'x) wipe_redis_scheme \<Rightarrow> (bytes \<Rightarrow> bytes \<Rightarrow> bytes \<Rightarrow> bool) \<Rightarrow> bool \<Rightarrow> uin \<Rightarrow> string \<Rightarrow> string \<Rightarrow> wipe_pg \<Rightarrow> 'r \<Rightarrow> bool \<times> 'r" where
  "VerifyWipeSignature R ed lookup u challengeID sigB64 p s =
     (case lookupWipePublicKey lookup u p of
        Inl _ \<Rightarrow> (False, s)
      | Inr None \<Rightarrow> (False, s)
      | Inr (Some pubKey) \<Rightarrow>
          (case rd_getdel R (challenge_key u challengeID) s of
             (Inl e, s1) \<Rightarrow> (False, s1)
           | (Inr None, s1) \<Rightarrow> (False, s1)
           | (Inr (Some storedChallengeB64), s1) \<Rightarrow>
               (case (DecodeStd storedChallengeB64, DecodeStd sigB64) of
                  (Some challengeBytes, Some sigBytes) \<Rightarrow>
                    (length sigBytes = ed25519_SignatureSize \<and> ed pubKey challengeBytes sigBytes, s1)
                | _ \<Rightarrow> (False, s1))))"

section \<open>Enrolling and rotating the wipe key\<close>

record setWipePublicKeyRequest =
  sw_PublicKey :: string
  sw_Password :: string
  sw_ChallengeID :: string
  sw_Signature :: string

record key_io =
  ki_actor :: "uin option"
  ki_body :: "setWipePublicKeyRequest body"
  ki_lookup :: bool
  ki_password :: bool
  ki_env :: "wipe_pg \<Rightarrow> wipe_pg"
  ki_exec :: outcome

definition rotation_payload :: "uin \<Rightarrow> string \<Rightarrow> string \<Rightarrow> string \<Rightarrow> bytes" where
  "rotation_payload u challengeID challengeB64 newKeyB64 =
     ''iceq-wipe-key-rotation-v1|'' @ itoa u @ ''|'' @ challengeID @ ''|'' @ challengeB64 @ ''|'' @ newKeyB64"

text \<open>The two branches, from the tables at the time of their update.\<close>

definition enrollWipeKey ::
  "idkey \<Rightarrow> (string \<Rightarrow> string \<Rightarrow> bool) \<Rightarrow> key_io \<Rightarrow> setWipePublicKeyRequest \<Rightarrow> uin \<Rightarrow> bytes \<Rightarrow> wipe_pg \<Rightarrow> panic_http \<times> wipe_pg" where
  "enrollWipeKey idkey bcrypt io req u pubBytes p =
     (if sw_Password req = [] then (PanicError 401 ''PASSWORD_REQUIRED'', p)
      else case lookupPasswordHash (ki_password io) u p of
        None \<Rightarrow> (PanicError 503 ''WIPE_KEY_UNAVAILABLE'', p)
      | Some passwordHash \<Rightarrow>
          if passwordHash = [] \<or> \<not> pv_OK (verifyPassword idkey bcrypt passwordHash (sw_Password req)) then
            (PanicError 401 ''INVALID_PASSWORD'', p)
          else
            let p0 = ki_env io p; (n, p1) = qEnrollWipePublicKey u (EncodeStd pubBytes) p0 in
            if failed (ki_exec io) then (PanicError 503 ''WIPE_KEY_UNAVAILABLE'', if took_effect (ki_exec io) then p1 else p0)
            else if n = 0 then (PanicError 409 ''WIPE_KEY_EXISTS'', p1)
            else (PanicNoContent, p1))"

definition rotateWipeKey ::
  "('r, 'x) wipe_redis_scheme \<Rightarrow> (bytes \<Rightarrow> bytes \<Rightarrow> bytes \<Rightarrow> bool) \<Rightarrow> key_io \<Rightarrow> setWipePublicKeyRequest \<Rightarrow> uin \<Rightarrow> bytes \<Rightarrow> bytes \<Rightarrow>
    wipe_pg \<Rightarrow> 'r \<Rightarrow> panic_http \<times> wipe_pg \<times> 'r" where
  "rotateWipeKey R ed io req u pubBytes existingKey p s =
     (let newPubKeyB64 = EncodeStd pubBytes; oldPubKeyB64 = EncodeStd existingKey in
      if newPubKeyB64 = oldPubKeyB64 then (PanicError 409 ''WIPE_KEY_EXISTS'', p, s)
      else if sw_ChallengeID req = [] \<or> sw_Signature req = [] then (PanicError 401 ''SIGNATURE_REQUIRED'', p, s)
      else case rd_getdel R (challenge_key u (sw_ChallengeID req)) s of
        (Inl e, s1) \<Rightarrow> (PanicError 503 ''WIPE_KEY_UNAVAILABLE'', p, s1)
      | (Inr None, s1) \<Rightarrow> (PanicError 401 ''CHALLENGE_EXPIRED'', p, s1)
      | (Inr (Some storedChallengeB64), s1) \<Rightarrow>
          (case DecodeStd (sw_Signature req) of
             None \<Rightarrow> (PanicError 400 ''INVALID_SIGNATURE'', p, s1)
           | Some sigBytes \<Rightarrow>
               if length sigBytes \<noteq> ed25519_SignatureSize then (PanicError 400 ''INVALID_SIGNATURE'', p, s1)
               else if \<not> ed existingKey (rotation_payload u (sw_ChallengeID req) storedChallengeB64 newPubKeyB64) sigBytes then
                 (PanicError 401 ''INVALID_SIGNATURE'', p, s1)
               else
                 let p0 = ki_env io p; (n, p1) = qUpdateWipePublicKey u oldPubKeyB64 newPubKeyB64 p0 in
                 if failed (ki_exec io) then (PanicError 503 ''WIPE_KEY_UNAVAILABLE'', if took_effect (ki_exec io) then p1 else p0, s1)
                 else if n = 0 then (PanicError 409 ''WIPE_KEY_GONE'', p1, s1)
                 else (PanicNoContent, p1, s1)))"

definition setWipePublicKeyHandler ::
  "('r, 'x) wipe_redis_scheme \<Rightarrow> (bytes \<Rightarrow> bytes \<Rightarrow> bytes \<Rightarrow> bool) \<Rightarrow> idkey \<Rightarrow> (string \<Rightarrow> string \<Rightarrow> bool) \<Rightarrow> key_io \<Rightarrow>
    wipe_pg \<Rightarrow> 'r \<Rightarrow> panic_http \<times> wipe_pg \<times> 'r" where
  "setWipePublicKeyHandler R ed idkey bcrypt io p s =
     (case ki_actor io of
        None \<Rightarrow> (PanicError 401 ''AUTH_MISSING_BEARER'', p, s)
      | Some u \<Rightarrow>
          (case panic_body (ki_body io) of
             Inl e \<Rightarrow> (e, p, s)
           | Inr req \<Rightarrow>
               (case DecodeStd (sw_PublicKey req) of
                  None \<Rightarrow> (PanicError 400 ''INVALID_PUBLIC_KEY'', p, s)
                | Some pubBytes \<Rightarrow>
                    if length pubBytes \<noteq> ed25519_PublicKeySize then (PanicError 400 ''INVALID_PUBLIC_KEY'', p, s)
                    else case lookupWipePublicKey (ki_lookup io) u p of
                      Inl _ \<Rightarrow> (PanicError 503 ''WIPE_KEY_UNAVAILABLE'', p, s)
                    | Inr None \<Rightarrow> let (r, p1) = enrollWipeKey idkey bcrypt io req u pubBytes p in (r, p1, s)
                    | Inr (Some existingKey) \<Rightarrow> rotateWipeKey R ed io req u pubBytes existingKey p s)))"

definition getWipePublicKeyHandler :: "bool \<Rightarrow> uin option \<Rightarrow> wipe_pg \<Rightarrow> panic_http" where
  "getWipePublicKeyHandler lookup actor p =
     (case actor of
        None \<Rightarrow> PanicError 401 ''AUTH_MISSING_BEARER''
      | Some u \<Rightarrow>
          (case lookupWipePublicKey lookup u p of
             Inl _ \<Rightarrow> PanicError 503 ''WIPE_KEY_UNAVAILABLE''
           | Inr k \<Rightarrow> PanicKey (map_option EncodeStd k)))"

section \<open>The PIN\<close>

definition panicPinPattern :: "string \<Rightarrow> bool" where
  "panicPinPattern s \<longleftrightarrow> length s = 4 \<and> list_all (\<lambda>ch. digit_value ch \<noteq> None) s"

record pin_io =
  pn_actor :: "uin option"
  pn_body :: "(string \<times> string) body"
  pn_lookup :: bool
  pn_salt :: "bytes option"
  pn_env :: "wipe_pg \<Rightarrow> wipe_pg"
  pn_exec :: outcome

text \<open>The body is (current password, pin).\<close>

definition setPanicPinHandler :: "idkey \<Rightarrow> (string \<Rightarrow> string \<Rightarrow> bool) \<Rightarrow> pin_io \<Rightarrow> wipe_pg \<Rightarrow> panic_http \<times> wipe_pg" where
  "setPanicPinHandler idkey bcrypt io p =
     (case pn_actor io of
        None \<Rightarrow> (PanicError 401 ''AUTH_MISSING_BEARER'', p)
      | Some u \<Rightarrow>
          (case panic_body (pn_body io) of
             Inl e \<Rightarrow> (e, p)
           | Inr (password, pin) \<Rightarrow>
               if pin \<noteq> [] \<and> \<not> panicPinPattern pin then (PanicError 400 ''INVALID_PIN'', p)
               else case qSelectPasswordHashByUIN (pn_lookup io) u p of
                 None \<Rightarrow> (PanicError 503 ''PANIC_PIN_UNAVAILABLE'', p)
               | Some hash \<Rightarrow>
                   if \<not> pv_OK (verifyPassword idkey bcrypt hash password) then (PanicError 401 ''INVALID_PASSWORD'', p)
                   else
                     let p0 = pn_env io p in
                     if pin = [] then
                       (if failed (pn_exec io) then PanicError 503 ''PANIC_PIN_UNAVAILABLE'' else PanicNoContent,
                        if took_effect (pn_exec io) then qClearPanicPin u p0 else p0)
                     else case hashPassword idkey (pn_salt io) pin of
                       None \<Rightarrow> (PanicError 500 ''PANIC_PIN_UNAVAILABLE'', p0)
                     | Some h \<Rightarrow>
                         (if failed (pn_exec io) then PanicError 503 ''PANIC_PIN_UNAVAILABLE'' else PanicNoContent,
                          if took_effect (pn_exec io) then qSetPanicPin u h p0 else p0)))"

section \<open>The wipe request\<close>

record manualPanicWipeRequest =
  mw_Pin :: string
  mw_ChallengeID :: string
  mw_Signature :: string

record manual_io =
  mq_actor :: "uin option"
  mq_body :: "manualPanicWipeRequest body"
  mq_lookup :: bool
  mq_env :: "wipe_pg \<Rightarrow> wipe_pg"
  mq_lookup2 :: bool
  mq_env2 :: "wipe_pg \<Rightarrow> wipe_pg"
  mq_wipe :: wipe_io

text \<open>The decision: the refusal, or None when the wipe may run.\<close>

definition authorizeWipe ::
  "('r, 'x) wipe_redis_scheme \<Rightarrow> (bytes \<Rightarrow> bytes \<Rightarrow> bytes \<Rightarrow> bool) \<Rightarrow> idkey \<Rightarrow> (string \<Rightarrow> string \<Rightarrow> bool) \<Rightarrow> manual_io \<Rightarrow>
    manualPanicWipeRequest \<Rightarrow> uin \<Rightarrow> wipe_pg \<Rightarrow> 'r \<Rightarrow> panic_http option \<times> 'r" where
  "authorizeWipe R ed idkey bcrypt io req u p s =
     (case lookupWipePublicKey (mq_lookup io) u p of
        Inl _ \<Rightarrow> (Some (PanicError 503 ''PANIC_WIPE_FAILED''), s)
      | Inr pubKey \<Rightarrow>
          let hasWipePublicKey = (pubKey \<noteq> None); p1 = mq_env io p in
          if mw_ChallengeID req \<noteq> [] \<or> mw_Signature req \<noteq> [] then
            (if \<not> hasWipePublicKey \<or> mw_ChallengeID req = [] \<or> mw_Signature req = [] then
               (Some (PanicError 401 ''SIGNATURE_REQUIRED''), s)
             else case VerifyWipeSignature R ed (mq_lookup2 io) u (mw_ChallengeID req) (mw_Signature req) p1 s of
               (False, s1) \<Rightarrow> (Some (PanicError 401 ''INVALID_SIGNATURE''), s1)
             | (True, s1) \<Rightarrow> (None, s1))
          else case lookupPanicPinHash (mq_lookup2 io) u p1 of
            None \<Rightarrow> (Some (PanicError 503 ''PANIC_WIPE_FAILED''), s)
          | Some pinHash \<Rightarrow>
              if pinHash \<noteq> [] then
                (if pv_OK (verifyPassword idkey bcrypt pinHash (mw_Pin req)) then (None, s)
                 else (Some (PanicError 401 ''INVALID_PIN''), s))
              else if hasWipePublicKey then (Some (PanicError 401 ''SIGNATURE_REQUIRED''), s)
              else (Some (PanicError 403 ''SECURITY_SETUP_REQUIRED''), s))"

text \<open>The handler; its third result are the subjects published.\<close>

definition manualPanicWipeHandler ::
  "('r, 'x) wipe_redis_scheme \<Rightarrow> (bytes \<Rightarrow> bytes \<Rightarrow> bytes \<Rightarrow> bool) \<Rightarrow> idkey \<Rightarrow> (string \<Rightarrow> string \<Rightarrow> bool) \<Rightarrow> manual_io \<Rightarrow>
    wipe_pg \<Rightarrow> 'r \<Rightarrow> (panic_http \<times> string list \<times> wipe_pg \<times> 'r) option" where
  "manualPanicWipeHandler R ed idkey bcrypt io p s =
     (case mq_actor io of
        None \<Rightarrow> Some (PanicError 401 ''AUTH_MISSING_BEARER'', [], p, s)
      | Some u \<Rightarrow>
          (case panic_body (mq_body io) of
             Inl e \<Rightarrow> Some (e, [], p, s)
           | Inr req \<Rightarrow>
               (case authorizeWipe R ed idkey bcrypt io req u p s of
                  (Some e, s1) \<Rightarrow> Some (e, [], p, s1)
                | (None, s1) \<Rightarrow>
                    (case PanicWipe R (mq_wipe io) u (mq_env2 io p) s1 of
                       None \<Rightarrow> None
                     | Some (WipeFailed e, p1, s2) \<Rightarrow> Some (PanicCleared 503 ''PANIC_WIPE_FAILED'', [], p1, s2)
                     | Some (WipeDone jobID, p1, s2) \<Rightarrow> Some (PanicAccepted, [''account.wiped.'' @ itoa u], p1, s2)))))"

end
