(* ===== verification/PanicProperties.thy ===== *)
theory PanicProperties
  imports PanicAuth TokenProperties GroupProperties
begin

text \<open>
  What an account erasure guarantees: it is all or nothing, a finished one leaves no session, key, contact, group
  membership or setting and a job that will do the rest; it runs only with a second factor; a challenge is used once;
  the wipe key changes only with the password or the old key's signature.
\<close>

section \<open>Laws of the Redis commands\<close>

text \<open>\<open>GETDEL\<close> returns the value and removes it; \<open>SCAN\<close> changes nothing, returns only keys that begin with the literal part
  of the pattern, and its cursors run out (\<open>rank\<close>).\<close>

locale wipe_store = redis_strings R strs
  for R :: "('r, 'x) wipe_redis_scheme" and strs :: "'r \<Rightarrow> string \<rightharpoonup> string" +
  fixes rank :: "nat \<Rightarrow> nat"
  assumes getdel_ok: "rd_getdel R k s = (Inr w, s') \<Longrightarrow> w = strs s k \<and> strs s' = (strs s)(k := None)"
    and getdel_err: "rd_getdel R k s = (Inl e, s') \<Longrightarrow> strs s' = strs s \<or> strs s' = (strs s)(k := None)"
    and scan_view: "rd_scan R c pat n s = (v, s') \<Longrightarrow> strs s' = strs s"
    and scan_match: "rd_scan R c pat n s = (Inr (ks, c'), s') \<Longrightarrow> k \<in> set ks \<Longrightarrow>
        take (length (takeWhile (\<lambda>ch. ch \<noteq> CHR ''*'') pat)) k = takeWhile (\<lambda>ch. ch \<noteq> CHR ''*'') pat"
    and scan_ends: "rd_scan R c pat n s = (Inr (ks, c'), s') \<Longrightarrow> c' \<noteq> 0 \<Longrightarrow> rank c' < rank c"
begin

lemma del_ignored_frame: "k \<noteq> j \<Longrightarrow> strs (del_ignored R k s) j = strs s j"
proof -
  assume "k \<noteq> j"
  obtain v s' where d: "rd_del R k s = (v, s')" by force
  then show ?thesis using \<open>k \<noteq> j\<close> sdel_ok sdel_err by (cases v) (fastforce simp: del_ignored_def)+
qed

lemma del_all_frame: "j \<notin> set ks \<Longrightarrow> strs (del_all R ks s) j = strs s j"
  by (induction ks arbitrary: s) (auto simp: del_all_def del_ignored_frame)

text \<open>The scan ends and keeps every key that does not begin like the pattern.\<close>

lemma scan_loop_frame:
  assumes "take (length (takeWhile (\<lambda>ch. ch \<noteq> CHR ''*'') pat)) j \<noteq> takeWhile (\<lambda>ch. ch \<noteq> CHR ''*'') pat"
  shows "\<exists>e s'. scan_loop R pat c s = Some (e, s') \<and> strs s' j = strs s j"
proof (induction "rank c" arbitrary: c s rule: less_induct)
  case less
  obtain v s1 where v: "rd_scan R c pat 100 s = (v, s1)" by force
  have s1: "strs s1 = strs s" using scan_view [OF v] .
  show ?case
  proof (cases v)
    case (Inl e)
    then show ?thesis using v s1 by (subst scan_loop.simps) simp
  next
    case (Inr r)
    obtain ks c' where r: "r = (ks, c')" by force
    have v': "rd_scan R c pat 100 s = (Inr (ks, c'), s1)" using v Inr r by simp
    have j: "strs (del_all R ks s1) j = strs s j" using scan_match [OF v'] assms s1 del_all_frame [of j ks s1] by metis
    show ?thesis
    proof (cases "c' = 0")
      case True
      then show ?thesis using v' j by (subst scan_loop.simps) simp
    next
      case False
      from less.hyps [OF scan_ends [OF v' False], of "del_all R ks s1"] False v' j show ?thesis
        by (subst scan_loop.simps) (auto simp: Let_def)
    qed
  qed
qed

end

section \<open>A store in memory\<close>

definition mem_getdel :: "string \<Rightarrow> mem_redis \<Rightarrow> (string + string option) \<times> mem_redis" where
  "mem_getdel k m = mem_reply (mem_strs m k) (mem_strs_update (\<lambda>t. t(k := None))) m"

text \<open>A scan over the keys of a finite universe.\<close>

definition mem_scan :: "string list \<Rightarrow> nat \<Rightarrow> string \<Rightarrow> nat \<Rightarrow> mem_redis \<Rightarrow> (string + string list \<times> nat) \<times> mem_redis" where
  "mem_scan dbkeys c pat n m =
     (let lit = takeWhile (\<lambda>ch. ch \<noteq> CHR ''*'') pat in
      mem_reply (filter (\<lambda>k. mem_strs m k \<noteq> None \<and> take (length lit) k = lit) dbkeys, 0) id m)"

definition mem_wipe :: "string list \<Rightarrow> mem_redis wipe_redis" where
  "mem_wipe dbkeys = redis_api.extend mem_api \<lparr>rd_getdel = mem_getdel, rd_scan = mem_scan dbkeys\<rparr>"

lemma mem_wipe_store: "wipe_store (mem_wipe dbkeys) mem_strs (\<lambda>_. 0)"
  by unfold_locales
     (auto simp: mem_wipe_def redis_api.defs mem_api_def mem_getdel_def mem_scan_def mem_reply_def Let_def split: if_splits)

interpretation memW: wipe_store "mem_wipe dbkeys" mem_strs "\<lambda>_. 0" for dbkeys
  by (rule mem_wipe_store)

section \<open>The transaction\<close>

lemma wipe_groups_member:
  assumes "qWipeGroupMemberships now u snap cur = Some t" and "is_member t g u"
  shows "\<not> is_member snap g u"
  using assms by (auto simp: qWipeGroupMemberships_def Let_def is_member_def members_of_def list_ex_iff split: if_splits)

text \<open>What each statement leaves alone.\<close>

lemma wipe_statement_frames [simp]:
  "wp_users (qWipeRefreshTokens u p) = wp_users p"
  "wp_groups (qWipeRefreshTokens u p) = wp_groups p"
  "wp_keys (qWipeRefreshTokens u p) = wp_keys p"
  "wp_contacts (qWipeRefreshTokens u p) = wp_contacts p"
  "wp_files (qWipeRefreshTokens u p) = wp_files p"
  "wp_grants (qWipeRefreshTokens u p) = wp_grants p"
  "wp_settings (qWipeRefreshTokens u p) = wp_settings p"
  "wp_jobs (qWipeRefreshTokens u p) = wp_jobs p"
  "wp_users (qWipePrekeyBundles u p) = wp_users p"
  "wp_auth (qWipePrekeyBundles u p) = wp_auth p"
  "wp_groups (qWipePrekeyBundles u p) = wp_groups p"
  "wp_contacts (qWipePrekeyBundles u p) = wp_contacts p"
  "wp_files (qWipePrekeyBundles u p) = wp_files p"
  "wp_grants (qWipePrekeyBundles u p) = wp_grants p"
  "wp_settings (qWipePrekeyBundles u p) = wp_settings p"
  "wp_jobs (qWipePrekeyBundles u p) = wp_jobs p"
  "wp_users (qWipeOneTimePrekeys u p) = wp_users p"
  "wp_auth (qWipeOneTimePrekeys u p) = wp_auth p"
  "wp_groups (qWipeOneTimePrekeys u p) = wp_groups p"
  "wp_contacts (qWipeOneTimePrekeys u p) = wp_contacts p"
  "wp_files (qWipeOneTimePrekeys u p) = wp_files p"
  "wp_grants (qWipeOneTimePrekeys u p) = wp_grants p"
  "wp_settings (qWipeOneTimePrekeys u p) = wp_settings p"
  "wp_jobs (qWipeOneTimePrekeys u p) = wp_jobs p"
  "wp_users (qWipeContacts u p) = wp_users p"
  "wp_auth (qWipeContacts u p) = wp_auth p"
  "wp_groups (qWipeContacts u p) = wp_groups p"
  "wp_keys (qWipeContacts u p) = wp_keys p"
  "wp_files (qWipeContacts u p) = wp_files p"
  "wp_grants (qWipeContacts u p) = wp_grants p"
  "wp_settings (qWipeContacts u p) = wp_settings p"
  "wp_jobs (qWipeContacts u p) = wp_jobs p"
  "wp_users (qWipeFileGrants u p) = wp_users p"
  "wp_auth (qWipeFileGrants u p) = wp_auth p"
  "wp_groups (qWipeFileGrants u p) = wp_groups p"
  "wp_keys (qWipeFileGrants u p) = wp_keys p"
  "wp_contacts (qWipeFileGrants u p) = wp_contacts p"
  "wp_files (qWipeFileGrants u p) = wp_files p"
  "wp_settings (qWipeFileGrants u p) = wp_settings p"
  "wp_jobs (qWipeFileGrants u p) = wp_jobs p"
  "wp_users (qWipeFileObjects u p) = wp_users p"
  "wp_auth (qWipeFileObjects u p) = wp_auth p"
  "wp_groups (qWipeFileObjects u p) = wp_groups p"
  "wp_keys (qWipeFileObjects u p) = wp_keys p"
  "wp_contacts (qWipeFileObjects u p) = wp_contacts p"
  "wp_settings (qWipeFileObjects u p) = wp_settings p"
  "wp_jobs (qWipeFileObjects u p) = wp_jobs p"
  "wp_users (qWipeSecuritySettings u p) = wp_users p"
  "wp_auth (qWipeSecuritySettings u p) = wp_auth p"
  "wp_groups (qWipeSecuritySettings u p) = wp_groups p"
  "wp_keys (qWipeSecuritySettings u p) = wp_keys p"
  "wp_contacts (qWipeSecuritySettings u p) = wp_contacts p"
  "wp_files (qWipeSecuritySettings u p) = wp_files p"
  "wp_grants (qWipeSecuritySettings u p) = wp_grants p"
  "wp_jobs (qWipeSecuritySettings u p) = wp_jobs p"
  "wp_users (disable_account now u p) = wp_users p"
  "wp_groups (disable_account now u p) = wp_groups p"
  "wp_keys (disable_account now u p) = wp_keys p"
  "wp_contacts (disable_account now u p) = wp_contacts p"
  "wp_files (disable_account now u p) = wp_files p"
  "wp_grants (disable_account now u p) = wp_grants p"
  "wp_settings (disable_account now u p) = wp_settings p"
  "wp_jobs (disable_account now u p) = wp_jobs p"
  "wp_users (qInsertWipedAccountMarker u p) = wp_users p"
  "wp_groups (qInsertWipedAccountMarker u p) = wp_groups p"
  "wp_keys (qInsertWipedAccountMarker u p) = wp_keys p"
  "wp_contacts (qInsertWipedAccountMarker u p) = wp_contacts p"
  "wp_files (qInsertWipedAccountMarker u p) = wp_files p"
  "wp_grants (qInsertWipedAccountMarker u p) = wp_grants p"
  "wp_settings (qInsertWipedAccountMarker u p) = wp_settings p"
  "wp_jobs (qInsertWipedAccountMarker u p) = wp_jobs p"
  by (simp_all add: qWipeRefreshTokens_def qWipePrekeyBundles_def qWipeOneTimePrekeys_def qWipeContacts_def qWipeFileGrants_def qWipeFileObjects_def qWipeSecuritySettings_def disable_account_def qInsertWipedAccountMarker_def)

text \<open>The statements up to the job, in order.\<close>

definition wiped_rows :: "gotime \<Rightarrow> uin \<Rightarrow> group_tables \<Rightarrow> wipe_pg \<Rightarrow> wipe_pg" where
  "wiped_rows now u gt p =
     qInsertWipedAccountMarker u (disable_account now u (qWipeSecuritySettings u (qWipeFileObjects u (qWipeFileGrants u (qWipeContacts u
       ((qWipeRefreshTokens u (qWipePrekeyBundles u (qWipeOneTimePrekeys u p)))\<lparr>wp_groups := gt\<rparr>))))))"

lemma wiped_rows_fields:
  "wp_groups (wiped_rows now u gt p) = gt"
  "wp_jobs (wiped_rows now u gt p) = wp_jobs p"
  "wp_keys (wiped_rows now u gt p) = (wp_keys p)\<lparr>kt_opks := filter (\<lambda>r. ok_uin r \<noteq> u) (kt_opks (wp_keys p)),
     kt_bundles := filter (\<lambda>r. bd_uin r \<noteq> u) (kt_bundles (wp_keys p))\<rparr>"
  "cx_rows (wp_contacts (wiped_rows now u gt p)) = filter (\<lambda>r. \<not> (ct_owner r = u \<or> ct_target r = u)) (cx_rows (wp_contacts p))"
  "wp_files (wiped_rows now u gt p) = filter (\<lambda>(k, ow). ow \<noteq> u) (wp_files p)"
  "wp_grants (wiped_rows now u gt p) = filter (\<lambda>(k, ow, gr). ow \<noteq> u) (filter (\<lambda>(k, ow, gr). \<not> (ow = u \<or> gr = u)) (wp_grants p))"
  "wp_settings (wiped_rows now u gt p) = filter (\<lambda>r. ss_uin r \<noteq> u) (wp_settings p)"
  "at_wiped (wp_auth (wiped_rows now u gt p)) = insert u (at_wiped (wp_auth p))"
  "at_refresh (wp_auth (wiped_rows now u gt p)) = filter (\<lambda>r. rr_uin r \<noteq> u) (at_refresh (wp_auth p))"
  "at_epoch (wp_auth (wiped_rows now u gt p)) = (case at_epoch (wp_auth p) u of None \<Rightarrow> at_epoch (wp_auth p) | Some _ \<Rightarrow> (at_epoch (wp_auth p))(u \<mapsto> now))"
  by (simp_all add: wiped_rows_def) (simp_all add: qWipeRefreshTokens_def drop_refresh_def qWipePrekeyBundles_def
        qWipeOneTimePrekeys_def qWipeContacts_def qWipeFileGrants_def qWipeFileObjects_def qWipeSecuritySettings_def
        disable_account_def qInsertWipedAccountMarker_def split: option.splits)

lemma wipe_tx_Some:
  assumes "wipe_tx io u ks p = Some (job, p')"
  obtains gt where "job = wo_job io" and "at_epoch (wp_auth p) u \<noteq> None"
    and "qWipeGroupMemberships (wo_now io) u (wp_groups p) (wo_wait io (wp_groups p)) = Some gt"
    and "p' = (wiped_rows (wo_now io) u gt p)\<lparr>wp_jobs := snd (InsertWipeJobTx (wo_job io) (wo_now io) u ks (wp_jobs p))\<rparr>"
proof -
  have "wp_groups (qWipeRefreshTokens u (qWipePrekeyBundles u (qWipeOneTimePrekeys u p))) = wp_groups p"
    by simp
  with assms that show ?thesis
    by (auto simp: wipe_tx_def Let_def InsertWipeJobTx_def wiped_rows_def [symmetric] wiped_rows_fields split: if_splits option.splits)
qed

text \<open>No row of the account is left.\<close>

definition account_gone :: "uin \<Rightarrow> wipe_pg \<Rightarrow> bool" where
  "account_gone u p \<longleftrightarrow> u \<in> at_wiped (wp_auth p) \<and>
     (\<forall>r \<in> set (at_refresh (wp_auth p)). rr_uin r \<noteq> u) \<and>
     (\<forall>r \<in> set (kt_opks (wp_keys p)). ok_uin r \<noteq> u) \<and> (\<forall>r \<in> set (kt_bundles (wp_keys p)). bd_uin r \<noteq> u) \<and>
     (\<forall>r \<in> set (cx_rows (wp_contacts p)). ct_owner r \<noteq> u \<and> ct_target r \<noteq> u) \<and>
     u \<notin> snd ` set (wp_files p) \<and> (\<forall>(k, ow, gr) \<in> set (wp_grants p). ow \<noteq> u \<and> gr \<noteq> u) \<and>
     (\<forall>r \<in> set (wp_settings p). ss_uin r \<noteq> u)"

lemma wipe_tx_erases:
  assumes "wipe_tx io u ks p = Some (job, p')"
  shows "account_gone u p'" and "at_epoch (wp_auth p') u = Some (wo_now io)"
    and "\<And>g. is_member (wp_groups p') g u \<Longrightarrow> \<not> is_member (wp_groups p) g u"
    and "\<exists>j. wp_jobs p' = wp_jobs p @ [(job, j)] \<and> j_uin j = u \<and> job_ready (wo_now io) j \<and>
      j_file_keys j = (case ks of None \<Rightarrow> [] | Some l \<Rightarrow> l)"
proof -
  obtain gt where job: "job = wo_job io" and ep: "at_epoch (wp_auth p) u \<noteq> None"
    and gt: "qWipeGroupMemberships (wo_now io) u (wp_groups p) (wo_wait io (wp_groups p)) = Some gt"
    and p': "p' = (wiped_rows (wo_now io) u gt p)\<lparr>wp_jobs := snd (InsertWipeJobTx (wo_job io) (wo_now io) u ks (wp_jobs p))\<rparr>"
    by (rule wipe_tx_Some [OF assms])
  show "account_gone u p'" by (auto simp: p' account_gone_def wiped_rows_fields)
  show "at_epoch (wp_auth p') u = Some (wo_now io)" using ep by (auto simp: p' wiped_rows_fields)
  show "\<And>g. is_member (wp_groups p') g u \<Longrightarrow> \<not> is_member (wp_groups p) g u"
    using wipe_groups_member [OF gt] by (simp add: p' wiped_rows_fields)
  show "\<exists>j. wp_jobs p' = wp_jobs p @ [(job, j)] \<and> j_uin j = u \<and> job_ready (wo_now io) j \<and>
      j_file_keys j = (case ks of None \<Rightarrow> [] | Some l \<Rightarrow> l)"
    by (simp add: p' job InsertWipeJobTx_def job_ready_def)
qed

section \<open>The wipe as a whole\<close>

context wipe_store
begin

lemma deletePattern_frame:
  "\<exists>e s'. deletePattern R (CHR ''p'' # pat) s = Some (e, s') \<and> strs s' (CHR ''j'' # k) = strs s (CHR ''j'' # k)"
  unfolding deletePattern_def by (rule scan_loop_frame) simp

lemma cleanupPollKeys_frame: "\<exists>s'. cleanupPollKeys R u s = Some s' \<and> strs s' (CHR ''j'' # k) = strs s (CHR ''j'' # k)"
proof -
  let ?s0 = "del_all R (poll_keys u) s"
  have d: "strs ?s0 (CHR ''j'' # k) = strs s (CHR ''j'' # k)" by (rule del_all_frame) (simp add: poll_keys_def)
  have p: "\<exists>pat. poll_patterns u ! 0 = CHR ''p'' # pat" "\<exists>pat. poll_patterns u ! 1 = CHR ''p'' # pat"
    by (simp_all add: poll_patterns_def)
  obtain e1 s1 where 1: "deletePattern R (poll_patterns u ! 0) ?s0 = Some (e1, s1)" "strs s1 (CHR ''j'' # k) = strs ?s0 (CHR ''j'' # k)"
    using p(1) deletePattern_frame by metis
  obtain e2 s2 where 2: "deletePattern R (poll_patterns u ! 1) s1 = Some (e2, s2)" "strs s2 (CHR ''j'' # k) = strs s1 (CHR ''j'' # k)"
    using p(2) deletePattern_frame by metis
  show ?thesis using d 1 2 by (simp add: cleanupPollKeys_def)
qed

lemma aux_cleanup_frame: "\<exists>s'. aux_cleanup R u s = Some s' \<and> strs s' (CHR ''j'' # k) = strs s (CHR ''j'' # k)"
proof -
  let ?s0 = "del_all R [legacyLoginAttemptsKeyPrefix @ itoa u, presenceKeyPrefix @ itoa u, ''undelivered:'' @ itoa u] s"
  have d: "strs ?s0 (CHR ''j'' # k) = strs s (CHR ''j'' # k)"
    by (rule del_all_frame) (simp add: legacyLoginAttemptsKeyPrefix_def presenceKeyPrefix_def)
  obtain s1 where "cleanupPollKeys R u ?s0 = Some s1" "strs s1 (CHR ''j'' # k) = strs ?s0 (CHR ''j'' # k)"
    using cleanupPollKeys_frame by metis
  moreover have "strs (del_all R (AuthenticatedRateLimitKeysForUIN u) s1) (CHR ''j'' # k) = strs s1 (CHR ''j'' # k)"
    by (rule del_all_frame) (auto simp: AuthenticatedRateLimitKeysForUIN_def bucket_key_def dest: rate_keys_actions)
  ultimately show ?thesis using d by (simp add: aux_cleanup_def)
qed

lemma blocklist_head: "panicWipeBlocklistKey u = CHR ''j'' # tl (panicWipeBlocklistKey u)"
  by (simp add: panicWipeBlocklistKey_def panicWipeBlocklistPrefix_def)

lemma aux_cleanup_blocklist:
  "\<exists>s'. aux_cleanup R u s = Some s' \<and> strs s' (panicWipeBlocklistKey u) = strs s (panicWipeBlocklistKey u)"
  using aux_cleanup_frame [of u s "tl (panicWipeBlocklistKey u)"] blocklist_head [of u] by simp

lemma PanicWipe_returns: "\<exists>res. PanicWipe R io u p s = Some res"
proof -
  have "\<exists>s2. aux_cleanup R u s1 = Some s2" for s1 using aux_cleanup_blocklist by blast
  then have "aux_cleanup R u s1 \<noteq> None" for s1 by auto
  then show ?thesis by (auto simp: PanicWipe_def Let_def split: prod.splits sum.splits option.splits)
qed

lemma CleanupUserKeys_returns: "\<exists>res. CleanupUserKeys R u s = Some res"
proof -
  have d: "deletePattern R (poll_patterns u ! n) s1 \<noteq> None" if "n < 2" for n s1
  proof -
    have "\<exists>pat. poll_patterns u ! n = CHR ''p'' # pat" using that by (auto simp: poll_patterns_def less_2_cases_iff)
    then show ?thesis using deletePattern_frame by (metis option.distinct(1))
  qed
  have "CleanupUserKeys R u s \<noteq> None"
    by (simp add: CleanupUserKeys_def d del: not_None_eq split: prod.splits option.splits)
  then show ?thesis by blast
qed

lemma PanicWipe_Done:
  assumes "PanicWipe R io u p s = Some (WipeDone job, p', s')"
  shows "wipe_tx io u (captureFileKeys u p) (wo_env io p) = Some (job, p') \<and> strs s' (panicWipeBlocklistKey u) = Some ''1''"
proof -
  obtain v s1 where v: "rd_set R (panicWipeBlocklistKey u) ''1'' panicWipeBlocklistTTL s = (v, s1)" by force
  from assms v obtain un where "v = Inr un" by (cases v) (auto simp: PanicWipe_def Let_def)
  with assms v have tx: "wipe_tx io u (captureFileKeys u p) (wo_env io p) = Some (job, p')" "aux_cleanup R u s1 = Some s'"
    by (auto simp: PanicWipe_def Let_def split: if_splits option.splits prod.splits)
  moreover have "strs s1 (panicWipeBlocklistKey u) = Some ''1''" using set_ok v \<open>v = Inr un\<close> by fastforce
  ultimately show ?thesis using aux_cleanup_blocklist [of u s1] by auto
qed

lemma PanicWipe_Failed:
  assumes "PanicWipe R io u p s = Some (WipeFailed e, p', s')" and "wo_commit io \<noteq> FailedAfter"
  shows "(p' = p \<or> p' = wo_env io p) \<and> (\<forall>k. k \<noteq> panicWipeBlocklistKey u \<longrightarrow> strs s' k = strs s k)"
proof -
  let ?bl = "panicWipeBlocklistKey u"
  obtain v s1 where v: "rd_set R ?bl ''1'' panicWipeBlocklistTTL s = (v, s1)" by force
  have s1: "strs s1 k = strs s k" if "k \<noteq> ?bl" for k using v that by (cases v) (auto dest: set_ok set_err)
  have c: "commit_tx (wo_commit io) q r = r" if "failed (wo_commit io)" for q r :: wipe_pg
    using that assms(2) by (cases "wo_commit io") (auto simp: commit_tx_def)
  from assms(1) v c have "(p' = p \<or> p' = wo_env io p) \<and> (s' = s1 \<or> s' = del_ignored R ?bl s1)"
    by (cases v) (auto simp: PanicWipe_def Let_def split: if_splits option.splits prod.splits)
  then show ?thesis using s1 del_ignored_frame [of ?bl] by auto
qed

end

lemma captured_keys:
  "set (case captureFileKeys u p of None \<Rightarrow> [] | Some l \<Rightarrow> l) = {k. k \<noteq> [] \<and> (k, u) \<in> set (wp_files p)}"
  by (force simp: captureFileKeys_def qSelectFileObjectKeys_def Let_def filter_empty_conv)

text \<open>C7: A wipe that reports its job has erased the account: it is marked wiped, its session epoch is the time of the
  wipe, no session, prekey, bundle, contact, file, grant or setting of it is left in PostgreSQL, it is a member of no group it was in when
  the transaction began, and the job that will erase the rest is stored, due at once, with the object keys captured
  before; the account's blocklist entry is still set. A wipe that reports an error, the outcome of its commit being certain,
  changed no table and no Redis key but the blocklist entry.\<close>

theorem wipe_all_or_nothing:
  assumes "wipe_store R strs rank" and "PanicWipe R io u p s = Some (res, p', s')"
  shows "case res of
      WipeDone job \<Rightarrow> account_gone u p' \<and> at_epoch (wp_auth p') u = Some (wo_now io) \<and>
        (\<forall>g. is_member (wp_groups p') g u \<longrightarrow> \<not> is_member (wp_groups (wo_env io p)) g u) \<and>
        (\<exists>j. (job, j) \<in> set (wp_jobs p') \<and> j_uin j = u \<and> job_ready (wo_now io) j \<and>
          set (j_file_keys j) = {k. k \<noteq> [] \<and> (k, u) \<in> set (wp_files p)}) \<and>
        strs s' (panicWipeBlocklistKey u) = Some ''1''
    | WipeFailed e \<Rightarrow> wo_commit io \<noteq> FailedAfter \<longrightarrow>
        (p' = p \<or> p' = wo_env io p) \<and> (\<forall>k. k \<noteq> panicWipeBlocklistKey u \<longrightarrow> strs s' k = strs s k)"
proof (cases res)
  case (WipeDone job)
  with wipe_store.PanicWipe_Done [OF assms(1)] assms(2)
  have tx: "wipe_tx io u (captureFileKeys u p) (wo_env io p) = Some (job, p')"
    and bl: "strs s' (panicWipeBlocklistKey u) = Some ''1''" by auto
  from wipe_tx_erases [OF tx] bl WipeDone captured_keys [of u p] show ?thesis by auto
next
  case (WipeFailed e)
  with wipe_store.PanicWipe_Failed [OF assms(1)] assms(2) show ?thesis by auto
qed

text \<open>C28: An account erasure and the worker's cleanup of the account's Redis keys always return, whatever commands
  fail, when the cursors of \<open>SCAN\<close> run out.\<close>

theorem wipe_returns:
  assumes "wipe_store R strs rank"
  shows "(\<exists>res. PanicWipe R io u p s = Some res) \<and> (\<exists>res. CleanupUserKeys R u s = Some res)"
  using wipe_store.PanicWipe_returns [OF assms] wipe_store.CleanupUserKeys_returns [OF assms] by blast


definition calm_wipe :: wipe_io where
  "calm_wipe = \<lparr>wo_capture = True, wo_env = id, wo_begin = True, wo_lock = True, wo_stmts = True, wo_now = 100, wo_wait = id,
     wo_job = 1, wo_commit = Done\<rparr>"

text \<open>User 7 with a file and a PIN.\<close>

definition sample_account :: wipe_pg where
  "sample_account = \<lparr>wp_users = [], wp_auth = \<lparr>at_epoch = [7 \<mapsto> 0], at_wiped = {}, at_refresh = []\<rparr>,
     wp_groups = sample_users, wp_keys = \<lparr>kt_bundles = [], kt_opks = [], kt_next = 1\<rparr>,
     wp_contacts = \<lparr>cx_users = [], cx_rows = []\<rparr>, wp_files = [(''photo'', 7)], wp_grants = [], wp_settings = [\<lparr>ss_uin = 7, ss_pin = Some ''h'', ss_key = None\<rparr>],
     wp_jobs = []\<rparr>"


definition erased_account :: wipe_pg where
  "erased_account = sample_account\<lparr>wp_auth := \<lparr>at_epoch = [7 \<mapsto> 100], at_wiped = {7}, at_refresh = []\<rparr>, wp_files := [], wp_settings := [],
     wp_jobs := [(1, \<lparr>j_uin = 7, j_status = JobPending, j_file_keys = [''photo''], j_failed_phases = [], j_retry_count = 0,
       j_next_retry_at = 100, j_lease_until = None, j_worker_id = None\<rparr>)]\<rparr>"

lemma sample_no_memberships: "qWipeGroupMemberships now u sample_users sample_users = Some sample_users"
  by (simp add: qWipeGroupMemberships_def sample_users_def Let_def)

lemma sample_capture: "captureFileKeys 7 sample_account = Some [''photo'']"
  by (simp add: captureFileKeys_def qSelectFileObjectKeys_def sample_account_def)

lemma sample_tx: "wipe_tx calm_wipe 7 (Some [''photo'']) sample_account = Some (1, erased_account)"
proof -
  have w: "wiped_rows 100 7 sample_users sample_account = erased_account\<lparr>wp_jobs := []\<rparr>"
    by (simp add: wiped_rows_def sample_account_def erased_account_def qWipeRefreshTokens_def drop_refresh_def qWipePrekeyBundles_def
        qWipeOneTimePrekeys_def qWipeContacts_def qWipeFileGrants_def qWipeFileObjects_def qWipeSecuritySettings_def
        disable_account_def qInsertWipedAccountMarker_def)
  have "at_epoch (wp_auth sample_account) 7 \<noteq> None" "wp_groups sample_account = sample_users"
    by (simp_all add: sample_account_def)
  with w show ?thesis
    by (simp add: wipe_tx_def Let_def calm_wipe_def sample_no_memberships InsertWipeJobTx_def wiped_rows_def [symmetric]) (simp add: erased_account_def sample_account_def)
qed

lemma sample_wipe:
  "\<exists>s'. PanicWipe (mem_wipe []) calm_wipe 7 sample_account mem_empty = Some (WipeDone 1, erased_account, s')"
proof -
  have set: "\<exists>s1. rd_set (mem_wipe []) (panicWipeBlocklistKey 7) ''1'' panicWipeBlocklistTTL mem_empty = (Inr (), s1)"
    by (simp add: mem_wipe_def redis_api.defs mem_api_def mem_reply_def mem_empty_def)
  then obtain s1 where "rd_set (mem_wipe []) (panicWipeBlocklistKey 7) ''1'' panicWipeBlocklistTTL mem_empty = (Inr (), s1)" by blast
  moreover obtain s2 where "aux_cleanup (mem_wipe []) 7 s1 = Some s2" using memW.aux_cleanup_blocklist by blast
  moreover have "wo_capture calm_wipe" "wo_begin calm_wipe" "wo_env calm_wipe = id" "\<not> failed (wo_commit calm_wipe)"
    by (simp_all add: calm_wipe_def)
  ultimately show ?thesis by (simp add: PanicWipe_def Let_def sample_capture sample_tx)
qed

lemma wipe_all_or_nothing_witness:
  "\<exists>s' :: mem_redis. account_gone 7 erased_account \<and> mem_strs s' (panicWipeBlocklistKey 7) = Some ''1''"
proof -
  obtain s' where "PanicWipe (mem_wipe []) calm_wipe 7 sample_account mem_empty = Some (WipeDone 1, erased_account, s')"
    using sample_wipe by blast
  from wipe_all_or_nothing [OF mem_wipe_store this] show ?thesis by auto
qed

lemma wipe_returns_witness:
  "(\<exists>res. PanicWipe (mem_wipe []) calm_wipe 7 sample_account mem_empty = Some res) \<and> (\<exists>res. CleanupUserKeys (mem_wipe []) 7 mem_empty = Some res)"
  using wipe_returns [OF mem_wipe_store] by blast

text \<open>C29: After a finished wipe no token of the account is accepted any more, whatever session rows, revocations or
  later time it is presented with: the account's mark in \<open>wiped_accounts\<close> is enough.\<close>

theorem wiped_account_locked_out:
  assumes "wipe_store R strs rank" and "PanicWipe R io u p s = Some (WipeDone job, p', s')"
    and "at_wiped (wp_auth p') \<subseteq> at_wiped t" and "jl_parse lib now raw = Parsed c" and "cl_UIN c = u"
  shows "\<exists>e. fst (Verify R2 lib wipedOk epochOk now raw ty t s2) = Inl e"
proof -
  have "wipe_tx io u (captureFileKeys u p) (wo_env io p) = Some (job, p')"
    using wipe_store.PanicWipe_Done [OF assms(1,2)] by simp
  from wipe_tx_erases(1) [OF this] have u: "u \<in> at_wiped t" using assms(3) by (auto simp: account_gone_def)
  obtain v s3 where v: "Verify R2 lib wipedOk epochOk now raw ty t s2 = (v, s3)" by force
  have "v \<noteq> Inr c'" for c'
  proof
    assume "v = Inr c'"
    with Verify_Inr v assms(4) have "c' = c \<and> cl_UIN c' \<notin> at_wiped t" by (metis parsed.inject)
    with u assms(5) show False by auto
  qed
  then show ?thesis using v by (cases v) auto
qed

lemma wiped_account_locked_out_witness:
  "jl_parse sample_lib (150 * Second) ''tok'' = Parsed sample_claims \<and>
    (\<exists>e. fst (Verify mem_api sample_lib True True (150 * Second) ''tok'' TokenTypeAccess (wp_auth erased_account) mem_empty) = Inl e)"
proof -
  have p: "jl_parse sample_lib (150 * Second) ''tok'' = Parsed sample_claims" by (simp add: sample_lib_def duration_defs)
  have u: "cl_UIN sample_claims = 7" by (simp add: sample_claims_def)
  obtain s' where w: "PanicWipe (mem_wipe []) calm_wipe 7 sample_account mem_empty = Some (WipeDone 1, erased_account, s')"
    using sample_wipe by blast
  from wiped_account_locked_out [OF mem_wipe_store w subset_refl p u, of mem_api True True TokenTypeAccess mem_empty] p show ?thesis by simp
qed

section \<open>Who may start a wipe\<close>

lemma panic_body_error: "panic_body b = Inl e \<Longrightarrow> e \<noteq> PanicAccepted \<and> e \<noteq> PanicNoContent"
  by (auto simp: panic_body_def split: sum.splits auth_http.splits)

lemma authorizeWipe_error:
  "authorizeWipe R ed idkey bcrypt io req u p s = (Some e, s1) \<Longrightarrow> e \<noteq> PanicAccepted"
  by (auto simp: authorizeWipe_def Let_def split: sum.splits if_splits prod.splits bool.splits option.splits)

context wipe_store
begin

lemma VerifyWipeSignature_True:
  assumes "VerifyWipeSignature R ed ok u cid sigB64 p s = (True, s')"
  shows "\<exists>pk stored ch sig. lookupWipePublicKey ok u p = Inr (Some pk) \<and> strs s (challenge_key u cid) = Some stored \<and>
    DecodeStd stored = Some ch \<and> DecodeStd sigB64 = Some sig \<and> ed pk ch sig \<and>
    strs s' = (strs s)(challenge_key u cid := None)"
  using assms getdel_ok [of "challenge_key u cid" s]
  by (auto simp: VerifyWipeSignature_def split: sum.splits option.splits prod.splits)

lemma VerifyWipeSignature_no_challenge:
  assumes "strs s (challenge_key u cid) = None"
  shows "fst (VerifyWipeSignature R ed ok u cid sigB64 p s) = False"
  using assms getdel_ok [of "challenge_key u cid" s]
  by (auto simp: VerifyWipeSignature_def split: sum.splits option.splits prod.splits)

lemma rotate_no_challenge:
  assumes "strs s (challenge_key u (sw_ChallengeID req)) = None"
  shows "fst (rotateWipeKey R ed io req u pub old p s) \<noteq> PanicNoContent \<and> fst (snd (rotateWipeKey R ed io req u pub old p s)) = p"
  using assms getdel_ok [of "challenge_key u (sw_ChallengeID req)" s]
  by (auto simp: rotateWipeKey_def Let_def split: sum.splits option.splits prod.splits)

end

text \<open>C22: An account erasure runs only for an authenticated user who either signed a challenge issued to that user and
  still stored, with the wipe key enrolled, or gave the PIN that was set; any other request changes no table and
  publishes nothing.\<close>

theorem wipe_needs_second_factor:
  assumes "wipe_store R strs rank"
    and "manualPanicWipeHandler R ed idkey bcrypt io p s = Some (r, pubs, p', s')"
    and "r = PanicAccepted \<or> pubs \<noteq> [] \<or> p' \<noteq> p"
  shows "\<exists>u req. mq_actor io = Some u \<and> panic_body (mq_body io) = Inr req \<and>
    ((\<exists>pk stored ch sig. lookupWipePublicKey (mq_lookup2 io) u (mq_env io p) = Inr (Some pk) \<and>
        strs s (challenge_key u (mw_ChallengeID req)) = Some stored \<and> DecodeStd stored = Some ch \<and>
        DecodeStd (mw_Signature req) = Some sig \<and> ed pk ch sig) \<or>
     (\<exists>h. lookupPanicPinHash (mq_lookup2 io) u (mq_env io p) = Some h \<and> h \<noteq> [] \<and>
        pv_OK (verifyPassword idkey bcrypt h (mw_Pin req))))"
proof -
  obtain u req s1 where u: "mq_actor io = Some u" "panic_body (mq_body io) = Inr req"
    and a: "authorizeWipe R ed idkey bcrypt io req u p s = (None, s1)"
    using assms(2,3)
    by (auto simp: manualPanicWipeHandler_def split: option.splits sum.splits prod.splits dest: panic_body_error authorizeWipe_error)
  show ?thesis
  proof (cases "mw_ChallengeID req \<noteq> [] \<or> mw_Signature req \<noteq> []")
    case True
    with a have "VerifyWipeSignature R ed (mq_lookup2 io) u (mw_ChallengeID req) (mw_Signature req) (mq_env io p) s = (True, s1)"
      by (auto simp: authorizeWipe_def Let_def split: sum.splits if_splits prod.splits bool.splits)
    from wipe_store.VerifyWipeSignature_True [OF assms(1) this] u show ?thesis by blast
  next
    case False
    with a obtain h where "lookupPanicPinHash (mq_lookup2 io) u (mq_env io p) = Some h" "h \<noteq> []"
      "pv_OK (verifyPassword idkey bcrypt h (mw_Pin req))"
      by (auto simp: authorizeWipe_def Let_def split: sum.splits if_splits option.splits)
    with u show ?thesis by blast
  qed
qed


definition sample_pin :: "string \<Rightarrow> string \<Rightarrow> bool" where "sample_pin h p \<longleftrightarrow> h = ''h'' \<and> p = ''1234''"

definition sample_manual :: manual_io where
  "sample_manual = \<lparr>mq_actor = Some 7, mq_body = Body \<lparr>mw_Pin = ''1234'', mw_ChallengeID = [], mw_Signature = []\<rparr>, mq_lookup = True,
     mq_env = id, mq_lookup2 = True, mq_env2 = id, mq_wipe = calm_wipe\<rparr>"

lemma sample_pin_ok: "pv_OK (verifyPassword pad_key sample_pin ''h'' ''1234'')"
  by (simp add: verifyPassword_def argon2_prefix_def sample_pin_def)

lemma sample_authorized:
  "authorizeWipe (mem_wipe []) ed pad_key sample_pin sample_manual \<lparr>mw_Pin = ''1234'', mw_ChallengeID = [], mw_Signature = []\<rparr> 7 sample_account s = (None, s)"
  using sample_pin_ok
  by (simp add: authorizeWipe_def lookupWipePublicKey_def lookupPanicPinHash_def find_settings_def sample_account_def sample_manual_def)

lemma wipe_needs_second_factor_witness:
  "(\<exists>s'. manualPanicWipeHandler (mem_wipe []) (\<lambda>k m s. False) pad_key sample_pin sample_manual sample_account mem_empty =
      Some (PanicAccepted, [''account.wiped.'' @ itoa 7], erased_account, s')) \<and>
   (\<exists>h. lookupPanicPinHash True 7 sample_account = Some h \<and> h \<noteq> [])"
proof -
  obtain s' where "PanicWipe (mem_wipe []) calm_wipe 7 sample_account mem_empty = Some (WipeDone 1, erased_account, s')"
    using sample_wipe by blast
  moreover have "mq_actor sample_manual = Some 7" "mq_wipe sample_manual = calm_wipe" "mq_env2 sample_manual = id"
    "panic_body (mq_body sample_manual) = Inr \<lparr>mw_Pin = ''1234'', mw_ChallengeID = [], mw_Signature = []\<rparr>"
    by (simp_all add: sample_manual_def panic_body_def decodeJSON_def)
  ultimately have r: "manualPanicWipeHandler (mem_wipe []) (\<lambda>k m s. False) pad_key sample_pin sample_manual sample_account mem_empty =
      Some (PanicAccepted, [''account.wiped.'' @ itoa 7], erased_account, s')"
    by (simp add: manualPanicWipeHandler_def sample_authorized)
  from wipe_needs_second_factor [OF mem_wipe_store r] have "\<exists>h. lookupPanicPinHash True 7 sample_account = Some h \<and> h \<noteq> []"
    by (auto simp: sample_manual_def)
  with r show ?thesis by blast
qed


definition keyed_account :: wipe_pg where
  "keyed_account = sample_account\<lparr>wp_settings := [\<lparr>ss_uin = 7, ss_pin = None, ss_key = Some (EncodeStd (replicate 32 (CHR ''k'')))\<rparr>]\<rparr>"

definition challenged :: mem_redis where
  "challenged = mem_empty\<lparr>mem_strs := [challenge_key 7 ''c1'' \<mapsto> EncodeStd ''ch'']\<rparr>"

lemma EncodeStd_nonempty: "s \<noteq> [] \<Longrightarrow> EncodeStd s \<noteq> []"
proof
  assume "s \<noteq> []" and "EncodeStd s = []"
  with DecodeStd_EncodeStd [of s] have "DecodeStd [] = Some s" by simp
  moreover have "DecodeStd [] = Some []" by code_simp
  ultimately show False using \<open>s \<noteq> []\<close> by simp
qed

lemma lookup_stored_key:
  assumes "find_settings u p = Some r" and "ss_key r = Some (EncodeStd k)" and "length k = ed25519_PublicKeySize"
  shows "lookupWipePublicKey True u p = Inr (Some k)"
proof -
  have "EncodeStd k \<noteq> []" using assms(3) by (intro EncodeStd_nonempty) (auto simp: ed25519_PublicKeySize_def)
  with assms show ?thesis by (simp add: lookupWipePublicKey_def DecodeStd_EncodeStd)
qed

lemma keyed_lookup: "lookupWipePublicKey True 7 keyed_account = Inr (Some (replicate 32 (CHR ''k'')))"
  by (rule lookup_stored_key [where r = "\<lparr>ss_uin = 7, ss_pin = None, ss_key = Some (EncodeStd (replicate 32 (CHR ''k'')))\<rparr>"])
     (simp_all add: keyed_account_def find_settings_def ed25519_PublicKeySize_def)

lemma sample_signature:
  "\<exists>s'. VerifyWipeSignature (mem_wipe []) (\<lambda>k m s. m = ''ch'') True 7 ''c1'' (EncodeStd (replicate 64 (CHR ''s''))) keyed_account challenged = (True, s')"
proof -
  have "rd_getdel (mem_wipe []) (challenge_key 7 ''c1'') challenged = (Inr (Some (EncodeStd ''ch'')), challenged\<lparr>mem_strs := Map.empty\<rparr>)"
    by (simp add: mem_wipe_def redis_api.defs mem_getdel_def mem_reply_def challenged_def mem_empty_def)
  then show ?thesis by (simp add: VerifyWipeSignature_def keyed_lookup DecodeStd_EncodeStd ed25519_SignatureSize_def)
qed


section \<open>Who may change the wipe key\<close>

lemma find_upd_settings:
  assumes "\<And>r. ss_uin (f r) = ss_uin r"
  shows "find_settings v (upd_settings u f p) = (if v = u then map_option f (find_settings u p) else find_settings v p)"
proof -
  have "find (\<lambda>r. ss_uin r = v) (map (\<lambda>r. if ss_uin r = u then f r else r) rs) =
      (if v = u then map_option f (find (\<lambda>r. ss_uin r = u) rs) else find (\<lambda>r. ss_uin r = v) rs)" for rs
    using assms by (induction rs) auto
  then show ?thesis by (simp add: find_settings_def upd_settings_def)
qed

lemma find_append: "find P (xs @ ys) = (case find P xs of None \<Rightarrow> find P ys | Some x \<Rightarrow> Some x)"
  by (induction xs) auto

lemma find_new_settings:
  "find_settings u p = None \<Longrightarrow> find_settings v (new_settings u pin key p) =
     (if v = u then Some \<lparr>ss_uin = u, ss_pin = pin, ss_key = key\<rparr> else find_settings v p)"
  by (auto simp: find_settings_def new_settings_def find_append split: option.splits)

text \<open>What the two statements store.\<close>

lemma enroll_stores:
  assumes "qEnrollWipePublicKey u key p = (n, p')"
  shows "n = 0 \<Longrightarrow> p' = p" and "n \<noteq> 0 \<Longrightarrow> \<exists>r. find_settings u p' = Some r \<and> ss_key r = Some key"
    and "n \<noteq> 0 \<Longrightarrow> \<forall>r. find_settings u p = Some r \<longrightarrow> ss_key r = None"
    and "v \<noteq> u \<Longrightarrow> find_settings v p' = find_settings v p"
  using assms by (auto simp: qEnrollWipePublicKey_def find_new_settings find_upd_settings split: option.splits if_splits)

lemma update_stores:
  assumes "qUpdateWipePublicKey u old new p = (n, p')"
  shows "n = 0 \<Longrightarrow> p' = p" and "n \<noteq> 0 \<Longrightarrow> \<exists>r. find_settings u p' = Some r \<and> ss_key r = Some new"
    and "n \<noteq> 0 \<Longrightarrow> \<exists>r. find_settings u p = Some r \<and> ss_key r = Some old"
    and "v \<noteq> u \<Longrightarrow> find_settings v p' = find_settings v p"
  using assms by (auto simp: qUpdateWipePublicKey_def find_upd_settings split: option.splits if_splits)


lemma enrollWipeKey_changes:
  assumes "enrollWipeKey idkey bcrypt io req u pub p = (r, p')" and "r = PanicNoContent \<or> p' \<noteq> p \<and> p' \<noteq> ki_env io p"
  shows "(\<exists>h. lookupPasswordHash True u p = Some h \<and> h \<noteq> [] \<and> pv_OK (verifyPassword idkey bcrypt h (sw_Password req))) \<and>
    (\<forall>row. find_settings u (ki_env io p) = Some row \<longrightarrow> ss_key row = None) \<and>
    (\<exists>row. find_settings u p' = Some row \<and> ss_key row = Some (EncodeStd pub)) \<and>
    (\<forall>v. v \<noteq> u \<longrightarrow> find_settings v p' = find_settings v (ki_env io p))"
proof -
  obtain n q where q: "qEnrollWipePublicKey u (EncodeStd pub) (ki_env io p) = (n, q)" by force
  note step = assms(1) [unfolded enrollWipeKey_def Let_def q prod.case]
  obtain h where h: "lookupPasswordHash (ki_password io) u p = Some h" "h \<noteq> []" "pv_OK (verifyPassword idkey bcrypt h (sw_Password req))"
    using step assms(2) by (force split: if_splits option.splits)
  have n: "p' = q" "n \<noteq> 0" using step assms(2) h enroll_stores(1) [OF q] by (auto split: if_splits)
  have "lookupPasswordHash True u p = Some h" using h(1) by (auto simp: lookupPasswordHash_def split: if_splits)
  then show ?thesis using enroll_stores(2-4) [OF q] n h by blast
qed

context wipe_store
begin

lemma rotateWipeKey_changes:
  assumes "rotateWipeKey R ed io req u pub old p s = (r, p', s')" and "r = PanicNoContent \<or> p' \<noteq> p \<and> p' \<noteq> ki_env io p"
  shows "(\<exists>stored sig. strs s (challenge_key u (sw_ChallengeID req)) = Some stored \<and> DecodeStd (sw_Signature req) = Some sig \<and>
      ed old (rotation_payload u (sw_ChallengeID req) stored (EncodeStd pub)) sig) \<and>
    (\<exists>row. find_settings u (ki_env io p) = Some row \<and> ss_key row = Some (EncodeStd old)) \<and>
    (\<exists>row. find_settings u p' = Some row \<and> ss_key row = Some (EncodeStd pub)) \<and>
    (\<forall>v. v \<noteq> u \<longrightarrow> find_settings v p' = find_settings v (ki_env io p))"
proof -
  obtain n q where q: "qUpdateWipePublicKey u (EncodeStd old) (EncodeStd pub) (ki_env io p) = (n, q)" by force
  note step = assms(1) [unfolded rotateWipeKey_def Let_def q prod.case]
  obtain stored s1 where c: "rd_getdel R (challenge_key u (sw_ChallengeID req)) s = (Inr (Some stored), s1)"
    using step assms(2) by (force split: if_splits option.splits sum.splits prod.splits)
  obtain sig where g: "DecodeStd (sw_Signature req) = Some sig" "ed old (rotation_payload u (sw_ChallengeID req) stored (EncodeStd pub)) sig"
    using step assms(2) c by (auto split: if_splits option.splits)
  have n: "p' = q" "n \<noteq> 0" using step assms(2) c g update_stores(1) [OF q] by (auto split: if_splits)
  have "strs s (challenge_key u (sw_ChallengeID req)) = Some stored" using getdel_ok c by force
  then show ?thesis using update_stores(2-4) [OF q] n g by blast
qed

end

text \<open>Also: The key that can erase an account changes only at the account holder's request, and reads back as sent: a first key needs the
  account's password, a later one a signature by the key it replaces over a stored challenge, the account and the new key; other
  accounts' settings are not touched.\<close>

theorem wipe_key_change_authorized:
  assumes "wipe_store R strs rank" and "setWipePublicKeyHandler R ed idkey bcrypt io p s = (r, p', s')"
    and "r = PanicNoContent \<or> p' \<noteq> p \<and> p' \<noteq> ki_env io p"
  shows "\<exists>u req pub. ki_actor io = Some u \<and> panic_body (ki_body io) = Inr req \<and> DecodeStd (sw_PublicKey req) = Some pub \<and>
    lookupWipePublicKey True u p' = Inr (Some pub) \<and>
    (\<forall>v. v \<noteq> u \<longrightarrow> find_settings v p' = find_settings v (ki_env io p)) \<and>
    (lookupWipePublicKey True u p = Inr None \<and> (\<forall>row. find_settings u (ki_env io p) = Some row \<longrightarrow> ss_key row = None) \<and>
       (\<exists>h. lookupPasswordHash True u p = Some h \<and> h \<noteq> [] \<and> pv_OK (verifyPassword idkey bcrypt h (sw_Password req))) \<or>
     (\<exists>old stored sig. lookupWipePublicKey True u p = Inr (Some old) \<and> lookupWipePublicKey True u (ki_env io p) = Inr (Some old) \<and>
       strs s (challenge_key u (sw_ChallengeID req)) = Some stored \<and> DecodeStd (sw_Signature req) = Some sig \<and>
       ed old (rotation_payload u (sw_ChallengeID req) stored (EncodeStd pub)) sig))"
proof -
  obtain u req pub where u: "ki_actor io = Some u" "panic_body (ki_body io) = Inr req" "DecodeStd (sw_PublicKey req) = Some pub"
    and len: "length pub = ed25519_PublicKeySize" and ok: "ki_lookup io"
    using assms(2,3) by (auto simp: setWipePublicKeyHandler_def lookupWipePublicKey_def split: option.splits sum.splits if_splits dest: panic_body_error)
  show ?thesis
  proof (cases "lookupWipePublicKey True u p")
    case (Inl e)
    then show ?thesis using assms(2,3) u ok by (auto simp: setWipePublicKeyHandler_def split: if_splits)
  next
    case (Inr k)
    show ?thesis
    proof (cases k)
      case None
      with Inr assms(2) u ok len have e: "enrollWipeKey idkey bcrypt io req u pub p = (r, p')"
        by (auto simp: setWipePublicKeyHandler_def split: prod.splits)
      from enrollWipeKey_changes [OF e assms(3)] u Inr None lookup_stored_key [OF _ _ len] show ?thesis by blast
    next
      case (Some old)
      with Inr assms(2) u ok len have e: "rotateWipeKey R ed io req u pub old p s = (r, p', s')"
        by (auto simp: setWipePublicKeyHandler_def)
      have "length old = ed25519_PublicKeySize"
        using Inr Some by (auto simp: lookupWipePublicKey_def split: option.splits if_splits)
      with wipe_store.rotateWipeKey_changes [OF assms(1) e assms(3)] u Inr Some lookup_stored_key len show ?thesis by blast
    qed
  qed
qed


definition user_account :: wipe_pg where
  "user_account = sample_account\<lparr>wp_users := [\<lparr>us_uin = 7, us_username = ''ann'', us_email = None, us_hash = ''h'', us_identity = ''k''\<rparr>]\<rparr>"

definition sample_enroll :: key_io where
  "sample_enroll = \<lparr>ki_actor = Some 7, ki_body = Body \<lparr>sw_PublicKey = EncodeStd (replicate 32 (CHR ''k'')), sw_Password = ''1234'',
     sw_ChallengeID = [], sw_Signature = []\<rparr>, ki_lookup = True, ki_password = True, ki_env = id, ki_exec = Done\<rparr>"

lemma sample_enroll_fields:
  "ki_actor sample_enroll = Some 7" "ki_lookup sample_enroll"
  "ki_body sample_enroll = Body \<lparr>sw_PublicKey = EncodeStd (replicate 32 (CHR ''k'')), sw_Password = ''1234'', sw_ChallengeID = [], sw_Signature = []\<rparr>"
  by (simp_all add: sample_enroll_def)

lemma sample_enrolled:
  "fst (setWipePublicKeyHandler R ed pad_key sample_pin sample_enroll user_account s) = PanicNoContent"
proof -
  have "lookupWipePublicKey True 7 user_account = Inr None" "lookupPasswordHash True 7 user_account = Some ''h''"
    by (simp_all add: lookupWipePublicKey_def lookupPasswordHash_def user_account_def find_settings_def sample_account_def)
  moreover have "fst (qEnrollWipePublicKey 7 key user_account) = 1" for key
    by (simp add: qEnrollWipePublicKey_def user_account_def find_settings_def sample_account_def)
  ultimately have e: "fst (enrollWipeKey pad_key sample_pin sample_enroll req 7 pub user_account) = PanicNoContent"
    if "sw_Password req = ''1234''" for req pub
    using sample_pin_ok that by (simp add: enrollWipeKey_def sample_enroll_def Let_def case_prod_beta)
  show ?thesis
    using e \<open>lookupWipePublicKey True 7 user_account = Inr None\<close>
    by (simp add: setWipePublicKeyHandler_def case_prod_beta panic_body_def decodeJSON_def DecodeStd_EncodeStd ed25519_PublicKeySize_def
        sample_enroll_fields)
qed

lemma wipe_key_change_authorized_witness:
  "\<exists>p'. lookupWipePublicKey True 7 p' = Inr (Some (replicate 32 (CHR ''k''))) \<and>
     p' = fst (snd (setWipePublicKeyHandler (mem_wipe []) (\<lambda>k m s. False) pad_key sample_pin sample_enroll user_account mem_empty))"
proof -
  obtain r p' s' where h: "setWipePublicKeyHandler (mem_wipe []) (\<lambda>k m s. False) pad_key sample_pin sample_enroll user_account mem_empty = (r, p', s')"
    by (metis prod_cases3)
  with sample_enrolled [of "mem_wipe []" "\<lambda>k m s. False" mem_empty] have "r = PanicNoContent" by simp
  with wipe_key_change_authorized [OF mem_wipe_store h] h show ?thesis
    by (auto simp: sample_enroll_def panic_body_def decodeJSON_def DecodeStd_EncodeStd)
qed

section \<open>The PIN\<close>

lemma stored_pin:
  "lookupPanicPinHash True u (qSetPanicPin u h p) = Some h" "lookupPanicPinHash True u (qClearPanicPin u p) = Some []"
  by (auto simp: lookupPanicPinHash_def qSetPanicPin_def qClearPanicPin_def find_new_settings find_upd_settings split: option.splits)

lemma hash_nonempty: "hashPassword idkey salt pin = Some h \<Longrightarrow> h \<noteq> []"
  by (auto simp: hashPassword_def Let_def split: option.splits)

text \<open>Also: A PIN is set only with the account's password; afterwards exactly the candidates with the same Argon2id key authorize, so the PIN
  itself does, and a cleared PIN leaves no PIN. A PIN has four digits.\<close>

theorem pin_roundtrip:
  assumes "setPanicPinHandler idkey bcrypt io p = (PanicNoContent, p')" and "pn_actor io = Some u"
    and "panic_body (pn_body io) = Inr (password, pin)" and "pn_salt io = Some salt" and "length salt = argon2idSaltLength"
    and "\<forall>p s t m q n. length (idkey p s t m q n) = n"
  shows "(\<exists>h. qSelectPasswordHashByUIN True u p = Some h \<and> pv_OK (verifyPassword idkey bcrypt h password)) \<and>
    (if pin = [] then lookupPanicPinHash True u p' = Some []
     else panicPinPattern pin \<and> (\<exists>h. lookupPanicPinHash True u p' = Some h \<and> h \<noteq> [] \<and>
       (\<forall>candidate. pv_OK (verifyPassword idkey bcrypt h candidate) \<longleftrightarrow>
          idkey candidate salt argon2idIterations argon2idMemory argon2idParallelism argon2idKeyLength =
          idkey pin salt argon2idIterations argon2idMemory argon2idParallelism argon2idKeyLength)))"
proof -
  have g: "pin = [] \<or> panicPinPattern pin" using assms(1-3) by (auto simp: setPanicPinHandler_def split: if_splits)
  obtain h where h: "qSelectPasswordHashByUIN (pn_lookup io) u p = Some h" "pv_OK (verifyPassword idkey bcrypt h password)"
    using assms(1-3) by (auto simp: setPanicPinHandler_def split: option.splits if_splits)
  then have pw: "qSelectPasswordHashByUIN True u p = Some h" by (auto simp: qSelectPasswordHashByUIN_def split: if_splits)
  show ?thesis
  proof (cases "pin = []")
    case True
    with assms(1-3) h have "p' = qClearPanicPin u (pn_env io p)"
      by (cases "pn_exec io") (auto simp: setPanicPinHandler_def Let_def)
    with pw h(2) True show ?thesis by (auto simp: stored_pin)
  next
    case False
    then obtain hp where hp: "hashPassword idkey (pn_salt io) pin = Some hp" using assms(4) by (auto simp: hashPassword_def Let_def)
    with assms(1-3) h False g have "p' = qSetPanicPin u hp (pn_env io p)"
      by (cases "pn_exec io") (auto simp: setPanicPinHandler_def Let_def)
    moreover have "pv_OK (verifyPassword idkey bcrypt hp candidate) \<longleftrightarrow>
          idkey candidate salt argon2idIterations argon2idMemory argon2idParallelism argon2idKeyLength =
          idkey pin salt argon2idIterations argon2idMemory argon2idParallelism argon2idKeyLength" for candidate
      using verify_stored [OF hp [unfolded assms(4)] assms(5,6)] by simp
    ultimately show ?thesis using pw h(2) False g hash_nonempty [OF hp] by (auto simp: stored_pin)
  qed
qed

definition sample_set_pin :: pin_io where
  "sample_set_pin = \<lparr>pn_actor = Some 7, pn_body = Body (''1234'', ''0000''), pn_lookup = True, pn_salt = Some (replicate 16 (CHR ''s'')),
     pn_env = id, pn_exec = Done\<rparr>"

lemma pin_roundtrip_witness:
  "\<exists>p' h. setPanicPinHandler pad_key sample_pin sample_set_pin user_account = (PanicNoContent, p') \<and>
     lookupPanicPinHash True 7 p' = Some h \<and> pv_OK (verifyPassword pad_key sample_pin h ''0000'')"
proof -
  have pat: "panicPinPattern ''0000''" by (simp add: panicPinPattern_def digit_value_def)
  have "\<exists>p'. setPanicPinHandler pad_key sample_pin sample_set_pin user_account = (PanicNoContent, p')"
    using sample_pin_ok pat
    by (simp add: setPanicPinHandler_def sample_set_pin_def panic_body_def decodeJSON_def qSelectPasswordHashByUIN_def user_account_def
        hashPassword_def Let_def)
  then obtain p' where p': "setPanicPinHandler pad_key sample_pin sample_set_pin user_account = (PanicNoContent, p')" by blast
  from pin_roundtrip [OF p', of 7 "''1234''" "''0000''" "replicate 16 (CHR ''s'')"] pad_key_length p' show ?thesis
    by (auto simp: sample_set_pin_def panic_body_def decodeJSON_def argon2idSaltLength_def)
qed

section \<open>A file uploaded during the wipe\<close>

text \<open>Also: The object keys are read before the transaction locks the account, so a file the account uploads in between loses its row but is in
  no job: nothing names its object any more.\<close>

theorem late_upload_lost:
  assumes "wipe_store R strs rank" and "PanicWipe R io u p s = Some (WipeDone job, p', s')"
    and "(k, u) \<in> set (wp_files (wo_env io p))" and "(k, u) \<notin> set (wp_files p)" and "wp_jobs (wo_env io p) = []"
  shows "(k, u) \<notin> set (wp_files p') \<and> (\<forall>(n, j) \<in> set (wp_jobs p'). k \<notin> set (j_file_keys j))"
proof -
  have tx: "wipe_tx io u (captureFileKeys u p) (wo_env io p) = Some (job, p')"
    using wipe_store.PanicWipe_Done [OF assms(1,2)] by simp
  have "k \<notin> set (case captureFileKeys u p of None \<Rightarrow> [] | Some l \<Rightarrow> l)"
    using assms(4) by (simp add: captured_keys)
  with wipe_tx_erases(1,4) [OF tx] assms(5) show ?thesis by (auto simp: account_gone_def image_iff)
qed


definition late_upload :: wipe_io where
  "late_upload = calm_wipe\<lparr>wo_env := (\<lambda>p. p\<lparr>wp_files := wp_files p @ [(''late'', 7)]\<rparr>)\<rparr>"

lemma sample_late:
  "\<exists>p' s'. PanicWipe (mem_wipe []) late_upload 7 sample_account mem_empty = Some (WipeDone 1, p', s')"
proof -
  obtain s1 where "rd_set (mem_wipe []) (panicWipeBlocklistKey 7) ''1'' panicWipeBlocklistTTL mem_empty = (Inr (), s1)"
    by (simp add: mem_wipe_def redis_api.defs mem_api_def mem_reply_def mem_empty_def)
  moreover obtain s2 where "aux_cleanup (mem_wipe []) 7 s1 = Some s2" using memW.aux_cleanup_blocklist by blast
  moreover have "wo_capture late_upload" "wo_begin late_upload" "\<not> failed (wo_commit late_upload)"
    by (simp_all add: late_upload_def calm_wipe_def)
  moreover obtain p' where "wipe_tx late_upload 7 (Some [''photo'']) (wo_env late_upload sample_account) = Some (1, p')"
    by (simp add: wipe_tx_def late_upload_def calm_wipe_def sample_account_def sample_no_memberships InsertWipeJobTx_def Let_def)
  ultimately show ?thesis by (simp add: PanicWipe_def Let_def sample_capture)
qed

lemma late_upload_lost_witness:
  "\<exists>p' s'. PanicWipe (mem_wipe []) late_upload 7 sample_account mem_empty = Some (WipeDone 1, p', s') \<and>
     (\<forall>(n, j) \<in> set (wp_jobs p'). ''late'' \<notin> set (j_file_keys j))"
proof -
  obtain p' s' where w: "PanicWipe (mem_wipe []) late_upload 7 sample_account mem_empty = Some (WipeDone 1, p', s')"
    using sample_late by blast
  from late_upload_lost [OF mem_wipe_store w, of "''late''"] w show ?thesis
    by (auto simp: late_upload_def calm_wipe_def sample_account_def)
qed

end
