(* ===== verification/RecipientQueue.thy ===== *)
theory RecipientQueue
  imports Envelope Encoding "HOL-Library.AList"
begin

text \<open>
  The durable queue of each recipient in Redis, \<^verbatim>\<open>ws-gateway/router/recipient_acceptance.go\<close>, and the long poll that
  reads it, \<^verbatim>\<open>ws-gateway/router/poll.go\<close>. The Lua scripts of these files are translated command by command onto the
  keys they use; a script runs atomically, at one time of the Redis clock (\<open>now\<close>, Unix milliseconds). SHA-256 is the
  parameter \<open>sha\<close>; \<open>wire\<close> stands for the JSON codec.
\<close>

section \<open>The key space\<close>

text \<open>The hash a record key holds; \<open>qr_expires\<close> is its field \<open>expires_at\<close>, None for \<open>off\<close>.\<close>

record queue_record =
  qr_message_id :: string
  qr_envelope :: bytes
  qr_scope :: string
  qr_seq :: nat
  qr_expires :: "int option"

text \<open>Sorted sets (members in the order of their scores), record hashes, plain keys, counters (0: absent), the hash and
  list of a user's poll cursors, and the expiry of each key.\<close>

record keyspace =
  ks_zset :: "string \<Rightarrow> (string \<times> nat) list"
  ks_hash :: "string \<rightharpoonup> queue_record"
  ks_flag :: "string \<Rightarrow> bool"
  ks_counter :: "string \<Rightarrow> nat"
  ks_cursors :: "string \<Rightarrow> (string \<times> string) list"
  ks_list :: "string \<Rightarrow> string list"
  ks_expiry :: "string \<rightharpoonup> int"

definition ks_empty :: keyspace where
  "ks_empty = \<lparr>ks_zset = (\<lambda>_. []), ks_hash = Map.empty, ks_flag = (\<lambda>_. False), ks_counter = (\<lambda>_. 0),
     ks_cursors = (\<lambda>_. []), ks_list = (\<lambda>_. []), ks_expiry = Map.empty\<rparr>"

text \<open>Keys without the ones in \<open>P\<close>.\<close>

definition drop_keys :: "(string \<Rightarrow> bool) \<Rightarrow> keyspace \<Rightarrow> keyspace" where
  "drop_keys P ks = \<lparr>ks_zset = (\<lambda>k. if P k then [] else ks_zset ks k), ks_hash = (\<lambda>k. if P k then None else ks_hash ks k),
     ks_flag = (\<lambda>k. \<not> P k \<and> ks_flag ks k), ks_counter = (\<lambda>k. if P k then 0 else ks_counter ks k),
     ks_cursors = (\<lambda>k. if P k then [] else ks_cursors ks k), ks_list = (\<lambda>k. if P k then [] else ks_list ks k),
     ks_expiry = (\<lambda>k. if P k then None else ks_expiry ks k)\<rparr>"

text \<open>What is left at a time: a key is gone once its expiry is reached.\<close>

definition expired_key :: "int \<Rightarrow> keyspace \<Rightarrow> string \<Rightarrow> bool" where
  "expired_key now ks k = (case ks_expiry ks k of None \<Rightarrow> False | Some e \<Rightarrow> e \<le> now)"

definition at_time :: "int \<Rightarrow> keyspace \<Rightarrow> keyspace" where
  "at_time now ks = drop_keys (expired_key now ks) ks"

definition cmd_del :: "string \<Rightarrow> keyspace \<Rightarrow> keyspace" where
  "cmd_del k ks = drop_keys (\<lambda>j. j = k) ks"

definition key_exists :: "keyspace \<Rightarrow> string \<Rightarrow> bool" where
  "key_exists ks k \<longleftrightarrow> ks_zset ks k \<noteq> [] \<or> ks_hash ks k \<noteq> None \<or> ks_flag ks k \<or> ks_counter ks k \<noteq> 0 \<or>
     ks_cursors ks k \<noteq> [] \<or> ks_list ks k \<noteq> []"

text \<open>\<open>PEXPIREAT\<close> deletes a key whose time has passed and does nothing without a key; \<open>PERSIST\<close>.\<close>

definition cmd_pexpireat :: "int \<Rightarrow> string \<Rightarrow> int \<Rightarrow> keyspace \<Rightarrow> keyspace" where
  "cmd_pexpireat now k e ks =
     (if e \<le> now then cmd_del k ks
      else if key_exists ks k then ks\<lparr>ks_expiry := (ks_expiry ks)(k \<mapsto> e)\<rparr> else ks)"

definition cmd_persist :: "string \<Rightarrow> keyspace \<Rightarrow> keyspace" where
  "cmd_persist k ks = ks\<lparr>ks_expiry := (ks_expiry ks)(k := None)\<rparr>"

text \<open>\<open>ZREM\<close>: a set without members does not exist, nor does its expiry.\<close>

definition cmd_zrem :: "string \<Rightarrow> string \<Rightarrow> keyspace \<Rightarrow> keyspace" where
  "cmd_zrem k m ks =
     (let zs = filter (\<lambda>(r, s). r \<noteq> m) (ks_zset ks k) in
      if zs = [] then ks\<lparr>ks_zset := (ks_zset ks)(k := []), ks_expiry := (if ks_zset ks k = [] then ks_expiry ks else (ks_expiry ks)(k := None))\<rparr>
      else ks\<lparr>ks_zset := (ks_zset ks)(k := zs)\<rparr>)"

text \<open>\<open>ZADD\<close>; the scores the code uses are distinct.\<close>

definition cmd_zadd :: "string \<Rightarrow> nat \<Rightarrow> string \<Rightarrow> keyspace \<Rightarrow> keyspace" where
  "cmd_zadd k score m ks =
     (let zs = filter (\<lambda>(r, s). r \<noteq> m) (ks_zset ks k) in
      ks\<lparr>ks_zset := (ks_zset ks)(k := takeWhile (\<lambda>(r, s). s \<le> score) zs @ [(m, score)] @ dropWhile (\<lambda>(r, s). s \<le> score) zs)\<rparr>)"

section \<open>Scopes and keys\<close>

record RecipientAcceptanceScope =
  sc_recipientUIN :: uin
  sc_seenScope :: string

datatype queue_error = ErrInvalidAcceptance | ErrAcceptanceExpired | ErrAcceptanceQueueFull | ErrInvalidPollCursor | ErrQueueRedis | ErrQueueCtx

definition recipientAcceptanceMaxActive :: nat where "recipientAcceptanceMaxActive = 1000"

definition DirectRecipientScope :: "uin \<Rightarrow> queue_error + RecipientAcceptanceScope" where
  "DirectRecipientScope u =
     (if u \<le> 0 then Inl ErrInvalidAcceptance else Inr \<lparr>sc_recipientUIN = u, sc_seenScope = ''direct''\<rparr>)"

definition GroupMemberScope :: "(bytes \<Rightarrow> bytes) \<Rightarrow> string \<Rightarrow> uin \<Rightarrow> queue_error + RecipientAcceptanceScope" where
  "GroupMemberScope sha groupID u =
     (if u \<le> 0 \<or> TrimSpace groupID = [] then Inl ErrInvalidAcceptance
      else Inr \<lparr>sc_recipientUIN = u, sc_seenScope = ''group:'' @ hex_encode (take 16 (sha groupID))\<rparr>)"

definition acceptancePrefix :: "RecipientAcceptanceScope \<Rightarrow> string" where
  "acceptancePrefix scope = ''poll:{'' @ itoa (sc_recipientUIN scope) @ ''}''"

definition AcceptanceQueueKey :: "RecipientAcceptanceScope \<Rightarrow> string" where
  "AcceptanceQueueKey scope = acceptancePrefix scope @ '':index''"

definition acceptanceSequenceKey :: "RecipientAcceptanceScope \<Rightarrow> string" where
  "acceptanceSequenceKey scope = acceptancePrefix scope @ '':sequence''"

definition acceptanceDigest :: "(bytes \<Rightarrow> bytes) \<Rightarrow> RecipientAcceptanceScope \<Rightarrow> string \<Rightarrow> string" where
  "acceptanceDigest sha scope messageID = hex_encode (sha (sc_seenScope scope @ [CHR 0x00] @ messageID))"

definition acceptanceSeenKey :: "(bytes \<Rightarrow> bytes) \<Rightarrow> RecipientAcceptanceScope \<Rightarrow> string \<Rightarrow> string" where
  "acceptanceSeenKey sha scope messageID = acceptancePrefix scope @ '':seen:'' @ acceptanceDigest sha scope messageID"

definition acceptanceRecordKey :: "(bytes \<Rightarrow> bytes) \<Rightarrow> RecipientAcceptanceScope \<Rightarrow> string \<Rightarrow> string" where
  "acceptanceRecordKey sha scope messageID = acceptancePrefix scope @ '':record:'' @ acceptanceDigest sha scope messageID"

section \<open>Scripts\<close>

text \<open>The lifetime of the index (\<open>k1\<close>) and of the counter (\<open>k4\<close>) follows the records.\<close>

definition retention :: "int \<Rightarrow> string \<Rightarrow> string \<Rightarrow> keyspace \<Rightarrow> keyspace" where
  "retention now k1 k4 ks =
     (let live = map fst (ks_zset ks k1);
          expiry = (\<lambda>ref. Option.bind (ks_hash ks ref) qr_expires)
      in if list_ex (\<lambda>ref. expiry ref = None) live then cmd_persist k4 (cmd_persist k1 ks)
         else if live = [] then cmd_del k4 (cmd_del k1 ks)
         else let maxExpiry = foldl (\<lambda>m ref. max m (the (expiry ref))) 0 live
              in cmd_pexpireat now k4 maxExpiry (cmd_pexpireat now k1 maxExpiry ks))"

text \<open>The loop that drops references to records that are gone.\<close>

definition prune :: "string \<Rightarrow> keyspace \<Rightarrow> keyspace" where
  "prune k1 ks = foldl (\<lambda>s ref. if ks_hash s ref = None then cmd_zrem k1 ref s else s) ks (map fst (ks_zset ks k1))"

definition acceptRecipientScript ::
  "int \<Rightarrow> string \<Rightarrow> string \<Rightarrow> string \<Rightarrow> string \<Rightarrow> string \<Rightarrow> bytes \<Rightarrow> string \<Rightarrow> int option \<Rightarrow> nat \<Rightarrow> keyspace \<Rightarrow> int \<times> keyspace" where
  "acceptRecipientScript now k1 k2 k3 k4 messageID envelope scope expires maxActive ks0 =
     (let ks = at_time now ks0 in
      if ks_flag ks k2 then (0, ks)
      else
        let ks1 = prune k1 ks in
        if length (ks_zset ks1 k1) \<ge> maxActive then (-1, ks1)
        else
          let sq = ks_counter ks1 k4 + 1;
              ks2 = ks1\<lparr>ks_counter := (ks_counter ks1)(k4 := sq),
                ks_hash := (ks_hash ks1)(k3 \<mapsto> \<lparr>qr_message_id = messageID, qr_envelope = envelope, qr_scope = scope, qr_seq = sq, qr_expires = expires\<rparr>),
                ks_flag := (ks_flag ks1)(k2 := True)\<rparr>;
              ks3 = (case expires of None \<Rightarrow> ks2 | Some e \<Rightarrow> cmd_pexpireat now k2 e (cmd_pexpireat now k3 e ks2));
              ks4 = cmd_zadd k1 sq k3 ks3
          in (1, retention now k1 k4 ks4))"

record AcceptedEnvelope =
  ae_StreamID :: string
  ae_MessageID :: string
  ae_Envelope :: bytes
  ae_Scope :: string

definition accepted_of :: "queue_record \<Rightarrow> AcceptedEnvelope" where
  "accepted_of r = \<lparr>ae_StreamID = decimal (qr_seq r), ae_MessageID = qr_message_id r, ae_Envelope = qr_envelope r, ae_Scope = qr_scope r\<rparr>"

text \<open>The loop of the two reading scripts over the references after the cursor; \<open>limit\<close> 0: no limit.\<close>

fun read_refs :: "string \<Rightarrow> nat \<Rightarrow> bool \<Rightarrow> string list \<Rightarrow> queue_record list \<Rightarrow> keyspace \<Rightarrow> queue_record list \<times> keyspace" where
  "read_refs k1 limit drain [] out ks = (out, ks)"
| "read_refs k1 limit drain (ref # refs) out ks =
     (case ks_hash ks ref of
        None \<Rightarrow> read_refs k1 limit drain refs out (cmd_zrem k1 ref ks)
      | Some r \<Rightarrow>
          if limit = 0 \<or> length out < limit then
            read_refs k1 limit drain refs (out @ [r]) (if drain then cmd_del ref (cmd_zrem k1 ref ks) else ks)
          else read_refs k1 limit drain refs out ks)"

text \<open>\<open>ZRANGEBYSCORE (after +inf\<close>; None: from the beginning.\<close>

definition refs_after :: "nat option \<Rightarrow> (string \<times> nat) list \<Rightarrow> string list" where
  "refs_after after zs = map fst (filter (\<lambda>(r, s). case after of None \<Rightarrow> True | Some a \<Rightarrow> a < s) zs)"

definition readAcceptedScript :: "int \<Rightarrow> string \<Rightarrow> string \<Rightarrow> nat option \<Rightarrow> nat \<Rightarrow> keyspace \<Rightarrow> queue_record list \<times> keyspace" where
  "readAcceptedScript now k1 k2 after limit ks0 =
     (let ks = at_time now ks0; (out, ks1) = read_refs k1 limit False (refs_after after (ks_zset ks k1)) [] ks
      in (out, if ks_zset ks1 k1 = [] then cmd_del k2 (cmd_del k1 ks1) else ks1))"

definition drainAcceptedScript :: "int \<Rightarrow> string \<Rightarrow> string \<Rightarrow> nat option \<Rightarrow> nat \<Rightarrow> keyspace \<Rightarrow> queue_record list \<times> keyspace" where
  "drainAcceptedScript now k1 k2 after limit ks0 =
     (let ks = at_time now ks0; (out, ks1) = read_refs k1 limit True (refs_after after (ks_zset ks k1)) [] ks
      in (out, retention now k1 k2 ks1))"

fun ack_refs :: "string \<Rightarrow> string list \<Rightarrow> string list \<Rightarrow> nat \<Rightarrow> keyspace \<Rightarrow> nat \<times> keyspace" where
  "ack_refs k1 wanted [] removed ks = (removed, ks)"
| "ack_refs k1 wanted (ref # refs) removed ks =
     (case ks_hash ks ref of
        None \<Rightarrow> ack_refs k1 wanted refs removed (cmd_zrem k1 ref ks)
      | Some r \<Rightarrow>
          if qr_message_id r \<in> set wanted then ack_refs k1 wanted refs (removed + 1) (cmd_del ref (cmd_zrem k1 ref ks))
          else ack_refs k1 wanted refs removed ks)"

definition ackAcceptedScript :: "int \<Rightarrow> string \<Rightarrow> string \<Rightarrow> string list \<Rightarrow> keyspace \<Rightarrow> nat \<times> keyspace" where
  "ackAcceptedScript now k1 k2 wanted ks0 =
     (let ks = at_time now ks0; (removed, ks1) = ack_refs k1 wanted (map fst (ks_zset ks k1)) 0 ks
      in (removed, retention now k1 k2 ks1))"

section \<open>The store\<close>

record RecipientAcceptance =
  ra_Scope :: RecipientAcceptanceScope
  ra_MessageID :: string
  ra_Envelope :: bytes
  ra_ExpiresAt :: "gotime option"

text \<open>\<open>clock\<close>: the gateway's time, \<open>now\<close>: that of Redis; \<open>out\<close>: how the script call ends.\<close>

definition Accept ::
  "(bytes \<Rightarrow> bytes) \<Rightarrow> outcome \<Rightarrow> gotime \<Rightarrow> int \<Rightarrow> RecipientAcceptance \<Rightarrow> keyspace \<Rightarrow> (queue_error + bool) \<times> keyspace" where
  "Accept sha out clock now a ks =
     (let sc = ra_Scope a in
      if sc_recipientUIN sc \<le> 0 \<or> sc_seenScope sc = [] \<or> TrimSpace (ra_MessageID a) = [] \<or> ra_Envelope a = [] then
        (Inl ErrInvalidAcceptance, ks)
      else if (case ra_ExpiresAt a of None \<Rightarrow> False | Some e \<Rightarrow> e \<le> clock) then (Inl ErrAcceptanceExpired, ks)
      else
        let (result, ks1) = acceptRecipientScript now (AcceptanceQueueKey sc) (acceptanceSeenKey sha sc (ra_MessageID a))
              (acceptanceRecordKey sha sc (ra_MessageID a)) (acceptanceSequenceKey sc) (ra_MessageID a) (ra_Envelope a)
              (sc_seenScope sc) (map_option unix_milli (ra_ExpiresAt a)) recipientAcceptanceMaxActive ks
        in if failed out then (Inl ErrQueueRedis, if took_effect out then ks1 else ks)
           else if result = -1 then (Inl ErrAcceptanceQueueFull, ks1)
           else (Inr (result = 1), ks1))"

definition readOrDrain ::
  "outcome \<Rightarrow> int \<Rightarrow> RecipientAcceptanceScope \<Rightarrow> string \<Rightarrow> int \<Rightarrow> bool \<Rightarrow> keyspace \<Rightarrow> (queue_error + AcceptedEnvelope list) \<times> keyspace" where
  "readOrDrain out now scope after count drain ks =
     (if sc_recipientUIN scope \<le> 0 \<or> sc_seenScope scope = [] \<or> count < 0 then (Inl ErrInvalidAcceptance, ks)
      else if after \<noteq> [] \<and> ParseUint 64 after = None then (Inl ErrInvalidAcceptance, ks)
      else
        let cursor = (if after = [] then None else ParseUint 64 after);
            script = (if drain then drainAcceptedScript else readAcceptedScript);
            (values, ks1) = script now (AcceptanceQueueKey scope) (acceptanceSequenceKey scope) cursor (nat count) ks
        in if failed out then (Inl ErrQueueRedis, if took_effect out then ks1 else ks)
           else (Inr (map accepted_of values), ks1))"

definition ReadAcceptedAfter ::
  "outcome \<Rightarrow> int \<Rightarrow> RecipientAcceptanceScope \<Rightarrow> string \<Rightarrow> int \<Rightarrow> keyspace \<Rightarrow> (queue_error + AcceptedEnvelope list) \<times> keyspace" where
  "ReadAcceptedAfter out now scope after count ks = readOrDrain out now scope after count False ks"

definition DrainAccepted ::
  "outcome \<Rightarrow> int \<Rightarrow> RecipientAcceptanceScope \<Rightarrow> string \<Rightarrow> int \<Rightarrow> keyspace \<Rightarrow> (queue_error + AcceptedEnvelope list) \<times> keyspace" where
  "DrainAccepted out now scope after count ks = readOrDrain out now scope after count True ks"

definition ReadAccepted ::
  "outcome \<Rightarrow> int \<Rightarrow> RecipientAcceptanceScope \<Rightarrow> string \<Rightarrow> int \<Rightarrow> keyspace \<Rightarrow> (queue_error + AcceptedEnvelope list) \<times> keyspace" where
  "ReadAccepted out now scope start count ks = ReadAcceptedAfter out now scope (if start = ''-'' then [] else start) count ks"

definition AckRecipient :: "outcome \<Rightarrow> int \<Rightarrow> uin \<Rightarrow> string list \<Rightarrow> keyspace \<Rightarrow> (queue_error + nat) \<times> keyspace" where
  "AckRecipient out now u messageIDs ks =
     (case DirectRecipientScope u of
        Inl e \<Rightarrow> (Inl e, ks)
      | Inr scope \<Rightarrow>
          if messageIDs = [] then (Inr 0, ks)
          else if list_ex (\<lambda>i. TrimSpace i = []) messageIDs then (Inl ErrInvalidAcceptance, ks)
          else
            let (removed, ks1) = ackAcceptedScript now (AcceptanceQueueKey scope) (acceptanceSequenceKey scope) messageIDs ks
            in if failed out then (Inl ErrQueueRedis, if took_effect out then ks1 else ks) else (Inr removed, ks1))"

section \<open>Long poll\<close>

definition DefaultPollBatch :: int where "DefaultPollBatch = 20"
definition MaxPollBatch :: int where "MaxPollBatch = 50"
definition DefaultPollWait :: duration where "DefaultPollWait = 20 * Second"
definition MaxPollWait :: duration where "MaxPollWait = 25 * Second"
definition pollStreamTTL :: duration where "pollStreamTTL = 7 * 24 * Hour"
definition MaxOutstandingPollCursors :: nat where "MaxOutstandingPollCursors = 4"

record PollRequest =
  pr_UIN :: uin
  pr_Cursor :: string
  pr_Limit :: int
  pr_Wait :: duration

record PollResult =
  ps_Cursor :: string
  ps_Envelopes :: "bytes list"

record pollCursorState =
  pc_After :: string
  pc_MessageIDs :: "string list"

text \<open>\<open>strconv.Atoi\<close> is the parameter \<open>atoi\<close>.\<close>

definition boundedInt :: "(string \<Rightarrow> int option) \<Rightarrow> string \<Rightarrow> int \<Rightarrow> int \<Rightarrow> int" where
  "boundedInt atoi raw fallback mx =
     (case atoi raw of None \<Rightarrow> fallback | Some n \<Rightarrow> if n \<le> 0 then fallback else if n > mx then mx else n)"

definition pollCursorHashKey :: "uin \<Rightarrow> string" where "pollCursorHashKey u = ''poll:cursors:'' @ itoa u"
definition pollCursorOrderKey :: "uin \<Rightarrow> string" where "pollCursorOrderKey u = ''poll:cursor-order:'' @ itoa u"

text \<open>The loop that drops the oldest cursors.\<close>

fun evict :: "nat \<Rightarrow> string list \<Rightarrow> (string \<times> string) list \<Rightarrow> string list \<times> (string \<times> string) list" where
  "evict mx [] h = ([], h)"
| "evict mx (old # ts) h = (if length (old # ts) > mx then evict mx ts (AList.delete old h) else (old # ts, h))"

definition put_cursor :: "int \<Rightarrow> string \<Rightarrow> string \<Rightarrow> string \<Rightarrow> string \<Rightarrow> keyspace \<Rightarrow> keyspace" where
  "put_cursor now k1 k2 token v ks =
     (let (ts, h) = evict MaxOutstandingPollCursors (ks_list ks k2 @ [token]) (AList.update token v (ks_cursors ks k1));
          e = now + pollStreamTTL div Millisecond;
          ks1 = ks\<lparr>ks_cursors := (ks_cursors ks)(k1 := h), ks_list := (ks_list ks)(k2 := ts)\<rparr>
      in cmd_pexpireat now k2 e (cmd_pexpireat now k1 e ks1))"

definition issueCursorScript :: "int \<Rightarrow> string \<Rightarrow> string \<Rightarrow> string \<Rightarrow> string \<Rightarrow> keyspace \<Rightarrow> keyspace" where
  "issueCursorScript now k1 k2 token v ks0 = put_cursor now k1 k2 token v (at_time now ks0)"

definition drop_cursor :: "string \<Rightarrow> string \<Rightarrow> string \<Rightarrow> keyspace \<Rightarrow> keyspace" where
  "drop_cursor k1 k2 token ks =
     ks\<lparr>ks_cursors := (ks_cursors ks)(k1 := AList.delete token (ks_cursors ks k1)),
        ks_list := (ks_list ks)(k2 := remove1 token (ks_list ks k2))\<rparr>"

definition advanceCursorScript :: "int \<Rightarrow> string \<Rightarrow> string \<Rightarrow> string \<Rightarrow> string \<Rightarrow> string \<Rightarrow> keyspace \<Rightarrow> nat \<times> keyspace" where
  "advanceCursorScript now k1 k2 oldToken newToken v ks0 =
     (let ks = at_time now ks0 in
      case map_of (ks_cursors ks k1) oldToken of
        None \<Rightarrow> (0, ks)
      | Some _ \<Rightarrow> (1, put_cursor now k1 k2 newToken v (drop_cursor k1 k2 oldToken ks)))"

definition consumeCursor :: "outcome \<Rightarrow> int \<Rightarrow> uin \<Rightarrow> string \<Rightarrow> keyspace \<Rightarrow> (queue_error + string) \<times> keyspace" where
  "consumeCursor out now u token ks0 =
     (let ks = at_time now ks0; k1 = pollCursorHashKey u; k2 = pollCursorOrderKey u in
      case map_of (ks_cursors ks k1) token of
        None \<Rightarrow> (if failed out then (Inl ErrQueueRedis, ks0) else (Inl ErrInvalidPollCursor, ks))
      | Some v \<Rightarrow>
          let ks1 = drop_cursor k1 k2 token ks in
          if failed out then (Inl ErrQueueRedis, if took_effect out then ks1 else ks0) else (Inr v, ks1))"

definition issueCursor :: "outcome \<Rightarrow> int \<Rightarrow> uin \<Rightarrow> string \<Rightarrow> string \<Rightarrow> keyspace \<Rightarrow> (queue_error + string) \<times> keyspace" where
  "issueCursor out now u token v ks =
     (let ks1 = issueCursorScript now (pollCursorHashKey u) (pollCursorOrderKey u) token v ks in
      (if failed out then Inl ErrQueueRedis else Inr token, if took_effect out then ks1 else ks))"

definition advanceCursor :: "outcome \<Rightarrow> int \<Rightarrow> uin \<Rightarrow> string \<Rightarrow> string \<Rightarrow> string \<Rightarrow> keyspace \<Rightarrow> (queue_error + string) \<times> keyspace" where
  "advanceCursor out now u oldToken newToken v ks =
     (let (n, ks1) = advanceCursorScript now (pollCursorHashKey u) (pollCursorOrderKey u) oldToken newToken v ks in
      if failed out then (Inl ErrQueueRedis, if took_effect out then ks1 else ks)
      else if n \<noteq> 1 then (Inl ErrInvalidPollCursor, ks1) else (Inr newToken, ks1))"

text \<open>One attempt of the waiting loop: what others did before it, the time, how the call ends, and what the select picks
  after an empty read.\<close>

datatype tick = Again | DeadlineHit | CtxDone

record attempt =
  tr_env :: "keyspace \<Rightarrow> keyspace"
  tr_now :: int
  tr_out :: outcome
  tr_tick :: tick

text \<open>The deadline ends the loop, so the list of attempts is finite; after the last one the deadline has passed.\<close>

fun poll_loop :: "RecipientAcceptanceScope \<Rightarrow> string \<Rightarrow> int \<Rightarrow> bool \<Rightarrow> attempt list \<Rightarrow> keyspace \<Rightarrow>
    (queue_error + AcceptedEnvelope list) \<times> keyspace" where
  "poll_loop scope after limit nowait [] ks = (Inr [], ks)"
| "poll_loop scope after limit nowait (t # ts) ks =
     (case ReadAcceptedAfter (tr_out t) (tr_now t) scope after limit (tr_env t ks) of
        (Inl e, ks1) \<Rightarrow> (Inl e, ks1)
      | (Inr items, ks1) \<Rightarrow>
          if items \<noteq> [] \<or> nowait then (Inr items, ks1)
          else case tr_tick t of
            CtxDone \<Rightarrow> (Inl ErrQueueCtx, ks1)
          | DeadlineHit \<Rightarrow> (Inr [], ks1)
          | Again \<Rightarrow> poll_loop scope after limit nowait ts ks1)"

text \<open>The entries returned and those skipped; \<open>js\<close> decodes JSON text.\<close>

fun collect :: "decoder \<Rightarrow> AcceptedEnvelope list \<Rightarrow> pollCursorState \<Rightarrow> bytes list \<Rightarrow> string list \<Rightarrow> bytes list \<times> string list \<times> pollCursorState" where
  "collect js [] st envelopes ids = (envelopes, ids, st)"
| "collect js (item # items) st envelopes ids =
     (let st1 = st\<lparr>pc_After := ae_StreamID item\<rparr> in
      if js (ae_Envelope item) = None \<or> IsReservedServerControlEnvelope js (ae_Envelope item) then collect js items st1 envelopes ids
      else collect js items st1 (envelopes @ [ae_Envelope item]) (ids @ [ae_MessageID item]))"

record poll_io =
  pq_get :: bool
  pq_now :: int
  pq_ack :: outcome
  pq_attempts :: "attempt list"
  pq_token :: string
  pq_put :: outcome

text \<open>\<open>st_in\<close>, \<open>st_out\<close>: the JSON codec of the cursor state.\<close>

definition Poll ::
  "decoder \<Rightarrow> (string \<Rightarrow> pollCursorState option) \<Rightarrow> (pollCursorState \<Rightarrow> string) \<Rightarrow> poll_io \<Rightarrow> PollRequest \<Rightarrow> keyspace \<Rightarrow>
    (queue_error + PollResult) \<times> keyspace" where
  "Poll js st_in st_out io req ks =
     (let u = pr_UIN req;
          start =
            (if pr_Cursor req = [] then (Inr \<lparr>pc_After = [], pc_MessageIDs = []\<rparr>, ks)
             else if \<not> pq_get io then (Inl ErrQueueRedis, ks)
             else case map_of (ks_cursors (at_time (pq_now io) ks) (pollCursorHashKey u)) (pr_Cursor req) of
               None \<Rightarrow> (Inl ErrInvalidPollCursor, ks)
             | Some v \<Rightarrow>
                 (case st_in v of
                    None \<Rightarrow> (Inl ErrInvalidPollCursor, ks)
                  | Some st \<Rightarrow>
                      (case AckRecipient (pq_ack io) (pq_now io) u (pc_MessageIDs st) ks of
                         (Inl e, ks1) \<Rightarrow> (Inl e, ks1)
                       | (Inr _, ks1) \<Rightarrow> (Inr st, ks1))))
      in case start of
           (Inl e, ks1) \<Rightarrow> (Inl e, ks1)
         | (Inr st, ks1) \<Rightarrow>
             (case DirectRecipientScope u of
                Inl e \<Rightarrow> (Inl e, ks1)
              | Inr scope \<Rightarrow>
                  (case poll_loop scope (pc_After st) (pr_Limit req) (pr_Wait req \<le> 0) (pq_attempts io) ks1 of
                     (Inl e, ks2) \<Rightarrow> (Inl e, ks2)
                   | (Inr items, ks2) \<Rightarrow>
                       let (envelopes, ids, st1) = collect js items st [] [];
                           v = st_out (st1\<lparr>pc_MessageIDs := ids\<rparr>)
                       in case (if pr_Cursor req = [] then issueCursor (pq_put io) (pq_now io) u (pq_token io) v ks2
                                else advanceCursor (pq_put io) (pq_now io) u (pr_Cursor req) (pq_token io) v ks2) of
                            (Inl e, ks3) \<Rightarrow> (Inl e, ks3)
                          | (Inr token, ks3) \<Rightarrow> (Inr \<lparr>ps_Cursor = token, ps_Envelopes = envelopes\<rparr>, ks3))))"

datatype poll_http = PollStatus nat | PollBody PollResult

text \<open>\<open>limit\<close>, \<open>wait_ms\<close>, \<open>cursor\<close>: the query parameters.\<close>

definition pollHandler ::
  "(PollRequest \<Rightarrow> keyspace \<Rightarrow> (queue_error + PollResult) \<times> keyspace) \<Rightarrow> (string \<Rightarrow> int option) \<Rightarrow> bool \<Rightarrow> uin option \<Rightarrow>
    string \<Rightarrow> string \<Rightarrow> string \<Rightarrow> keyspace \<Rightarrow> poll_http \<times> keyspace" where
  "pollHandler poll atoi isGet actor limit wait_ms cursor ks =
     (if \<not> isGet then (PollStatus 405, ks)
      else case actor of
        None \<Rightarrow> (PollStatus 401, ks)
      | Some u \<Rightarrow>
          let waitMS = boundedInt atoi wait_ms (DefaultPollWait div Millisecond) (MaxPollWait div Millisecond) in
          (case poll \<lparr>pr_UIN = u, pr_Cursor = cursor, pr_Limit = boundedInt atoi limit DefaultPollBatch MaxPollBatch, pr_Wait = waitMS * Millisecond\<rparr> ks of
             (Inl ErrInvalidPollCursor, ks1) \<Rightarrow> (PollStatus 400, ks1)
           | (Inl _, ks1) \<Rightarrow> (PollStatus 503, ks1)
           | (Inr result, ks1) \<Rightarrow> (PollBody result, ks1)))"

text \<open>\<open>expiry_of\<close>: the time an envelope ends; the product of a duration wraps at 64 bits.\<close>

definition expiry_of :: "int \<Rightarrow> int \<Rightarrow> gotime option" where
  "expiry_of ts secs = (if secs > 0 then Some (of_unix_milli ts + wrap64 (secs * Second)) else None)"

text \<open>\<open>wire\<close>: the id, time and payload of an envelope; \<open>lifetime\<close>: the field \<open>expires_in_seconds\<close> of a payload (0 when absent),
  None when it does not unmarshal.\<close>

definition Enqueue ::
  "decoder \<Rightarrow> (bytes \<Rightarrow> (string \<times> int \<times> bytes) option) \<Rightarrow> (bytes \<Rightarrow> int option) \<Rightarrow> (bytes \<Rightarrow> bytes) \<Rightarrow> outcome \<Rightarrow> gotime \<Rightarrow> int \<Rightarrow>
    uin \<Rightarrow> bytes \<Rightarrow> keyspace \<Rightarrow> bool \<times> keyspace" where
  "Enqueue js wire lifetime sha out clock now u envelope ks =
     (if u \<le> 0 \<or> envelope = [] \<or> js envelope = None \<or> IsReservedServerControlEnvelope js envelope then (False, ks)
      else case wire envelope of
        None \<Rightarrow> (False, ks)
      | Some (i, ts, payload) \<Rightarrow>
          if i = [] then (False, ks)
          else case DirectRecipientScope u of
            Inl e \<Rightarrow> (False, ks)
          | Inr scope \<Rightarrow>
              (case Accept sha out clock now \<lparr>ra_Scope = scope, ra_MessageID = i, ra_Envelope = envelope,
                   ra_ExpiresAt = (case lifetime payload of None \<Rightarrow> None | Some secs \<Rightarrow> expiry_of ts secs)\<rparr> ks of
                 (Inl e, ks1) \<Rightarrow> (False, ks1)
               | (Inr _, ks1) \<Rightarrow> (True, ks1)))"

end
