(* ===== verification/QueueInvariant.thy ===== *)
theory QueueInvariant
  imports RecipientQueue
begin

text \<open>
  The inbox a recipient has in the key space of Redis: when it is well formed, the messages it holds, and that the scripts of
  \<^verbatim>\<open>recipient_acceptance.go\<close> keep it so; what a script leaves alone.
\<close>

section \<open>Keys\<close>

definition idx :: "uin \<Rightarrow> string" where "idx u = ''poll:{'' @ itoa u @ ''}:index''"
definition sqk :: "uin \<Rightarrow> string" where "sqk u = ''poll:{'' @ itoa u @ ''}:sequence''"
definition seenk :: "uin \<Rightarrow> string \<Rightarrow> string" where "seenk u d = ''poll:{'' @ itoa u @ ''}:seen:'' @ d"
definition reck :: "uin \<Rightarrow> string \<Rightarrow> string" where "reck u d = ''poll:{'' @ itoa u @ ''}:record:'' @ d"

lemma brace_notin_itoa: "CHR ''}'' \<notin> set (itoa u)"
proof -
  have "CHR ''}'' \<noteq> digit n" for n
  proof
    assume "CHR ''}'' = digit n"
    then have "(of_char (CHR ''}'') :: nat) = of_char (digit n)" by simp
    then show False by simp
  qed
  then show ?thesis using decimal_digits by (auto simp: itoa_def)
qed

lemma append_sep_inj: "c \<notin> set a \<Longrightarrow> c \<notin> set b \<Longrightarrow> a @ c # x = b @ c # y \<longleftrightarrow> a = b \<and> x = y"
proof (induction a arbitrary: b)
  case Nil
  then show ?case by (cases b) auto
next
  case (Cons k a)
  then show ?case by (cases b) auto
qed

lemma brace_inj [simp]: "itoa u @ CHR ''}'' # x = itoa v @ CHR ''}'' # y \<longleftrightarrow> u = v \<and> x = y"
  using append_sep_inj [OF brace_notin_itoa brace_notin_itoa] itoa_inj by auto

lemma queue_keys [simp]:
  "idx u = idx v \<longleftrightarrow> u = v" "sqk u = sqk v \<longleftrightarrow> u = v" "seenk u d = seenk v e \<longleftrightarrow> u = v \<and> d = e" "reck u d = reck v e \<longleftrightarrow> u = v \<and> d = e"
  "idx u \<noteq> sqk v" "sqk v \<noteq> idx u" "idx u \<noteq> seenk v d" "seenk v d \<noteq> idx u" "idx u \<noteq> reck v d" "reck v d \<noteq> idx u"
  "sqk u \<noteq> seenk v d" "seenk v d \<noteq> sqk u" "sqk u \<noteq> reck v d" "reck v d \<noteq> sqk u" "seenk u d \<noteq> reck v e" "reck v e \<noteq> seenk u d"
  by (auto simp: idx_def sqk_def seenk_def reck_def)

lemma scope_keys:
  "AcceptanceQueueKey sc = idx (sc_recipientUIN sc)" "acceptanceSequenceKey sc = sqk (sc_recipientUIN sc)"
  "acceptanceSeenKey sha sc i = seenk (sc_recipientUIN sc) (acceptanceDigest sha sc i)"
  "acceptanceRecordKey sha sc i = reck (sc_recipientUIN sc) (acceptanceDigest sha sc i)"
  by (simp_all add: AcceptanceQueueKey_def acceptanceSequenceKey_def acceptanceSeenKey_def acceptanceRecordKey_def acceptancePrefix_def
      idx_def sqk_def seenk_def reck_def)


section \<open>Commands\<close>

lemmas command_defs = drop_keys_def cmd_del_def cmd_persist_def cmd_zadd_def Let_def

lemma drop_keys_sel [simp]:
  "ks_zset (drop_keys P ks) k = (if P k then [] else ks_zset ks k)" "ks_hash (drop_keys P ks) k = (if P k then None else ks_hash ks k)"
  "ks_flag (drop_keys P ks) k = (\<not> P k \<and> ks_flag ks k)" "ks_counter (drop_keys P ks) k = (if P k then 0 else ks_counter ks k)"
  "ks_expiry (drop_keys P ks) k = (if P k then None else ks_expiry ks k)" "ks_cursors (drop_keys P ks) k = (if P k then [] else ks_cursors ks k)"
  "ks_list (drop_keys P ks) k = (if P k then [] else ks_list ks k)"
  by (simp_all add: drop_keys_def)

lemma cmd_zrem_sel [simp]:
  "ks_zset (cmd_zrem k m ks) j = (if j = k then filter (\<lambda>(r, s). r \<noteq> m) (ks_zset ks k) else ks_zset ks j)"
  "ks_hash (cmd_zrem k m ks) = ks_hash ks" "ks_flag (cmd_zrem k m ks) = ks_flag ks" "ks_counter (cmd_zrem k m ks) = ks_counter ks"
  "ks_cursors (cmd_zrem k m ks) = ks_cursors ks" "ks_list (cmd_zrem k m ks) = ks_list ks"
  "ks_expiry (cmd_zrem k m ks) j = (if j = k \<and> ks_zset ks k \<noteq> [] \<and> ks_zset (cmd_zrem k m ks) k = [] then None else ks_expiry ks j)"
  by (auto simp: cmd_zrem_def Let_def)

lemma cmd_persist_sel [simp]:
  "ks_zset (cmd_persist k ks) = ks_zset ks" "ks_hash (cmd_persist k ks) = ks_hash ks" "ks_flag (cmd_persist k ks) = ks_flag ks"
  "ks_counter (cmd_persist k ks) = ks_counter ks" "ks_expiry (cmd_persist k ks) = (ks_expiry ks)(k := None)"
  by (simp_all add: cmd_persist_def)

lemma cmd_del_sel [simp]:
  "ks_zset (cmd_del k ks) j = (if j = k then [] else ks_zset ks j)" "ks_hash (cmd_del k ks) j = (if j = k then None else ks_hash ks j)"
  "ks_flag (cmd_del k ks) j = (j \<noteq> k \<and> ks_flag ks j)" "ks_counter (cmd_del k ks) j = (if j = k then 0 else ks_counter ks j)"
  "ks_expiry (cmd_del k ks) j = (if j = k then None else ks_expiry ks j)"
  by (simp_all add: cmd_del_def)

lemma cmd_pexpireat_future [simp]:
  "now < e \<Longrightarrow> cmd_pexpireat now k e ks = (if key_exists ks k then ks\<lparr>ks_expiry := (ks_expiry ks)(k \<mapsto> e)\<rparr> else ks)"
  "e \<le> now \<Longrightarrow> cmd_pexpireat now k e ks = cmd_del k ks"
  by (simp_all add: cmd_pexpireat_def)

lemma key_exists_upd [simp]:
  "key_exists (ks\<lparr>ks_expiry := x\<rparr>) k = key_exists ks k"
  by (simp add: key_exists_def)

text \<open>Dropping dead references.\<close>

lemma prune_sel:
  fixes ks :: keyspace
  shows "ks_hash (prune k ks) = ks_hash ks" "ks_flag (prune k ks) = ks_flag ks" "ks_counter (prune k ks) = ks_counter ks"
    "ks_zset (prune k ks) j = (if j = k then filter (\<lambda>(r, s). ks_hash ks r \<noteq> None) (ks_zset ks k) else ks_zset ks j)"
    "ks_expiry (prune k ks) j = (if j = k \<and> ks_zset ks k \<noteq> [] \<and> ks_zset (prune k ks) k = [] then None else ks_expiry ks j)"
proof -
  let ?f = "\<lambda>s ref. if ks_hash s ref = None then cmd_zrem k ref s else s"
  have gen: "ks_hash (foldl ?f ks rs) = ks_hash ks \<and> ks_flag (foldl ?f ks rs) = ks_flag ks \<and> ks_counter (foldl ?f ks rs) = ks_counter ks \<and>
      ks_zset (foldl ?f ks rs) j = (if j = k then filter (\<lambda>(r, s). r \<notin> set rs \<or> ks_hash ks r \<noteq> None) (ks_zset ks k) else ks_zset ks j) \<and>
      ks_expiry (foldl ?f ks rs) j = (if j = k \<and> ks_zset ks k \<noteq> [] \<and> ks_zset (foldl ?f ks rs) k = [] then None else ks_expiry ks j)" for rs
  proof (induction rs arbitrary: ks)
    case Nil
    then show ?case by (auto simp: filter_id_conv)
  next
    case (Cons r rs)
    show ?case
    proof (cases "ks_hash ks r")
      case None
      have "filter (\<lambda>(x, s). x \<notin> set rs \<or> ks_hash ks x \<noteq> None) (filter (\<lambda>(x, s). x \<noteq> r) zs) =
          filter (\<lambda>(x, s). x \<notin> set (r # rs) \<or> ks_hash ks x \<noteq> None) zs" for zs :: "(string \<times> nat) list"
        using None by (auto intro: filter_cong)
      with Cons.IH [of "cmd_zrem k r ks"] None show ?thesis by auto
    next
      case (Some q)
      have "filter (\<lambda>(x, s). x \<notin> set rs \<or> ks_hash ks x \<noteq> None) zs =
          filter (\<lambda>(x, s). x \<notin> set (r # rs) \<or> ks_hash ks x \<noteq> None) zs" for zs :: "(string \<times> nat) list"
        using Some by (auto intro: filter_cong)
      with Cons.IH [of ks] Some show ?thesis by auto
    qed
  qed
  have "filter (\<lambda>(r, s). r \<notin> fst ` set zs \<or> ks_hash ks r \<noteq> None) zs = filter (\<lambda>(r, s). ks_hash ks r \<noteq> None) zs" for zs :: "(string \<times> nat) list"
    by (auto intro!: filter_cong) (metis fst_conv image_eqI)
  with gen [of "map fst (ks_zset ks k)"] show "ks_hash (prune k ks) = ks_hash ks" "ks_flag (prune k ks) = ks_flag ks" "ks_counter (prune k ks) = ks_counter ks"
    "ks_zset (prune k ks) j = (if j = k then filter (\<lambda>(r, s). ks_hash ks r \<noteq> None) (ks_zset ks k) else ks_zset ks j)"
    "ks_expiry (prune k ks) j = (if j = k \<and> ks_zset ks k \<noteq> [] \<and> ks_zset (prune k ks) k = [] then None else ks_expiry ks j)"
    by (auto simp: prune_def)
qed


section \<open>A well-formed inbox\<close>

definition live :: "uin \<Rightarrow> keyspace \<Rightarrow> queue_record list" where
  "live u ks = List.map_filter (\<lambda>(r, s). ks_hash ks r) (ks_zset ks (idx u))"

text \<open>The index refers to records of the recipient in the order of their numbers, which the counter bounds; the index and the counter
  live as long as a record; a record has the lifetime of its mark.\<close>

definition index_ok :: "uin \<Rightarrow> keyspace \<Rightarrow> bool" where
  "index_ok u ks \<longleftrightarrow> (let zs = ks_zset ks (idx u) in
     (\<forall>(r, s) \<in> set zs. (\<exists>d. r = reck u d) \<and> s \<le> ks_counter ks (sqk u) \<and> 0 < s) \<and>
     distinct (map fst zs) \<and> sorted_wrt (<) (map snd zs) \<and> length zs \<le> recipientAcceptanceMaxActive)"

definition expiry_ok :: "uin \<Rightarrow> keyspace \<Rightarrow> bool" where
  "expiry_ok u ks \<longleftrightarrow> (let zs = ks_zset ks (idx u) in
     (if zs = [] then ks_expiry ks (idx u) = None else ks_expiry ks (sqk u) = ks_expiry ks (idx u)) \<and>
     (\<forall>(r, s) \<in> set zs. \<forall>q. ks_hash ks r = Some q \<longrightarrow>
        qr_seq q = s \<and> (\<forall>x. ks_expiry ks (idx u) = Some x \<longrightarrow> (\<exists>e. qr_expires q = Some e \<and> e \<le> x))))"

definition records_ok :: "uin \<Rightarrow> keyspace \<Rightarrow> bool" where
  "records_ok u ks \<longleftrightarrow> (\<forall>d. ks_hash ks (reck u d) = None \<longrightarrow> ks_expiry ks (reck u d) = None) \<and>
     (\<forall>d q. ks_hash ks (reck u d) = Some q \<longrightarrow>
        ks_expiry ks (reck u d) = qr_expires q \<and> ks_flag ks (seenk u d) \<and> ks_expiry ks (seenk u d) = qr_expires q) \<and>
     (\<forall>d. \<not> ks_flag ks (seenk u d) \<longrightarrow> ks_expiry ks (seenk u d) = None)"

definition inbox_ok :: "uin \<Rightarrow> keyspace \<Rightarrow> bool" where
  "inbox_ok u ks \<longleftrightarrow> index_ok u ks \<and> expiry_ok u ks \<and> records_ok u ks"

text \<open>The keys of a recipient.\<close>

definition inbox_eq :: "uin \<Rightarrow> keyspace \<Rightarrow> keyspace \<Rightarrow> bool" where
  "inbox_eq u ks ks' \<longleftrightarrow> ks_zset ks' (idx u) = ks_zset ks (idx u) \<and> ks_counter ks' (sqk u) = ks_counter ks (sqk u) \<and>
     ks_expiry ks' (idx u) = ks_expiry ks (idx u) \<and> ks_expiry ks' (sqk u) = ks_expiry ks (sqk u) \<and>
     (\<forall>d. ks_hash ks' (reck u d) = ks_hash ks (reck u d) \<and> ks_expiry ks' (reck u d) = ks_expiry ks (reck u d) \<and>
        ks_flag ks' (seenk u d) = ks_flag ks (seenk u d) \<and> ks_expiry ks' (seenk u d) = ks_expiry ks (seenk u d))"

lemma index_ok_ref: "index_ok u ks \<Longrightarrow> (r, s) \<in> set (ks_zset ks (idx u)) \<Longrightarrow> \<exists>d. r = reck u d"
  by (auto simp: index_ok_def Let_def)

lemma inbox_ok_eq:
  assumes "inbox_eq u ks ks'" and "inbox_ok u ks"
  shows "inbox_ok u ks' \<and> live u ks' = live u ks"
proof -
  have h: "ks_hash ks' r = ks_hash ks r" if "(r, s) \<in> set (ks_zset ks (idx u))" for r s
    using index_ok_ref [OF _ that] assms by (auto simp: inbox_eq_def inbox_ok_def)
  then have "live u ks' = live u ks"
    using assms(1) by (auto simp: live_def inbox_eq_def List.map_filter_def intro!: arg_cong [where f = "map _"] filter_cong map_cong)
  moreover have "index_ok u ks'" "records_ok u ks'" using assms by (simp_all add: inbox_ok_def index_ok_def records_ok_def inbox_eq_def Let_def)
  moreover have "expiry_ok u ks'" using assms h by (fastforce simp: inbox_ok_def expiry_ok_def inbox_eq_def Let_def)
  ultimately show ?thesis by (simp add: inbox_ok_def)
qed

lemma inbox_empty: "inbox_ok u ks_empty" "live u ks_empty = []"
  by (simp_all add: inbox_ok_def index_ok_def expiry_ok_def records_ok_def live_def ks_empty_def List.map_filter_def)


section \<open>Time\<close>

lemma at_time_sel:
  "ks_zset (at_time now ks) k = (if expired_key now ks k then [] else ks_zset ks k)"
  "ks_hash (at_time now ks) k = (if expired_key now ks k then None else ks_hash ks k)"
  "ks_flag (at_time now ks) k = (\<not> expired_key now ks k \<and> ks_flag ks k)"
  "ks_counter (at_time now ks) k = (if expired_key now ks k then 0 else ks_counter ks k)"
  "ks_expiry (at_time now ks) k = (if expired_key now ks k then None else ks_expiry ks k)"
  by (simp_all add: at_time_def)

definition ends_after :: "int \<Rightarrow> queue_record \<Rightarrow> bool" where
  "ends_after now q = (case qr_expires q of None \<Rightarrow> True | Some e \<Rightarrow> now < e)"

text \<open>As time passes the inbox stays well formed and loses exactly the messages that are over.\<close>

lemma at_time_record:
  assumes "records_ok u ks"
  shows "ks_hash (at_time now ks) (reck u d) = Option.bind (ks_hash ks (reck u d)) (\<lambda>q. if ends_after now q then Some q else None)"
  using assms by (cases "ks_hash ks (reck u d)") (auto simp: at_time_sel expired_key_def records_ok_def ends_after_def split: option.splits)

lemma at_time_records_ok: "records_ok u ks \<Longrightarrow> records_ok u (at_time now ks)"
  by (auto simp: records_ok_def at_time_sel expired_key_def split: option.splits if_splits)

lemma map_filter_filter:
  "List.map_filter (\<lambda>x. Option.bind (f x) (\<lambda>q. if P q then Some q else None)) xs = filter P (List.map_filter f xs)"
  by (induction xs) (auto simp: List.map_filter_def split: option.splits bind_splits)

lemma inbox_at_time:
  assumes "inbox_ok u ks"
  shows "inbox_ok u (at_time now ks) \<and> live u (at_time now ks) = filter (ends_after now) (live u ks)"
proof -
  let ?k = "at_time now ks" and ?zs = "ks_zset ks (idx u)"
  have ok: "index_ok u ks" "expiry_ok u ks" "records_ok u ks" using assms by (simp_all add: inbox_ok_def)
  have rec: "ks_hash ?k r = Option.bind (ks_hash ks r) (\<lambda>q. if ends_after now q then Some q else None)" if "(r, s) \<in> set ?zs" for r s
    using index_ok_ref [OF ok(1) that] at_time_record [OF ok(3)] by auto
  show ?thesis
  proof (cases "expired_key now ks (idx u)")
    case False
    then have z: "ks_zset ?k (idx u) = ?zs" "ks_expiry ?k (idx u) = ks_expiry ks (idx u)" by (simp_all add: at_time_sel)
    have c: "?zs \<noteq> [] \<Longrightarrow> ks_counter ?k (sqk u) = ks_counter ks (sqk u) \<and> ks_expiry ?k (sqk u) = ks_expiry ks (sqk u)"
      using False ok(2) by (auto simp: at_time_sel expired_key_def expiry_ok_def Let_def)
    have "index_ok u ?k" using ok(1) z c by (cases "?zs = []") (auto simp: index_ok_def Let_def)
    moreover have "expiry_ok u ?k" using ok(2) z c rec
      by (cases "?zs = []") (auto simp: expiry_ok_def Let_def bind_eq_Some_conv split: if_splits)
    moreover have "live u ?k = List.map_filter (\<lambda>x. Option.bind ((\<lambda>(r, s). ks_hash ks r) x) (\<lambda>q. if ends_after now q then Some q else None)) ?zs"
      unfolding live_def z(1) using rec by (auto simp: List.map_filter_def intro!: map_cong filter_cong)
    ultimately show ?thesis using at_time_records_ok [OF ok(3)] by (simp add: inbox_ok_def live_def map_filter_filter)
  next
    case True
    then obtain x where x: "ks_expiry ks (idx u) = Some x" "x \<le> now" by (auto simp: expired_key_def split: option.splits)
    have "\<not> ends_after now q" if "(r, s) \<in> set ?zs" "ks_hash ks r = Some q" for r s q
      using ok(2) x that by (force simp: expiry_ok_def Let_def ends_after_def)
    then have "filter (ends_after now) (live u ks) = []"
      by (auto simp: live_def filter_empty_conv List.map_filter_def split: prod.splits)
    moreover have "ks_zset ?k (idx u) = []" "ks_expiry ?k (idx u) = None" using True by (simp_all add: at_time_sel)
    ultimately show ?thesis using at_time_records_ok [OF ok(3)]
      by (simp add: inbox_ok_def index_ok_def expiry_ok_def live_def List.map_filter_def)
  qed
qed


section \<open>The scripts keep the inbox well formed\<close>

lemma foldl_max_start:
  fixes f :: "'a \<Rightarrow> int"
  shows "m \<le> foldl (\<lambda>m x. max m (f x)) m xs"
proof (induction xs arbitrary: m)
  case (Cons y xs)
  from Cons.IH [of "max m (f y)"] show ?case by simp
qed simp

lemma foldl_max_elem:
  fixes f :: "'a \<Rightarrow> int"
  shows "x \<in> set xs \<Longrightarrow> f x \<le> foldl (\<lambda>m x. max m (f x)) m xs"
proof (induction xs arbitrary: m)
  case (Cons y xs)
  have "f y \<le> foldl (\<lambda>m x. max m (f x)) (max m (f y)) xs" using foldl_max_start [of "max m (f y)" f xs] by simp
  with Cons show ?case by auto
qed simp

text \<open>The last part of a script sets the lifetime of a non-empty index and its counter to that of the longest record, or drops both keys.\<close>

lemma retention_cases:
  assumes refs: "\<forall>(r, s) \<in> set (ks_zset ks (idx u)). \<forall>q. ks_hash ks r = Some q \<longrightarrow> ends_after now q"
    and cnt: "ks_zset ks (idx u) \<noteq> [] \<Longrightarrow> ks_counter ks (sqk u) \<noteq> 0"
  obtains "ks_zset ks (idx u) = []" "retention now (idx u) (sqk u) ks = cmd_del (sqk u) (cmd_del (idx u) ks)"
  | x where "ks_zset ks (idx u) \<noteq> []" "retention now (idx u) (sqk u) ks = ks\<lparr>ks_expiry := (ks_expiry ks)(idx u := x, sqk u := x)\<rparr>"
      "\<And>r s q y. (r, s) \<in> set (ks_zset ks (idx u)) \<Longrightarrow> ks_hash ks r = Some q \<Longrightarrow> x = Some y \<Longrightarrow> \<exists>e. qr_expires q = Some e \<and> e \<le> y"
proof -
  let ?zs = "ks_zset ks (idx u)" and ?e = "\<lambda>ref. Option.bind (ks_hash ks ref) qr_expires"
  let ?live = "map fst ?zs"
  consider (off) "list_ex (\<lambda>ref. ?e ref = None) ?live" | (none) "?live = []" | (some) "\<not> list_ex (\<lambda>ref. ?e ref = None) ?live" "?live \<noteq> []" by auto
  then show thesis
  proof cases
    case off
    then have "?zs \<noteq> []" by auto
    moreover have "retention now (idx u) (sqk u) ks = ks\<lparr>ks_expiry := (ks_expiry ks)(idx u := None, sqk u := None)\<rparr>"
      using off by (simp add: retention_def Let_def cmd_persist_def)
    ultimately show thesis by (rule that(2)) simp
  next
    case none
    then show thesis by (intro that(1)) (simp_all add: retention_def)
  next
    case some
    let ?m = "foldl (\<lambda>m ref. max m (the (?e ref))) 0 ?live"
    have m: "\<exists>q e. ks_hash ks r = Some q \<and> qr_expires q = Some e \<and> e \<le> ?m" if rs: "(r, s) \<in> set ?zs" for r s
    proof -
      from some(1) rs have "?e r \<noteq> None" by (auto simp: list_ex_iff simp del: not_None_eq)
      then obtain q e where "ks_hash ks r = Some q" "qr_expires q = Some e" by (auto simp: bind_eq_Some_conv)
      moreover have "the (?e r) \<le> ?m" by (rule foldl_max_elem) (use rs in force)
      ultimately show ?thesis by simp
    qed
    obtain r s where "(r, s) \<in> set ?zs" using some(2) by (cases ?zs) force+
    with m refs have "now < ?m" by (fastforce simp: ends_after_def)
    moreover have "key_exists ks (idx u)" "key_exists ks (sqk u)" using some(2) cnt by (simp_all add: key_exists_def)
    ultimately have "retention now (idx u) (sqk u) ks = ks\<lparr>ks_expiry := (ks_expiry ks)(idx u := Some ?m, sqk u := Some ?m)\<rparr>"
      using some by (simp add: retention_def Let_def fun_upd_twist)
    moreover have "?zs \<noteq> []" using some(2) by simp
    ultimately show thesis using m by (intro that(2) [of "Some ?m"]) fastforce+
  qed
qed

lemma retention_inbox:
  assumes "index_ok u ks" and "records_ok u ks"
    and "\<forall>(r, s) \<in> set (ks_zset ks (idx u)). \<forall>q. ks_hash ks r = Some q \<longrightarrow> ends_after now q \<and> qr_seq q = s"
  shows "inbox_ok u (retention now (idx u) (sqk u) ks) \<and> live u (retention now (idx u) (sqk u) ks) = live u ks"
proof -
  have "ks_zset ks (idx u) \<noteq> [] \<Longrightarrow> ks_counter ks (sqk u) \<noteq> 0" using assms(1) by (cases "ks_zset ks (idx u)") (auto simp: index_ok_def Let_def)
  then show ?thesis using assms
    by (rule_tac retention_cases [of ks u now])
       (fastforce simp: inbox_ok_def index_ok_def expiry_ok_def records_ok_def live_def Let_def List.map_filter_def)+
qed


lemma at_time_ends: "records_ok u ks \<Longrightarrow> ks_hash (at_time now ks) (reck u d) = Some q \<Longrightarrow> ends_after now q"
  by (auto simp: at_time_record bind_eq_Some_conv split: if_splits)

lemma sorted_wrt_map_filter: "sorted_wrt (<) (map snd zs) \<Longrightarrow> sorted_wrt (<) (map snd (filter P (zs :: (string \<times> nat) list)))"
  by (induction zs) auto

lemma map_filter_cong: "(\<And>x. x \<in> set xs \<Longrightarrow> f x = g x) \<Longrightarrow> List.map_filter f xs = List.map_filter g xs"
  by (induction xs) (auto simp: List.map_filter_def)

lemma map_filter_append [simp]: "List.map_filter f (xs @ ys) = List.map_filter f xs @ List.map_filter f ys"
  by (simp add: List.map_filter_def)

lemma map_filter_keep: "(\<And>x. x \<in> set xs \<Longrightarrow> f x \<noteq> None \<Longrightarrow> P x) \<Longrightarrow> List.map_filter f (filter P xs) = List.map_filter f xs"
  by (induction xs) (auto simp: List.map_filter_def)

lemma prune_inbox:
  assumes "inbox_ok u ks"
  shows "inbox_ok u (prune (idx u) ks) \<and> live u (prune (idx u) ks) = live u ks"
proof -
  let ?k = "prune (idx u) ks" and ?zs = "ks_zset ks (idx u)"
  have ok: "index_ok u ks" "expiry_ok u ks" "records_ok u ks" using assms by (simp_all add: inbox_ok_def)
  have "index_ok u ?k" using ok(1)
    by (auto simp: index_ok_def Let_def prune_sel distinct_map_filter sorted_wrt_map_filter
        intro: order_trans [OF length_filter_le])
  moreover have "records_ok u ?k" using ok(3) by (auto simp: records_ok_def prune_sel)
  moreover have "expiry_ok u ?k" using ok(2) by (auto simp: expiry_ok_def Let_def prune_sel split: if_splits)
  moreover have "live u ?k = live u ks" by (auto simp: live_def prune_sel intro!: map_filter_keep)
  ultimately show ?thesis by (simp add: inbox_ok_def)
qed

text \<open>The state before the lifetimes are set: the record is stored and referenced last, unless its time is over by the clock of Redis.\<close>

lemma stored_record:
  assumes ok: "inbox_ok u ks" and live: "\<forall>d q. ks_hash ks (reck u d) = Some q \<longrightarrow> ends_after now q"
    and full: "\<forall>(r, s) \<in> set (ks_zset ks (idx u)). ks_hash ks r \<noteq> None"
    and fresh: "\<not> ks_flag ks (seenk u d)" and room: "length (ks_zset ks (idx u)) < recipientAcceptanceMaxActive"
    and q: "qr_seq q = ks_counter ks (sqk u) + 1"
    and ks2: "ks2 = ks\<lparr>ks_counter := (ks_counter ks)(sqk u := qr_seq q), ks_hash := (ks_hash ks)(reck u d \<mapsto> q),
      ks_flag := (ks_flag ks)(seenk u d := True)\<rparr>"
    and ks3: "ks3 = (case qr_expires q of None \<Rightarrow> ks2 | Some e \<Rightarrow> cmd_pexpireat now (seenk u d) e (cmd_pexpireat now (reck u d) e ks2))"
    and ks4: "ks4 = cmd_zadd (idx u) (qr_seq q) (reck u d) ks3"
  shows "index_ok u ks4" and "records_ok u ks4" and "live u ks4 = live u ks @ (if ends_after now q then [q] else [])"
    and "\<forall>(r, s) \<in> set (ks_zset ks4 (idx u)). \<forall>p. ks_hash ks4 r = Some p \<longrightarrow> ends_after now p \<and> qr_seq p = s"
    and "ks_flag ks4 (seenk u d) = ends_after now q" and "ks_expiry ks4 (seenk u d) = (if ends_after now q then qr_expires q else None)"
proof -
  let ?zs = "ks_zset ks (idx u)"
  have oks: "index_ok u ks" "expiry_ok u ks" "records_ok u ks" using ok by (simp_all add: inbox_ok_def)
  have none: "ks_hash ks (reck u d) = None" "ks_expiry ks (reck u d) = None" "ks_expiry ks (seenk u d) = None"
    using oks(3) fresh by (cases "ks_hash ks (reck u d)"; auto simp: records_ok_def)+
  have ex: "key_exists ks2 (reck u d)" "key_exists ks2 (seenk u d)" by (simp_all add: ks2 key_exists_def)
  have k3: "ks_zset ks3 (idx u) = ?zs" "ks_counter ks3 (sqk u) = qr_seq q"
    "ks_hash ks3 (reck u e) = (if e = d then (if ends_after now q then Some q else None) else ks_hash ks (reck u e))"
    "ks_flag ks3 (seenk u e) = (if e = d then ends_after now q else ks_flag ks (seenk u e))"
    "ks_expiry ks3 (reck u e) = (if e = d then (if ends_after now q then qr_expires q else None) else ks_expiry ks (reck u e))"
    "ks_expiry ks3 (seenk u e) = (if e = d then (if ends_after now q then qr_expires q else None) else ks_expiry ks (seenk u e))" for e
    using none ex by (auto simp: ks3 ends_after_def ks2 cmd_pexpireat_def split: option.splits)
  have nin: "reck u d \<notin> fst ` set ?zs" using full none(1) by auto
  have le: "s < qr_seq q" if "(r, s) \<in> set ?zs" for r s using oks(1) that q by (auto simp: index_ok_def Let_def)
  have "filter (\<lambda>(r, s). r \<noteq> reck u d) ?zs = ?zs" using nin by (force simp: filter_id_conv)
  moreover have "takeWhile (\<lambda>(r, s). s \<le> qr_seq q) ?zs = ?zs" "dropWhile (\<lambda>(r, s). s \<le> qr_seq q) ?zs = []"
    using le by (fastforce simp: takeWhile_eq_all_conv dropWhile_eq_Nil_conv)+
  ultimately have z: "ks_zset ks4 (idx u) = ?zs @ [(reck u d, qr_seq q)]" by (simp add: ks4 cmd_zadd_def Let_def k3(1))
  have k4: "ks_hash ks4 = ks_hash ks3" "ks_flag ks4 = ks_flag ks3" "ks_counter ks4 = ks_counter ks3" "ks_expiry ks4 = ks_expiry ks3"
    by (simp_all add: ks4 cmd_zadd_def Let_def)
  show "index_ok u ks4" using oks(1) nin le room
    by (auto simp: index_ok_def Let_def z k4 k3 sorted_wrt_append less_imp_le q)
  show "records_ok u ks4" using oks(3) by (auto simp: records_ok_def k4 k3 split: if_splits)
  have h: "ks_hash ks3 r = ks_hash ks r" if "(r, s) \<in> set ?zs" for r s
    using index_ok_ref [OF oks(1) that] nin that by (auto simp: k3 image_iff)
  show "live u ks4 = live u ks @ (if ends_after now q then [q] else [])"
  proof -
    have "List.map_filter (\<lambda>(r, s). ks_hash ks3 r) ?zs = List.map_filter (\<lambda>(r, s). ks_hash ks r) ?zs" by (rule map_filter_cong) (use h in auto)
    then show ?thesis by (simp add: live_def z k4 k3)
  qed
  show "\<forall>(r, s) \<in> set (ks_zset ks4 (idx u)). \<forall>p. ks_hash ks4 r = Some p \<longrightarrow> ends_after now p \<and> qr_seq p = s"
  proof (intro ballI, clarify, intro conjI)
    fix r s p assume rs: "(r, s) \<in> set (ks_zset ks4 (idx u))" and p: "ks_hash ks4 r = Some p"
    have "(r, s) \<in> set ?zs \<and> ks_hash ks r = Some p \<or> r = reck u d \<and> s = qr_seq q \<and> p = q \<and> ends_after now q"
      using rs p h by (auto simp: z k4 k3 split: if_splits)
    then show "ends_after now p" "qr_seq p = s" using oks(2) live index_ok_ref [OF oks(1)]
      by (blast, auto simp: expiry_ok_def Let_def dest!: bspec)
  qed
  show "ks_flag ks4 (seenk u d) = ends_after now q" by (simp add: k4 k3)
  show "ks_expiry ks4 (seenk u d) = (if ends_after now q then qr_expires q else None)" by (simp add: k4 k3)
qed


lemma accept_script:
  assumes "inbox_ok u ks0"
  obtains "ks_flag (at_time now ks0) (seenk u d)"
      "acceptRecipientScript now (idx u) (seenk u d) (reck u d) (sqk u) i env sc ex recipientAcceptanceMaxActive ks0 = (0, at_time now ks0)"
  | ks' where "\<not> ks_flag (at_time now ks0) (seenk u d)"
      "acceptRecipientScript now (idx u) (seenk u d) (reck u d) (sqk u) i env sc ex recipientAcceptanceMaxActive ks0 = (-1, ks')"
      "inbox_ok u ks'" "live u ks' = live u (at_time now ks0)" "length (live u ks') = recipientAcceptanceMaxActive"
      "ks_flag ks' = ks_flag (at_time now ks0)"
  | ks' q where "\<not> ks_flag (at_time now ks0) (seenk u d)"
      "acceptRecipientScript now (idx u) (seenk u d) (reck u d) (sqk u) i env sc ex recipientAcceptanceMaxActive ks0 = (1, ks')"
      "inbox_ok u ks'" "live u ks' = live u (at_time now ks0) @ (if ends_after now q then [q] else [])"
      "qr_message_id q = i" "qr_envelope q = env" "qr_scope q = sc" "qr_expires q = ex" "qr_seq q = ks_counter (at_time now ks0) (sqk u) + 1" "ks_flag ks' (seenk u d) = ends_after now q"
      "ks_expiry ks' (seenk u d) = (if ends_after now q then ex else None)" "length (live u (at_time now ks0)) < recipientAcceptanceMaxActive"
proof -
  let ?ks = "at_time now ks0"
  let ?k1 = "prune (idx u) ?ks"
  let ?run = "acceptRecipientScript now (idx u) (seenk u d) (reck u d) (sqk u) i env sc ex recipientAcceptanceMaxActive ks0"
  have ok: "inbox_ok u ?ks" using inbox_at_time [OF assms] by simp
  have k1: "inbox_ok u ?k1" "live u ?k1 = live u ?ks" using prune_inbox [OF ok] by auto
  have refs: "\<forall>(r, s) \<in> set (ks_zset ?k1 (idx u)). ks_hash ?k1 r \<noteq> None" by (auto simp: prune_sel)
  then have len: "length (live u ?k1) = length (ks_zset ?k1 (idx u))"
    by (simp add: live_def List.map_filter_def filter_id_conv case_prod_beta)
  show thesis
  proof (cases "ks_flag ?ks (seenk u d)")
    case True
    then show thesis by (intro that(1)) (simp_all add: acceptRecipientScript_def)
  next
    case fresh: False
    show thesis
    proof (cases "recipientAcceptanceMaxActive \<le> length (ks_zset ?k1 (idx u))")
      case True
      moreover have "length (ks_zset ?k1 (idx u)) \<le> recipientAcceptanceMaxActive" using k1(1) by (simp add: inbox_ok_def index_ok_def Let_def)
      ultimately show thesis using fresh k1 len
        by (intro that(2) [of ?k1]) (simp_all add: acceptRecipientScript_def Let_def prune_sel)
    next
      case False
      let ?q = "\<lparr>qr_message_id = i, qr_envelope = env, qr_scope = sc, qr_seq = ks_counter ?k1 (sqk u) + 1, qr_expires = ex\<rparr>"
      define ks2 where "ks2 = ?k1\<lparr>ks_counter := (ks_counter ?k1)(sqk u := qr_seq ?q), ks_hash := (ks_hash ?k1)(reck u d \<mapsto> ?q),
        ks_flag := (ks_flag ?k1)(seenk u d := True)\<rparr>"
      define ks3 where "ks3 = (case qr_expires ?q of None \<Rightarrow> ks2 | Some e \<Rightarrow> cmd_pexpireat now (seenk u d) e (cmd_pexpireat now (reck u d) e ks2))"
      define ks4 where "ks4 = cmd_zadd (idx u) (qr_seq ?q) (reck u d) ks3"
      have ends: "\<forall>d q. ks_hash ?k1 (reck u d) = Some q \<longrightarrow> ends_after now q"
        using at_time_ends assms by (auto simp: prune_sel inbox_ok_def)
      have fresh1: "\<not> ks_flag ?k1 (seenk u d)" using fresh by (simp add: prune_sel)
      have room: "length (ks_zset ?k1 (idx u)) < recipientAcceptanceMaxActive" using False by simp
      note st = stored_record [OF k1(1) ends refs fresh1 room _ ks2_def ks3_def ks4_def, simplified]
      have run: "?run = (1, retention now (idx u) (sqk u) ks4)"
        unfolding acceptRecipientScript_def Let_def ks4_def ks3_def ks2_def using fresh False by (simp split: option.split)
      have "ks_flag (retention now (idx u) (sqk u) ks4) (seenk u d) = ks_flag ks4 (seenk u d)"
        "ks_expiry (retention now (idx u) (sqk u) ks4) (seenk u d) = ks_expiry ks4 (seenk u d)"
        by (simp_all add: retention_def Let_def cmd_pexpireat_def)
      then show thesis using retention_inbox [OF st(1,2,4)] st(3,5,6) k1 fresh run room len by (intro that(3) [of _ ?q]) (auto simp: prune_sel)
    qed
  qed
qed


text \<open>Reading changes nothing but dead references and returns the live records after the cursor, in order.\<close>

lemma read_refs_spec:
  fixes ks :: keyspace
  assumes "read_refs k n False refs out ks = (res, ks')"
  shows "res = out @ (let found = List.map_filter (ks_hash ks) refs in if n = 0 then found else take (n - length out) found) \<and>
    ks_hash ks' = ks_hash ks \<and> ks_flag ks' = ks_flag ks \<and> ks_counter ks' = ks_counter ks \<and>
    ks_zset ks' j = (if j = k then filter (\<lambda>(r, s). r \<notin> set refs \<or> ks_hash ks r \<noteq> None) (ks_zset ks k) else ks_zset ks j) \<and>
    ks_expiry ks' j = (if j = k \<and> ks_zset ks k \<noteq> [] \<and> ks_zset ks' k = [] then None else ks_expiry ks j)"
  using assms
proof (induction refs arbitrary: out ks)
  case Nil
  then show ?case by (auto simp: List.map_filter_def filter_id_conv)
next
  case (Cons r refs)
  show ?case
  proof (cases "ks_hash ks r")
    case None
    have "filter (\<lambda>(x, s). x \<notin> set refs \<or> ks_hash ks x \<noteq> None) (filter (\<lambda>(x, s). x \<noteq> r) zs) =
        filter (\<lambda>(x, s). x \<notin> set (r # refs) \<or> ks_hash ks x \<noteq> None) zs" for zs :: "(string \<times> nat) list"
      using None by (auto intro: filter_cong)
    with Cons.IH [of out "cmd_zrem k r ks"] Cons.prems None show ?thesis by (auto simp: List.map_filter_def Let_def)
  next
    case (Some q)
    have f: "filter (\<lambda>(x, s). x \<notin> set refs \<or> ks_hash ks x \<noteq> None) zs =
        filter (\<lambda>(x, s). x \<notin> set (r # refs) \<or> ks_hash ks x \<noteq> None) zs" for zs :: "(string \<times> nat) list"
      using Some by (auto intro: filter_cong)
    show ?thesis
    proof (cases "n = 0 \<or> length out < n")
      case True
      then have "n \<noteq> 0 \<Longrightarrow> n - length out = Suc (n - length (out @ [q]))" by auto
      with Cons.IH [of "out @ [q]" ks] Cons.prems Some True f show ?thesis by (auto simp: List.map_filter_def Let_def)
    next
      case False
      with Cons.IH [of out ks] Cons.prems Some f show ?thesis by (auto simp: List.map_filter_def Let_def)
    qed
  qed
qed

definition after_cursor :: "nat option \<Rightarrow> queue_record \<Rightarrow> bool" where
  "after_cursor after q = (case after of None \<Rightarrow> True | Some a \<Rightarrow> a < qr_seq q)"

definition page :: "nat \<Rightarrow> 'a list \<Rightarrow> 'a list" where
  "page n xs = (if n = 0 then xs else take n xs)"

lemma drop_empty_inbox:
  assumes "inbox_ok u ks" and "ks_zset ks (idx u) = []"
  shows "inbox_ok u (cmd_del (sqk u) (cmd_del (idx u) ks)) \<and> live u (cmd_del (sqk u) (cmd_del (idx u) ks)) = live u ks"
  using assms by (auto simp: inbox_ok_def index_ok_def expiry_ok_def records_ok_def live_def Let_def)

lemma read_script:
  assumes "inbox_ok u ks0" and "readAcceptedScript now (idx u) (sqk u) after n ks0 = (out, ks')"
  shows "inbox_ok u ks'" and "live u ks' = live u (at_time now ks0)"
    and "out = page n (filter (after_cursor after) (live u (at_time now ks0)))"
    and "ks_flag ks' (seenk v d) = ks_flag (at_time now ks0) (seenk v d)"
proof -
  let ?ks = "at_time now ks0"
  let ?zs = "ks_zset ?ks (idx u)"
  have ok: "inbox_ok u ?ks" using inbox_at_time [OF assms(1)] by simp
  then have oks: "index_ok u ?ks" "expiry_ok u ?ks" "records_ok u ?ks" by (simp_all add: inbox_ok_def)
  obtain res k1 where rr: "read_refs (idx u) n False (refs_after after ?zs) [] ?ks = (res, k1)" by force
  note sp = read_refs_spec [OF rr]
  have out: "out = res" and ks': "ks' = (if ks_zset k1 (idx u) = [] then cmd_del (sqk u) (cmd_del (idx u) k1) else k1)"
    using assms(2) rr by (simp_all add: readAcceptedScript_def Let_def)
  let ?P = "\<lambda>(r, s). r \<notin> set (refs_after after ?zs) \<or> ks_hash ?ks r \<noteq> None"
  have z: "ks_zset k1 (idx u) = filter ?P ?zs" and same: "ks_hash k1 = ks_hash ?ks" "ks_flag k1 = ks_flag ?ks" "ks_counter k1 = ks_counter ?ks"
    and ex: "\<And>j. ks_expiry k1 j = (if j = idx u \<and> ?zs \<noteq> [] \<and> filter ?P ?zs = [] then None else ks_expiry ?ks j)"
    using sp by auto
  have "index_ok u k1" using oks(1) by (auto simp: index_ok_def Let_def z same distinct_map_filter sorted_wrt_map_filter intro: order_trans [OF length_filter_le])
  moreover have "expiry_ok u k1" using oks(2) by (auto simp: expiry_ok_def Let_def z same ex split: if_splits)
  moreover have "records_ok u k1" using oks(3) by (auto simp: records_ok_def same ex)
  ultimately have ok1: "inbox_ok u k1" by (simp add: inbox_ok_def)
  have l1: "live u k1 = live u ?ks" by (auto simp: live_def z same intro!: map_filter_keep)
  show "inbox_ok u ks'" "live u ks' = live u ?ks" using ok1 l1 drop_empty_inbox [OF ok1] by (auto simp: ks')
  show "ks_flag ks' (seenk v d) = ks_flag ?ks (seenk v d)" by (simp add: ks' same)
  have "List.map_filter (ks_hash ?ks) (map fst (filter (\<lambda>(r, s). case after of None \<Rightarrow> True | Some a \<Rightarrow> a < s) zs)) =
      filter (after_cursor after) (List.map_filter (\<lambda>(r, s). ks_hash ?ks r) zs)"
    if "\<forall>(r, s) \<in> set zs. \<forall>q. ks_hash ?ks r = Some q \<longrightarrow> qr_seq q = s" for zs
    using that by (induction zs) (auto simp: List.map_filter_def after_cursor_def split: option.splits)
  moreover have "\<forall>(r, s) \<in> set ?zs. \<forall>q. ks_hash ?ks r = Some q \<longrightarrow> qr_seq q = s" using oks(2) by (auto simp: expiry_ok_def Let_def)
  ultimately have "List.map_filter (ks_hash ?ks) (refs_after after ?zs) = filter (after_cursor after) (live u ?ks)"
    by (simp add: refs_after_def live_def)
  then show "out = page n (filter (after_cursor after) (live u ?ks))" using sp by (simp add: out page_def Let_def)
qed


text \<open>An acknowledgement removes the named messages.\<close>

definition acked :: "string list \<Rightarrow> queue_record \<Rightarrow> queue_record option" where
  "acked wanted q = (if qr_message_id q \<in> set wanted then None else Some q)"

lemma ack_refs_spec:
  assumes "ack_refs k wanted refs m ks = (res, ks')" and "distinct refs" and "k \<notin> set refs"
  shows "(\<forall>x. x \<notin> set refs \<longrightarrow> ks_flag ks' x = ks_flag ks x) \<and>
    (\<forall>x. x \<notin> set refs \<longrightarrow> ks_counter ks' x = ks_counter ks x) \<and>
    (\<forall>x. ks_hash ks' x = (if x \<in> set refs then Option.bind (ks_hash ks x) (acked wanted) else ks_hash ks x)) \<and>
    ks_zset ks' k = filter (\<lambda>(r, s). r \<notin> set refs \<or> Option.bind (ks_hash ks r) (acked wanted) \<noteq> None) (ks_zset ks k) \<and>
    (\<forall>x. x \<noteq> k \<and> x \<notin> set refs \<longrightarrow> ks_zset ks' x = ks_zset ks x \<and> ks_expiry ks' x = ks_expiry ks x) \<and>
    (\<forall>x \<in> set refs. ks_expiry ks' x = (if ks_hash ks x \<noteq> None \<and> ks_hash ks' x = None then None else ks_expiry ks x))"
  using assms
proof (induction refs arbitrary: m ks)
  case Nil
  then show ?case by (auto simp: filter_id_conv)
next
  case (Cons r refs)
  have nin: "r \<notin> set refs" "r \<noteq> k" "distinct refs" "k \<notin> set refs" using Cons.prems by auto
  let ?left = "\<lambda>ks refs (x, s). x \<notin> set refs \<or> Option.bind (ks_hash ks x) (acked wanted) \<noteq> None"
  let ?k = "if ks_hash ks r = None then cmd_zrem k r ks else if Option.bind (ks_hash ks r) (acked wanted) = None then cmd_del r (cmd_zrem k r ks) else ks"
  obtain m' where run: "ack_refs k wanted refs m' ?k = (res, ks')"
    using Cons.prems(1) by (auto simp: acked_def split: option.splits if_splits)
  have h: "ks_hash ?k x = (if x = r then Option.bind (ks_hash ks r) (acked wanted) else ks_hash ks x)" for x
    by (cases "ks_hash ks r") (auto simp: acked_def)
  have z: "ks_zset ?k k = (if Option.bind (ks_hash ks r) (acked wanted) = None then filter (\<lambda>(x, s). x \<noteq> r) (ks_zset ks k) else ks_zset ks k)"
    using nin(2) by (cases "ks_hash ks r") auto
  have f: "filter (?left ?k refs) (ks_zset ?k k) = filter (?left ks (r # refs)) (ks_zset ks k)"
    using nin(1) unfolding z by (cases "Option.bind (ks_hash ks r) (acked wanted)") (auto simp: h intro!: filter_cong split: if_splits)
  have other: "ks_flag ?k x = ks_flag ks x" "ks_counter ?k x = ks_counter ks x" if "x \<noteq> r" for x using that by auto
  have other': "ks_zset ?k x = ks_zset ks x" "ks_expiry ?k x = ks_expiry ks x" if "x \<noteq> r" "x \<noteq> k" for x using that by auto
  have er: "ks_expiry ?k r = (if ks_hash ks r \<noteq> None \<and> ks_hash ?k r = None then None else ks_expiry ks r)"
    using nin(2) by (cases "ks_hash ks r") (auto simp: acked_def)
  have ih: "\<And>x. x \<notin> set refs \<Longrightarrow> ks_flag ks' x = ks_flag ?k x" "\<And>x. x \<notin> set refs \<Longrightarrow> ks_counter ks' x = ks_counter ?k x"
    "\<And>x. ks_hash ks' x = (if x \<in> set refs then Option.bind (ks_hash ?k x) (acked wanted) else ks_hash ?k x)"
    "ks_zset ks' k = filter (?left ?k refs) (ks_zset ?k k)"
    "\<And>x. x \<noteq> k \<Longrightarrow> x \<notin> set refs \<Longrightarrow> ks_zset ks' x = ks_zset ?k x \<and> ks_expiry ks' x = ks_expiry ?k x"
    "\<And>x. x \<in> set refs \<Longrightarrow> ks_expiry ks' x = (if ks_hash ?k x \<noteq> None \<and> ks_hash ks' x = None then None else ks_expiry ?k x)"
    using Cons.IH [OF run nin(3,4)] by blast+
  show ?case
  proof (intro conjI allI ballI impI)
    fix x
    show "ks_hash ks' x = (if x \<in> set (r # refs) then Option.bind (ks_hash ks x) (acked wanted) else ks_hash ks x)"
      using nin(1) by (auto simp: ih(3) h)
    show "ks_expiry ks' x = (if ks_hash ks x \<noteq> None \<and> ks_hash ks' x = None then None else ks_expiry ks x)" if "x \<in> set (r # refs)"
    proof (cases "x = r")
      case True
      with nin ih(3,5) [of r] er show ?thesis by simp
    next
      case False
      moreover from this that nin(4) have "x \<in> set refs" "x \<noteq> k" by auto
      ultimately show ?thesis using ih(6) h other'(2) by simp
    qed
  qed (use ih(1,2,4,5) f other other' in \<open>simp_all del: filter_filter\<close>)
qed

lemma ack_script:
  assumes "inbox_ok u ks0" and "ackAcceptedScript now (idx u) (sqk u) wanted ks0 = (n, ks')"
  shows "inbox_ok u ks'" and "live u ks' = filter (\<lambda>q. qr_message_id q \<notin> set wanted) (live u (at_time now ks0))"
    and "ks_flag ks' (seenk v d) = ks_flag (at_time now ks0) (seenk v d)" and "live u ks' = [] \<Longrightarrow> ks_counter ks' (sqk u) = 0"
proof -
  let ?ks = "at_time now ks0"
  let ?zs = "ks_zset ?ks (idx u)"
  have ok: "inbox_ok u ?ks" using inbox_at_time [OF assms(1)] by simp
  then have oks: "index_ok u ?ks" "expiry_ok u ?ks" "records_ok u ?ks" by (simp_all add: inbox_ok_def)
  have recs: "records_ok u ks0" using assms(1) by (simp add: inbox_ok_def)
  obtain m k1 where rr: "ack_refs (idx u) wanted (map fst ?zs) 0 ?ks = (m, k1)" by force
  have ks': "ks' = retention now (idx u) (sqk u) k1" using assms(2) rr by (simp add: ackAcceptedScript_def Let_def)
  have dist: "distinct (map fst ?zs)" using oks(1) by (simp add: index_ok_def Let_def)
  have nin: "idx u \<notin> set (map fst ?zs)" "sqk u \<notin> set (map fst ?zs)" "\<And>v d. seenk v d \<notin> set (map fst ?zs)"
    using index_ok_ref [OF oks(1)] by fastforce+
  let ?left = "\<lambda>r. Option.bind (ks_hash ?ks r) (acked wanted)" and ?refs = "set (map fst ?zs)"
  note sp = ack_refs_spec [OF rr dist nin(1)]
  have hash: "ks_hash k1 x = (if x \<in> ?refs then ?left x else ks_hash ?ks x)" for x using sp by blast
  have z: "ks_zset k1 (idx u) = filter (\<lambda>(r, s). ?left r \<noteq> None) ?zs"
  proof -
    have "ks_zset k1 (idx u) = filter (\<lambda>(r, s). r \<notin> ?refs \<or> ?left r \<noteq> None) ?zs" using sp by blast
    also have "\<dots> = filter (\<lambda>(r, s). ?left r \<noteq> None) ?zs" by (rule filter_cong) force+
    finally show ?thesis .
  qed
  have cnt: "ks_counter k1 (sqk u) = ks_counter ?ks (sqk u)" using sp nin(2) by blast
  have i1: "index_ok u k1" using oks(1)
    by (auto simp: index_ok_def Let_def z cnt distinct_map_filter sorted_wrt_map_filter intro: order_trans [OF length_filter_le])
  have fl: "ks_flag k1 (seenk v d) = ks_flag ?ks (seenk v d)" "ks_expiry k1 (seenk v d) = ks_expiry ?ks (seenk v d)" for v d
    using sp nin(3) [of v d] queue_keys(8) by blast+
  have h: "ks_hash k1 r = ?left r" if "(r, s) \<in> set ?zs" for r s using that by (force simp: hash)
  have hr: "ks_hash k1 x = Some q \<Longrightarrow> ks_hash ?ks x = Some q" for x q
    by (auto simp: hash bind_eq_Some_conv acked_def split: if_splits)
  have er: "ks_expiry k1 (reck u d) =
      (if ks_hash ?ks (reck u d) \<noteq> None \<and> ks_hash k1 (reck u d) = None then None else ks_expiry ?ks (reck u d))" for d
  proof (cases "reck u d \<in> ?refs")
    case True
    with sp show ?thesis by blast
  next
    case False
    then have "ks_expiry k1 (reck u d) = ks_expiry ?ks (reck u d)" using sp queue_keys(10) by blast
    with False show ?thesis by (auto simp: hash)
  qed
  have r1: "records_ok u k1" using oks(3) hr fl unfolding records_ok_def by (auto simp: er)
  have ends: "\<forall>(r, s) \<in> set (ks_zset k1 (idx u)). \<forall>q. ks_hash k1 r = Some q \<longrightarrow> ends_after now q \<and> qr_seq q = s"
  proof (intro ballI, clarify)
    fix r s q assume "(r, s) \<in> set (ks_zset k1 (idx u))" and q: "ks_hash k1 r = Some q"
    then have rs: "(r, s) \<in> set ?zs" by (simp add: z)
    then obtain d where "r = reck u d" using index_ok_ref [OF oks(1)] by blast
    then show "ends_after now q \<and> qr_seq q = s" using at_time_ends [OF recs] hr [OF q] oks(2) rs by (auto simp: expiry_ok_def Let_def dest!: bspec)
  qed
  show "inbox_ok u ks'" using retention_inbox [OF i1 r1 ends] by (simp add: ks')
  have "live u k1 = List.map_filter (\<lambda>x. Option.bind ((\<lambda>(r, s). ks_hash ?ks r) x) (acked wanted)) (filter (\<lambda>(r, s). ?left r \<noteq> None) ?zs)"
    unfolding live_def z by (rule map_filter_cong) (use h in auto)
  also have "\<dots> = List.map_filter (\<lambda>x. Option.bind ((\<lambda>(r, s). ks_hash ?ks r) x) (\<lambda>q. if qr_message_id q \<notin> set wanted then Some q else None)) ?zs"
    by (subst map_filter_keep) (auto simp: acked_def intro!: map_filter_cong arg_cong [where f = "Option.bind _"])
  finally show "live u ks' = filter (\<lambda>q. qr_message_id q \<notin> set wanted) (live u ?ks)"
    using retention_inbox [OF i1 r1 ends] by (simp add: ks' live_def map_filter_filter)
  show "ks_flag ks' (seenk v d) = ks_flag ?ks (seenk v d)" using fl by (simp add: ks' retention_def Let_def cmd_pexpireat_def)
  show "ks_counter ks' (sqk u) = 0" if "live u ks' = []"
  proof -
    have "live u k1 = []" using that retention_inbox [OF i1 r1 ends] by (simp add: ks')
    then have "\<forall>(r, s) \<in> set (ks_zset k1 (idx u)). ks_hash k1 r = None"
      by (auto simp: live_def List.map_filter_def filter_empty_conv)
    moreover have "\<forall>(r, s) \<in> set (ks_zset k1 (idx u)). ks_hash k1 r \<noteq> None" using h by (auto simp: z)
    ultimately have "ks_zset k1 (idx u) = []" by (cases "ks_zset k1 (idx u)") auto
    then show ?thesis by (simp add: ks' retention_def)
  qed
qed

section \<open>What a command leaves alone\<close>

definition frame :: "string set \<Rightarrow> keyspace \<Rightarrow> keyspace \<Rightarrow> bool" where
  "frame K a b \<longleftrightarrow> (\<forall>k. k \<notin> K \<longrightarrow> ks_zset b k = ks_zset a k \<and> ks_hash b k = ks_hash a k \<and> ks_flag b k = ks_flag a k \<and>
     ks_counter b k = ks_counter a k \<and> ks_expiry b k = ks_expiry a k \<and> ks_cursors b k = ks_cursors a k \<and> ks_list b k = ks_list a k)"

lemma frame_refl [intro]: "frame K a a"
  by (simp add: frame_def)

lemma frame_trans [trans]: "frame K a b \<Longrightarrow> frame K b c \<Longrightarrow> frame K a c"
  by (simp add: frame_def)

lemma frame_mono: "frame K a b \<Longrightarrow> K \<subseteq> L \<Longrightarrow> frame L a b"
  by (auto simp: frame_def)

lemma frame_commands:
  "frame {k} ks (cmd_del k ks)" "frame {k} ks (cmd_pexpireat now k e ks)" "frame {k} ks (cmd_persist k ks)" "frame {k} ks (cmd_zrem k m ks)"
  "frame {k} ks (cmd_zadd k s m ks)"
  by (simp_all add: frame_def cmd_pexpireat_def command_defs)

lemma frame_cmd: "k \<in> K \<Longrightarrow> frame K a b \<Longrightarrow> frame K a (cmd_del k b)" "k \<in> K \<Longrightarrow> frame K a b \<Longrightarrow> frame K a (cmd_pexpireat now k e b)"
  "k \<in> K \<Longrightarrow> frame K a b \<Longrightarrow> frame K a (cmd_persist k b)" "k \<in> K \<Longrightarrow> frame K a b \<Longrightarrow> frame K a (cmd_zrem k m b)"
  "k \<in> K \<Longrightarrow> frame K a b \<Longrightarrow> frame K a (cmd_zadd k s m b)"
  by (rule frame_trans, assumption, rule frame_mono [OF frame_commands(1)] frame_mono [OF frame_commands(2)] frame_mono [OF frame_commands(3)]
      frame_mono [OF frame_commands(4)] frame_mono [OF frame_commands(5)], simp)+

lemma frame_retention: "k1 \<in> K \<Longrightarrow> k4 \<in> K \<Longrightarrow> frame K a b \<Longrightarrow> frame K a (retention now k1 k4 b)"
  by (simp add: retention_def Let_def frame_cmd)

lemma frame_prune: "k1 \<in> K \<Longrightarrow> frame K a b \<Longrightarrow> frame K a (prune k1 b)"
proof -
  assume k1: "k1 \<in> K"
  have "frame K a b \<Longrightarrow> frame K a (foldl (\<lambda>s ref. if ks_hash s ref = None then cmd_zrem k1 ref s else s) b rs)" for rs
    by (induction rs arbitrary: b) (simp_all add: frame_cmd(4) [OF k1])
  then show "frame K a b \<Longrightarrow> frame K a (prune k1 b)" by (simp add: prune_def)
qed

lemma frame_accept:
  "frame {k1, k2, k3, k4} (at_time now ks) (snd (acceptRecipientScript now k1 k2 k3 k4 i env sc ex mx ks))"
proof -
  let ?K = "{k1, k2, k3, k4}"
  have p: "frame ?K (at_time now ks) (prune k1 (at_time now ks))" by (simp add: frame_prune frame_refl)
  moreover have "frame ?K a (b\<lparr>ks_counter := (ks_counter b)(k4 := n), ks_hash := (ks_hash b)(k3 \<mapsto> q), ks_flag := (ks_flag b)(k2 := True)\<rparr>)"
    if "frame ?K a b" for a b n q using that by (simp add: frame_def)
  ultimately show ?thesis
    by (auto simp: acceptRecipientScript_def Let_def split: option.split intro!: frame_retention frame_cmd)
qed

lemma frame_read_refs: "k1 \<in> K \<Longrightarrow> frame K a b \<Longrightarrow> frame K a (snd (read_refs k1 n False refs out b))"
  by (induction refs arbitrary: out b) (auto simp: frame_cmd split: option.split)

lemma frame_read: "frame {k1, k2} (at_time now ks) (snd (readAcceptedScript now k1 k2 after n ks))"
  using frame_read_refs [of k1 "{k1, k2}" "at_time now ks" "at_time now ks" n "refs_after after (ks_zset (at_time now ks) k1)" "[]"]
  by (auto simp: readAcceptedScript_def Let_def frame_refl split: prod.split intro!: frame_cmd)

lemma frame_ack_refs: "k1 \<in> K \<Longrightarrow> set refs \<subseteq> K \<Longrightarrow> frame K a b \<Longrightarrow> frame K a (snd (ack_refs k1 wanted refs m b))"
  by (induction refs arbitrary: m b) (auto simp: frame_cmd split: option.split)

lemma frame_ack:
  "frame ({k1, k2} \<union> fst ` set (ks_zset (at_time now ks) k1)) (at_time now ks) (snd (ackAcceptedScript now k1 k2 wanted ks))"
proof -
  let ?K = "{k1, k2} \<union> fst ` set (ks_zset (at_time now ks) k1)"
  have "frame ?K (at_time now ks) (snd (ack_refs k1 wanted (map fst (ks_zset (at_time now ks) k1)) 0 (at_time now ks)))"
    by (rule frame_ack_refs) auto
  then show ?thesis by (auto simp: ackAcceptedScript_def Let_def split: prod.split intro!: frame_retention)
qed

text \<open>The keys of a recipient's queue and those of its poll cursors.\<close>

definition queue_keys_of :: "uin \<Rightarrow> string set" where
  "queue_keys_of u = {idx u, sqk u} \<union> range (seenk u) \<union> range (reck u)"

lemma cursor_keys [simp]:
  "pollCursorHashKey u \<notin> queue_keys_of v" "pollCursorOrderKey u \<notin> queue_keys_of v"
  "pollCursorHashKey u \<noteq> pollCursorOrderKey v" "pollCursorOrderKey v \<noteq> pollCursorHashKey u"
  "pollCursorHashKey u = pollCursorHashKey v \<longleftrightarrow> u = v" "pollCursorOrderKey u = pollCursorOrderKey v \<longleftrightarrow> u = v"
  by (auto simp: queue_keys_of_def pollCursorHashKey_def pollCursorOrderKey_def idx_def sqk_def seenk_def reck_def dest: itoa_inj)

lemma frame_inbox: "frame K a b \<Longrightarrow> K \<inter> queue_keys_of u = {} \<Longrightarrow> inbox_eq u a b"
  unfolding frame_def inbox_eq_def queue_keys_of_def by (auto simp: disjoint_iff)

end
