(* ===== verification/QueueProperties.thy ===== *)
theory QueueProperties
  imports QueueInvariant
begin

text \<open>
  What the recipient queue of \<^verbatim>\<open>recipient_acceptance.go\<close> promises: it refines a mailbox that keeps its messages in the
  order of their acceptance; a message is accepted once and stays until its recipient acknowledges it or its time is over; a poll
  cursor is used once and a recipient has few of them.
\<close>

section \<open>Operations on the key space\<close>

datatype queue_op =
    OpAccept outcome gotime RecipientAcceptance
  | OpRead outcome RecipientAcceptanceScope string int
  | OpAck outcome uin "string list"
  | OpIssue outcome uin string string
  | OpAdvance outcome uin string string string
  | OpConsume outcome uin string

fun run_op :: "(bytes \<Rightarrow> bytes) \<Rightarrow> int \<Rightarrow> queue_op \<Rightarrow> keyspace \<Rightarrow> keyspace" where
  "run_op sha now (OpAccept out clock a) ks = snd (Accept sha out clock now a ks)"
| "run_op sha now (OpRead out scope after count) ks = snd (ReadAcceptedAfter out now scope after count ks)"
| "run_op sha now (OpAck out u ids) ks = snd (AckRecipient out now u ids ks)"
| "run_op sha now (OpIssue out u token v) ks = snd (issueCursor out now u token v ks)"
| "run_op sha now (OpAdvance out u old new v) ks = snd (advanceCursor out now u old new v ks)"
| "run_op sha now (OpConsume out u token) ks = snd (consumeCursor out now u token ks)"

inductive queue_reachable :: "(bytes \<Rightarrow> bytes) \<Rightarrow> keyspace \<Rightarrow> bool" for sha where
  start: "queue_reachable sha ks_empty"
| step: "queue_reachable sha ks \<Longrightarrow> queue_reachable sha (run_op sha now op ks)"


section \<open>The mailbox a recipient has\<close>

text \<open>The messages, oldest first, without their numbers, and the marks of what has been accepted.\<close>

record mailbox =
  mb_msgs :: "queue_record list"
  mb_seen :: "string \<Rightarrow> bool"

definition content :: "queue_record \<Rightarrow> queue_record" where
  "content q = q\<lparr>qr_seq := 0\<rparr>"

definition mailbox_at :: "int \<Rightarrow> uin \<Rightarrow> keyspace \<Rightarrow> mailbox" where
  "mailbox_at now u ks = \<lparr>mb_msgs = map content (live u (at_time now ks)), mb_seen = (\<lambda>d. ks_flag (at_time now ks) (seenk u d))\<rparr>"

definition mb_accept :: "int \<Rightarrow> string \<Rightarrow> queue_record \<Rightarrow> mailbox \<Rightarrow> (queue_error + bool) \<times> mailbox" where
  "mb_accept now d c mb =
     (if mb_seen mb d then (Inr False, mb)
      else if length (mb_msgs mb) \<ge> recipientAcceptanceMaxActive then (Inl ErrAcceptanceQueueFull, mb)
      else (Inr True, if ends_after now c then \<lparr>mb_msgs = mb_msgs mb @ [c], mb_seen = (mb_seen mb)(d := True)\<rparr> else mb))"

definition mb_ack :: "string list \<Rightarrow> mailbox \<Rightarrow> mailbox" where
  "mb_ack ids mb = mb\<lparr>mb_msgs := filter (\<lambda>c. qr_message_id c \<notin> set ids) (mb_msgs mb)\<rparr>"

text \<open>The requests the store acts on, what an acceptance adds and under which mark.\<close>

definition acceptable :: "gotime \<Rightarrow> RecipientAcceptance \<Rightarrow> bool" where
  "acceptable clock a \<longleftrightarrow> 0 < sc_recipientUIN (ra_Scope a) \<and> sc_seenScope (ra_Scope a) \<noteq> [] \<and> TrimSpace (ra_MessageID a) \<noteq> [] \<and>
     ra_Envelope a \<noteq> [] \<and> (case ra_ExpiresAt a of None \<Rightarrow> True | Some e \<Rightarrow> clock < e)"

definition message_of :: "RecipientAcceptance \<Rightarrow> queue_record" where
  "message_of a = \<lparr>qr_message_id = ra_MessageID a, qr_envelope = ra_Envelope a, qr_scope = sc_seenScope (ra_Scope a), qr_seq = 0,
     qr_expires = map_option unix_milli (ra_ExpiresAt a)\<rparr>"

definition mark_of :: "(bytes \<Rightarrow> bytes) \<Rightarrow> RecipientAcceptance \<Rightarrow> string" where
  "mark_of sha a = acceptanceDigest sha (ra_Scope a) (ra_MessageID a)"

text \<open>What an operation does to the mailbox of \<open>u\<close>.\<close>

fun mb_op :: "(bytes \<Rightarrow> bytes) \<Rightarrow> int \<Rightarrow> uin \<Rightarrow> queue_op \<Rightarrow> mailbox \<Rightarrow> mailbox" where
  "mb_op sha now u (OpAccept out clock a) mb =
     (if acceptable clock a \<and> sc_recipientUIN (ra_Scope a) = u \<and> took_effect out then snd (mb_accept now (mark_of sha a) (message_of a) mb) else mb)"
| "mb_op sha now u (OpAck out v ids) mb =
     (if v = u \<and> 0 < u \<and> took_effect out \<and> (\<forall>i \<in> set ids. TrimSpace i \<noteq> []) then mb_ack ids mb else mb)"
| "mb_op sha now u _ mb = mb"


section \<open>Refinement\<close>

lemma expired_at_time: "expired_key t (at_time now ks) k \<longleftrightarrow> \<not> expired_key now ks k \<and> expired_key t ks k"
  by (simp add: expired_key_def at_time_sel)

lemma at_time_idem [simp]: "at_time now (at_time now ks) = at_time now ks"
  by (rule keyspace.equality) (auto simp: at_time_def drop_keys_def expired_key_def fun_eq_iff split: option.splits)

lemma at_time_later: "now \<le> t \<Longrightarrow> at_time t (at_time now ks) = at_time t ks"
  by (rule keyspace.equality) (auto simp: at_time_def drop_keys_def expired_key_def fun_eq_iff split: option.splits)

lemma ends_after_content [simp]: "ends_after now (content q) = ends_after now q" "qr_message_id (content q) = qr_message_id q"
  by (simp_all add: content_def ends_after_def)

text \<open>Nothing in a state the operations leave is over: the expiry they set is in the future.\<close>

lemma frame_at_time:
  assumes "frame K (at_time now ks) b" and "k \<notin> K"
  shows "\<not> expired_key now b k"
  using assms expired_at_time [of now now ks k] by (simp add: frame_def expired_key_def)

lemma live_at_time: "inbox_ok u ks \<Longrightarrow> \<forall>q \<in> set (live u ks). ends_after now q \<Longrightarrow> live u (at_time now ks) = live u ks"
  using inbox_at_time by simp

lemma live_ends: "inbox_ok u ks \<Longrightarrow> q \<in> set (live u (at_time now ks)) \<Longrightarrow> ends_after now q"
  using inbox_at_time by force

text \<open>A script of another recipient leaves a mailbox as it is.\<close>

lemma mailbox_frame:
  assumes "inbox_ok u ks" and "frame K (at_time now ks) b" and "K \<inter> queue_keys_of u = {}"
  shows "inbox_ok u b \<and> mailbox_at now u b = mailbox_at now u ks"
proof -
  have eq: "inbox_eq u (at_time now ks) b" using frame_inbox [OF assms(2,3)] .
  moreover have "inbox_ok u (at_time now ks)" using inbox_at_time assms(1) by blast
  ultimately have ok: "inbox_ok u b" and l: "live u b = live u (at_time now ks)" using inbox_ok_eq by blast+
  have "live u (at_time now b) = live u b" using live_at_time [OF ok] live_ends [OF assms(1)] l by simp
  moreover have "ks_flag (at_time now b) (seenk u d) = ks_flag (at_time now ks) (seenk u d)" for d
    using frame_at_time [OF assms(2), of "seenk u d"] assms(3) eq by (auto simp: at_time_sel queue_keys_of_def inbox_eq_def)
  ultimately show ?thesis using ok l by (simp add: mailbox_at_def)
qed

lemma mailbox_accept:
  fixes ks :: keyspace
  assumes ok: "inbox_ok u ks" and c: "c = \<lparr>qr_message_id = i, qr_envelope = env, qr_scope = sc, qr_seq = 0, qr_expires = ex\<rparr>"
    and run: "acceptRecipientScript now (idx u) (seenk u d) (reck u d) (sqk u) i env sc ex recipientAcceptanceMaxActive ks = (n, ks')"
  shows "inbox_ok u ks' \<and> mailbox_at now u ks' = snd (mb_accept now d c (mailbox_at now u ks)) \<and>
    (n \<noteq> - 1 \<longrightarrow> fst (mb_accept now d c (mailbox_at now u ks)) = Inr (n = 1)) \<and>
    (n = - 1 \<longrightarrow> fst (mb_accept now d c (mailbox_at now u ks)) = Inl ErrAcceptanceQueueFull)"
proof -
  let ?ks = "at_time now ks" and ?K = "{idx u, seenk u d, reck u d, sqk u}"
  have fr: "frame ?K ?ks ks'" using frame_accept [of "idx u" "seenk u d" "reck u d" "sqk u" now ks] run by (metis snd_conv)
  have other: "ks_flag (at_time now ks') (seenk u e) = ks_flag ?ks (seenk u e)" if "e \<noteq> d" for e
    using frame_at_time [OF fr, of "seenk u e"] that fr by (simp add: at_time_sel frame_def)
  have ok': "inbox_ok u ?ks" using inbox_at_time [OF ok] by simp
  show ?thesis
  proof (rule accept_script [OF ok, where now = now and d = d and i = i and env = env and sc = sc and ex = ex])
    assume "ks_flag ?ks (seenk u d)"
      "acceptRecipientScript now (idx u) (seenk u d) (reck u d) (sqk u) i env sc ex recipientAcceptanceMaxActive ks = (0, ?ks)"
    then show ?thesis using run ok' by (simp add: mailbox_at_def mb_accept_def)
  next
    fix k1
    assume a: "\<not> ks_flag ?ks (seenk u d)" "inbox_ok u k1" "live u k1 = live u ?ks" "length (live u k1) = recipientAcceptanceMaxActive"
        "ks_flag k1 = ks_flag ?ks"
      and "acceptRecipientScript now (idx u) (seenk u d) (reck u d) (sqk u) i env sc ex recipientAcceptanceMaxActive ks = (-1, k1)"
    then have k: "k1 = ks'" "n = -1" using run by auto
    have l: "live u (at_time now ks') = live u ?ks" using live_at_time [of u ks' now] live_ends [OF ok] a k by simp
    have "ks_flag (at_time now ks') (seenk u e) = ks_flag ?ks (seenk u e)" for e
      using other a(1,5) k(1) by (cases "e = d") (auto simp: at_time_sel)
    with l a k show ?thesis by (simp add: mailbox_at_def mb_accept_def)
  next
    fix k1 q
    assume a: "\<not> ks_flag ?ks (seenk u d)" "inbox_ok u k1" "live u k1 = live u ?ks @ (if ends_after now q then [q] else [])"
        "qr_message_id q = i" "qr_envelope q = env" "qr_scope q = sc" "qr_expires q = ex"
        "qr_seq q = ks_counter ?ks (sqk u) + 1" "ks_flag k1 (seenk u d) = ends_after now q"
        "ks_expiry k1 (seenk u d) = (if ends_after now q then ex else None)" "length (live u ?ks) < recipientAcceptanceMaxActive"
      and "acceptRecipientScript now (idx u) (seenk u d) (reck u d) (sqk u) i env sc ex recipientAcceptanceMaxActive ks = (1, k1)"
    then have k: "k1 = ks'" "n = 1" using run by auto
    have "\<forall>p \<in> set (live u ks'). ends_after now p" using a(3) k(1) live_ends [OF ok] by (auto split: if_splits)
    with live_at_time a(2) k(1) have l: "live u (at_time now ks') = live u ks'" by blast
    have cq: "content q = c" using a(4-7) by (simp add: content_def c)
    have "ks_flag (at_time now ks') (seenk u e) = (if e = d then ends_after now q else ks_flag ?ks (seenk u e))" for e
      using other a(7,9,10) k(1) by (cases "e = d") (auto simp: at_time_sel expired_key_def ends_after_def split: option.splits if_splits)
    moreover have "ends_after now c = ends_after now q" using cq ends_after_content(1) by metis
    ultimately show ?thesis using a(1-3,11) k l by (cases "ends_after now q") (simp_all add: mailbox_at_def mb_accept_def fun_eq_iff cq)
  qed
qed

lemma mailbox_read:
  assumes ok: "inbox_ok u ks" and run: "readAcceptedScript now (idx u) (sqk u) after n ks = (out, ks')"
  shows "inbox_ok u ks' \<and> mailbox_at now u ks' = mailbox_at now u ks"
proof -
  note rd = read_script [OF assms]
  have fr: "frame {idx u, sqk u} (at_time now ks) ks'" using frame_read [of "idx u" "sqk u" now ks after n] run by simp
  have "live u (at_time now ks') = live u (at_time now ks)" using live_at_time [OF rd(1)] live_ends [OF ok] rd(2) by simp
  moreover have "ks_flag (at_time now ks') (seenk u e) = ks_flag (at_time now ks) (seenk u e)" for e
    using frame_at_time [OF fr, of "seenk u e"] rd(4) by (simp add: at_time_sel)
  ultimately show ?thesis using rd(1) by (simp add: mailbox_at_def)
qed

lemma ack_frame:
  assumes "inbox_ok u ks" and "ackAcceptedScript now (idx u) (sqk u) ids ks = (n, ks')"
  shows "frame ({idx u, sqk u} \<union> range (reck u)) (at_time now ks) ks'"
proof -
  have "index_ok u (at_time now ks)" using inbox_at_time [OF assms(1)] by (simp add: inbox_ok_def)
  then have "fst ` set (ks_zset (at_time now ks) (idx u)) \<subseteq> range (reck u)" by (auto dest: index_ok_ref)
  with frame_ack [of "idx u" "sqk u" now ks ids] assms(2) show ?thesis by (auto elim!: frame_mono)
qed

lemma mailbox_ack:
  assumes ok: "inbox_ok u ks" and run: "ackAcceptedScript now (idx u) (sqk u) ids ks = (n, ks')"
  shows "inbox_ok u ks' \<and> mailbox_at now u ks' = mb_ack ids (mailbox_at now u ks)"
proof -
  note ak = ack_script [OF assms]
  have "live u (at_time now ks') = live u ks'" using live_at_time [OF ak(1)] live_ends [OF ok] ak(2) by simp
  moreover have "ks_flag (at_time now ks') (seenk u e) = ks_flag (at_time now ks) (seenk u e)" for e
  proof -
    have "seenk u e \<notin> {idx u, sqk u} \<union> range (reck u)" by auto
    with frame_at_time [OF ack_frame [OF assms]] have "\<not> expired_key now ks' (seenk u e)" by blast
    with ak(3) show ?thesis by (simp add: at_time_sel)
  qed
  ultimately show ?thesis using ak by (simp add: mailbox_at_def mb_ack_def filter_map comp_def)
qed

lemma disjoint_queue_keys: "u \<noteq> v \<Longrightarrow> queue_keys_of v \<inter> queue_keys_of u = {}"
  by (auto simp: queue_keys_of_def)

lemma Accept_run:
  obtains "\<not> (acceptable clock a \<and> took_effect out)" "snd (Accept sha out clock now a ks) = ks"
  | n ks' where "acceptable clock a" "took_effect out" "snd (Accept sha out clock now a ks) = ks'"
    "acceptRecipientScript now (idx (sc_recipientUIN (ra_Scope a))) (seenk (sc_recipientUIN (ra_Scope a)) (mark_of sha a))
       (reck (sc_recipientUIN (ra_Scope a)) (mark_of sha a)) (sqk (sc_recipientUIN (ra_Scope a))) (ra_MessageID a) (ra_Envelope a)
       (sc_seenScope (ra_Scope a)) (map_option unix_milli (ra_ExpiresAt a)) recipientAcceptanceMaxActive ks = (n, ks')"
    "\<not> failed out \<Longrightarrow> fst (Accept sha out clock now a ks) = (if n = -1 then Inl ErrAcceptanceQueueFull else Inr (n = 1))"
proof -
  let ?u = "sc_recipientUIN (ra_Scope a)"
  obtain n ks' where run: "acceptRecipientScript now (idx ?u) (seenk ?u (mark_of sha a))
       (reck ?u (mark_of sha a)) (sqk ?u) (ra_MessageID a) (ra_Envelope a)
       (sc_seenScope (ra_Scope a)) (map_option unix_milli (ra_ExpiresAt a)) recipientAcceptanceMaxActive ks = (n, ks')" by force
  have acc: "Accept sha out clock now a ks =
      (if \<not> acceptable clock a then (Inl (if ?u \<le> 0 \<or> sc_seenScope (ra_Scope a) = [] \<or> TrimSpace (ra_MessageID a) = [] \<or> ra_Envelope a = [] then ErrInvalidAcceptance else ErrAcceptanceExpired), ks)
       else if failed out then (Inl ErrQueueRedis, if took_effect out then ks' else ks)
       else if n = -1 then (Inl ErrAcceptanceQueueFull, ks') else (Inr (n = 1), ks'))"
    unfolding Accept_def Let_def scope_keys run [unfolded mark_of_def] prod.case by (auto simp: acceptable_def split: option.splits)
  show thesis
  proof (cases "acceptable clock a \<and> took_effect out")
    case True
    then show thesis using run by (intro that(2)) (auto simp: acc)
  next
    case False
    then have "snd (Accept sha out clock now a ks) = ks" unfolding acc by (cases out) simp_all
    with False show thesis by (rule that(1))
  qed
qed

lemma cursor_frames:
  "frame {pollCursorHashKey u, pollCursorOrderKey u} (at_time now ks) (issueCursorScript now (pollCursorHashKey u) (pollCursorOrderKey u) token v ks)"
  "frame {pollCursorHashKey u, pollCursorOrderKey u} (at_time now ks)
     (snd (advanceCursorScript now (pollCursorHashKey u) (pollCursorOrderKey u) old new v ks))"
  "frame {pollCursorHashKey u, pollCursorOrderKey u} a (drop_cursor (pollCursorHashKey u) (pollCursorOrderKey u) token a)"
proof -
  let ?K = "{pollCursorHashKey u, pollCursorOrderKey u}"
  have put: "frame ?K a b \<Longrightarrow> frame ?K a (put_cursor now (pollCursorHashKey u) (pollCursorOrderKey u) t w b)" for a b t w
    by (auto simp: put_cursor_def Let_def split: prod.split intro!: frame_cmd) (simp add: frame_def)
  show drop: "frame ?K a (drop_cursor (pollCursorHashKey u) (pollCursorOrderKey u) token a)" for a token by (simp add: frame_def drop_cursor_def)
  show "frame ?K (at_time now ks) (issueCursorScript now (pollCursorHashKey u) (pollCursorOrderKey u) token v ks)"
    by (simp add: issueCursorScript_def put frame_refl)
  show "frame ?K (at_time now ks) (snd (advanceCursorScript now (pollCursorHashKey u) (pollCursorOrderKey u) old new v ks))"
    by (auto simp: advanceCursorScript_def Let_def intro!: put drop frame_refl split: option.split)
qed

text \<open>The keys an operation may touch.\<close>

fun op_keys :: "(bytes \<Rightarrow> bytes) \<Rightarrow> queue_op \<Rightarrow> string set" where
  "op_keys sha (OpAccept out clock a) = (let v = sc_recipientUIN (ra_Scope a) in {idx v, seenk v (mark_of sha a), reck v (mark_of sha a), sqk v})"
| "op_keys sha (OpRead out scope after count) = {idx (sc_recipientUIN scope), sqk (sc_recipientUIN scope)}"
| "op_keys sha (OpAck out v ids) = {idx v, sqk v} \<union> range (reck v)"
| "op_keys sha (OpIssue out v t w) = {pollCursorHashKey v, pollCursorOrderKey v}"
| "op_keys sha (OpAdvance out v t' t w) = {pollCursorHashKey v, pollCursorOrderKey v}"
| "op_keys sha (OpConsume out v t) = {pollCursorHashKey v, pollCursorOrderKey v}"

lemma run_op_frame:
  assumes ok: "\<And>out v ids. op = OpAck out v ids \<Longrightarrow> inbox_ok v ks"
  shows "run_op sha now op ks = ks \<or> frame (op_keys sha op) (at_time now ks) (run_op sha now op ks)"
proof (cases op)
  case (OpAccept out clock a)
  let ?v = "sc_recipientUIN (ra_Scope a)"
  show ?thesis
    by (rule Accept_run [of clock a out sha now ks])
       (use frame_accept [of "idx ?v" "seenk ?v (mark_of sha a)" "reck ?v (mark_of sha a)" "sqk ?v" now ks] in
        \<open>simp_all add: OpAccept Let_def, metis snd_conv\<close>)
next
  case (OpRead out scope after count)
  let ?v = "sc_recipientUIN scope"
  obtain r k1 where run: "readAcceptedScript now (idx ?v) (sqk ?v) (if after = [] then None else ParseUint 64 after) (nat count) ks = (r, k1)" by force
  have "run_op sha now op ks = ks \<or> run_op sha now op ks = k1"
    using run by (auto simp: OpRead ReadAcceptedAfter_def readOrDrain_def Let_def scope_keys)
  moreover have "frame {idx ?v, sqk ?v} (at_time now ks) k1" using frame_read [of "idx ?v" "sqk ?v" now ks] run by (metis snd_conv)
  ultimately show ?thesis by (auto simp: OpRead)
next
  case (OpAck out v ids)
  obtain n k1 where run: "ackAcceptedScript now (idx v) (sqk v) ids ks = (n, k1)" by force
  have "run_op sha now op ks = ks \<or> run_op sha now op ks = k1"
    using run by (cases out) (auto simp: OpAck AckRecipient_def DirectRecipientScope_def Let_def scope_keys list_ex_iff)
  with ack_frame [OF ok [OF OpAck] run] show ?thesis by (auto simp: OpAck)
next
  case (OpIssue out u t v)
  then show ?thesis using cursor_frames(1) [of u now ks t v] by (simp add: issueCursor_def Let_def)
next
  case (OpAdvance out u t' t v)
  obtain n k1 where adv: "advanceCursorScript now (pollCursorHashKey u) (pollCursorOrderKey u) t' t v ks = (n, k1)" by force
  with cursor_frames(2) [of u now ks t' t v] show ?thesis by (simp add: OpAdvance advanceCursor_def)
next
  case (OpConsume out u t)
  then show ?thesis using cursor_frames(3) [of u "at_time now ks" t] by (simp add: consumeCursor_def Let_def frame_refl split: option.split)
qed

text \<open>The recipient an operation on a queue is for.\<close>

fun op_for :: "queue_op \<Rightarrow> uin option" where
  "op_for (OpAccept out clock a) = Some (sc_recipientUIN (ra_Scope a))"
| "op_for (OpRead out scope after count) = Some (sc_recipientUIN scope)"
| "op_for (OpAck out v ids) = Some v"
| "op_for _ = None"

lemma op_keys_other: "op_for op \<noteq> Some u \<Longrightarrow> op_keys sha op \<inter> queue_keys_of u = {}"
  using disjoint_queue_keys by (cases op) (auto simp: queue_keys_of_def Let_def, (metis cursor_keys(1,2) queue_keys_of_def Un_iff insertI1 insertI2 rangeI)+)

lemma run_op_refines:
  assumes ok: "\<And>u. inbox_ok u ks"
  shows "inbox_ok u (run_op sha now op ks) \<and> mailbox_at now u (run_op sha now op ks) = mb_op sha now u op (mailbox_at now u ks)"
proof (cases "op_for op = Some u")
  case False
  then have "mb_op sha now u op mb = mb" for mb by (cases op) auto
  with run_op_frame [OF ok, of sha now op] mailbox_frame [OF ok _ op_keys_other [OF False]] ok show ?thesis by metis
next
  case True
  show ?thesis
  proof (cases op)
    case (OpAccept out clock a)
    show ?thesis
    proof (rule Accept_run [of clock a out sha now ks])
      assume "\<not> (acceptable clock a \<and> took_effect out)" "snd (Accept sha out clock now a ks) = ks"
      then show ?thesis using ok by (auto simp: OpAccept)
    next
      fix n ks'
      let ?v = "sc_recipientUIN (ra_Scope a)"
      assume e: "acceptable clock a" "took_effect out" "snd (Accept sha out clock now a ks) = ks'"
        and run: "acceptRecipientScript now (idx ?v) (seenk ?v (mark_of sha a)) (reck ?v (mark_of sha a)) (sqk ?v) (ra_MessageID a) (ra_Envelope a)
         (sc_seenScope (ra_Scope a)) (map_option unix_milli (ra_ExpiresAt a)) recipientAcceptanceMaxActive ks = (n, ks')"
      from mailbox_accept [OF ok message_of_def run] e True show ?thesis by (simp add: OpAccept)
    qed
  next
    case (OpRead out scope after count)
    then have u: "sc_recipientUIN scope = u" using True by simp
    obtain r ks' where run: "readAcceptedScript now (idx u) (sqk u) (if after = [] then None else ParseUint 64 after) (nat count) ks = (r, ks')" by force
    have "run_op sha now op ks = ks \<or> run_op sha now op ks = ks'"
      using run by (auto simp: OpRead ReadAcceptedAfter_def readOrDrain_def Let_def scope_keys u)
    with mailbox_read [OF ok run] ok show ?thesis by (auto simp: OpRead)
  next
    case (OpAck out v ids)
    then have u: "v = u" using True by simp
    obtain n ks' where run: "ackAcceptedScript now (idx u) (sqk u) ids ks = (n, ks')" by force
    have r: "run_op sha now op ks = (if 0 < u \<and> ids \<noteq> [] \<and> (\<forall>i \<in> set ids. TrimSpace i \<noteq> []) \<and> took_effect out then ks' else ks)"
      using run by (cases out) (auto simp: OpAck u AckRecipient_def DirectRecipientScope_def Let_def scope_keys list_ex_iff)
    moreover have "mb_ack [] mb = mb" for mb by (simp add: mb_ack_def)
    ultimately show ?thesis using ok mailbox_ack [OF ok run] by (auto simp: OpAck u)
  qed (use True in simp_all)
qed

lemma queue_reachable_inbox: "queue_reachable sha ks \<Longrightarrow> inbox_ok u ks"
  by (induction arbitrary: u rule: queue_reachable.induct) (simp_all add: inbox_empty run_op_refines)

lemma Accept_reply:
  assumes "inbox_ok (sc_recipientUIN (ra_Scope a)) ks" and "acceptable clock a"
  shows "fst (Accept sha Done clock now a ks) =
    fst (mb_accept now (mark_of sha a) (message_of a) (mailbox_at now (sc_recipientUIN (ra_Scope a)) ks))"
proof (rule Accept_run [of clock a Done sha now ks])
  fix n ks'
  assume run: "acceptRecipientScript now (idx (sc_recipientUIN (ra_Scope a))) (seenk (sc_recipientUIN (ra_Scope a)) (mark_of sha a))
       (reck (sc_recipientUIN (ra_Scope a)) (mark_of sha a)) (sqk (sc_recipientUIN (ra_Scope a))) (ra_MessageID a) (ra_Envelope a)
       (sc_seenScope (ra_Scope a)) (map_option unix_milli (ra_ExpiresAt a)) recipientAcceptanceMaxActive ks = (n, ks')"
    and "\<not> failed Done \<Longrightarrow> fst (Accept sha Done clock now a ks) = (if n = -1 then Inl ErrAcceptanceQueueFull else Inr (n = 1))"
  with mailbox_accept [OF assms(1) message_of_def run] show ?thesis by simp
qed (use assms in simp)

text \<open>What a reply to a reader says of a message.\<close>

definition entry_of :: "AcceptedEnvelope \<Rightarrow> string \<times> bytes \<times> string" where
  "entry_of e = (ae_MessageID e, ae_Envelope e, ae_Scope e)"

definition entry :: "queue_record \<Rightarrow> string \<times> bytes \<times> string" where
  "entry c = (qr_message_id c, qr_envelope c, qr_scope c)"

definition valid_scope :: "RecipientAcceptanceScope \<Rightarrow> bool" where
  "valid_scope scope \<longleftrightarrow> 0 < sc_recipientUIN scope \<and> sc_seenScope scope \<noteq> []"

lemma entry_content [simp]: "entry (content q) = entry q" "entry_of (accepted_of q) = entry q"
  by (simp_all add: entry_def content_def entry_of_def accepted_of_def)

lemma page_map: "page n (map f xs) = map f (page n xs)"
  by (simp add: page_def take_map)

text \<open>A reader that starts at the beginning, or after a number.\<close>

lemma ReadAcceptedAfter_reply:
  assumes "inbox_ok (sc_recipientUIN scope) ks" and "valid_scope scope" and "0 \<le> count"
  shows "fst (ReadAcceptedAfter Done now scope [] count ks) =
      Inr (map accepted_of (page (nat count) (live (sc_recipientUIN scope) (at_time now ks))))"
    and "after \<noteq> [] \<Longrightarrow> ParseUint 64 after = Some k \<Longrightarrow> fst (ReadAcceptedAfter Done now scope after count ks) =
      Inr (map accepted_of (page (nat count) (filter (\<lambda>q. k < qr_seq q) (live (sc_recipientUIN scope) (at_time now ks)))))"
proof -
  let ?u = "sc_recipientUIN scope"
  have rd: "fst (readAcceptedScript now (idx ?u) (sqk ?u) cur n ks) = page n (filter (after_cursor cur) (live ?u (at_time now ks)))" for cur n
    using read_script(3) [OF assms(1)] by (metis prod.collapse)
  have all: "filter (after_cursor None) xs = xs" "filter (after_cursor (Some k)) xs = filter (\<lambda>q. k < qr_seq q) xs" for xs k
    by (auto simp: after_cursor_def filter_id_conv intro!: filter_cong)
  show "fst (ReadAcceptedAfter Done now scope [] count ks) = Inr (map accepted_of (page (nat count) (live ?u (at_time now ks))))"
    using assms(2,3) rd [of None "nat count"] by (auto simp: ReadAcceptedAfter_def readOrDrain_def Let_def scope_keys valid_scope_def all split: prod.splits)
  show "after \<noteq> [] \<Longrightarrow> ParseUint 64 after = Some k \<Longrightarrow> fst (ReadAcceptedAfter Done now scope after count ks) =
      Inr (map accepted_of (page (nat count) (filter (\<lambda>q. k < qr_seq q) (live ?u (at_time now ks)))))"
    using assms(2,3) rd [of "Some k" "nat count"] by (auto simp: ReadAcceptedAfter_def readOrDrain_def Let_def scope_keys valid_scope_def all split: prod.splits)
qed

text \<open>C11: The recipient queue refines a mailbox: in every reachable state of the key space each operation, of any recipient and with any
  outcome of the call to Redis, changes the mailbox of a recipient as the mailbox's own operation does; an acceptance answers as the mailbox
  does, a reader that starts at the beginning gets the messages in the order of their acceptance, a mailbox has at most 1000 messages, and as
  time passes exactly those whose time is over leave it.\<close>

theorem queue_refines_mailbox:
  assumes "queue_reachable sha ks"
  shows "mailbox_at now u (run_op sha now op ks) = mb_op sha now u op (mailbox_at now u ks) \<and>
    (acceptable clock a \<longrightarrow> fst (Accept sha Done clock now a ks) =
       fst (mb_accept now (mark_of sha a) (message_of a) (mailbox_at now (sc_recipientUIN (ra_Scope a)) ks))) \<and>
    (valid_scope scope \<and> 0 \<le> count \<longrightarrow> (\<exists>out. fst (ReadAcceptedAfter Done now scope [] count ks) = Inr out \<and>
       map entry_of out = page (nat count) (map entry (mb_msgs (mailbox_at now (sc_recipientUIN scope) ks))))) \<and>
    length (mb_msgs (mailbox_at now u ks)) \<le> 1000 \<and>
    (now \<le> later \<longrightarrow> mb_msgs (mailbox_at later u ks) = filter (ends_after later) (mb_msgs (mailbox_at now u ks)))"
proof -
  note ok = queue_reachable_inbox [OF assms]
  have "map (entry_of \<circ> accepted_of) xs = map (entry \<circ> content) xs" for xs by simp
  then have rd: "\<exists>out. fst (ReadAcceptedAfter Done now scope [] count ks) = Inr out \<and>
       map entry_of out = page (nat count) (map entry (mb_msgs (mailbox_at now (sc_recipientUIN scope) ks)))" if "valid_scope scope" "0 \<le> count"
    using ReadAcceptedAfter_reply(1) [OF ok that] by (simp add: mailbox_at_def page_map)
  have "length (live u (at_time now ks)) \<le> length (ks_zset (at_time now ks) (idx u))" by (simp add: live_def List.map_filter_def)
  also have "\<dots> \<le> 1000" using inbox_at_time [OF ok, of u now] by (simp add: inbox_ok_def index_ok_def Let_def recipientAcceptanceMaxActive_def)
  finally have len: "length (mb_msgs (mailbox_at now u ks)) \<le> 1000" by (simp add: mailbox_at_def)
  have "mb_msgs (mailbox_at later u ks) = filter (ends_after later) (mb_msgs (mailbox_at now u ks))" if "now \<le> later"
  proof -
    have "live u (at_time later ks) = filter (ends_after later) (live u (at_time now ks))"
      using inbox_at_time [of u "at_time now ks" later] inbox_at_time [OF ok, of u now] at_time_later [OF that] by simp
    then show ?thesis by (simp add: mailbox_at_def filter_map comp_def)
  qed
  with run_op_refines [OF ok] Accept_reply [OF ok] rd len show ?thesis by blast
qed

definition sample_scope :: RecipientAcceptanceScope where
  "sample_scope = \<lparr>sc_recipientUIN = 7, sc_seenScope = ''direct''\<rparr>"

definition sample_acceptance :: "string \<Rightarrow> RecipientAcceptance" where
  "sample_acceptance i = \<lparr>ra_Scope = sample_scope, ra_MessageID = i, ra_Envelope = ''{}'', ra_ExpiresAt = None\<rparr>"

definition sample_queue :: keyspace where
  "sample_queue = run_op (\<lambda>x. x) 5 (OpAccept Done 5 (sample_acceptance ''m1'')) ks_empty"

lemma sample_queue_reachable: "queue_reachable (\<lambda>x. x) sample_queue"
  by (simp add: sample_queue_def queue_reachable.intros del: run_op.simps)

lemma sample_mailbox:
  "mailbox_at 5 7 sample_queue = \<lparr>mb_msgs = [message_of (sample_acceptance ''m1'')], mb_seen = (\<lambda>_. False)(mark_of (\<lambda>x. x) (sample_acceptance ''m1'') := True)\<rparr>"
proof -
  have "acceptable 5 (sample_acceptance ''m1'')" "sc_recipientUIN (ra_Scope (sample_acceptance ''m1'')) = 7" by code_simp+
  moreover have "mailbox_at 5 7 ks_empty = \<lparr>mb_msgs = [], mb_seen = (\<lambda>_. False)\<rparr>"
    by (simp add: mailbox_at_def at_time_def expired_key_def ks_empty_def drop_keys_def live_def List.map_filter_def)
  ultimately show ?thesis
    using run_op_refines [of ks_empty 7 "\<lambda>x. x" 5 "OpAccept Done 5 (sample_acceptance ''m1'')"] inbox_empty
    by (simp add: sample_queue_def mb_accept_def recipientAcceptanceMaxActive_def ends_after_def message_of_def sample_acceptance_def)
qed

lemma sample_accepted: "acceptable 5 (sample_acceptance ''m1'')" "fst (Accept (\<lambda>x. x) Done 5 5 (sample_acceptance ''m1'') ks_empty) = Inr True"
proof -
  show a: "acceptable 5 (sample_acceptance ''m1'')" by code_simp
  have "mailbox_at 5 u ks_empty = \<lparr>mb_msgs = [], mb_seen = (\<lambda>_. False)\<rparr>" for u
    by (simp add: mailbox_at_def at_time_def expired_key_def ks_empty_def drop_keys_def live_def List.map_filter_def)
  then show "fst (Accept (\<lambda>x. x) Done 5 5 (sample_acceptance ''m1'') ks_empty) = Inr True"
    using Accept_reply [OF inbox_empty(1) a] by (simp add: mb_accept_def recipientAcceptanceMaxActive_def)
qed

theorem queue_refines_mailbox_witness:
  "mb_msgs (mailbox_at 5 7 (run_op (\<lambda>x. x) 5 (OpAck Done 7 [''m1'']) sample_queue)) = [] \<and> length (mb_msgs (mailbox_at 5 7 sample_queue)) \<le> 1000 \<and>
    (\<exists>out. fst (ReadAcceptedAfter Done 5 sample_scope [] 0 sample_queue) = Inr out \<and> map entry_of out = [(''m1'', ''{}'', ''direct'')])"
proof -
  have trim: "TrimSpace ''m1'' \<noteq> []" by code_simp
  have "mb_msgs (mb_op (\<lambda>x. x) 5 7 (OpAck Done 7 [''m1'']) (mailbox_at 5 7 sample_queue)) = []"
    "valid_scope sample_scope \<and> (0::int) \<le> 0" "page (nat 0) (map entry (mb_msgs (mailbox_at 5 (sc_recipientUIN sample_scope) sample_queue))) = [(''m1'', ''{}'', ''direct'')]"
    by (simp_all add: sample_scope_def sample_mailbox mb_ack_def message_of_def sample_acceptance_def valid_scope_def page_def entry_def trim)
  then show ?thesis
    using queue_refines_mailbox [OF sample_queue_reachable, where now = 5 and u = 7 and op = "OpAck Done 7 [''m1'']" and scope = sample_scope and count = 0] by metis
qed

section \<open>Marks\<close>

lemma mark_not_cursor [simp]: "seenk u d \<noteq> pollCursorHashKey v" "seenk u d \<noteq> pollCursorOrderKey v"
proof -
  have "seenk u d \<in> queue_keys_of u" by (simp add: queue_keys_of_def)
  then show "seenk u d \<noteq> pollCursorHashKey v" "seenk u d \<noteq> pollCursorOrderKey v" using cursor_keys(1,2) by metis+
qed

lemma op_keys_mark: "seenk u d \<in> op_keys sha op \<Longrightarrow> \<exists>out clock a. op = OpAccept out clock a \<and> seenk u d = seenk (sc_recipientUIN (ra_Scope a)) (mark_of sha a)"
  by (cases op) (auto simp: Let_def)

lemma mark_step:
  assumes ok: "\<And>u. inbox_ok u ks" and mark: "ks_flag ks (seenk u d)" and live: "\<forall>e. ks_expiry ks (seenk u d) = Some e \<longrightarrow> now < e"
  shows "ks_flag (run_op sha now op ks) (seenk u d) \<and> ks_expiry (run_op sha now op ks) (seenk u d) = ks_expiry ks (seenk u d)"
proof -
  let ?k = "seenk u d" and ?ks' = "run_op sha now op ks"
  have nex: "\<not> expired_key now ks ?k" using live by (auto simp: expired_key_def split: option.splits)
  have fr: ?thesis if "frame K (at_time now ks) ?ks'" "?k \<notin> K" for K
    using that mark nex by (simp add: frame_def at_time_sel)
  have "?ks' = ks \<or> (\<exists>K. frame K (at_time now ks) ?ks' \<and> ?k \<notin> K)"
  proof (cases "?k \<in> op_keys sha op")
    case False
    then show ?thesis using run_op_frame [OF ok, of sha now op] by blast
  next
    case True
    then obtain out clock a where op: "op = OpAccept out clock a" and k: "?k = seenk (sc_recipientUIN (ra_Scope a)) (mark_of sha a)"
      using op_keys_mark [OF True] by blast
    show ?thesis
    proof (rule Accept_run [of clock a out sha now ks])
      fix n k1
      let ?v = "sc_recipientUIN (ra_Scope a)"
      assume e: "snd (Accept sha out clock now a ks) = k1"
        and run: "acceptRecipientScript now (idx ?v) (seenk ?v (mark_of sha a)) (reck ?v (mark_of sha a)) (sqk ?v) (ra_MessageID a) (ra_Envelope a)
         (sc_seenScope (ra_Scope a)) (map_option unix_milli (ra_ExpiresAt a)) recipientAcceptanceMaxActive ks = (n, k1)"
      then have "k1 = at_time now ks" using k mark nex by (simp add: acceptRecipientScript_def at_time_sel)
      then show ?thesis using e by (intro disjI2 exI [of _ "{}"]) (simp add: op frame_refl)
    qed (simp add: op)
  qed
  with fr mark show ?thesis by auto
qed

fun run_ops :: "(bytes \<Rightarrow> bytes) \<Rightarrow> (int \<times> queue_op) list \<Rightarrow> keyspace \<Rightarrow> keyspace" where
  "run_ops sha [] ks = ks"
| "run_ops sha ((now, op) # ops) ks = run_ops sha ops (run_op sha now op ks)"

lemma run_ops_reachable: "queue_reachable sha ks \<Longrightarrow> queue_reachable sha (run_ops sha ops ks)"
  by (induction sha ops ks rule: run_ops.induct) (auto intro: queue_reachable.intros)

definition before_end :: "RecipientAcceptance \<Rightarrow> int \<Rightarrow> bool" where
  "before_end a t = (case ra_ExpiresAt a of None \<Rightarrow> True | Some e \<Rightarrow> t < unix_milli e)"

lemma before_end_message: "ends_after t (message_of a) = before_end a t"
  by (simp add: ends_after_def message_of_def before_end_def split: option.split)

lemma mark_stays:
  assumes "queue_reachable sha ks" and "ks_flag ks (seenk u d)" and "\<forall>(t, op) \<in> set ops. \<forall>e. ks_expiry ks (seenk u d) = Some e \<longrightarrow> t < e"
  shows "ks_flag (run_ops sha ops ks) (seenk u d) \<and> ks_expiry (run_ops sha ops ks) (seenk u d) = ks_expiry ks (seenk u d)"
  using assms
proof (induction sha ops ks rule: run_ops.induct)
  case (2 sha now op ops ks)
  note ok = queue_reachable_inbox [OF 2(2)]
  have m: "ks_flag (run_op sha now op ks) (seenk u d)" "ks_expiry (run_op sha now op ks) (seenk u d) = ks_expiry ks (seenk u d)"
    using mark_step [OF ok 2(3)] 2(4) by auto
  then show ?case using 2(1) [OF queue_reachable.step [OF 2(2)] m(1)] 2(4) by auto
qed simp

lemma accepted_stored:
  assumes "queue_reachable sha ks" and "acceptable clock a" and "fst (Accept sha Done clock now a ks) = Inr True" and "before_end a now"
  shows "ks_flag (snd (Accept sha Done clock now a ks)) (seenk (sc_recipientUIN (ra_Scope a)) (mark_of sha a)) \<and>
    ks_expiry (snd (Accept sha Done clock now a ks)) (seenk (sc_recipientUIN (ra_Scope a)) (mark_of sha a)) = map_option unix_milli (ra_ExpiresAt a) \<and>
    message_of a \<in> set (map content (live (sc_recipientUIN (ra_Scope a)) (snd (Accept sha Done clock now a ks))))"
proof -
  let ?u = "sc_recipientUIN (ra_Scope a)" and ?d = "mark_of sha a" and ?ex = "map_option unix_milli (ra_ExpiresAt a)"
  note ok = queue_reachable_inbox [OF assms(1)]
  show ?thesis
  proof (rule Accept_run [of clock a Done sha now ks])
    fix n ks'
    assume e: "snd (Accept sha Done clock now a ks) = ks'"
      "\<not> failed Done \<Longrightarrow> fst (Accept sha Done clock now a ks) = (if n = -1 then Inl ErrAcceptanceQueueFull else Inr (n = 1))"
      and run: "acceptRecipientScript now (idx ?u) (seenk ?u ?d) (reck ?u ?d) (sqk ?u) (ra_MessageID a) (ra_Envelope a)
         (sc_seenScope (ra_Scope a)) ?ex recipientAcceptanceMaxActive ks = (n, ks')"
    have n: "n = 1" using e(2) assms(3) by (simp split: if_splits)
    show ?thesis
    proof (rule accept_script [OF ok, where now = now and u = ?u and d = ?d and i = "ra_MessageID a" and env = "ra_Envelope a"
          and sc = "sc_seenScope (ra_Scope a)" and ex = ?ex])
      fix k1 q
      assume "acceptRecipientScript now (idx ?u) (seenk ?u ?d) (reck ?u ?d) (sqk ?u) (ra_MessageID a) (ra_Envelope a)
         (sc_seenScope (ra_Scope a)) ?ex recipientAcceptanceMaxActive ks = (1, k1)"
        and q: "qr_message_id q = ra_MessageID a" "qr_envelope q = ra_Envelope a" "qr_scope q = sc_seenScope (ra_Scope a)" "qr_expires q = ?ex"
        and st: "live ?u k1 = live ?u (at_time now ks) @ (if ends_after now q then [q] else [])" "ks_flag k1 (seenk ?u ?d) = ends_after now q"
          "ks_expiry k1 (seenk ?u ?d) = (if ends_after now q then ?ex else None)"
      with run e have k: "k1 = ks'" by simp
      have c: "content q = message_of a" using q by (simp add: content_def message_of_def)
      then have "ends_after now q" using assms(4) before_end_message ends_after_content(1) by metis
      with st c e k show ?thesis by (auto simp flip: c)
    qed (use run n in auto)
  qed (use assms(2) in simp)
qed

text \<open>Also: A message is accepted once: after an acceptance that took it, whatever else happens to the key space (readers, acknowledgements of
  this very message, other recipients, failed calls), an acceptance of the same message for the same conversation answers that it is not new
  and leaves every mailbox as it is, as long as the message has not ended.\<close>

theorem accepted_once:
  assumes "queue_reachable sha ks" and "acceptable clock a" and "fst (Accept sha Done clock now a ks) = Inr True"
    and "acceptable clock' b" and "ra_Scope b = ra_Scope a" and "ra_MessageID b = ra_MessageID a"
    and "before_end a now" and "before_end a now'" and "\<forall>(t, op) \<in> set ops. before_end a t"
  shows "fst (Accept sha Done clock' now' b (run_ops sha ops (snd (Accept sha Done clock now a ks)))) = Inr False \<and>
    mailbox_at now' u (snd (Accept sha Done clock' now' b (run_ops sha ops (snd (Accept sha Done clock now a ks))))) =
    mailbox_at now' u (run_ops sha ops (snd (Accept sha Done clock now a ks)))"
proof -
  let ?v = "sc_recipientUIN (ra_Scope a)" and ?ks1 = "snd (Accept sha Done clock now a ks)"
  let ?ks2 = "run_ops sha ops ?ks1"
  have r1: "queue_reachable sha ?ks1" using queue_reachable.step [OF assms(1), of now "OpAccept Done clock a"] by simp
  have r2: "queue_reachable sha ?ks2" by (rule run_ops_reachable [OF r1])
  have m1: "ks_flag ?ks1 (seenk ?v (mark_of sha a))" "ks_expiry ?ks1 (seenk ?v (mark_of sha a)) = map_option unix_milli (ra_ExpiresAt a)"
    using accepted_stored [OF assms(1-3,7)] by blast+
  have "\<forall>(t, op) \<in> set ops. \<forall>e. ks_expiry ?ks1 (seenk ?v (mark_of sha a)) = Some e \<longrightarrow> t < e"
    using assms(9) m1(2) by (auto simp: before_end_def split: option.splits)
  then have "ks_flag ?ks2 (seenk ?v (mark_of sha a)) \<and> ks_expiry ?ks2 (seenk ?v (mark_of sha a)) = map_option unix_milli (ra_ExpiresAt a)"
    using mark_stays [OF r1 m1(1)] m1(2) by simp
  then have "mb_seen (mailbox_at now' ?v ?ks2) (mark_of sha b)"
    using assms(5,6,8) by (auto simp: mailbox_at_def mark_of_def at_time_sel expired_key_def before_end_def split: option.splits)
  then have acc: "mb_accept now' (mark_of sha b) (message_of b) (mailbox_at now' ?v ?ks2) = (Inr False, mailbox_at now' ?v ?ks2)" by (simp add: mb_accept_def)
  have "fst (Accept sha Done clock' now' b ?ks2) = Inr False"
    using Accept_reply [OF queue_reachable_inbox [OF r2] assms(4), of sha now'] assms(5) acc by simp
  moreover have "mailbox_at now' u (run_op sha now' (OpAccept Done clock' b) ?ks2) = mailbox_at now' u ?ks2"
    using run_op_refines [OF queue_reachable_inbox [OF r2]] assms(4,5) acc by (auto simp del: run_op.simps)
  ultimately show ?thesis by simp
qed

theorem accepted_once_witness:
  "fst (Accept (\<lambda>x. x) Done 9 9 (sample_acceptance ''m1'') (run_ops (\<lambda>x. x) [(6, OpAck Done 7 [''m1''])] (snd (Accept (\<lambda>x. x) Done 5 5 (sample_acceptance ''m1'') ks_empty)))) = Inr False"
proof -
  have "acceptable 9 (sample_acceptance ''m1'')" "before_end (sample_acceptance ''m1'') 5"
    "before_end (sample_acceptance ''m1'') 9" "before_end (sample_acceptance ''m1'') 6"
    by code_simp+
  then show ?thesis
    using accepted_once [OF queue_reachable.start sample_accepted, of 9 "sample_acceptance ''m1''" 9 "[(6, OpAck Done 7 [''m1''])]"] by simp
qed

text \<open>A message stays until it is acknowledged or over.\<close>

fun acks :: "uin \<Rightarrow> string \<Rightarrow> queue_op \<Rightarrow> bool" where
  "acks u i (OpAck out v ids) = (v = u \<and> i \<in> set ids)"
| "acks u i _ = False"

lemma message_step:
  assumes "queue_reachable sha ks" and "c \<in> set (map content (live u ks))" and "ends_after now c" and "\<not> acks u (qr_message_id c) op"
  shows "c \<in> set (map content (live u (run_op sha now op ks)))"
proof -
  note ok = queue_reachable_inbox [OF assms(1)]
  have "c \<in> set (mb_msgs (mailbox_at now u ks))" using inbox_at_time [OF ok] assms(2,3) by (auto simp: mailbox_at_def)
  then have "c \<in> set (mb_msgs (mb_op sha now u op (mailbox_at now u ks)))"
    using assms(4) by (cases op) (auto simp: mb_accept_def mb_ack_def)
  then have "c \<in> set (mb_msgs (mailbox_at now u (run_op sha now op ks)))" using run_op_refines [OF ok] by simp
  then show ?thesis using inbox_at_time [of u "run_op sha now op ks" now] run_op_refines [OF ok] by (auto simp: mailbox_at_def)
qed

lemma message_stays:
  assumes "queue_reachable sha ks" and "c \<in> set (map content (live u ks))" and "\<forall>(t, op) \<in> set ops. ends_after t c \<and> \<not> acks u (qr_message_id c) op"
  shows "c \<in> set (map content (live u (run_ops sha ops ks)))"
  using assms
proof (induction sha ops ks rule: run_ops.induct)
  case (2 sha now op ops ks)
  have "c \<in> set (map content (live u (run_op sha now op ks)))" using message_step [OF 2(2,3)] 2(4) by simp
  with 2(1) [OF queue_reachable.step [OF 2(2)]] 2(4) show ?case by simp
qed simp



section \<open>Poll cursors\<close>

definition cursors_ok :: "uin \<Rightarrow> keyspace \<Rightarrow> bool" where
  "cursors_ok u ks \<longleftrightarrow> length (ks_list ks (pollCursorOrderKey u)) \<le> MaxOutstandingPollCursors \<and>
     dom (map_of (ks_cursors ks (pollCursorHashKey u))) \<subseteq> set (ks_list ks (pollCursorOrderKey u)) \<and>
     (ks_cursors ks (pollCursorHashKey u) = [] \<or> ks_expiry ks (pollCursorHashKey u) = ks_expiry ks (pollCursorOrderKey u))"

lemma evict_spec:
  "evict mx ts h = (ts', h') \<Longrightarrow> dom (map_of h) \<subseteq> set ts \<Longrightarrow> length ts' \<le> mx \<and> dom (map_of h') \<subseteq> set ts'"
  by (induction mx ts h rule: evict.induct) (auto simp: delete_conv' split: if_splits)

lemma evict_dom: "map_of h t = None \<Longrightarrow> map_of (snd (evict mx ts h)) t = None"
  by (induction mx ts h rule: evict.induct) (auto simp: delete_conv')

lemma at_time_cursors:
  "ks_cursors (at_time now ks) k = (if expired_key now ks k then [] else ks_cursors ks k)"
  "ks_list (at_time now ks) k = (if expired_key now ks k then [] else ks_list ks k)"
  by (simp_all add: at_time_def)

lemma cursors_at_time: "cursors_ok u ks \<Longrightarrow> cursors_ok u (at_time now ks)"
  by (auto simp: cursors_ok_def at_time_cursors at_time_sel expired_key_def split: option.splits)

lemma cursors_drop:
  assumes "cursors_ok u ks"
  shows "cursors_ok u (drop_cursor (pollCursorHashKey u) (pollCursorOrderKey u) t ks)"
proof -
  let ?h = "map_of (ks_cursors ks (pollCursorHashKey u))" and ?ts = "ks_list ks (pollCursorOrderKey u)" and ?d = "drop_cursor (pollCursorHashKey u) (pollCursorOrderKey u) t ks"
  have sel: "map_of (ks_cursors ?d (pollCursorHashKey u)) = ?h(t := None)" "ks_list ?d (pollCursorOrderKey u) = remove1 t ?ts" "ks_expiry ?d = ks_expiry ks"
    by (simp_all add: drop_cursor_def delete_conv')
  have "dom (?h(t := None)) \<subseteq> set (remove1 t ?ts)"
  proof
    fix x assume "x \<in> dom (?h(t := None))"
    then have "x \<in> dom ?h" "x \<noteq> t" by (auto split: if_splits)
    moreover have "dom ?h \<subseteq> set ?ts" using assms by (simp add: cursors_ok_def)
    ultimately show "x \<in> set (remove1 t ?ts)" using in_set_remove1 [of x t ?ts] by blast
  qed
  moreover have "length (remove1 t ?ts) \<le> MaxOutstandingPollCursors" using assms by (auto simp: cursors_ok_def length_remove1)
  moreover have "ks_cursors ks (pollCursorHashKey u) = [] \<Longrightarrow> ks_cursors ?d (pollCursorHashKey u) = []" by (simp add: drop_cursor_def)
  ultimately show ?thesis using assms unfolding cursors_ok_def sel by auto
qed

lemma cursors_put:
  assumes "cursors_ok u ks"
  shows "cursors_ok u (put_cursor now (pollCursorHashKey u) (pollCursorOrderKey u) t v ks)"
proof -
  let ?k1 = "pollCursorHashKey u" and ?k2 = "pollCursorOrderKey u"
  obtain ts h where ev: "evict MaxOutstandingPollCursors (ks_list ks ?k2 @ [t]) (AList.update t v (ks_cursors ks ?k1)) = (ts, h)" by force
  have "dom (map_of (AList.update t v (ks_cursors ks ?k1))) \<subseteq> set (ks_list ks ?k2 @ [t])" using assms by (auto simp: cursors_ok_def update_conv')
  note ev' = evict_spec [OF ev this]
  let ?ks1 = "ks\<lparr>ks_cursors := (ks_cursors ks)(?k1 := h), ks_list := (ks_list ks)(?k2 := ts)\<rparr>" and ?e = "now + pollStreamTTL div Millisecond"
  have e: "now < ?e" by (simp add: pollStreamTTL_def Millisecond_def Hour_def)
  have k: "h \<noteq> [] \<Longrightarrow> key_exists ?ks1 ?k1 \<and> key_exists ?ks1 ?k2" using ev' by (auto simp: key_exists_def)
  have put: "put_cursor now ?k1 ?k2 t v ks = cmd_pexpireat now ?k2 ?e (cmd_pexpireat now ?k1 ?e ?ks1)" by (simp add: put_cursor_def ev Let_def)
  show "cursors_ok u (put_cursor now ?k1 ?k2 t v ks)" using ev' k e by (auto simp: put cursors_ok_def)
qed

lemma cursors_frame: "frame K a b \<Longrightarrow> pollCursorHashKey u \<notin> K \<Longrightarrow> pollCursorOrderKey u \<notin> K \<Longrightarrow> cursors_ok u a \<Longrightarrow> cursors_ok u b"
  by (simp add: frame_def cursors_ok_def)

lemma cursors_step:
  assumes "queue_reachable sha ks" and "cursors_ok u ks"
  shows "cursors_ok u (run_op sha now op ks)"
proof (cases "\<exists>out v t w t'. v = u \<and> (op = OpIssue out v t w \<or> op = OpAdvance out v t' t w \<or> op = OpConsume out v t)")
  case False
  then have "pollCursorHashKey u \<notin> op_keys sha op" "pollCursorOrderKey u \<notin> op_keys sha op"
    using cursor_keys(1,2) by (cases op; fastforce simp: Let_def queue_keys_of_def)+
  with run_op_frame [of op ks sha now] queue_reachable_inbox [OF assms(1)] cursors_frame cursors_at_time assms(2) show ?thesis by metis
next
  case True
  have at: "cursors_ok u (at_time now ks)" by (rule cursors_at_time [OF assms(2)])
  from True consider out t w where "op = OpIssue out u t w" | out t t' w where "op = OpAdvance out u t' t w" | out t where "op = OpConsume out u t" by blast
  then show ?thesis
  proof cases
    case 1
    then show ?thesis using cursors_put [OF at] assms(2) by (simp add: issueCursor_def issueCursorScript_def Let_def)
  next
    case 2
    have "cursors_ok u (snd (advanceCursorScript now (pollCursorHashKey u) (pollCursorOrderKey u) t' t w ks))"
      using at cursors_put [OF cursors_drop [OF at]] by (simp add: advanceCursorScript_def Let_def split: option.split)
    then show ?thesis using 2 assms(2) by (auto simp: advanceCursor_def split: prod.split)
  next
    case 3
    then show ?thesis using cursors_drop [OF at] assms(2) at by (simp add: consumeCursor_def Let_def split: option.split)
  qed
qed

text \<open>Also: A recipient never has more than four poll cursors that could still be used.\<close>

theorem outstanding_cursors_bounded:
  assumes "queue_reachable sha ks"
  shows "finite (dom (map_of (ks_cursors ks (pollCursorHashKey u)))) \<and> card (dom (map_of (ks_cursors ks (pollCursorHashKey u)))) \<le> 4"
proof -
  from assms have "cursors_ok u ks"
  proof (induction rule: queue_reachable.induct)
    case start
    then show ?case by (simp add: cursors_ok_def ks_empty_def)
  next
    case (step ks now op)
    then show ?case by (simp add: cursors_step)
  qed
  then have sub: "dom (map_of (ks_cursors ks (pollCursorHashKey u))) \<subseteq> set (ks_list ks (pollCursorOrderKey u))"
    and len: "length (ks_list ks (pollCursorOrderKey u)) \<le> 4" by (simp_all add: cursors_ok_def MaxOutstandingPollCursors_def)
  have "card (set (ks_list ks (pollCursorOrderKey u))) \<le> 4" using card_length len order_trans by blast
  with sub show ?thesis by (meson card_mono finite_set finite_subset order_trans)
qed

theorem outstanding_cursors_bounded_witness:
  "card (dom (map_of (ks_cursors (run_op (\<lambda>x. x) 6 (OpIssue Done 7 ''t1'' ''{}'') sample_queue) (pollCursorHashKey 7)))) \<le> 4"
  using outstanding_cursors_bounded [OF queue_reachable.step [OF sample_queue_reachable], of 6 "OpIssue Done 7 ''t1'' ''{}''" 7] by blast

text \<open>A cursor that is not outstanding stays so unless it is issued again.\<close>

fun mints :: "uin \<Rightarrow> string \<Rightarrow> queue_op \<Rightarrow> bool" where
  "mints u t (OpIssue out v new w) = (v = u \<and> new = t)"
| "mints u t (OpAdvance out v old new w) = (v = u \<and> new = t)"
| "mints u t _ = False"

lemma put_cursor_absent:
  "map_of (ks_cursors ks (pollCursorHashKey u)) t = None \<Longrightarrow> new \<noteq> t \<Longrightarrow>
    map_of (ks_cursors (put_cursor now (pollCursorHashKey u) (pollCursorOrderKey u) new v ks) (pollCursorHashKey u)) t = None"
  using evict_dom [of "AList.update new v (ks_cursors ks (pollCursorHashKey u))" t MaxOutstandingPollCursors "ks_list ks (pollCursorOrderKey u) @ [new]"]
  by (auto simp: put_cursor_def Let_def cmd_pexpireat_def cmd_del_def update_conv' split: prod.split)

lemma ack_cursors: "map_of (ks_cursors ks k) t = None \<Longrightarrow> map_of (ks_cursors (snd (ackAcceptedScript now k1 k2 ids ks)) k) t = None"
proof -
  have refs: "map_of (ks_cursors (snd (ack_refs k1 ids refs m ks)) k) t = None" if "map_of (ks_cursors ks k) t = None" for refs m and ks :: keyspace
    using that by (induction refs arbitrary: m ks) (auto simp: cmd_del_def split: option.split)
  have "map_of (ks_cursors (retention now k1 k2 ks) k) t = None" if "map_of (ks_cursors ks k) t = None" for ks :: keyspace
    using that by (auto simp: retention_def Let_def cmd_pexpireat_def cmd_persist_def cmd_del_def)
  moreover assume "map_of (ks_cursors ks k) t = None"
  ultimately show ?thesis
    using refs [of "at_time now ks" "map fst (ks_zset (at_time now ks) k1)" 0]
    by (auto simp: ackAcceptedScript_def Let_def at_time_cursors split: prod.split)
qed

lemma absent_step:
  assumes "map_of (ks_cursors ks (pollCursorHashKey u)) t = None" and "\<not> mints u t op"
  shows "map_of (ks_cursors (run_op sha now op ks) (pollCursorHashKey u)) t = None"
proof -
  have at: "map_of (ks_cursors (at_time now ks) (pollCursorHashKey u)) t = None" using assms(1) by (simp add: at_time_cursors)
  have fr: ?thesis if "pollCursorHashKey u \<notin> op_keys sha op" "\<And>out v ids. op \<noteq> OpAck out v ids"
    using run_op_frame [of op ks sha now] that at assms(1) by (fastforce simp: frame_def)
  show ?thesis
  proof (cases op)
    case (OpAccept out clock a)
    have "pollCursorHashKey u \<notin> op_keys sha op" using cursor_keys(1) by (fastforce simp: OpAccept Let_def queue_keys_of_def)
    with fr OpAccept show ?thesis by blast
  next
    case (OpRead out scope after count)
    have "pollCursorHashKey u \<notin> op_keys sha op" using cursor_keys(1) by (fastforce simp: OpRead queue_keys_of_def)
    with fr OpRead show ?thesis by blast
  next
    case (OpAck out v ids)
    obtain n k1 where run: "ackAcceptedScript now (idx v) (sqk v) ids ks = (n, k1)" by force
    with ack_cursors [OF assms(1), of now "idx v" "sqk v" ids] assms(1) show ?thesis
      by (cases out) (auto simp: OpAck AckRecipient_def DirectRecipientScope_def Let_def scope_keys)
  next
    case (OpIssue out v new w)
    show ?thesis
    proof (cases "v = u")
      case True
      with OpIssue assms put_cursor_absent [OF at, of new now w] show ?thesis by (simp add: issueCursor_def issueCursorScript_def Let_def)
    qed (use fr OpIssue in auto)
  next
    case (OpAdvance out v old new w)
    show ?thesis
    proof (cases "v = u")
      case True
      have "map_of (ks_cursors (snd (advanceCursorScript now (pollCursorHashKey u) (pollCursorOrderKey u) old new w ks)) (pollCursorHashKey u)) t = None"
        using at put_cursor_absent [of "drop_cursor (pollCursorHashKey u) (pollCursorOrderKey u) old (at_time now ks)" u t new now w] OpAdvance assms(2) True
        by (auto simp: advanceCursorScript_def Let_def drop_cursor_def delete_conv' split: option.split)
      with OpAdvance assms(1) True show ?thesis by (auto simp: advanceCursor_def split: prod.split)
    qed (use fr OpAdvance in auto)
  next
    case (OpConsume out v old)
    show ?thesis
    proof (cases "v = u")
      case True
      with OpConsume assms(1) at show ?thesis by (auto simp: consumeCursor_def Let_def drop_cursor_def delete_conv' split: option.split)
    qed (use fr OpConsume in auto)
  qed
qed

lemma absent_stays:
  "map_of (ks_cursors ks (pollCursorHashKey u)) t = None \<Longrightarrow> \<forall>(now, op) \<in> set ops. \<not> mints u t op \<Longrightarrow>
    map_of (ks_cursors (run_ops sha ops ks) (pollCursorHashKey u)) t = None"
  by (induction sha ops ks rule: run_ops.induct) (auto simp: absent_step)

lemma reply_cases:
  "(case x of (Inl e, k) \<Rightarrow> (Inl e, k) | (Inr a, k) \<Rightarrow> f a k) = (Inr r, k') \<Longrightarrow> \<exists>a k. x = (Inr a, k) \<and> f a k = (Inr r, k')"
  by (auto split: prod.splits sum.splits)

lemma Poll_with_cursor:
  assumes "Poll js st_in st_out io req ks = (Inr res, ks1)" and "pr_Cursor req \<noteq> []"
  obtains ks2 v where "advanceCursor (pq_put io) (pq_now io) (pr_UIN req) (pr_Cursor req) (pq_token io) v ks2 = (Inr (ps_Cursor res), ks1)"
proof -
  from reply_cases [OF assms(1) [unfolded Poll_def Let_def]] obtain st k1 where
    "(case DirectRecipientScope (pr_UIN req) of Inl e \<Rightarrow> (Inl e, k1)
      | Inr scope \<Rightarrow>
          (case poll_loop scope (pc_After st) (pr_Limit req) (pr_Wait req \<le> 0) (pq_attempts io) k1 of
             (Inl e, ks2) \<Rightarrow> (Inl e, ks2)
           | (Inr items, ks2) \<Rightarrow>
               (case collect js items st [] [] of
                  (envelopes, ids, st1) \<Rightarrow>
                    case (if pr_Cursor req = [] then issueCursor (pq_put io) (pq_now io) (pr_UIN req) (pq_token io) (st_out (st1\<lparr>pc_MessageIDs := ids\<rparr>)) ks2
                          else advanceCursor (pq_put io) (pq_now io) (pr_UIN req) (pr_Cursor req) (pq_token io) (st_out (st1\<lparr>pc_MessageIDs := ids\<rparr>)) ks2) of
                      (Inl e, ks3) \<Rightarrow> (Inl e, ks3)
                    | (Inr token, ks3) \<Rightarrow> (Inr \<lparr>ps_Cursor = token, ps_Envelopes = envelopes\<rparr>, ks3)))) = (Inr res, ks1)" by blast
  then show thesis using assms(2) that by (auto split: sum.splits prod.splits)
qed

text \<open>Also: A poll cursor is used once: after a poll with a cursor has answered, whatever else happens to the key space, a poll with the same
  cursor is refused and changes nothing, unless the random token is drawn again.\<close>

theorem poll_cursor_once:
  assumes "Poll js st_in st_out io req ks = (Inr res, ks1)" and "pr_Cursor req \<noteq> []" and "pq_token io \<noteq> pr_Cursor req"
    and "\<forall>(t, op) \<in> set ops. \<not> mints (pr_UIN req) (pr_Cursor req) op"
    and "pr_UIN req' = pr_UIN req" and "pr_Cursor req' = pr_Cursor req" and "pq_get io'"
  shows "Poll js st_in st_out io' req' (run_ops sha ops ks1) = (Inl ErrInvalidPollCursor, run_ops sha ops ks1)"
proof -
  let ?u = "pr_UIN req" and ?t = "pr_Cursor req"
  obtain ks2 v where adv: "advanceCursor (pq_put io) (pq_now io) ?u ?t (pq_token io) v ks2 = (Inr (ps_Cursor res), ks1)"
    using Poll_with_cursor [OF assms(1,2)] .
  then have "ks1 = put_cursor (pq_now io) (pollCursorHashKey ?u) (pollCursorOrderKey ?u) (pq_token io) v
      (drop_cursor (pollCursorHashKey ?u) (pollCursorOrderKey ?u) ?t (at_time (pq_now io) ks2))"
    by (auto simp: advanceCursor_def advanceCursorScript_def Let_def split: prod.splits if_splits option.splits)
  then have "map_of (ks_cursors ks1 (pollCursorHashKey ?u)) ?t = None"
    using put_cursor_absent [of "drop_cursor (pollCursorHashKey ?u) (pollCursorOrderKey ?u) ?t (at_time (pq_now io) ks2)" ?u ?t] assms(3)
    by (simp add: drop_cursor_def delete_conv')
  then have "map_of (ks_cursors (at_time (pq_now io') (run_ops sha ops ks1)) (pollCursorHashKey ?u)) ?t = None"
    using absent_stays [OF _ assms(4)] by (simp add: at_time_cursors)
  then show ?thesis using assms(2,5-7) by (simp add: Poll_def Let_def)
qed

definition sample_io :: "string \<Rightarrow> poll_io" where
  "sample_io t = \<lparr>pq_get = True, pq_now = 8, pq_ack = Done, pq_attempts = [], pq_token = t, pq_put = Done\<rparr>"

definition sample_state :: "string \<Rightarrow> pollCursorState option" where
  "sample_state v = Some \<lparr>pc_After = v, pc_MessageIDs = []\<rparr>"

theorem poll_cursor_once_witness:
  "fst (Poll (\<lambda>_. None) sample_state pc_After (sample_io ''t3'') \<lparr>pr_UIN = 7, pr_Cursor = ''t1'', pr_Limit = 5, pr_Wait = 0\<rparr>
     (run_ops (\<lambda>x. x) [(9, OpIssue Done 7 ''t4'' ''x'')] (snd (Poll (\<lambda>_. None) sample_state pc_After (sample_io ''t2'') \<lparr>pr_UIN = 7, pr_Cursor = ''t1'', pr_Limit = 5, pr_Wait = 0\<rparr>
       (run_op (\<lambda>x. x) 6 (OpIssue Done 7 ''t1'' ''1'') ks_empty))))) = Inl ErrInvalidPollCursor"
proof -
  let ?req = "\<lparr>pr_UIN = 7, pr_Cursor = ''t1'', pr_Limit = 5, pr_Wait = 0\<rparr>"
  have got: "map_of (ks_cursors (at_time 8 (snd (issueCursor Done 6 7 ''t1'' ''1'' ks_empty))) (pollCursorHashKey 7)) ''t1'' = Some ''1''"
    by (simp add: issueCursor_def issueCursorScript_def put_cursor_def at_time_cursors at_time_sel expired_key_def Let_def MaxOutstandingPollCursors_def
        key_exists_def pollStreamTTL_def Hour_def Millisecond_def ks_empty_def at_time_def drop_keys_def)
  have "fst (Poll (\<lambda>_. None) sample_state pc_After (sample_io ''t2'') ?req (run_op (\<lambda>x. x) 6 (OpIssue Done 7 ''t1'' ''1'') ks_empty)) =
      Inr \<lparr>ps_Cursor = ''t2'', ps_Envelopes = []\<rparr>"
    by (simp add: Poll_def Let_def sample_io_def sample_state_def got AckRecipient_def DirectRecipientScope_def advanceCursor_def advanceCursorScript_def)
  then have "Poll (\<lambda>_. None) sample_state pc_After (sample_io ''t2'') ?req (run_op (\<lambda>x. x) 6 (OpIssue Done 7 ''t1'' ''1'') ks_empty) =
      (Inr \<lparr>ps_Cursor = ''t2'', ps_Envelopes = []\<rparr>, snd (Poll (\<lambda>_. None) sample_state pc_After (sample_io ''t2'') ?req (run_op (\<lambda>x. x) 6 (OpIssue Done 7 ''t1'' ''1'') ks_empty)))"
    by (simp add: prod_eq_iff)
  from poll_cursor_once [OF this, of "[(9, OpIssue Done 7 ''t4'' ''x'')]" ?req "sample_io ''t3''" "\<lambda>x. x"] show ?thesis by (simp add: sample_io_def)
qed

section \<open>Cursors and the numbers of messages\<close>

lemma first_number:
  assumes "inbox_ok u ks" and "ks_counter ks (sqk u) = 0" and "live u ks = []"
    and "acceptRecipientScript now (idx u) (seenk u d) (reck u d) (sqk u) i env sc ex recipientAcceptanceMaxActive ks = (1, ks')"
  shows "\<forall>q \<in> set (live u ks'). qr_seq q = 1"
proof (rule accept_script [OF assms(1), where now = now and d = d and i = i and env = env and sc = sc and ex = ex])
  fix k1 q
  assume "acceptRecipientScript now (idx u) (seenk u d) (reck u d) (sqk u) i env sc ex recipientAcceptanceMaxActive ks = (1, k1)"
    "live u k1 = live u (at_time now ks) @ (if ends_after now q then [q] else [])" "qr_seq q = ks_counter (at_time now ks) (sqk u) + 1"
  with assms inbox_at_time [OF assms(1), of now] show ?thesis by (auto simp: at_time_sel)
qed (use assms(4) in simp_all)

text \<open>C39: The numbers of a queue start again at 1 when an acknowledgement empties it, but the cursor of the reader keeps the last number it
  saw. A message that arrives after the recipient has acknowledged everything is in the mailbox, and no poll with such a cursor returns it.\<close>

theorem acknowledged_cursor_skips:
  assumes "queue_reachable sha ks" and "AckRecipient Done now u ids ks = (Inr n, ks1)" and "0 < u" and "ids \<noteq> []" and "mb_msgs (mailbox_at now u ks1) = []"
    and "acceptable clock a" and "sc_recipientUIN (ra_Scope a) = u" and "before_end a now" and "Accept sha Done clock now a ks1 = (Inr True, ks2)"
    and "ParseUint 64 after = Some k" and "1 \<le> k" and "valid_scope scope" and "sc_recipientUIN scope = u"
  shows "mb_msgs (mailbox_at now u ks2) = [message_of a] \<and> fst (ReadAcceptedAfter Done now scope after 0 ks2) = Inr []"
proof -
  note ok = queue_reachable_inbox [OF assms(1)]
  have r1: "queue_reachable sha ks1" using queue_reachable.step [OF assms(1), of now "OpAck Done u ids"] assms(2) by simp
  have r2: "queue_reachable sha ks2" using queue_reachable.step [OF r1, of now "OpAccept Done clock a"] assms(9) by simp
  note ok1 = queue_reachable_inbox [OF r1] and ok2 = queue_reachable_inbox [OF r2]
  have run: "ackAcceptedScript now (idx u) (sqk u) ids ks = (n, ks1)"
    using assms(2-4) by (auto simp: AckRecipient_def DirectRecipientScope_def Let_def scope_keys split: prod.splits if_splits)
  note ak = ack_script [OF ok run]
  have "live u (at_time now ks1) = []" using assms(5) by (simp add: mailbox_at_def)
  moreover have "live u (at_time now ks1) = live u ks1" by (rule live_at_time [OF ok1]) (use live_ends [OF ok, of _ u now] ak(2) in auto)
  ultimately have l1: "live u ks1 = []" and c1: "ks_counter ks1 (sqk u) = 0" using ak(4) by auto
  let ?d = "mark_of sha a"
  have "\<forall>q \<in> set (live u ks2). qr_seq q = 1"
  proof (rule Accept_run [of clock a Done sha now ks1])
    fix m k1
    assume "snd (Accept sha Done clock now a ks1) = k1" "acceptRecipientScript now (idx (sc_recipientUIN (ra_Scope a))) (seenk (sc_recipientUIN (ra_Scope a)) ?d)
       (reck (sc_recipientUIN (ra_Scope a)) ?d) (sqk (sc_recipientUIN (ra_Scope a))) (ra_MessageID a) (ra_Envelope a)
       (sc_seenScope (ra_Scope a)) (map_option unix_milli (ra_ExpiresAt a)) recipientAcceptanceMaxActive ks1 = (m, k1)"
      "\<not> failed Done \<Longrightarrow> fst (Accept sha Done clock now a ks1) = (if m = -1 then Inl ErrAcceptanceQueueFull else Inr (m = 1))"
    then show ?thesis using assms(7,9) first_number [OF ok1 c1 l1] by (simp split: if_splits)
  qed (use assms(6) in simp)
  then have "filter (\<lambda>q. k < qr_seq q) (live u (at_time now ks2)) = []" using inbox_at_time [OF ok2] assms(11) by (auto simp: filter_empty_conv)
  moreover have "after \<noteq> []" using assms(10) by (auto simp: ParseUint_def)
  ultimately have "fst (ReadAcceptedAfter Done now scope after 0 ks2) = Inr []"
    using ReadAcceptedAfter_reply(2) [OF ok2 assms(12), of 0 after k now] assms(10,13) by (simp add: page_def)
  moreover have "mb_msgs (mailbox_at now u ks2) = [message_of a]"
  proof -
    have "mailbox_at now u ks2 = snd (mb_accept now ?d (message_of a) (mailbox_at now u ks1))"
      using run_op_refines [OF ok1, of u sha now "OpAccept Done clock a"] assms(6,7,9) by simp
    moreover have "fst (mb_accept now ?d (message_of a) (mailbox_at now u ks1)) = Inr True"
      using Accept_reply [OF ok1 assms(6), of sha now] assms(7,9) by simp
    ultimately show ?thesis using assms(5,8) by (auto simp: mb_accept_def before_end_message split: if_splits)
  qed
  ultimately show ?thesis by blast
qed

theorem acknowledged_cursor_skips_witness:
  "fst (ReadAcceptedAfter Done 5 sample_scope ''1'' 0
     (run_op (\<lambda>x. x) 5 (OpAccept Done 5 (sample_acceptance ''m2'')) (run_op (\<lambda>x. x) 5 (OpAck Done 7 [''m1'']) sample_queue))) = Inr []"
proof -
  let ?op = "OpAck Done 7 [''m1'']" and ?a = "sample_acceptance ''m2''"
  let ?ks1 = "run_op (\<lambda>x. x) 5 ?op sample_queue"
  have c: "acceptable 5 ?a" "sc_recipientUIN (ra_Scope ?a) = 7" "before_end ?a 5" "valid_scope sample_scope" "sc_recipientUIN sample_scope = 7"
    by code_simp+
  have one: "ParseUint 64 ''1'' = Some 1" by (simp add: ParseUint_def digit_value_def)
  have trim: "TrimSpace ''m1'' \<noteq> []" by code_simp
  have hex_eq: "hex_encode xs = hex_encode ys \<longleftrightarrow> xs = ys" for xs ys using hex_encode_inj by blast
  have m: "mb_msgs (mb_op (\<lambda>x. x) 5 7 ?op (mailbox_at 5 7 sample_queue)) = []"
    "fst (mb_accept 5 (mark_of (\<lambda>x. x) ?a) (message_of ?a) (mb_op (\<lambda>x. x) 5 7 ?op (mailbox_at 5 7 sample_queue))) = Inr True"
    by (simp_all add: sample_mailbox mb_ack_def message_of_def sample_acceptance_def trim mb_accept_def mark_of_def acceptanceDigest_def hex_eq
        recipientAcceptanceMaxActive_def)
  have box: "mailbox_at 5 7 ?ks1 = mb_op (\<lambda>x. x) 5 7 ?op (mailbox_at 5 7 sample_queue)"
    using run_op_refines [OF queue_reachable_inbox [OF sample_queue_reachable]] by blast
  have "fst (Accept (\<lambda>x. x) Done 5 5 ?a ?ks1) = Inr True"
    using Accept_reply [OF queue_reachable_inbox [OF queue_reachable.step [OF sample_queue_reachable]] c(1)] m(2) c(2) box by metis
  then have acc: "Accept (\<lambda>x. x) Done 5 5 ?a ?ks1 = (Inr True, run_op (\<lambda>x. x) 5 (OpAccept Done 5 ?a) ?ks1)" by (simp add: prod_eq_iff)
  from trim obtain n where "fst (AckRecipient Done 5 7 [''m1''] sample_queue) = Inr n"
    by (cases "ackAcceptedScript 5 (idx 7) (sqk 7) [''m1''] sample_queue") (simp add: AckRecipient_def DirectRecipientScope_def scope_keys)
  then have ack: "AckRecipient Done 5 7 [''m1''] sample_queue = (Inr n, ?ks1)" by (simp add: prod_eq_iff)
  from acknowledged_cursor_skips [OF sample_queue_reachable ack _ _ _ c(1-3) acc one _ c(4,5)] box m(1) show ?thesis by simp
qed

end
