(* ===== verification/Router.thy ===== *)
theory Router
  imports Idempotency RecipientQueue Client ChatGroups
begin

text \<open>
  The frame router of the gateway, \<^verbatim>\<open>ws-gateway/router/router.go\<close>, and the HTTP fallback for sending,
  \<^verbatim>\<open>ws-gateway/router/send_http.go\<close>. JSON, UUIDs and the clock are parameters; the rows PostgreSQL is asked for are those of
  \<open>group_tables\<close>.
\<close>

section \<open>Payloads\<close>

record TypingPayload =
  tp_ConversationID :: string
  tp_SenderUIN :: uin
  tp_IsGroup :: bool
  tp_GroupID :: string

record ReadPayload =
  rp_ConversationID :: string
  rp_ReaderUIN :: uin
  rp_SenderUIN :: uin
  rp_MessageID :: string
  rp_CreatedAt :: gotime
  rp_IsGroup :: bool
  rp_GroupID :: string

record PresencePayload =
  pp_UIN :: uin
  pp_Status :: string
  pp_TS :: int

record ErrorPayload =
  ep_Code :: string
  ep_Message :: string

text \<open>The payloads as the wire has them: the ciphertext is base64 text.\<close>

record directMessageWirePayload =
  dw_ConversationID :: string
  dw_SenderUIN :: uin
  dw_ToUIN :: uin
  dw_ReceiverUIN :: uin
  dw_Content :: string
  dw_ContentType :: string
  dw_FileURL :: string
  dw_ClientID :: string
  dw_Ciphertext :: string
  dw_MsgType :: string
  dw_ExpiresInSeconds :: int

record groupMessageWirePayload =
  gx_GroupID :: string
  gx_SenderUIN :: uin
  gx_Content :: string
  gx_ContentType :: string
  gx_FileURL :: string
  gx_ClientID :: string
  gx_Ciphertext :: string
  gx_MsgType :: string
  gx_CryptoVersion :: int
  gx_CryptoEpoch :: int
  gx_ExpiresInSeconds :: int

text \<open>The JSON codec of the router: what it decodes (None: an error) and what it encodes.\<close>

record router_codec =
  rc_base :: codec
  rc_direct :: "bytes \<Rightarrow> directMessageWirePayload option"
  rc_group :: "bytes \<Rightarrow> groupMessageWirePayload option"
  rc_typing :: "bytes \<Rightarrow> TypingPayload option"
  rc_read :: "bytes \<Rightarrow> ReadPayload option"
  rc_presence :: "bytes \<Rightarrow> PresencePayload option"
  rc_ids :: "bytes \<Rightarrow> string list option"
  rc_direct_out :: "DirectMessagePayload \<Rightarrow> bytes"
  rc_group_out :: "GroupMessagePayload \<Rightarrow> bytes"
  rc_typing_out :: "TypingPayload \<Rightarrow> bytes"
  rc_read_out :: "ReadPayload \<Rightarrow> bytes"
  rc_presence_out :: "PresencePayload \<Rightarrow> bytes"
  rc_error_out :: "ErrorPayload \<Rightarrow> bytes"
  rc_empty_out :: bytes

section \<open>Validation\<close>

text \<open>\<open>URLEncoding\<close>, with padding; the decoder skips line breaks.\<close>

definition DecodeURL :: "string \<Rightarrow> bytes option" where
  "DecodeURL s =
     (let s = filter (\<lambda>ch. ch \<noteq> CHR 0x0A \<and> ch \<noteq> CHR 0x0D) s;
          body = (if take 2 (rev s) = ''=='' then take (length s - 2) s
                  else if take 1 (rev s) = ''='' then take (length s - 1) s else s)
      in if length s mod 4 \<noteq> 0 then None else DecodeString True body)"

definition decodeWireCiphertext :: "string \<Rightarrow> bytes option" where
  "decodeWireCiphertext ciphertext =
     (if ciphertext = [] then Some []
      else case DecodeString True ciphertext of
        Some b \<Rightarrow> Some b
      | None \<Rightarrow>
          (case DecodeURL ciphertext of
             Some b \<Rightarrow> Some b
           | None \<Rightarrow> (case DecodeString False ciphertext of Some b \<Rightarrow> Some b | None \<Rightarrow> DecodeStd ciphertext)))"

definition parseDirectPayload :: "router_codec \<Rightarrow> bytes \<Rightarrow> DirectMessagePayload option" where
  "parseDirectPayload c raw =
     (case rc_direct c raw of
        None \<Rightarrow> None
      | Some wire \<Rightarrow>
          (case decodeWireCiphertext (dw_Ciphertext wire) of
             None \<Rightarrow> None
           | Some ciphertext \<Rightarrow>
               let receiverUIN = (if dw_ReceiverUIN wire = 0 then dw_ToUIN wire else dw_ReceiverUIN wire)
               in Some \<lparr>dp_ConversationID = dw_ConversationID wire, dp_SenderUIN = dw_SenderUIN wire, dp_ToUIN = receiverUIN,
                    dp_ReceiverUIN = receiverUIN, dp_Content = dw_Content wire, dp_ContentType = dw_ContentType wire,
                    dp_FileURL = dw_FileURL wire, dp_ClientID = dw_ClientID wire, dp_Ciphertext = ciphertext,
                    dp_MsgType = dw_MsgType wire, dp_ExpiresInSeconds = dw_ExpiresInSeconds wire\<rparr>))"

definition validateDisappearingSeconds :: "int \<Rightarrow> string option" where
  "validateDisappearingSeconds secs =
     (if secs \<in> {3600, 86400, 259200, 604800} then None else Some ''expires_in_seconds must be 1h, 1d, 3d, or 7d'')"

definition isValidMessageType :: "string \<Rightarrow> bool" where
  "isValidMessageType msgType \<longleftrightarrow> msgType = ''signal_message'' \<or> msgType = ''prekey_message''"

definition validateDirectPayload :: "DirectMessagePayload \<Rightarrow> string option" where
  "validateDirectPayload p =
     (if dp_ReceiverUIN p = 0 then Some ''receiver_uin is required''
      else if dp_Content p = [] \<and> dp_Ciphertext p = [] then Some ''content or ciphertext is required''
      else if dp_Ciphertext p \<noteq> [] \<and> \<not> isValidMessageType (dp_MsgType p) then Some ''msg_type must be prekey_message or signal_message''
      else validateDisappearingSeconds (dp_ExpiresInSeconds p))"

definition authorizeDirectConversation :: "DirectMessagePayload \<Rightarrow> uin \<Rightarrow> string option" where
  "authorizeDirectConversation p sender =
     (if sender \<le> 0 \<or> dp_ReceiverUIN p \<le> 0 \<or> sender = dp_ReceiverUIN p then Some ''sender is not a member of this conversation''
      else
        let (a, b) = (if sender > dp_ReceiverUIN p then (dp_ReceiverUIN p, sender) else (sender, dp_ReceiverUIN p))
        in if dp_ConversationID p \<noteq> ''dm:'' @ itoa a @ '':'' @ itoa b then Some ''sender is not a member of this conversation'' else None)"

definition authenticatedOpaqueDirect :: "router_codec \<Rightarrow> bytes \<Rightarrow> uin \<Rightarrow> string + DirectMessagePayload" where
  "authenticatedOpaqueDirect c raw actor =
     (case parseDirectPayload c raw of
        None \<Rightarrow> Inl ''message payload malformed''
      | Some p0 \<Rightarrow>
          let p = p0\<lparr>dp_SenderUIN := actor\<rparr> in
          if dp_ClientID p = [] then Inl ''client_id is required''
          else if dp_Content p \<noteq> [] \<or> dp_Ciphertext p = [] then Inl ''opaque ciphertext is required''
          else case validateDirectPayload p of
            Some e \<Rightarrow> Inl e
          | None \<Rightarrow> (case authorizeDirectConversation p actor of Some e \<Rightarrow> Inl e | None \<Rightarrow> Inr p))"

definition forwardDirectPayload :: "DirectMessagePayload \<Rightarrow> uin \<Rightarrow> DirectMessagePayload" where
  "forwardDirectPayload p sender =
     \<lparr>dp_ConversationID = dp_ConversationID p, dp_SenderUIN = sender, dp_ToUIN = dp_ReceiverUIN p, dp_ReceiverUIN = dp_ReceiverUIN p,
      dp_Content = dp_Content p, dp_ContentType = dp_ContentType p, dp_FileURL = dp_FileURL p, dp_ClientID = dp_ClientID p,
      dp_Ciphertext = dp_Ciphertext p, dp_MsgType = dp_MsgType p, dp_ExpiresInSeconds = dp_ExpiresInSeconds p\<rparr>"

definition parseGroupPayload :: "router_codec \<Rightarrow> bytes \<Rightarrow> GroupMessagePayload option" where
  "parseGroupPayload c raw =
     (case rc_group c raw of
        None \<Rightarrow> None
      | Some wire \<Rightarrow>
          (case decodeWireCiphertext (gx_Ciphertext wire) of
             None \<Rightarrow> None
           | Some ciphertext \<Rightarrow>
               Some \<lparr>gp_GroupID = gx_GroupID wire, gp_SenderUIN = gx_SenderUIN wire, gp_Content = gx_Content wire,
                 gp_ContentType = gx_ContentType wire, gp_FileURL = gx_FileURL wire, gp_ClientID = gx_ClientID wire,
                 gp_Ciphertext = ciphertext, gp_MsgType = gx_MsgType wire, gp_CryptoVersion = gx_CryptoVersion wire,
                 gp_CryptoEpoch = gx_CryptoEpoch wire, gp_ExpiresInSeconds = gx_ExpiresInSeconds wire, gp_RecipientUINs = []\<rparr>))"

definition validateGroupPayload :: "GroupMessagePayload \<Rightarrow> string option" where
  "validateGroupPayload p =
     (if gp_GroupID p = [] then Some ''group_id is required''
      else if gp_Content p \<noteq> [] then Some ''plaintext group content is forbidden''
      else if gp_Ciphertext p = [] then Some ''ciphertext is required''
      else if gp_CryptoVersion p \<noteq> 1 \<or> gp_CryptoEpoch p < 1 \<or> gp_MsgType p \<noteq> ''group_ciphertext'' then Some ''versioned group ciphertext is required''
      else if gp_ClientID p = [] then Some ''client_id is required''
      else validateDisappearingSeconds (gp_ExpiresInSeconds p))"

text \<open>The two membership queries; \<open>pg\<close>: whether the database answers, \<open>ParseUUID\<close>: the cast of the group's id, which may fail.\<close>

definition member_at_epoch :: "bool \<Rightarrow> (string \<Rightarrow> group_id option) \<Rightarrow> group_tables \<Rightarrow> string \<Rightarrow> uin \<Rightarrow> int \<Rightarrow> bool option" where
  "member_at_epoch pg ParseUUID t groupID u epoch =
     (if \<not> pg then None
      else case ParseUUID groupID of
        None \<Rightarrow> None
      | Some g \<Rightarrow> Some (list_ex (\<lambda>r. mb_group r = g \<and> mb_uin r = u) (gt_members t) \<and> map_option gr_epoch (find_group t g) = Some epoch))"

definition typing_member :: "bool \<Rightarrow> (string \<Rightarrow> group_id option) \<Rightarrow> group_tables \<Rightarrow> string \<Rightarrow> uin \<Rightarrow> bool" where
  "typing_member pg ParseUUID t groupID u =
     (pg \<and> (case ParseUUID groupID of None \<Rightarrow> False | Some g \<Rightarrow> list_ex (\<lambda>r. mb_group r = g \<and> mb_uin r = u) (gt_members t)))"

definition directTypingPeer :: "string \<Rightarrow> uin \<Rightarrow> uin option" where
  "directTypingPeer conversationID actor =
     (case split_on (CHR '':'') conversationID of
        [x, y, z] \<Rightarrow>
          if x \<noteq> ''dm'' then None
          else (case (ParseInt64 y, ParseInt64 z) of
             (Some a, Some b) \<Rightarrow>
               if a \<le> 0 \<or> b \<le> 0 \<or> a \<ge> b then None
               else if actor = a then Some b else if actor = b then Some a else None
           | _ \<Rightarrow> None)
      | _ \<Rightarrow> None)"

text \<open>\<open>itoa\<close> of the router: digits from the back of a buffer; negating the least 64-bit number gives it back.\<close>

fun itoa_loop :: "nat \<Rightarrow> string \<Rightarrow> string" where
  "itoa_loop n buf = (if n = 0 then buf else itoa_loop (n div 10) (digit n # buf))"

definition router_itoa :: "int \<Rightarrow> string" where
  "router_itoa n =
     (if n = 0 then ''0''
      else let neg = n < 0; m = (if neg then wrap64 (- n) else n); buf = itoa_loop (nat m) []
           in if neg then CHR ''-'' # buf else buf)"

section \<open>Frames\<close>

text \<open>The connection, what has been published on NATS, what has been asked of the ingest service, and the recipient queues.\<close>

record route_world =
  rw_client :: client
  rw_published :: "(string \<times> bytes) list"
  rw_ingested :: "Envelope list"
  rw_queue :: keyspace

text \<open>The gateway's surroundings during one frame: the decoder of JSON text, ids and clock, the ingest request with its deadline, the
  database, and the recipient queue (\<open>ro_acker\<close>: whether one is configured).\<close>

record route_io =
  ro_js :: decoder
  ro_id :: string
  ro_now :: gotime
  ro_request :: "(string \<Rightarrow> bytes \<Rightarrow> duration \<Rightarrow> bytes option) option"
  ro_remaining :: "duration option"
  ro_expired :: bool
  ro_pg :: bool
  ro_uuid :: "string \<Rightarrow> group_id option"
  ro_tables :: group_tables
  ro_acker :: bool
  ro_ack :: outcome
  ro_redis_now :: int

definition try_send :: "route_io \<Rightarrow> bytes \<Rightarrow> route_world \<Rightarrow> route_world" where
  "try_send io b w = w\<lparr>rw_client := snd (TrySend (ro_js io) b (rw_client w))\<rparr>"

definition publish :: "string \<Rightarrow> bytes \<Rightarrow> route_world \<Rightarrow> route_world" where
  "publish subject data w = w\<lparr>rw_published := rw_published w @ [(subject, data)]\<rparr>"

definition sendErrorFrame :: "router_codec \<Rightarrow> route_io \<Rightarrow> string \<Rightarrow> string \<Rightarrow> route_world \<Rightarrow> route_world" where
  "sendErrorFrame c io code message w =
     try_send io (cd_env_out (rc_base c) (NewEnvelope (ro_id io) (unix_milli (ro_now io)) EnvelopeTypeError
       (rc_error_out c \<lparr>ep_Code = code, ep_Message = message\<rparr>))) w"

text \<open>The request to the ingest service, recorded, and its answer.\<close>

definition ingest :: "router_codec \<Rightarrow> route_io \<Rightarrow> Envelope \<Rightarrow> route_world \<Rightarrow> Envelope option \<times> route_world" where
  "ingest c io out w =
     (requestDurableIngest (rc_base c) (ro_request io) (ro_remaining io) (ro_expired io) out, w\<lparr>rw_ingested := rw_ingested w @ [out]\<rparr>)"

definition out_envelope :: "string \<Rightarrow> bytes \<Rightarrow> Envelope" where
  "out_envelope t payload = \<lparr>ev_Type = t, ev_ID = [], ev_TS = 0, ev_Payload = payload\<rparr>"

definition handleDirect :: "router_codec \<Rightarrow> route_io \<Rightarrow> Envelope \<Rightarrow> route_world \<Rightarrow> route_world" where
  "handleDirect c io env w =
     (let u = cl_uin (rw_client w) in
      case authenticatedOpaqueDirect c (ev_Payload env) u of
        Inl e \<Rightarrow> sendErrorFrame c io ''INVALID_PAYLOAD'' e w
      | Inr p \<Rightarrow>
          (case ingest c io (out_envelope EnvelopeTypeDirect (rc_direct_out c (forwardDirectPayload p u))) w of
             (None, w1) \<Rightarrow> sendErrorFrame c io ''DELIVERY_UNAVAILABLE'' ''durable message ingest failed'' w1
           | (Some ack, w1) \<Rightarrow> try_send io (cd_env_out (rc_base c) ack) w1))"

definition handleGroup :: "router_codec \<Rightarrow> route_io \<Rightarrow> Envelope \<Rightarrow> route_world \<Rightarrow> route_world" where
  "handleGroup c io env w =
     (let u = cl_uin (rw_client w) in
      case parseGroupPayload c (ev_Payload env) of
        None \<Rightarrow> sendErrorFrame c io ''INVALID_PAYLOAD'' ''group payload malformed'' w
      | Some p0 \<Rightarrow>
          (case validateGroupPayload p0 of
             Some e \<Rightarrow> sendErrorFrame c io ''INVALID_PAYLOAD'' e w
           | None \<Rightarrow>
               let p = p0\<lparr>gp_SenderUIN := u\<rparr> in
               (case member_at_epoch (ro_pg io) (ro_uuid io) (ro_tables io) (gp_GroupID p) u (gp_CryptoEpoch p) of
                  None \<Rightarrow> sendErrorFrame c io ''INTERNAL'' ''membership check failed'' w
                | Some False \<Rightarrow> sendErrorFrame c io ''NOT_A_MEMBER'' ''sender is not a member of this group'' w
                | Some True \<Rightarrow>
                    (case ingest c io (out_envelope EnvelopeTypeGroup (rc_group_out c
                          \<lparr>gp_GroupID = gp_GroupID p, gp_SenderUIN = gp_SenderUIN p, gp_Content = gp_Content p, gp_ContentType = gp_ContentType p,
                           gp_FileURL = gp_FileURL p, gp_ClientID = gp_ClientID p, gp_Ciphertext = gp_Ciphertext p, gp_MsgType = gp_MsgType p,
                           gp_CryptoVersion = gp_CryptoVersion p, gp_CryptoEpoch = gp_CryptoEpoch p, gp_ExpiresInSeconds = gp_ExpiresInSeconds p,
                           gp_RecipientUINs = []\<rparr>)) w of
                       (None, w1) \<Rightarrow> sendErrorFrame c io ''DELIVERY_UNAVAILABLE'' ''durable group ingest failed'' w1
                     | (Some ack, w1) \<Rightarrow> try_send io (cd_env_out (rc_base c) ack) w1))))"

definition handleTyping :: "router_codec \<Rightarrow> route_io \<Rightarrow> Envelope \<Rightarrow> route_world \<Rightarrow> route_world" where
  "handleTyping c io env w =
     (let u = cl_uin (rw_client w) in
      case rc_typing c (ev_Payload env) of
        None \<Rightarrow> w
      | Some p0 \<Rightarrow>
          let p = p0\<lparr>tp_SenderUIN := u\<rparr>; data = cd_env_out (rc_base c) (env\<lparr>ev_Payload := rc_typing_out c p\<rparr>) in
          if tp_IsGroup p \<and> tp_GroupID p \<noteq> [] then
            (if \<not> typing_member (ro_pg io) (ro_uuid io) (ro_tables io) (tp_GroupID p) u then w else publish (''msg.group.'' @ tp_GroupID p) data w)
          else (case directTypingPeer (tp_ConversationID p) u of None \<Rightarrow> w | Some peer \<Rightarrow> publish (''msg.direct.'' @ itoa peer) data w))"

definition handleRead :: "router_codec \<Rightarrow> route_io \<Rightarrow> Envelope \<Rightarrow> route_world \<Rightarrow> route_world" where
  "handleRead c io env w =
     (case rc_read c (ev_Payload env) of
        None \<Rightarrow> w
      | Some p0 \<Rightarrow>
          let p = p0\<lparr>rp_ReaderUIN := cl_uin (rw_client w)\<rparr>; data = cd_env_out (rc_base c) (env\<lparr>ev_Payload := rc_read_out c p\<rparr>) in
          if rp_SenderUIN p \<le> 0 then w else publish (''ack.'' @ router_itoa (rp_SenderUIN p)) data w)"

definition PresenceStatusOnline :: string where "PresenceStatusOnline = ''online''"
definition PresenceStatusAway :: string where "PresenceStatusAway = ''away''"
definition PresenceStatusDND :: string where "PresenceStatusDND = ''dnd''"
definition PresenceStatusOffline :: string where "PresenceStatusOffline = ''offline''"

definition overridePresenceUIN :: "PresencePayload \<Rightarrow> uin \<Rightarrow> PresencePayload" where
  "overridePresenceUIN p u = p\<lparr>pp_UIN := u\<rparr>"

text \<open>\<open>Truncate(time.Minute)\<close>\<close>

definition minute_of :: "gotime \<Rightarrow> gotime" where
  "minute_of t = t - t mod Minute"

definition handlePresence :: "router_codec \<Rightarrow> route_io \<Rightarrow> Envelope \<Rightarrow> route_world \<Rightarrow> route_world" where
  "handlePresence c io env w =
     (case rc_presence c (ev_Payload env) of
        None \<Rightarrow> w
      | Some p0 \<Rightarrow>
          if pp_Status p0 \<notin> {PresenceStatusOnline, PresenceStatusAway, PresenceStatusDND, PresenceStatusOffline} then w
          else
            let p = (overridePresenceUIN p0 (cl_uin (rw_client w)))\<lparr>pp_TS := unix_milli (minute_of (ro_now io))\<rparr>;
                data = cd_env_out (rc_base c) \<lparr>ev_Type = EnvelopeTypePresence, ev_ID = ro_id io, ev_TS = pp_TS p, ev_Payload = rc_presence_out c p\<rparr>
            in publish ''presence.update'' data w)"

definition buildPongEnvelope :: "router_codec \<Rightarrow> gotime \<Rightarrow> string \<Rightarrow> Envelope" where
  "buildPongEnvelope c now i = \<lparr>ev_Type = ''pong'', ev_ID = i, ev_TS = unix_milli now, ev_Payload = rc_empty_out c\<rparr>"

definition handlePing :: "router_codec \<Rightarrow> route_io \<Rightarrow> Envelope \<Rightarrow> route_world \<Rightarrow> route_world" where
  "handlePing c io env w = try_send io (cd_env_out (rc_base c) (buildPongEnvelope c (ro_now io) (ev_ID env))) w"

definition handleTransportAck :: "router_codec \<Rightarrow> route_io \<Rightarrow> Envelope \<Rightarrow> route_world \<Rightarrow> route_world" where
  "handleTransportAck c io env w =
     (if \<not> ro_acker io then sendErrorFrame c io ''TRANSPORT_ACK_UNAVAILABLE'' ''recipient queue unavailable'' w
      else case rc_ids c (ev_Payload env) of
        None \<Rightarrow> sendErrorFrame c io ''INVALID_PAYLOAD'' ''message_ids must contain 1 to 100 ids'' w
      | Some ids \<Rightarrow>
          if ids = [] \<or> length ids > 100 then sendErrorFrame c io ''INVALID_PAYLOAD'' ''message_ids must contain 1 to 100 ids'' w
          else if list_ex (\<lambda>i. cd_uuid (rc_base c) i = None) ids then sendErrorFrame c io ''INVALID_PAYLOAD'' ''message_ids must be UUIDs'' w
          else
            let (res, q) = AckRecipient (ro_ack io) (ro_redis_now io) (cl_uin (rw_client w)) ids (rw_queue w); w1 = w\<lparr>rw_queue := q\<rparr>
            in case res of
                 Inl e \<Rightarrow> sendErrorFrame c io ''TRANSPORT_ACK_FAILED'' ''recipient queue unavailable'' w1
               | Inr n \<Rightarrow> w1)"

definition Dispatch :: "router_codec \<Rightarrow> route_io \<Rightarrow> Envelope \<Rightarrow> route_world \<Rightarrow> route_world" where
  "Dispatch c io env w =
     (let t = ev_Type env in
      if t = EnvelopeTypeDirect then handleDirect c io env w
      else if t = EnvelopeTypeGroup then handleGroup c io env w
      else if t = EnvelopeTypeTyping then handleTyping c io env w
      else if t = EnvelopeTypeRead then handleRead c io env w
      else if t = EnvelopeTypePresence then handlePresence c io env w
      else if t = EnvelopeTypeTransportAck then handleTransportAck c io env w
      else if t = ''ping'' then handlePing c io env w
      else sendErrorFrame c io ''UNKNOWN_TYPE'' ''envelope type not recognized'' w)"

section \<open>HTTP fallback\<close>

datatype send_error = ErrSendUnavailable | ErrSend string

definition IsCurrentMember :: "bool \<Rightarrow> (string \<Rightarrow> group_id option) \<Rightarrow> group_tables \<Rightarrow> string \<Rightarrow> uin \<Rightarrow> int \<Rightarrow> bool option" where
  "IsCurrentMember pg ParseUUID t groupID actor epoch = member_at_epoch pg ParseUUID t groupID actor epoch"

text \<open>\<open>groups\<close>: the membership check, if one is configured.\<close>

definition processHTTPSend ::
  "router_codec \<Rightarrow> route_io \<Rightarrow> (string \<Rightarrow> uin \<Rightarrow> int \<Rightarrow> bool option) option \<Rightarrow> uin \<Rightarrow> Envelope \<Rightarrow> route_world \<Rightarrow>
    (send_error + Envelope) \<times> route_world" where
  "processHTTPSend c io groups actor env w =
     (let reply = (\<lambda>out. case ingest c io out w of (None, w1) \<Rightarrow> (Inl ErrSendUnavailable, w1) | (Some ack, w1) \<Rightarrow> (Inr ack, w1)) in
      if ev_Type env = EnvelopeTypeDirect then
        (case authenticatedOpaqueDirect c (ev_Payload env) actor of
           Inl e \<Rightarrow> (Inl (ErrSend e), w)
         | Inr p \<Rightarrow> reply (out_envelope (ev_Type env) (rc_direct_out c (forwardDirectPayload p actor))))
      else if ev_Type env = EnvelopeTypeGroup then
        (case parseGroupPayload c (ev_Payload env) of
           None \<Rightarrow> (Inl (ErrSend ''malformed''), w)
         | Some p \<Rightarrow>
             (case validateGroupPayload p of
                Some e \<Rightarrow> (Inl (ErrSend e), w)
              | None \<Rightarrow>
                  (case groups of
                     None \<Rightarrow> (Inl ErrSendUnavailable, w)
                   | Some member \<Rightarrow>
                       (case member (gp_GroupID p) actor (gp_CryptoEpoch p) of
                          None \<Rightarrow> (Inl ErrSendUnavailable, w)
                        | Some False \<Rightarrow> (Inl (ErrSend ''sender is not a current group member''), w)
                        | Some True \<Rightarrow> reply (out_envelope (ev_Type env) (rc_group_out c (p\<lparr>gp_SenderUIN := actor\<rparr>)))))))
      else (Inl (ErrSend ''unsupported envelope type''), w))"

datatype send_reply = SendStatus nat | SendAck Envelope

text \<open>\<open>body\<close>: the decoded request body, None for one that does not decode, is too long, has unknown fields or trailing data.\<close>

definition sendHandler ::
  "router_codec \<Rightarrow> route_io \<Rightarrow> (string \<Rightarrow> uin \<Rightarrow> int \<Rightarrow> bool option) option \<Rightarrow> bool \<Rightarrow> uin option \<Rightarrow> Envelope option \<Rightarrow> route_world \<Rightarrow>
    send_reply \<times> route_world" where
  "sendHandler c io groups isPost actor body w =
     (if \<not> isPost then (SendStatus 405, w)
      else case actor of
        None \<Rightarrow> (SendStatus 401, w)
      | Some u \<Rightarrow>
          (case body of
             None \<Rightarrow> (SendStatus 400, w)
           | Some env \<Rightarrow>
               (case processHTTPSend c io groups u env w of
                  (Inl ErrSendUnavailable, w1) \<Rightarrow> (SendStatus 503, w1)
                | (Inl (ErrSend e), w1) \<Rightarrow> (SendStatus 400, w1)
                | (Inr ack, w1) \<Rightarrow> (SendAck ack, w1))))"

end
