(* ===== verification/Delivery.thy ===== *)
theory Delivery
  imports QueueProperties Payloads Hub Tokens ChatGroups
begin

text \<open>
  The gateway's side of message delivery: the durable consumer of \<^verbatim>\<open>ws-gateway/delivery_consumer.go\<close>, which puts every
  message of the delivery stream into the queues of its recipients, and the subscriptions of \<^verbatim>\<open>ws-gateway/main.go\<close>. The
  consumer sees the queue through the interface \<^verbatim>\<open>recipientAccepter\<close>; what it relies on is the locale \<open>recipient_accepter\<close>,
  interpreted on the queue.
\<close>

section \<open>The consumer\<close>

datatype delivery_error =
    ErrInvalidEnvelope | ErrInvalidDirect | ErrInvalidGroup | ErrSubjectMismatch | ErrUnsupportedType | ErrQueue queue_error | ErrReceipt

record deliveryReceipt =
  dr_SenderUIN :: uin
  dr_ClientID :: string
  dr_MessageID :: string

text \<open>\<open>accept\<close>, \<open>read\<close>: the methods of \<open>recipientAccepter\<close> on a queue; \<open>notify\<close>: \<open>SendLive\<close> on the hub.\<close>

definition replayAccepted ::
  "(RecipientAcceptanceScope \<Rightarrow> string \<Rightarrow> int \<Rightarrow> 's \<Rightarrow> (queue_error + AcceptedEnvelope list) \<times> 's) \<Rightarrow> (uin \<Rightarrow> bytes \<Rightarrow> 'g \<Rightarrow> 'g) \<Rightarrow>
    uin \<Rightarrow> 's \<Rightarrow> 'g \<Rightarrow> queue_error option \<times> 's \<times> 'g" where
  "replayAccepted read notify u s g =
     (case DirectRecipientScope u of
        Inl e \<Rightarrow> (Some e, s, g)
      | Inr scope \<Rightarrow>
          (case read scope [] 1000 s of
             (Inl e, s1) \<Rightarrow> (Some e, s1, g)
           | (Inr items, s1) \<Rightarrow> (None, s1, foldl (\<lambda>g item. notify u (ae_Envelope item) g) g items)))"

text \<open>What the first part of \<open>acceptDelivery\<close> reads from the message: the sender, the client id, the recipients, their scopes, and the
  time the message ends.\<close>

record delivery_plan =
  dl_sender :: uin
  dl_client :: string
  dl_recipients :: "uin list"
  dl_scopes :: "RecipientAcceptanceScope list"
  dl_expires :: "gotime option"

text \<open>The loop over the group's recipients.\<close>

fun group_scopes :: "(bytes \<Rightarrow> bytes) \<Rightarrow> string \<Rightarrow> uin list \<Rightarrow> queue_error + RecipientAcceptanceScope list" where
  "group_scopes sha g [] = Inr []"
| "group_scopes sha g (u # us) =
     (case GroupMemberScope sha g u of
        Inl e \<Rightarrow> Inl e
      | Inr sc \<Rightarrow> (case group_scopes sha g us of Inl e \<Rightarrow> Inl e | Inr scs \<Rightarrow> Inr (sc # scs)))"

definition plan_delivery :: "codec \<Rightarrow> (bytes \<Rightarrow> bytes) \<Rightarrow> string \<Rightarrow> Envelope \<Rightarrow> delivery_error + delivery_plan" where
  "plan_delivery c sha subject env =
     (if ev_Type env = EnvelopeTypeDirect then
        (case cd_direct c (ev_Payload env) of
           None \<Rightarrow> Inl ErrInvalidDirect
         | Some p \<Rightarrow>
             if dp_SenderUIN p \<le> 0 \<or> dp_ReceiverUIN p \<le> 0 \<or> dp_ClientID p = [] then Inl ErrInvalidDirect
             else if subject \<noteq> ''msg.direct.'' @ itoa (dp_ReceiverUIN p) then Inl ErrSubjectMismatch
             else case DirectRecipientScope (dp_ReceiverUIN p) of
               Inl e \<Rightarrow> Inl (ErrQueue e)
             | Inr scope \<Rightarrow> Inr \<lparr>dl_sender = dp_SenderUIN p, dl_client = dp_ClientID p, dl_recipients = [dp_ReceiverUIN p],
                 dl_scopes = [scope], dl_expires = expiry_of (ev_TS env) (dp_ExpiresInSeconds p)\<rparr>)
      else if ev_Type env = EnvelopeTypeGroup then
        (case cd_group c (ev_Payload env) of
           None \<Rightarrow> Inl ErrInvalidGroup
         | Some p \<Rightarrow>
             if gp_SenderUIN p \<le> 0 \<or> gp_GroupID p = [] \<or> gp_ClientID p = [] then Inl ErrInvalidGroup
             else if subject \<noteq> ''msg.group.'' @ gp_GroupID p \<or> gp_RecipientUINs p = [] then Inl ErrSubjectMismatch
             else case group_scopes sha (gp_GroupID p) (gp_RecipientUINs p) of
               Inl e \<Rightarrow> Inl (ErrQueue e)
             | Inr scopes \<Rightarrow> Inr \<lparr>dl_sender = gp_SenderUIN p, dl_client = gp_ClientID p, dl_recipients = gp_RecipientUINs p,
                 dl_scopes = scopes, dl_expires = expiry_of (ev_TS env) (gp_ExpiresInSeconds p)\<rparr>)
      else Inl ErrUnsupportedType)"

text \<open>The loop over the scopes and recipients.\<close>

fun accept_all ::
  "(RecipientAcceptance \<Rightarrow> 's \<Rightarrow> (queue_error + bool) \<times> 's) \<Rightarrow>
   (RecipientAcceptanceScope \<Rightarrow> string \<Rightarrow> int \<Rightarrow> 's \<Rightarrow> (queue_error + AcceptedEnvelope list) \<times> 's) \<Rightarrow> (uin \<Rightarrow> bytes \<Rightarrow> 'g \<Rightarrow> 'g) \<Rightarrow>
   string \<Rightarrow> bytes \<Rightarrow> gotime option \<Rightarrow> (RecipientAcceptanceScope \<times> uin) list \<Rightarrow> 's \<Rightarrow> 'g \<Rightarrow> queue_error option \<times> 's \<times> 'g" where
  "accept_all accept read notify i body ex [] s g = (None, s, g)"
| "accept_all accept read notify i body ex ((scope, u) # rest) s g =
     (case accept \<lparr>ra_Scope = scope, ra_MessageID = i, ra_Envelope = body, ra_ExpiresAt = ex\<rparr> s of
        (Inl e, s1) \<Rightarrow> (Some e, s1, g)
      | (Inr _, s1) \<Rightarrow>
          (case replayAccepted read notify u s1 g of
             (Some e, s2, g2) \<Rightarrow> (Some e, s2, g2)
           | (None, s2, g2) \<Rightarrow> accept_all accept read notify i body ex rest s2 g2))"

text \<open>\<open>request\<close>: the request for the receipt, which succeeds or not; the receipt asked for is part of the result.\<close>

definition acceptDelivery ::
  "codec \<Rightarrow> (bytes \<Rightarrow> bytes) \<Rightarrow> (RecipientAcceptance \<Rightarrow> 's \<Rightarrow> (queue_error + bool) \<times> 's) \<Rightarrow>
   (RecipientAcceptanceScope \<Rightarrow> string \<Rightarrow> int \<Rightarrow> 's \<Rightarrow> (queue_error + AcceptedEnvelope list) \<times> 's) \<Rightarrow> (uin \<Rightarrow> bytes \<Rightarrow> 'g \<Rightarrow> 'g) \<Rightarrow>
   (deliveryReceipt \<Rightarrow> bool) \<Rightarrow> string \<Rightarrow> bytes \<Rightarrow> 's \<Rightarrow> 'g \<Rightarrow> delivery_error option \<times> deliveryReceipt option \<times> 's \<times> 'g" where
  "acceptDelivery c sha accept read notify request subject body s g =
     (case cd_env c body of
        None \<Rightarrow> (Some ErrInvalidEnvelope, None, s, g)
      | Some env \<Rightarrow>
          if ev_ID env = [] then (Some ErrInvalidEnvelope, None, s, g)
          else case plan_delivery c sha subject env of
            Inl e \<Rightarrow> (Some e, None, s, g)
          | Inr p \<Rightarrow>
              (case accept_all accept read notify (ev_ID env) body (dl_expires p) (zip (dl_scopes p) (dl_recipients p)) s g of
                 (Some e, s1, g1) \<Rightarrow> (Some (ErrQueue e), None, s1, g1)
               | (None, s1, g1) \<Rightarrow>
                   let receipt = \<lparr>dr_SenderUIN = dl_sender p, dr_ClientID = dl_client p, dr_MessageID = ev_ID env\<rparr>
                   in (if request receipt then None else Some ErrReceipt, Some receipt, s1, g1)))"

text \<open>What the consumer does with a message of the stream: acknowledge it, or ask for it again after a second.\<close>

datatype stream_reply = AckSync | NakWithDelay

definition consume :: "delivery_error option \<Rightarrow> stream_reply" where
  "consume err = (case err of None \<Rightarrow> AckSync | Some e \<Rightarrow> NakWithDelay)"


section \<open>Subscriptions\<close>

definition parseTail :: "string \<Rightarrow> string \<Rightarrow> string option" where
  "parseTail subject prefix = (if length subject \<le> length prefix then None else Some (drop (length prefix) subject))"

definition parseTailUIN :: "string \<Rightarrow> string \<Rightarrow> uin option" where
  "parseTailUIN subject prefix = (case parseTail subject prefix of None \<Rightarrow> None | Some s \<Rightarrow> ParseInt64 s)"

definition direct_subscription ::
  "('r, 'x) redis_api_scheme \<Rightarrow> decoder \<Rightarrow> string \<Rightarrow> bytes \<Rightarrow> 'r gateway \<Rightarrow> 'r gateway" where
  "direct_subscription R js subject payload w =
     (case parseTailUIN subject ''msg.direct.'' of None \<Rightarrow> w | Some u \<Rightarrow> snd (Send R js u payload w))"

text \<open>\<open>rows\<close>: the members of the group the query returns, None when it fails.\<close>

definition group_subscription ::
  "('r, 'x) redis_api_scheme \<Rightarrow> decoder \<Rightarrow> (string \<Rightarrow> uin list option) \<Rightarrow> string \<Rightarrow> bytes \<Rightarrow> 'r gateway \<Rightarrow> 'r gateway" where
  "group_subscription R js rows subject payload w =
     (case parseTail subject ''msg.group.'' of
        None \<Rightarrow> w
      | Some g \<Rightarrow> (case rows g of None \<Rightarrow> w | Some uins \<Rightarrow> Broadcast R js uins payload w))"

definition notification_subscription ::
  "('r, 'x) redis_api_scheme \<Rightarrow> decoder \<Rightarrow> string \<Rightarrow> bytes \<Rightarrow> 'r gateway \<Rightarrow> 'r gateway" where
  "notification_subscription R js subject payload w =
     (case parseTailUIN subject ''notification.'' of None \<Rightarrow> w | Some u \<Rightarrow> snd (Send R js u payload w))"

text \<open>\<open>check\<close>: the verdict of \<open>IsAccountWipedOrMissing\<close>, None for an error.\<close>

definition handleAccountWipedNotification ::
  "(uin \<Rightarrow> bool option) \<Rightarrow> (uin \<Rightarrow> 'r gateway \<Rightarrow> 'r gateway) \<Rightarrow> string \<Rightarrow> 'r gateway \<Rightarrow> bool option \<times> 'r gateway" where
  "handleAccountWipedNotification check closer subject w =
     (if take (length ''account.wiped.'') subject \<noteq> ''account.wiped.'' then (Some False, w)
      else case parseTailUIN subject ''account.wiped.'' of
        None \<Rightarrow> (Some False, w)
      | Some u \<Rightarrow>
          if u \<le> 0 then (Some False, w)
          else case check u of
            None \<Rightarrow> (None, w)
          | Some verified \<Rightarrow> if \<not> verified then (Some False, w) else (Some True, closer u w))"


section \<open>What the consumer relies on\<close>

text \<open>\<open>good\<close>: states of the queue; \<open>taken a s\<close>: the message is or was in the recipient's queue; \<open>same s s'\<close>: every recipient has the
  same messages. A message is \<open>timely\<close> when it has not ended.\<close>

locale recipient_accepter =
  fixes accept :: "RecipientAcceptance \<Rightarrow> 's \<Rightarrow> (queue_error + bool) \<times> 's"
    and read :: "RecipientAcceptanceScope \<Rightarrow> string \<Rightarrow> int \<Rightarrow> 's \<Rightarrow> (queue_error + AcceptedEnvelope list) \<times> 's"
    and good :: "'s \<Rightarrow> bool" and taken :: "RecipientAcceptance \<Rightarrow> 's \<Rightarrow> bool" and same :: "'s \<Rightarrow> 's \<Rightarrow> bool" and timely :: "RecipientAcceptance \<Rightarrow> bool"
  assumes accept_good: "good s \<Longrightarrow> good (snd (accept a s))" and read_good: "good s \<Longrightarrow> good (snd (read sc after n s))"
    and accept_takes: "good s \<Longrightarrow> timely a \<Longrightarrow> fst (accept a s) = Inr b \<Longrightarrow> taken a (snd (accept a s))"
    and accept_keeps: "good s \<Longrightarrow> timely a \<Longrightarrow> taken a s \<Longrightarrow> taken a (snd (accept a' s))"
    and read_keeps: "good s \<Longrightarrow> timely a \<Longrightarrow> taken a s \<Longrightarrow> taken a (snd (read sc after n s))"
    and accept_again: "good s \<Longrightarrow> timely a \<Longrightarrow> taken a s \<Longrightarrow> same s (snd (accept a s))"
    and read_same: "good s \<Longrightarrow> same s (snd (read sc after n s))"
    and same_refl: "same s s" and same_trans: "same s s' \<Longrightarrow> same s' s'' \<Longrightarrow> same s s''"
begin

lemma replay_state:
  "fst (snd (replayAccepted read notify u s g)) = s \<or> (\<exists>sc. fst (snd (replayAccepted read notify u s g)) = snd (read sc [] 1000 s))"
proof (cases "DirectRecipientScope u")
  case (Inr sc)
  obtain res s1 where "read sc [] 1000 s = (res, s1)" by force
  with Inr have "fst (snd (replayAccepted read notify u s g)) = snd (read sc [] 1000 s)" by (cases res) (simp_all add: replayAccepted_def)
  then show ?thesis by blast
qed (simp add: replayAccepted_def)

lemma replay_good: "good s \<Longrightarrow> good (fst (snd (replayAccepted read notify u s g)))"
  using replay_state [of notify u s g] read_good by metis

lemma replay_keeps: "good s \<Longrightarrow> timely a \<Longrightarrow> taken a s \<Longrightarrow> taken a (fst (snd (replayAccepted read notify u s g)))"
  using replay_state [of notify u s g] read_keeps by metis

lemma replay_same: "good s \<Longrightarrow> same s (fst (snd (replayAccepted read notify u s g)))"
  using replay_state [of notify u s g] read_same same_refl by metis

lemma accept_all_keeps:
  "good s \<Longrightarrow> timely a \<Longrightarrow> taken a s \<Longrightarrow>
    good (fst (snd (accept_all accept read notify i body ex targets s g))) \<and> taken a (fst (snd (accept_all accept read notify i body ex targets s g)))"
proof (induction targets arbitrary: s g)
  case (Cons t rest)
  obtain scope u where t: "t = (scope, u)" by force
  let ?a = "\<lparr>ra_Scope = scope, ra_MessageID = i, ra_Envelope = body, ra_ExpiresAt = ex\<rparr>"
  obtain res s1 where a: "accept ?a s = (res, s1)" by force
  obtain e s2 g2 where r: "replayAccepted read notify u s1 g = (e, s2, g2)" by (cases "replayAccepted read notify u s1 g") auto
  have k1: "good s1" "taken a s1" using accept_good [OF Cons.prems(1), of ?a] accept_keeps [OF Cons.prems, of ?a] a by simp_all
  have "good s2" "taken a s2" using replay_good [OF k1(1), of notify u g] replay_keeps [OF k1(1) Cons.prems(2) k1(2), of notify u g] r by simp_all
  with k1 Cons.IH [of s2 g2] Cons.prems(2) a r show ?case by (auto simp: t split: sum.split option.split)
qed simp

text \<open>When the loop ends without an error, every recipient has the message.\<close>

lemma accept_all_takes:
  assumes "good s" and "fst (accept_all accept read notify i body ex targets s g) = None" and "(scope, u) \<in> set targets"
    and "timely \<lparr>ra_Scope = scope, ra_MessageID = i, ra_Envelope = body, ra_ExpiresAt = ex\<rparr>"
  shows "taken \<lparr>ra_Scope = scope, ra_MessageID = i, ra_Envelope = body, ra_ExpiresAt = ex\<rparr>
    (fst (snd (accept_all accept read notify i body ex targets s g)))"
  using assms(1-3)
proof (induction targets arbitrary: s g)
  case (Cons t rest)
  obtain scope' u' where t: "t = (scope', u')" by force
  let ?a = "\<lparr>ra_Scope = scope', ra_MessageID = i, ra_Envelope = body, ra_ExpiresAt = ex\<rparr>"
  obtain res s1 where a: "accept ?a s = (res, s1)" by force
  obtain e s2 g2 where r: "replayAccepted read notify u' s1 g = (e, s2, g2)" by (cases "replayAccepted read notify u' s1 g") auto
  have ok: "\<exists>b. res = Inr b" "e = None" using Cons.prems(2) a r by (auto simp: t split: sum.splits option.splits)
  have g1: "good s1" using accept_good [OF Cons.prems(1), of ?a] a by simp
  have g2: "good s2" using replay_good [OF g1, of notify u' g] r by simp
  have rest: "accept_all accept read notify i body ex (t # rest) s g = accept_all accept read notify i body ex rest s2 g2"
    using ok a r by (auto simp: t)
  show ?case
  proof (cases "(scope, u) = t")
    case True
    then have "taken ?a s1" using accept_takes [OF Cons.prems(1), of ?a] ok a assms(4) t by auto
    then have "taken ?a s2" using replay_keeps [OF g1, of ?a notify u' g] r True t assms(4) by simp
    then have "taken ?a (fst (snd (accept_all accept read notify i body ex rest s2 g2)))"
      using accept_all_keeps [OF g2, of ?a notify i body ex rest g2] True t assms(4) by auto
    then show ?thesis using True t unfolding rest by simp
  next
    case False
    then show ?thesis using Cons.IH [OF g2, of g2] Cons.prems(2,3) unfolding rest by simp
  qed
qed simp

text \<open>When every recipient has the message already, no queue changes.\<close>

lemma accept_all_again:
  assumes "good s" and "\<forall>(scope, u) \<in> set targets. timely \<lparr>ra_Scope = scope, ra_MessageID = i, ra_Envelope = body, ra_ExpiresAt = ex\<rparr> \<and>
      taken \<lparr>ra_Scope = scope, ra_MessageID = i, ra_Envelope = body, ra_ExpiresAt = ex\<rparr> s"
  shows "same s (fst (snd (accept_all accept read notify i body ex targets s g)))"
  using assms
proof (induction targets arbitrary: s g)
  case Nil
  then show ?case by (simp add: same_refl)
next
  case (Cons t rest)
  obtain scope u where t: "t = (scope, u)" by force
  let ?m = "\<lambda>scope. \<lparr>ra_Scope = scope, ra_MessageID = i, ra_Envelope = body, ra_ExpiresAt = ex\<rparr>"
  obtain res s1 where a: "accept (?m scope) s = (res, s1)" by force
  obtain e s2 g2 where r: "replayAccepted read notify u s1 g = (e, s2, g2)" by (cases "replayAccepted read notify u s1 g") auto
  have g1: "good s1" "same s s1" using accept_good [OF Cons.prems(1), of "?m scope"] accept_again [OF Cons.prems(1), of "?m scope"] Cons.prems(2) a t by auto
  have g2: "good s2" "same s1 s2" using replay_good [OF g1(1), of notify u g] replay_same [OF g1(1), of notify u g] r by simp_all
  have "\<forall>(sc, v) \<in> set rest. timely (?m sc) \<and> taken (?m sc) s2"
  proof (intro ballI, clarify)
    fix sc v assume "(sc, v) \<in> set rest"
    then have tm: "timely (?m sc)" "taken (?m sc) s" using Cons.prems(2) by auto
    then have "taken (?m sc) s1" using accept_keeps [OF Cons.prems(1), of "?m sc" "?m scope"] a by simp
    then show "timely (?m sc) \<and> taken (?m sc) s2" using replay_keeps [OF g1(1) tm(1), of notify u g] r tm by simp
  qed
  then have "same s2 (fst (snd (accept_all accept read notify i body ex rest s2 g2)))" by (rule Cons.IH [OF g2(1)])
  then have all: "same s (fst (snd (accept_all accept read notify i body ex rest s2 g2)))" using same_trans [OF same_trans [OF g1(2) g2(2)]] by blast
  have two: "same s s2" by (rule same_trans [OF g1(2) g2(2)])
  show ?case using a r all two g1(2) by (cases res; cases e) (simp_all add: t)
qed

end

section \<open>The queue keeps the contract\<close>

definition queues_ok :: "keyspace \<Rightarrow> bool" where
  "queues_ok ks \<longleftrightarrow> (\<forall>u. inbox_ok u ks)"

definition taken_at :: "(bytes \<Rightarrow> bytes) \<Rightarrow> int \<Rightarrow> RecipientAcceptance \<Rightarrow> keyspace \<Rightarrow> bool" where
  "taken_at sha now a ks = mb_seen (mailbox_at now (sc_recipientUIN (ra_Scope a)) ks) (mark_of sha a)"

definition same_mail :: "int \<Rightarrow> keyspace \<Rightarrow> keyspace \<Rightarrow> bool" where
  "same_mail now ks ks' \<longleftrightarrow> (\<forall>u. mailbox_at now u ks' = mailbox_at now u ks)"

lemma mb_op_seen: "mb_seen mb d \<Longrightarrow> mb_seen (mb_op sha now u op mb) d"
  by (cases op) (auto simp: mb_accept_def mb_ack_def)

lemma queues_step: "queues_ok ks \<Longrightarrow> queues_ok (run_op sha now op ks)"
  by (simp add: queues_ok_def run_op_refines)

lemma taken_step: "queues_ok ks \<Longrightarrow> taken_at sha now a ks \<Longrightarrow> taken_at sha now a (run_op sha now op ks)"
  using run_op_refines [of ks] mb_op_seen by (simp add: queues_ok_def taken_at_def)

lemma accept_takes_mark:
  assumes "queues_ok ks" and "before_end a now" and "fst (Accept sha out clock now a ks) = Inr b"
  shows "taken_at sha now a (snd (Accept sha out clock now a ks))"
proof -
  let ?u = "sc_recipientUIN (ra_Scope a)" and ?mb = "mailbox_at now (sc_recipientUIN (ra_Scope a)) ks"
  note ok = assms(1) [unfolded queues_ok_def, rule_format]
  have out: "out = Done" and acc: "acceptable clock a"
    using assms(3) by (cases out; auto simp: Accept_def Let_def acceptable_def split: if_splits prod.splits option.splits)+
  have "fst (mb_accept now (mark_of sha a) (message_of a) ?mb) = Inr b" using Accept_reply [OF ok acc] assms(3) out by simp
  moreover have "mailbox_at now ?u (snd (Accept sha out clock now a ks)) = snd (mb_accept now (mark_of sha a) (message_of a) ?mb)"
    using run_op_refines [OF ok, of ?u sha now "OpAccept out clock a"] acc out by simp
  ultimately show ?thesis using assms(2) by (auto simp: taken_at_def mb_accept_def before_end_message split: if_splits)
qed

interpretation rq: recipient_accepter "Accept sha out clock now" "ReadAcceptedAfter out' now" queues_ok "taken_at sha now" "same_mail now" "\<lambda>a. before_end a now"
  for sha out clock now out'
proof
  show "queues_ok s \<Longrightarrow> queues_ok (snd (Accept sha out clock now a s))" for s a using queues_step [of s sha now "OpAccept out clock a"] by simp
  show "queues_ok s \<Longrightarrow> queues_ok (snd (ReadAcceptedAfter out' now sc after n s))" for s sc after n using queues_step [of s sha now "OpRead out' sc after n"] by simp
  show "queues_ok s \<Longrightarrow> before_end a now \<Longrightarrow> fst (Accept sha out clock now a s) = Inr b \<Longrightarrow> taken_at sha now a (snd (Accept sha out clock now a s))" for s a b
    by (rule accept_takes_mark)
  show "queues_ok s \<Longrightarrow> before_end a now \<Longrightarrow> taken_at sha now a s \<Longrightarrow> taken_at sha now a (snd (Accept sha out clock now a' s))" for s a a'
    using taken_step [of s sha now a "OpAccept out clock a'"] by simp
  show "queues_ok s \<Longrightarrow> before_end a now \<Longrightarrow> taken_at sha now a s \<Longrightarrow> taken_at sha now a (snd (ReadAcceptedAfter out' now sc after n s))" for s a sc after n
    using taken_step [of s sha now a "OpRead out' sc after n"] by simp
  show "queues_ok s \<Longrightarrow> before_end a now \<Longrightarrow> taken_at sha now a s \<Longrightarrow> same_mail now s (snd (Accept sha out clock now a s))" for s a
    using run_op_refines [of s _ sha now "OpAccept out clock a"] by (auto simp: same_mail_def queues_ok_def taken_at_def mb_accept_def)
  show "queues_ok s \<Longrightarrow> same_mail now s (snd (ReadAcceptedAfter out' now sc after n s))" for s sc after n
    using run_op_refines [of s _ sha now "OpRead out' sc after n"] by (auto simp: same_mail_def queues_ok_def)
  show "same_mail now s s" for s by (simp add: same_mail_def)
  show "same_mail now s s' \<Longrightarrow> same_mail now s' s'' \<Longrightarrow> same_mail now s s''" for s s' s'' by (simp add: same_mail_def)
qed

lemma reachable_queues_ok: "queue_reachable sha ks \<Longrightarrow> queues_ok ks"
  by (simp add: queues_ok_def queue_reachable_inbox)

section \<open>What delivery guarantees\<close>

lemma group_scopes_recipients: "group_scopes sha g us = Inr scs \<Longrightarrow> map sc_recipientUIN scs = us"
  by (induction us arbitrary: scs) (auto simp: GroupMemberScope_def split: sum.splits if_splits)

lemma plan_recipients: "plan_delivery c sha subject env = Inr p \<Longrightarrow> map sc_recipientUIN (dl_scopes p) = dl_recipients p"
  by (auto simp: plan_delivery_def DirectRecipientScope_def group_scopes_recipients split: if_splits option.splits sum.splits)

text \<open>The message as it is put into the queue of a scope.\<close>

definition delivered_as :: "string \<Rightarrow> bytes \<Rightarrow> gotime option \<Rightarrow> RecipientAcceptanceScope \<Rightarrow> RecipientAcceptance" where
  "delivered_as i body ex scope = \<lparr>ra_Scope = scope, ra_MessageID = i, ra_Envelope = body, ra_ExpiresAt = ex\<rparr>"

lemma acceptDelivery_ok:
  assumes "acceptDelivery c sha accept read notify request subject body s g = (None, rc, s', g')"
  obtains env p where "cd_env c body = Some env" "plan_delivery c sha subject env = Inr p"
    "accept_all accept read notify (ev_ID env) body (dl_expires p) (zip (dl_scopes p) (dl_recipients p)) s g = (None, s', g')"
    "rc = Some \<lparr>dr_SenderUIN = dl_sender p, dr_ClientID = dl_client p, dr_MessageID = ev_ID env\<rparr>"
    "request \<lparr>dr_SenderUIN = dl_sender p, dr_ClientID = dl_client p, dr_MessageID = ev_ID env\<rparr>"
  using assms by (auto simp: acceptDelivery_def Let_def split: option.splits if_splits sum.splits prod.splits)


definition ack_free_codec :: codec where
  "ack_free_codec = \<lparr>cd_env = (\<lambda>b. None), cd_direct = (\<lambda>b. None), cd_group = (\<lambda>b. None), cd_ack = (\<lambda>b. None), cd_env_out = ev_Payload,
     cd_group_out = gp_GroupID, cd_ack_out = ap_MessageID, cd_uuid = (\<lambda>s. None), cd_uuid_out = (\<lambda>u. [])\<rparr>"

definition sample_codec :: "string \<Rightarrow> codec" where
  "sample_codec t = ack_free_codec\<lparr>cd_env := (\<lambda>b. Some \<lparr>ev_Type = t, ev_ID = ''m1'', ev_TS = 0, ev_Payload = b\<rparr>),
     cd_direct := (\<lambda>b. Some \<lparr>dp_ConversationID = [], dp_SenderUIN = 3, dp_ToUIN = 7, dp_ReceiverUIN = 7, dp_Content = [], dp_ContentType = [],
       dp_FileURL = [], dp_ClientID = ''c1'', dp_Ciphertext = ''x'', dp_MsgType = [], dp_ExpiresInSeconds = 0\<rparr>)\<rparr>"

abbreviation sample_delivery where
  "sample_delivery ks \<equiv> acceptDelivery (sample_codec EnvelopeTypeDirect) (\<lambda>x. x) (Accept (\<lambda>x. x) Done 5 5) (ReadAcceptedAfter Done 5)
     (\<lambda>u b g. g @ [(u, b)]) (\<lambda>r. True) ''msg.direct.7'' ''{}'' ks []"

lemma sample_plan:
  "plan_delivery (sample_codec EnvelopeTypeDirect) (\<lambda>x. x) ''msg.direct.7'' \<lparr>ev_Type = EnvelopeTypeDirect, ev_ID = ''m1'', ev_TS = 0, ev_Payload = ''{}''\<rparr> =
    Inr \<lparr>dl_sender = 3, dl_client = ''c1'', dl_recipients = [7], dl_scopes = [sample_scope], dl_expires = None\<rparr>"
proof -
  have "itoa 7 = ''7''" by code_simp
  then show ?thesis by (simp add: plan_delivery_def sample_codec_def DirectRecipientScope_def expiry_of_def sample_scope_def)
qed

lemma sample_delivered: "delivered_as ''m1'' ''{}'' None sample_scope = sample_acceptance ''m1''"
  by (simp add: delivered_as_def sample_acceptance_def)

lemma sample_delivery_ok: "fst (sample_delivery ks_empty) = None"
proof -
  obtain ks1 where acc: "Accept (\<lambda>x. x) Done 5 5 (sample_acceptance ''m1'') ks_empty = (Inr True, ks1)" using sample_accepted(2) by (metis prod.collapse)
  have "queue_reachable (\<lambda>x. x) ks1" using queue_reachable.step [OF queue_reachable.start, of "\<lambda>x. x" 5 "OpAccept Done 5 (sample_acceptance ''m1'')"] acc by simp
  then obtain items where "fst (ReadAcceptedAfter Done 5 sample_scope [] 1000 ks1) = Inr items"
    using ReadAcceptedAfter_reply(1) [OF queue_reachable_inbox, of "\<lambda>x. x" ks1 sample_scope 1000 5] by (auto simp: valid_scope_def sample_scope_def)
  then obtain ks2 where rd: "ReadAcceptedAfter Done 5 sample_scope [] 1000 ks1 = (Inr items, ks2)" by (metis prod.collapse)
  have sc: "DirectRecipientScope 7 = Inr sample_scope" by (simp add: DirectRecipientScope_def sample_scope_def)
  have env: "cd_env (sample_codec EnvelopeTypeDirect) ''{}'' = Some \<lparr>ev_Type = EnvelopeTypeDirect, ev_ID = ''m1'', ev_TS = 0, ev_Payload = ''{}''\<rparr>"
    by (simp add: sample_codec_def)
  show ?thesis using acc [unfolded sample_acceptance_def] rd sc by (simp add: acceptDelivery_def env sample_plan replayAccepted_def Let_def)
qed


text \<open>Also: Redelivery is harmless: when every recipient of the message has had it already, handling the message again leaves every queue
  as it is, however the calls end.\<close>

theorem redelivery_harmless:
  assumes "queue_reachable sha ks" and "cd_env c body = Some env" and "plan_delivery c sha subject env = Inr p"
    and "\<forall>scope \<in> set (dl_scopes p). before_end (delivered_as (ev_ID env) body (dl_expires p) scope) now \<and>
       mb_seen (mailbox_at now (sc_recipientUIN scope) ks) (mark_of sha (delivered_as (ev_ID env) body (dl_expires p) scope))"
    and "acceptDelivery c sha (Accept sha out clock now) (ReadAcceptedAfter out' now) notify request subject body ks g = (err, rc, ks', g')"
  shows "mailbox_at now u ks' = mailbox_at now u ks"
proof -
  let ?t = "zip (dl_scopes p) (dl_recipients p)"
  have "\<forall>(scope, u) \<in> set ?t. before_end \<lparr>ra_Scope = scope, ra_MessageID = ev_ID env, ra_Envelope = body, ra_ExpiresAt = dl_expires p\<rparr> now \<and>
      taken_at sha now \<lparr>ra_Scope = scope, ra_MessageID = ev_ID env, ra_Envelope = body, ra_ExpiresAt = dl_expires p\<rparr> ks"
    using assms(4) by (auto simp: delivered_as_def taken_at_def dest: set_zip_leftD)
  from rq.accept_all_again [OF reachable_queues_ok [OF assms(1)] this]
  have same: "same_mail now ks (fst (snd (accept_all (Accept sha out clock now) (ReadAcceptedAfter out' now) notify (ev_ID env) body (dl_expires p) ?t ks g)))" .
  have "ks' = ks \<or> ks' = fst (snd (accept_all (Accept sha out clock now) (ReadAcceptedAfter out' now) notify (ev_ID env) body (dl_expires p) ?t ks g))"
    using assms(2,3,5) by (auto simp: acceptDelivery_def Let_def split: if_splits prod.splits option.splits)
  with same show ?thesis by (auto simp: same_mail_def)
qed

theorem redelivery_harmless_witness:
  "mailbox_at 5 7 (fst (snd (snd (sample_delivery sample_queue)))) = mailbox_at 5 7 sample_queue"
proof -
  obtain err rc ks' g' where d: "sample_delivery sample_queue = (err, rc, ks', g')" by (metis prod.exhaust)
  have env: "cd_env (sample_codec EnvelopeTypeDirect) ''{}'' = Some \<lparr>ev_Type = EnvelopeTypeDirect, ev_ID = ''m1'', ev_TS = 0, ev_Payload = ''{}''\<rparr>"
    by (simp add: sample_codec_def)
  have seen: "mb_seen (mailbox_at 5 7 sample_queue) (mark_of (\<lambda>x. x) (sample_acceptance ''m1''))" by (simp add: sample_mailbox)
  have "\<forall>scope \<in> set [sample_scope]. before_end (delivered_as ''m1'' ''{}'' None scope) 5 \<and>
      mb_seen (mailbox_at 5 (sc_recipientUIN scope) sample_queue) (mark_of (\<lambda>x. x) (delivered_as ''m1'' ''{}'' None scope))"
    using seen by (simp add: sample_delivered) (simp add: before_end_def sample_acceptance_def sample_scope_def)
  with redelivery_harmless [OF sample_queue_reachable env sample_plan _ d, of 7] d show ?thesis by simp
qed

text \<open>Also: A frame the consumer cannot take is asked for again and again: an indicator that somebody is typing, which the router publishes on
  the subjects the delivery stream records, and a message whose time is over, are refused whatever the state of the queues, so the
  stream offers them every second until they age out.\<close>

theorem undeliverable_requeued:
  assumes "cd_env c body = Some env" and "ev_Type env = EnvelopeTypeTyping \<or>
      (\<exists>p e. plan_delivery c sha subject env = Inr p \<and> dl_scopes p \<noteq> [] \<and> dl_expires p = Some e \<and> e \<le> clock)"
  shows "consume (fst (acceptDelivery c sha (Accept sha out clock now) read notify request subject body ks g)) = NakWithDelay"
proof (cases "ev_Type env = EnvelopeTypeTyping")
  case True
  then have "plan_delivery c sha subject env = Inl ErrUnsupportedType"
    by (simp add: plan_delivery_def EnvelopeTypeDirect_def EnvelopeTypeGroup_def EnvelopeTypeTyping_def)
  then show ?thesis using assms(1) by (simp add: acceptDelivery_def consume_def)
next
  case False
  then obtain p e where p: "plan_delivery c sha subject env = Inr p" "dl_scopes p \<noteq> []" "dl_expires p = Some e" "e \<le> clock" using assms(2) by blast
  obtain scope rest where sc: "dl_scopes p = scope # rest" using p(2) by (cases "dl_scopes p") auto
  then obtain u us where us: "dl_recipients p = u # us" using plan_recipients [OF p(1)] by (cases "dl_recipients p") auto
  have "\<exists>er. Accept sha out clock now \<lparr>ra_Scope = scope, ra_MessageID = ev_ID env, ra_Envelope = body, ra_ExpiresAt = Some e\<rparr> ks = (Inl er, ks)"
    using p(4) by (simp add: Accept_def)
  then show ?thesis using assms(1) p(1,3) by (auto simp: acceptDelivery_def consume_def sc us Let_def split: option.split if_split)
qed

theorem undeliverable_requeued_witness:
  "consume (fst (acceptDelivery (sample_codec EnvelopeTypeTyping) (\<lambda>x. x) (Accept (\<lambda>x. x) Done 5 5) (ReadAcceptedAfter Done 5)
     (\<lambda>u b g. g @ [(u, b)]) (\<lambda>r. True) ''msg.direct.7'' ''{}'' ks_empty [])) = NakWithDelay"
  by (rule undeliverable_requeued [where env = "\<lparr>ev_Type = EnvelopeTypeTyping, ev_ID = ''m1'', ev_TS = 0, ev_Payload = ''{}''\<rparr>"])
     (simp_all add: sample_codec_def)

end
