(* ===== verification/RouterProperties.thy ===== *)
theory RouterProperties
  imports Router Delivery
begin

text \<open>
  What the frame router guarantees: the sender of everything it passes on is the authenticated user, only ciphertext of an authorized
  conversation reaches the ingest service, the WebSocket and the HTTP fallback forward the same, and what they forward the delivery
  consumer can deliver.
\<close>

section \<open>Effects of a frame\<close>

lemma try_send_sel [simp]:
  "rw_published (try_send io b w) = rw_published w" "rw_ingested (try_send io b w) = rw_ingested w" "rw_queue (try_send io b w) = rw_queue w"
  "rw_client (try_send io b w) = snd (TrySend (ro_js io) b (rw_client w))"
  by (simp_all add: try_send_def)

lemma publish_sel [simp]:
  "rw_published (publish s b w) = rw_published w @ [(s, b)]" "rw_ingested (publish s b w) = rw_ingested w" "rw_queue (publish s b w) = rw_queue w"
  "rw_client (publish s b w) = rw_client w"
  by (simp_all add: publish_def)

lemma error_sel [simp]:
  "rw_published (sendErrorFrame c io code m w) = rw_published w" "rw_ingested (sendErrorFrame c io code m w) = rw_ingested w"
  "rw_queue (sendErrorFrame c io code m w) = rw_queue w"
  by (simp_all add: sendErrorFrame_def)

text \<open>A direct message of \<open>u\<close> that may be stored: ciphertext only, with a valid type and lifetime, in the conversation of its two ends.\<close>

definition opaque_direct :: "uin \<Rightarrow> DirectMessagePayload \<Rightarrow> bool" where
  "opaque_direct u p \<longleftrightarrow> dp_SenderUIN p = u \<and> 0 < u \<and> 0 < dp_ReceiverUIN p \<and> u \<noteq> dp_ReceiverUIN p \<and> dp_ToUIN p = dp_ReceiverUIN p \<and>
     dp_ConversationID p = ''dm:'' @ itoa (min u (dp_ReceiverUIN p)) @ '':'' @ itoa (max u (dp_ReceiverUIN p)) \<and>
     dp_ClientID p \<noteq> [] \<and> dp_Content p = [] \<and> dp_Ciphertext p \<noteq> [] \<and> dp_MsgType p \<in> {''signal_message'', ''prekey_message''} \<and>
     dp_ExpiresInSeconds p \<in> {3600, 86400, 259200, 604800}"

definition opaque_group :: "uin \<Rightarrow> GroupMessagePayload \<Rightarrow> bool" where
  "opaque_group u p \<longleftrightarrow> gp_SenderUIN p = u \<and> gp_GroupID p \<noteq> [] \<and> gp_ClientID p \<noteq> [] \<and> gp_Content p = [] \<and> gp_Ciphertext p \<noteq> [] \<and>
     gp_CryptoVersion p = 1 \<and> 1 \<le> gp_CryptoEpoch p \<and> gp_MsgType p = ''group_ciphertext'' \<and> gp_RecipientUINs p = [] \<and>
     gp_ExpiresInSeconds p \<in> {3600, 86400, 259200, 604800}"

text \<open>What may be sent to the ingest service, and what may be published, for \<open>u\<close>.\<close>

definition may_ingest :: "router_codec \<Rightarrow> route_io \<Rightarrow> uin \<Rightarrow> Envelope \<Rightarrow> bool" where
  "may_ingest c io u e \<longleftrightarrow>
     (\<exists>p. e = out_envelope EnvelopeTypeDirect (rc_direct_out c p) \<and> opaque_direct u p) \<or>
     (\<exists>p. e = out_envelope EnvelopeTypeGroup (rc_group_out c p) \<and> opaque_group u p \<and>
        member_at_epoch (ro_pg io) (ro_uuid io) (ro_tables io) (gp_GroupID p) u (gp_CryptoEpoch p) = Some True)"

definition may_publish :: "router_codec \<Rightarrow> route_io \<Rightarrow> uin \<Rightarrow> string \<times> bytes \<Rightarrow> bool" where
  "may_publish c io u m \<longleftrightarrow>
     (\<exists>env p. m = (''msg.group.'' @ tp_GroupID p, cd_env_out (rc_base c) (env\<lparr>ev_Payload := rc_typing_out c p\<rparr>)) \<and> ev_Type env = EnvelopeTypeTyping \<and>
        tp_SenderUIN p = u \<and> typing_member (ro_pg io) (ro_uuid io) (ro_tables io) (tp_GroupID p) u) \<or>
     (\<exists>env p peer. m = (''msg.direct.'' @ itoa peer, cd_env_out (rc_base c) (env\<lparr>ev_Payload := rc_typing_out c p\<rparr>)) \<and> ev_Type env = EnvelopeTypeTyping \<and>
        tp_SenderUIN p = u \<and> directTypingPeer (tp_ConversationID p) u = Some peer) \<or>
     (\<exists>env p. m = (''ack.'' @ router_itoa (rp_SenderUIN p), cd_env_out (rc_base c) (env\<lparr>ev_Payload := rc_read_out c p\<rparr>)) \<and> ev_Type env = EnvelopeTypeRead \<and>
        rp_ReaderUIN p = u \<and> 0 < rp_SenderUIN p) \<or>
     (\<exists>p i. m = (''presence.update'', cd_env_out (rc_base c) \<lparr>ev_Type = EnvelopeTypePresence, ev_ID = i, ev_TS = pp_TS p, ev_Payload = rc_presence_out c p\<rparr>) \<and>
        pp_UIN p = u)"

lemma authenticated_opaque:
  assumes "authenticatedOpaqueDirect c raw u = Inr p"
  shows "opaque_direct u (forwardDirectPayload p u)" and "dp_ReceiverUIN p = dp_ReceiverUIN (forwardDirectPayload p u)"
  using assms
  by (auto simp: authenticatedOpaqueDirect_def Let_def opaque_direct_def forwardDirectPayload_def validateDirectPayload_def validateDisappearingSeconds_def
      isValidMessageType_def authorizeDirectConversation_def min_def max_def split: option.splits if_splits)

lemma valid_group_opaque:
  assumes "parseGroupPayload c raw = Some p" and "validateGroupPayload p = None"
  shows "opaque_group u (p\<lparr>gp_SenderUIN := u\<rparr>)"
  using assms by (auto simp: parseGroupPayload_def validateGroupPayload_def validateDisappearingSeconds_def opaque_group_def split: option.splits if_splits)

text \<open>One step per handler: what it adds.\<close>

definition adds :: "router_codec \<Rightarrow> route_io \<Rightarrow> route_world \<Rightarrow> route_world \<Rightarrow> bool" where
  "adds c io w w' \<longleftrightarrow> (let u = cl_uin (rw_client w) in
     (\<exists>pub ing. rw_published w' = rw_published w @ pub \<and> rw_ingested w' = rw_ingested w @ ing \<and>
        list_all (may_publish c io u) pub \<and> list_all (may_ingest c io u) ing) \<and>
     (rw_queue w' = rw_queue w \<or> (\<exists>ids. rw_queue w' = snd (AckRecipient (ro_ack io) (ro_redis_now io) u ids (rw_queue w)))))"

lemma adds_same [intro]:
  "rw_published w' = rw_published w \<Longrightarrow> rw_ingested w' = rw_ingested w \<Longrightarrow> rw_queue w' = rw_queue w \<Longrightarrow> adds c io w w'"
  by (auto simp: adds_def Let_def intro!: exI [of _ "[]"])

lemma adds_published:
  "rw_published w' = rw_published w @ [m] \<Longrightarrow> rw_ingested w' = rw_ingested w \<Longrightarrow> rw_queue w' = rw_queue w \<Longrightarrow> may_publish c io (cl_uin (rw_client w)) m \<Longrightarrow> adds c io w w'"
  by (auto simp: adds_def Let_def intro!: exI [of _ "[m]"])

lemma adds_publish: "may_publish c io (cl_uin (rw_client w)) (s, b) \<Longrightarrow> adds c io w (publish s b w)"
  by (rule adds_published) simp_all

lemma adds_refl: "adds c io w w"
  by auto

lemma adds_ingested:
  "rw_published w' = rw_published w \<Longrightarrow> rw_ingested w' = rw_ingested w @ [e] \<Longrightarrow> rw_queue w' = rw_queue w \<Longrightarrow> may_ingest c io (cl_uin (rw_client w)) e \<Longrightarrow> adds c io w w'"
  by (auto simp: adds_def Let_def intro!: exI [of _ "[]"] exI [of _ "[e]"])

lemma handleDirect_adds: "adds c io w (handleDirect c io env w)"
proof (cases "authenticatedOpaqueDirect c (ev_Payload env) (cl_uin (rw_client w))")
  case (Inl e)
  then show ?thesis by (auto simp: handleDirect_def)
next
  case (Inr p)
  then have "may_ingest c io (cl_uin (rw_client w)) (out_envelope EnvelopeTypeDirect (rc_direct_out c (forwardDirectPayload p (cl_uin (rw_client w)))))"
    using authenticated_opaque(1) by (auto simp: may_ingest_def)
  then show ?thesis using Inr by (intro adds_ingested) (auto simp: handleDirect_def Let_def ingest_def split: option.split)
qed

lemma group_payload_copy:
  "parseGroupPayload c raw = Some p \<Longrightarrow>
    \<lparr>gp_GroupID = gp_GroupID p, gp_SenderUIN = u, gp_Content = gp_Content p, gp_ContentType = gp_ContentType p, gp_FileURL = gp_FileURL p,
      gp_ClientID = gp_ClientID p, gp_Ciphertext = gp_Ciphertext p, gp_MsgType = gp_MsgType p, gp_CryptoVersion = gp_CryptoVersion p,
      gp_CryptoEpoch = gp_CryptoEpoch p, gp_ExpiresInSeconds = gp_ExpiresInSeconds p, gp_RecipientUINs = []\<rparr> = p\<lparr>gp_SenderUIN := u\<rparr>"
  by (auto simp: parseGroupPayload_def split: option.splits)

lemma handleGroup_adds: "adds c io w (handleGroup c io env w)"
proof (cases "\<exists>p. parseGroupPayload c (ev_Payload env) = Some p \<and> validateGroupPayload p = None \<and>
    member_at_epoch (ro_pg io) (ro_uuid io) (ro_tables io) (gp_GroupID p) (cl_uin (rw_client w)) (gp_CryptoEpoch p) = Some True")
  case True
  then obtain p where p: "parseGroupPayload c (ev_Payload env) = Some p" "validateGroupPayload p = None"
    "member_at_epoch (ro_pg io) (ro_uuid io) (ro_tables io) (gp_GroupID p) (cl_uin (rw_client w)) (gp_CryptoEpoch p) = Some True" by blast
  let ?e = "out_envelope EnvelopeTypeGroup (rc_group_out c (p\<lparr>gp_SenderUIN := cl_uin (rw_client w)\<rparr>))"
  have "may_ingest c io (cl_uin (rw_client w)) ?e"
    unfolding may_ingest_def
    by (intro disjI2 exI [of _ "p\<lparr>gp_SenderUIN := cl_uin (rw_client w)\<rparr>"]) (simp add: valid_group_opaque [OF p(1,2)] p(3))
  then show ?thesis using p
    by (intro adds_ingested [of _ _ ?e]) (simp_all add: handleGroup_def Let_def ingest_def group_payload_copy [OF p(1)] split: option.split)
next
  case False
  then show ?thesis by (intro adds_same) (auto simp: handleGroup_def Let_def split: option.split bool.split)
qed

lemma handleTyping_adds:
  assumes "ev_Type env = EnvelopeTypeTyping"
  shows "adds c io w (handleTyping c io env w)"
proof (cases "rc_typing c (ev_Payload env)")
  case None
  then show ?thesis by (auto simp: handleTyping_def)
next
  case (Some p0)
  let ?u = "cl_uin (rw_client w)" and ?p = "p0\<lparr>tp_SenderUIN := cl_uin (rw_client w)\<rparr>"
  let ?d = "cd_env_out (rc_base c) (env\<lparr>ev_Payload := rc_typing_out c ?p\<rparr>)"
  have grp: "typing_member (ro_pg io) (ro_uuid io) (ro_tables io) (tp_GroupID ?p) ?u \<Longrightarrow> may_publish c io ?u (''msg.group.'' @ tp_GroupID ?p, ?d)"
    unfolding may_publish_def by (intro disjI1 exI [of _ env] exI [of _ ?p]) (simp add: assms)
  have dir: "directTypingPeer (tp_ConversationID ?p) ?u = Some peer \<Longrightarrow> may_publish c io ?u (''msg.direct.'' @ itoa peer, ?d)" for peer
    unfolding may_publish_def by (rule disjI2, rule disjI1, intro exI [of _ env] exI [of _ ?p] exI [of _ peer]) (simp add: assms)
  show ?thesis
  proof (cases "tp_IsGroup ?p \<and> tp_GroupID ?p \<noteq> []")
    case True
    then show ?thesis using Some grp
      by (cases "typing_member (ro_pg io) (ro_uuid io) (ro_tables io) (tp_GroupID ?p) ?u")
         (auto simp: handleTyping_def Let_def intro!: adds_publish adds_refl)
  next
    case False
    then have eq: "handleTyping c io env w = (case directTypingPeer (tp_ConversationID ?p) ?u of None \<Rightarrow> w | Some peer \<Rightarrow> publish (''msg.direct.'' @ itoa peer) ?d w)"
      using Some by (auto simp: handleTyping_def Let_def)
    show ?thesis using dir by (cases "directTypingPeer (tp_ConversationID ?p) ?u") (auto simp: eq intro!: adds_publish adds_refl)
  qed
qed

lemma handleRead_adds:
  assumes "ev_Type env = EnvelopeTypeRead"
  shows "adds c io w (handleRead c io env w)"
proof (cases "rc_read c (ev_Payload env)")
  case None
  then show ?thesis by (auto simp: handleRead_def)
next
  case (Some p0)
  let ?p = "p0\<lparr>rp_ReaderUIN := cl_uin (rw_client w)\<rparr>"
  have "may_publish c io (cl_uin (rw_client w)) (''ack.'' @ router_itoa (rp_SenderUIN ?p), cd_env_out (rc_base c) (env\<lparr>ev_Payload := rc_read_out c ?p\<rparr>))"
    if "0 < rp_SenderUIN ?p"
    unfolding may_publish_def by (rule disjI2, rule disjI2, rule disjI1, intro exI [of _ env] exI [of _ ?p]) (use assms that in simp)
  then show ?thesis using Some by (cases "rp_SenderUIN ?p \<le> 0") (auto simp: handleRead_def Let_def intro!: adds_publish adds_refl)
qed

lemma handlePresence_adds: "adds c io w (handlePresence c io env w)"
proof (cases "rc_presence c (ev_Payload env)")
  case None
  then show ?thesis by (auto simp: handlePresence_def)
next
  case (Some p0)
  let ?p = "(overridePresenceUIN p0 (cl_uin (rw_client w)))\<lparr>pp_TS := unix_milli (minute_of (ro_now io))\<rparr>"
  have "may_publish c io (cl_uin (rw_client w)) (''presence.update'', cd_env_out (rc_base c)
      \<lparr>ev_Type = EnvelopeTypePresence, ev_ID = ro_id io, ev_TS = pp_TS ?p, ev_Payload = rc_presence_out c ?p\<rparr>)"
    unfolding may_publish_def by (intro disjI2, intro exI [of _ ?p] exI [of _ "ro_id io"]) (simp add: overridePresenceUIN_def)
  then show ?thesis using Some by (auto simp: handlePresence_def Let_def intro!: adds_publish adds_refl)
qed

lemma handleTransportAck_adds: "adds c io w (handleTransportAck c io env w)"
proof (cases "\<exists>ids. ro_acker io \<and> rc_ids c (ev_Payload env) = Some ids \<and> \<not> (ids = [] \<or> length ids > 100) \<and> \<not> list_ex (\<lambda>i. cd_uuid (rc_base c) i = None) ids")
  case True
  then obtain ids where ids: "ro_acker io" "rc_ids c (ev_Payload env) = Some ids" "\<not> (ids = [] \<or> length ids > 100)"
    "\<not> list_ex (\<lambda>i. cd_uuid (rc_base c) i = None) ids" by blast
  obtain res q where run: "AckRecipient (ro_ack io) (ro_redis_now io) (cl_uin (rw_client w)) ids (rw_queue w) = (res, q)" by force
  have "rw_queue (handleTransportAck c io env w) = q" "rw_published (handleTransportAck c io env w) = rw_published w"
    "rw_ingested (handleTransportAck c io env w) = rw_ingested w"
    unfolding handleTransportAck_def using ids run by (cases res; simp add: Let_def)+
  moreover have "q = snd (AckRecipient (ro_ack io) (ro_redis_now io) (cl_uin (rw_client w)) ids (rw_queue w))" using run by simp
  ultimately show ?thesis by (auto simp: adds_def Let_def)
next
  case False
  then show ?thesis by (intro adds_same) (auto simp: handleTransportAck_def split: option.split)
qed

text \<open>C12: Whatever frame a client sends, everything the router passes on carries the authenticated user: what it asks the ingest service to
  store is either a direct message with ciphertext only, a valid type and lifetime, of the conversation between this user and another
  one, or a group ciphertext of a member at the group's current epoch; what it publishes is a typing indicator to a peer or group of the
  user, a read receipt of the user, or the user's own presence; and only the user's own queue is acknowledged.\<close>

theorem dispatch_authentic:
  "(\<exists>pub ing. rw_published (Dispatch c io env w) = rw_published w @ pub \<and> rw_ingested (Dispatch c io env w) = rw_ingested w @ ing \<and>
      list_all (may_publish c io (cl_uin (rw_client w))) pub \<and> list_all (may_ingest c io (cl_uin (rw_client w))) ing) \<and>
    (rw_queue (Dispatch c io env w) = rw_queue w \<or>
      (\<exists>ids. rw_queue (Dispatch c io env w) = snd (AckRecipient (ro_ack io) (ro_redis_now io) (cl_uin (rw_client w)) ids (rw_queue w))))"
proof -
  have "adds c io w (Dispatch c io env w)"
    unfolding Dispatch_def Let_def
    by (auto simp: handlePing_def handleDirect_adds handleGroup_adds handleTyping_adds handleRead_adds handlePresence_adds handleTransportAck_adds)
  then show ?thesis by (simp add: adds_def Let_def)
qed

abbreviation http_send :: "router_codec \<Rightarrow> route_io \<Rightarrow> Envelope \<Rightarrow> route_world \<Rightarrow> (send_error + Envelope) \<times> route_world" where
  "http_send c io env w \<equiv> processHTTPSend c io (Some (IsCurrentMember (ro_pg io) (ro_uuid io) (ro_tables io))) (cl_uin (rw_client w)) env w"

text \<open>C13: The two transports agree: for a direct or group message the WebSocket and the HTTP fallback ask the ingest service for the same,
  and when the HTTP request is answered with an acknowledgement the WebSocket client is sent the same one.\<close>

theorem transports_agree:
  assumes "ev_Type env = EnvelopeTypeDirect \<or> ev_Type env = EnvelopeTypeGroup"
  shows "rw_ingested (Dispatch c io env w) = rw_ingested (snd (http_send c io env w)) \<and>
    (\<forall>ack. fst (http_send c io env w) = Inr ack \<longrightarrow>
       rw_client (Dispatch c io env w) = snd (TrySend (ro_js io) (cd_env_out (rc_base c) ack) (rw_client w)))"
proof (cases "ev_Type env = EnvelopeTypeDirect")
  case True
  then have D: "Dispatch c io env w = handleDirect c io env w" by (simp add: Dispatch_def)
  show ?thesis unfolding D
    by (cases "authenticatedOpaqueDirect c (ev_Payload env) (cl_uin (rw_client w))")
       (auto simp: handleDirect_def processHTTPSend_def Let_def ingest_def True split: option.split)
next
  case False
  then have t: "ev_Type env = EnvelopeTypeGroup" "EnvelopeTypeGroup \<noteq> EnvelopeTypeDirect" using assms by (auto simp: EnvelopeTypeGroup_def EnvelopeTypeDirect_def)
  then have D: "Dispatch c io env w = handleGroup c io env w" by (simp add: Dispatch_def)
  show ?thesis
  proof (cases "parseGroupPayload c (ev_Payload env)")
    case None
    then show ?thesis unfolding D by (simp add: handleGroup_def processHTTPSend_def Let_def t)
  next
    case (Some p)
    note copy = group_payload_copy [OF Some, of "cl_uin (rw_client w)"]
    show ?thesis unfolding D
      by (auto simp: handleGroup_def processHTTPSend_def Let_def ingest_def IsCurrentMember_def t Some copy split: option.split bool.split)
  qed
qed

definition sample_router_codec :: router_codec where
  "sample_router_codec = \<lparr>rc_base = ack_codec,
     rc_direct = (\<lambda>b. Some \<lparr>dw_ConversationID = ''dm:3:7'', dw_SenderUIN = 99, dw_ToUIN = 0, dw_ReceiverUIN = 7, dw_Content = [], dw_ContentType = [],
       dw_FileURL = [], dw_ClientID = ''c1'', dw_Ciphertext = ''AAAA'', dw_MsgType = ''signal_message'', dw_ExpiresInSeconds = 3600\<rparr>),
     rc_group = (\<lambda>b. None), rc_typing = (\<lambda>b. None), rc_read = (\<lambda>b. None), rc_presence = (\<lambda>b. None), rc_ids = (\<lambda>b. None),
     rc_direct_out = dp_ConversationID, rc_group_out = gp_GroupID, rc_typing_out = tp_GroupID, rc_read_out = rp_GroupID, rc_presence_out = pp_Status,
     rc_error_out = ep_Code, rc_empty_out = ''{}''\<rparr>"

definition sample_route_io :: route_io where
  "sample_route_io = \<lparr>ro_js = (\<lambda>b. None), ro_id = ''i'', ro_now = 0, ro_request = Some (\<lambda>s b d. Some []), ro_remaining = Some Second, ro_expired = False,
     ro_pg = True, ro_uuid = Some, ro_tables = \<lparr>gt_users = [], gt_groups = [], gt_members = [], gt_keys = []\<rparr>, ro_acker = False, ro_ack = Done,
     ro_redis_now = 0\<rparr>"

definition sample_world :: route_world where
  "sample_world = \<lparr>rw_client = new_client 3, rw_published = [], rw_ingested = [], rw_queue = ks_empty\<rparr>"

theorem transports_agree_witness:
  "rw_ingested (Dispatch sample_router_codec sample_route_io (out_envelope EnvelopeTypeDirect []) sample_world) = [out_envelope EnvelopeTypeDirect ''dm:3:7'']"
proof -
  have "rw_ingested (snd (http_send sample_router_codec sample_route_io (out_envelope EnvelopeTypeDirect []) sample_world)) = [out_envelope EnvelopeTypeDirect ''dm:3:7'']"
    by code_simp
  then show ?thesis
    using transports_agree [of "out_envelope EnvelopeTypeDirect []" sample_router_codec sample_route_io sample_world] by (simp add: out_envelope_def)
qed

section \<open>Numbers and conversations\<close>

text \<open>The router's own rendering of numbers is the usual one, but for the least 64-bit number.\<close>

lemma itoa_loop_decimal: "0 < n \<Longrightarrow> itoa_loop n buf = decimal n @ buf"
proof (induction n buf rule: itoa_loop.induct)
  case (1 n buf)
  show ?case
  proof (cases "n < 10")
    case True
    then show ?thesis using 1(2) by (simp add: decimal.simps [of n] itoa_loop.simps [of "n div 10"])
  next
    case False
    then show ?thesis using 1 by (simp add: decimal.simps [of n])
  qed
qed

text \<open>Also: The router's rendering of a number is the decimal one for every 64-bit number but the least.\<close>

theorem router_itoa_correct:
  assumes "is_int64 n" and "n \<noteq> int64_min"
  shows "router_itoa n = itoa n"
proof -
  have neg: "wrap64 (- n) = - n" using assms by (intro wrap64_id) (auto simp: is_int64_def int64_min_def int64_max_def)
  have zero: "decimal 0 = ''0''" by (simp add: decimal.simps digit_zero)
  show ?thesis using neg itoa_loop_decimal [of "nat n" "[]"] itoa_loop_decimal [of "nat (- n)" "[]"] zero
    by (auto simp: router_itoa_def itoa_def Let_def simp del: itoa_loop.simps)
qed

theorem router_itoa_correct_witness: "router_itoa (- 42) = itoa (- 42)"
  by (rule router_itoa_correct) (simp_all add: is_int64_def int64_min_def int64_max_def)

lemma decimal_head: "\<exists>x xs. decimal n = x # xs \<and> x \<noteq> CHR ''-'' \<and> x \<noteq> CHR ''+''"
proof -
  have d: "digit k \<noteq> CHR ''-''" "digit k \<noteq> CHR ''+''" for k
  proof -
    have "(of_char (digit k) :: nat) \<noteq> of_char (CHR ''-'')" "(of_char (digit k) :: nat) \<noteq> of_char (CHR ''+'')" by simp_all
    then show "digit k \<noteq> CHR ''-''" "digit k \<noteq> CHR ''+''" by metis+
  qed
  obtain x xs where x: "decimal n = x # xs" by (cases "decimal n") (auto simp: decimal.simps [of n] split: if_splits)
  moreover have "x \<in> range digit" using decimal_digits [of n] x by auto
  ultimately show ?thesis using d by auto
qed

lemma ParseInt64_itoa: "0 \<le> n \<Longrightarrow> is_int64 n \<Longrightarrow> ParseInt64 (itoa n) = Some n"
proof -
  assume n: "0 \<le> n" "is_int64 n"
  obtain x xs where x: "decimal (nat n) = x # xs" "x \<noteq> CHR ''-''" "x \<noteq> CHR ''+''" using decimal_head by blast
  then show ?thesis using n parse_decimal [of "nat n"] by (simp add: ParseInt64_def itoa_def)
qed

text \<open>Also: A typing indicator in the conversation of two users goes from each of them to the other, and a conversation that lets somebody
  send one has exactly the two of them as ends.\<close>

theorem typing_peer_roundtrip:
  assumes "0 < a" and "0 < b" and "a \<noteq> b" and "is_int64 a" and "is_int64 b"
  shows "directTypingPeer (''dm:'' @ itoa (min a b) @ '':'' @ itoa (max a b)) a = Some b \<and>
    directTypingPeer (''dm:'' @ itoa (min a b) @ '':'' @ itoa (max a b)) b = Some a \<and>
    (u \<noteq> a \<and> u \<noteq> b \<longrightarrow> directTypingPeer (''dm:'' @ itoa (min a b) @ '':'' @ itoa (max a b)) u = None)"
proof -
  have sp: "split_on (CHR '':'') (''dm:'' @ itoa (min a b) @ '':'' @ itoa (max a b)) = [''dm'', itoa (min a b), itoa (max a b)]"
    using split_on_field [of "CHR '':''" "itoa (min a b)" "itoa (max a b)"] split_on_none [of "CHR '':''" "itoa (max a b)"] by simp
  have "ParseInt64 (itoa (min a b)) = Some (min a b)" "ParseInt64 (itoa (max a b)) = Some (max a b)"
    using assms by (auto intro!: ParseInt64_itoa simp: min_def max_def)
  then show ?thesis using assms unfolding directTypingPeer_def sp by (auto simp: min_def max_def)
qed

theorem typing_peer_roundtrip_witness:
  "directTypingPeer (''dm:'' @ itoa (min 3 7) @ '':'' @ itoa (max 3 7)) 3 = Some 7"
  using typing_peer_roundtrip [of 3 7] by (simp add: is_int64_def int64_min_def int64_max_def)

section \<open>From the router to the recipient\<close>

text \<open>C15: What the router lets through can be delivered: a direct message it has accepted, when it comes back from the delivery stream on the
  receiver's subject with the payload the router forwarded, is planned for exactly its receiver, with the authenticated sender and the
  client's id on the receipt, and ends as long after its time stamp as the client asked.\<close>

theorem forwarded_is_deliverable:
  assumes "authenticatedOpaqueDirect c raw u = Inr p" and "cd_direct d (ev_Payload env) = Some (forwardDirectPayload p u)"
    and "ev_Type env = EnvelopeTypeDirect"
  shows "plan_delivery d sha (''msg.direct.'' @ itoa (dp_ReceiverUIN p)) env =
    Inr \<lparr>dl_sender = u, dl_client = dp_ClientID p, dl_recipients = [dp_ReceiverUIN p],
      dl_scopes = [\<lparr>sc_recipientUIN = dp_ReceiverUIN p, sc_seenScope = ''direct''\<rparr>],
      dl_expires = Some (of_unix_milli (ev_TS env) + dp_ExpiresInSeconds p * Second)\<rparr>"
proof -
  have o: "opaque_direct u (forwardDirectPayload p u)" by (rule authenticated_opaque [OF assms(1)])
  then have x: "dp_ExpiresInSeconds p \<in> {3600, 86400, 259200, 604800}" and "0 < dp_ReceiverUIN p" "0 < u" "dp_ClientID p \<noteq> []"
    by (simp_all add: opaque_direct_def forwardDirectPayload_def)
  moreover have "expiry_of (ev_TS env) (dp_ExpiresInSeconds p) = Some (of_unix_milli (ev_TS env) + dp_ExpiresInSeconds p * Second)"
    using x by (auto simp: expiry_of_def Second_def wrap64_def)
  ultimately show ?thesis using assms(2,3) by (simp add: plan_delivery_def forwardDirectPayload_def DirectRecipientScope_def)
qed

theorem forwarded_is_deliverable_witness:
  "\<exists>p plan. authenticatedOpaqueDirect sample_router_codec [] 3 = Inr p \<and>
    plan_delivery (ack_codec\<lparr>cd_direct := (\<lambda>b. Some (forwardDirectPayload p 3))\<rparr>) (\<lambda>x. x) (''msg.direct.'' @ itoa (dp_ReceiverUIN p))
      (out_envelope EnvelopeTypeDirect []) = Inr plan \<and> dl_sender plan = 3"
proof -
  have "\<not> isl (authenticatedOpaqueDirect sample_router_codec [] 3)" by code_simp
  then obtain p where p: "authenticatedOpaqueDirect sample_router_codec [] 3 = Inr p" by (cases "authenticatedOpaqueDirect sample_router_codec [] 3") auto
  from forwarded_is_deliverable [OF p, of "ack_codec\<lparr>cd_direct := (\<lambda>b. Some (forwardDirectPayload p 3))\<rparr>" "out_envelope EnvelopeTypeDirect []" "\<lambda>x. x"] p
  show ?thesis by (auto simp: out_envelope_def)
qed

end
