(* ===== verification/MessageStore.thy ===== *)
theory MessageStore
  imports DurableIngest "HOL-Library.Product_Lexorder"
begin

text \<open>
  The plain message store, \<^verbatim>\<open>message-service/store/messagestore.go\<close>: saving, the paged history queries and the status updates.

  ScyllaDB keeps a time to live for every cell. An insert writes the cells of a row together, \<open>hr_body\<close> with the deadline
  \<open>hr_until\<close>; an update of the status writes the status cell alone, without a deadline, and creates the row when there is none. A
  row is seen by a query while one of its cells lives. \<open>rank\<close> is the order of UUIDs in a partition.
\<close>

section \<open>Tables\<close>

record history_row =
  hr_conversation :: string
  hr_created :: gotime
  hr_id :: uuid
  hr_body :: "message_row option"
  hr_until :: "gotime option"
  hr_status :: "string option"
  hr_status_until :: "gotime option"

record group_history_row =
  gh_group :: uuid
  gh_created :: gotime
  gh_id :: uuid
  gh_body :: group_message_row
  gh_until :: "gotime option"

record message_db =
  md_rows :: "history_row list"
  md_index :: "((uin \<times> string \<times> gotime \<times> uuid) \<times> gotime option) list"
  md_group_rows :: "group_history_row list"
  md_group_index :: "((uin \<times> uuid \<times> gotime \<times> uuid) \<times> gotime option) list"

definition empty_db :: message_db where
  "empty_db = \<lparr>md_rows = [], md_index = [], md_group_rows = [], md_group_index = []\<rparr>"

definition cell_live :: "gotime \<Rightarrow> gotime option \<Rightarrow> bool" where
  "cell_live now until = (case until of None \<Rightarrow> True | Some t \<Rightarrow> now < t)"

definition body_at :: "gotime \<Rightarrow> history_row \<Rightarrow> message_row option" where
  "body_at now r = (if cell_live now (hr_until r) then hr_body r else None)"

definition status_at :: "gotime \<Rightarrow> history_row \<Rightarrow> string option" where
  "status_at now r = (if cell_live now (hr_status_until r) then hr_status r else None)"

definition row_visible :: "gotime \<Rightarrow> history_row \<Rightarrow> bool" where
  "row_visible now r \<longleftrightarrow> body_at now r \<noteq> None \<or> status_at now r \<noteq> None"

definition row_key :: "history_row \<Rightarrow> string \<times> gotime \<times> uuid" where
  "row_key r = (hr_conversation r, hr_created r, hr_id r)"

definition group_row_key :: "group_history_row \<Rightarrow> uuid \<times> gotime \<times> uuid" where
  "group_row_key r = (gh_group r, gh_created r, gh_id r)"

text \<open>Writing a row by its key, as an insert does.\<close>

definition put_by :: "('a \<Rightarrow> 'k) \<Rightarrow> 'a \<Rightarrow> 'a list \<Rightarrow> 'a list" where
  "put_by key r rows = filter (\<lambda>x. key x \<noteq> key r) rows @ [r]"

lemma put_by_set: "set (put_by key r rows) = insert r {x \<in> set rows. key x \<noteq> key r}"
  by (auto simp: put_by_def)

lemma put_by_distinct: "distinct (map key rows) \<Longrightarrow> distinct (map key (put_by key r rows))"
  by (auto simp: put_by_def distinct_map intro: inj_on_subset)

section \<open>Saving\<close>

text \<open>The deadline of \<open>USING TTL\<close>, counted in whole seconds from the write.\<close>

definition ttl_deadline :: "gotime \<Rightarrow> duration \<Rightarrow> gotime" where
  "ttl_deadline now ttl = now + go_div ttl Second * Second"

definition index_uins :: "uin \<Rightarrow> uin \<Rightarrow> uin list" where
  "index_uins sender receiver = sender # (if receiver \<noteq> sender then [receiver] else [])"

definition SaveMessage :: "outcome \<Rightarrow> gotime \<Rightarrow> SaveRequest \<Rightarrow> message_db \<Rightarrow> bool \<times> message_db" where
  "SaveMessage out now req db =
     (let ttl = effectiveMessageTTL (sv_ExpiresInSeconds req);
          expiresAt = expiryAt (sv_CreatedAt req) ttl;
          until = (if ttl > 0 then Some (ttl_deadline now ttl) else None);
          created = cql_ts (sv_CreatedAt req);
          body = \<lparr>m_sender = sv_SenderUIN req, m_receiver = sv_ReceiverUIN req, m_ciphertext = sv_Ciphertext req,
                  m_msg_type = sv_MsgType req, m_expires_at = (if ttl > 0 then cql_ts expiresAt else zero_time),
                  m_ttl = (if ttl > 0 then Some (go_div ttl Second) else None)\<rparr>;
          row = \<lparr>hr_conversation = sv_ConversationID req, hr_created = created, hr_id = sv_ID req, hr_body = Some body,
                 hr_until = until, hr_status = Some [], hr_status_until = until\<rparr>;
          entries = map (\<lambda>u. ((u, sv_ConversationID req, created, sv_ID req), until)) (index_uins (sv_SenderUIN req) (sv_ReceiverUIN req));
          db' = db\<lparr>md_rows := put_by row_key row (md_rows db), md_index := fold (put_by fst) entries (md_index db)\<rparr>
      in (\<not> failed out, if took_effect out then db' else db))"

definition SaveGroupMessage :: "outcome \<Rightarrow> gotime \<Rightarrow> SaveGroupRequest \<Rightarrow> message_db \<Rightarrow> bool \<times> message_db" where
  "SaveGroupMessage out now req db =
     (let ttl = effectiveMessageTTL (sg_ExpiresInSeconds req);
          expiresAt = expiryAt (sg_CreatedAt req) ttl;
          until = (if ttl > 0 then Some (ttl_deadline now ttl) else None);
          created = cql_ts (sg_CreatedAt req);
          body = \<lparr>gm_sender = sg_SenderUIN req, gm_epoch = sg_CryptoEpoch req, gm_ciphertext = sg_Ciphertext req,
                  gm_msg_type = sg_MsgType req, gm_expires_at = (if ttl > 0 then cql_ts expiresAt else zero_time),
                  gm_ttl = (if ttl > 0 then Some (go_div ttl Second) else None)\<rparr>;
          row = \<lparr>gh_group = sg_GroupID req, gh_created = created, gh_id = sg_ID req, gh_body = body, gh_until = until\<rparr>;
          db' = db\<lparr>md_group_rows := put_by group_row_key row (md_group_rows db),
                  md_group_index := put_by fst ((sg_SenderUIN req, sg_GroupID req, created, sg_ID req), until) (md_group_index db)\<rparr>
      in (\<not> failed out, if took_effect out then db' else db))"

section \<open>Status\<close>

text \<open>\<open>UPDATE ... SET status\<close>: the status cell of the row with this key, created when there is none.\<close>

definition set_status :: "string \<Rightarrow> string \<Rightarrow> gotime \<Rightarrow> uuid \<Rightarrow> history_row list \<Rightarrow> history_row list" where
  "set_status status conversationID createdAt i rows =
     (let k = (conversationID, cql_ts createdAt, i) in
      if list_ex (\<lambda>r. row_key r = k) rows
      then map (\<lambda>r. if row_key r = k then r\<lparr>hr_status := Some status, hr_status_until := None\<rparr> else r) rows
      else rows @ [\<lparr>hr_conversation = conversationID, hr_created = cql_ts createdAt, hr_id = i, hr_body = None, hr_until = None,
                    hr_status = Some status, hr_status_until = None\<rparr>])"

definition update_status :: "string \<Rightarrow> outcome \<Rightarrow> string \<Rightarrow> gotime \<Rightarrow> uuid \<Rightarrow> message_db \<Rightarrow> bool \<times> message_db" where
  "update_status status out conversationID createdAt i db =
     (\<not> failed out, if took_effect out then db\<lparr>md_rows := set_status status conversationID createdAt i (md_rows db)\<rparr> else db)"

definition MarkMessageDelivered :: "outcome \<Rightarrow> string \<Rightarrow> gotime \<Rightarrow> uuid \<Rightarrow> message_db \<Rightarrow> bool \<times> message_db" where
  "MarkMessageDelivered = update_status ''delivered''"

definition MarkRead :: "outcome \<Rightarrow> string \<Rightarrow> gotime \<Rightarrow> uuid \<Rightarrow> message_db \<Rightarrow> bool \<times> message_db" where
  "MarkRead = update_status ''read''"

section \<open>Paged reads\<close>

record MessageRow =
  mr_ConversationID :: string
  mr_CreatedAt :: gotime
  mr_ID :: uuid
  mr_SenderUIN :: uin
  mr_ReceiverUIN :: uin
  mr_Ciphertext :: bytes
  mr_MsgType :: string
  mr_Status :: string
  mr_ExpiresAt :: gotime

record GroupMessageRow =
  gr_GroupID :: uuid
  gr_CreatedAt :: gotime
  gr_ID :: uuid
  gr_SenderUIN :: uin
  gr_CryptoEpoch :: int
  gr_Ciphertext :: bytes
  gr_MsgType :: string
  gr_ExpiresAt :: gotime

record HistoryRequest =
  hq_ConversationID :: string
  hq_Before :: gotime
  hq_Limit :: int

record GroupHistoryRequest =
  gq_GroupID :: uuid
  gq_Before :: gotime
  gq_Limit :: int

datatype history_error = ErrInvalidLimit | ErrHistoryIter

definition defaultHistoryLimit :: int where "defaultHistoryLimit = 20"
definition maxHistoryLimit :: int where "maxHistoryLimit = 50"

text \<open>A column that is not set scans to the zero value.\<close>

definition scan_row :: "gotime \<Rightarrow> history_row \<Rightarrow> MessageRow" where
  "scan_row now r =
     (let status = (case status_at now r of None \<Rightarrow> [] | Some s \<Rightarrow> s) in
      case body_at now r of
        None \<Rightarrow> \<lparr>mr_ConversationID = hr_conversation r, mr_CreatedAt = hr_created r, mr_ID = hr_id r, mr_SenderUIN = 0, mr_ReceiverUIN = 0,
                 mr_Ciphertext = [], mr_MsgType = [], mr_Status = status, mr_ExpiresAt = zero_time\<rparr>
      | Some b \<Rightarrow> \<lparr>mr_ConversationID = hr_conversation r, mr_CreatedAt = hr_created r, mr_ID = hr_id r, mr_SenderUIN = m_sender b,
                   mr_ReceiverUIN = m_receiver b, mr_Ciphertext = m_ciphertext b, mr_MsgType = m_msg_type b, mr_Status = status,
                   mr_ExpiresAt = m_expires_at b\<rparr>)"

definition scan_group_row :: "group_history_row \<Rightarrow> GroupMessageRow" where
  "scan_group_row r =
     \<lparr>gr_GroupID = gh_group r, gr_CreatedAt = gh_created r, gr_ID = gh_id r, gr_SenderUIN = gm_sender (gh_body r),
      gr_CryptoEpoch = gm_epoch (gh_body r), gr_Ciphertext = gm_ciphertext (gh_body r), gr_MsgType = gm_msg_type (gh_body r),
      gr_ExpiresAt = gm_expires_at (gh_body r)\<rparr>"

definition newest_first :: "(uuid \<Rightarrow> int) \<Rightarrow> ('a \<Rightarrow> gotime) \<Rightarrow> ('a \<Rightarrow> uuid) \<Rightarrow> 'a list \<Rightarrow> 'a list" where
  "newest_first rank created ident rows = sort_key (\<lambda>r. (- created r, - rank (ident r))) rows"

text \<open>The rows of a partition a query at time \<open>now\<close> sees, newest first.\<close>

definition conversation_rows :: "(uuid \<Rightarrow> int) \<Rightarrow> gotime \<Rightarrow> string \<Rightarrow> message_db \<Rightarrow> MessageRow list" where
  "conversation_rows rank now conversationID db =
     newest_first rank mr_CreatedAt mr_ID
       (map (scan_row now) (filter (\<lambda>r. hr_conversation r = conversationID \<and> row_visible now r) (md_rows db)))"

definition group_rows :: "(uuid \<Rightarrow> int) \<Rightarrow> gotime \<Rightarrow> uuid \<Rightarrow> message_db \<Rightarrow> GroupMessageRow list" where
  "group_rows rank now g db =
     newest_first rank gr_CreatedAt gr_ID
       (map scan_group_row (filter (\<lambda>r. gh_group r = g \<and> cell_live now (gh_until r)) (md_group_rows db)))"

definition paginationPage :: "nat \<Rightarrow> nat \<Rightarrow> nat \<times> bool" where
  "paginationPage fetched limit = (if fetched > limit then (limit, True) else (fetched, False))"

text \<open>The limit of a request; None for a negative one.\<close>

definition history_limit :: "int \<Rightarrow> nat option" where
  "history_limit requested =
     (let limit = (if requested = 0 then defaultHistoryLimit else requested) in
      if limit < 0 then None else Some (nat (if limit > maxHistoryLimit then maxHistoryLimit else limit)))"

definition history_before :: "gotime \<Rightarrow> gotime \<Rightarrow> gotime" where
  "history_before now before = (if is_zero before then now + Second else before)"

definition row_expired :: "gotime \<Rightarrow> gotime \<Rightarrow> bool" where
  "row_expired now expiresAt \<longleftrightarrow> \<not> is_zero expiresAt \<and> \<not> expiresAt > now"

text \<open>\<open>created_at < ? LIMIT ?\<close> on the sorted partition; the timestamp is bound with milliseconds.\<close>

definition select_before :: "('a \<Rightarrow> gotime) \<Rightarrow> gotime \<Rightarrow> nat \<Rightarrow> 'a list \<Rightarrow> 'a list" where
  "select_before created before n rows = take n (filter (\<lambda>r. created r < cql_ts before) rows)"

text \<open>\<open>ok\<close>: whether the iteration ends without an error. The clock is read once for the whole page.\<close>

definition GetHistory ::
  "(uuid \<Rightarrow> int) \<Rightarrow> bool \<Rightarrow> gotime \<Rightarrow> HistoryRequest \<Rightarrow> message_db \<Rightarrow> history_error + MessageRow list \<times> bool" where
  "GetHistory rank ok now req db =
     (case history_limit (hq_Limit req) of
        None \<Rightarrow> Inl ErrInvalidLimit
      | Some limit \<Rightarrow>
          let fetched = select_before mr_CreatedAt (history_before now (hq_Before req)) (limit + 1)
                (conversation_rows rank now (hq_ConversationID req) db);
              rows = filter (\<lambda>r. \<not> row_expired now (mr_ExpiresAt r)) fetched
          in if \<not> ok then Inl ErrHistoryIter
             else let (keep, hasMore) = paginationPage (length rows) limit in Inr (take keep rows, hasMore))"

definition GetGroupHistory ::
  "(uuid \<Rightarrow> int) \<Rightarrow> bool \<Rightarrow> gotime \<Rightarrow> GroupHistoryRequest \<Rightarrow> message_db \<Rightarrow> history_error + GroupMessageRow list \<times> bool" where
  "GetGroupHistory rank ok now req db =
     (case history_limit (gq_Limit req) of
        None \<Rightarrow> Inl ErrInvalidLimit
      | Some limit \<Rightarrow>
          let fetched = select_before gr_CreatedAt (history_before now (gq_Before req)) (limit + 1)
                (group_rows rank now (gq_GroupID req) db);
              rows = filter (\<lambda>r. \<not> row_expired now (gr_ExpiresAt r)) fetched
          in if \<not> ok then Inl ErrHistoryIter
             else let (keep, hasMore) = paginationPage (length rows) limit in Inr (take keep rows, hasMore))"

end
