(* ===== verification/History.thy ===== *)
theory History
  imports MessageStore IngestService Tokens Router
begin

text \<open>
  The history endpoints, \<^verbatim>\<open>message-service/handlers/history.go\<close>, and the read receipts of \<^verbatim>\<open>message-service/main.go\<close>. The reading of
  RFC 3339 times is the parameter \<open>ParseTime\<close>; UUIDs are read and printed by the codec. A failing query is a flag of \<open>history_io\<close>.
\<close>

section \<open>Requests and answers\<close>

record historyMessage =
  hm_ID :: string
  hm_ConversationID :: string
  hm_GroupID :: string
  hm_SenderUIN :: uin
  hm_ReceiverUIN :: uin
  hm_CryptoEpoch :: "int option"
  hm_ContentType :: string
  hm_Ciphertext :: string
  hm_MsgType :: string
  hm_Status :: string
  hm_CreatedAt :: gotime

record historyResponse =
  hs_Messages :: "historyMessage list"
  hs_NextCursor :: "gotime option"

datatype history_http = HistoryError nat string | HistoryPage historyResponse

record history_io =
  hi_actor :: "uin option"
  hi_target :: string
  hi_before :: string
  hi_limit :: string
  hi_wiped_ok :: bool
  hi_member_ok :: bool
  hi_store_ok :: bool
  hi_now :: gotime

definition parseBeforeParam :: "(string \<Rightarrow> gotime option) \<Rightarrow> string \<Rightarrow> gotime option" where
  "parseBeforeParam ParseTime s = (let s = TrimSpace s in if s = [] then Some zero_time else ParseTime s)"

definition parseLimitParam :: "string \<Rightarrow> int option" where
  "parseLimitParam s =
     (let s = TrimSpace s in
      if s = [] then Some 0
      else case ParseInt64 s of None \<Rightarrow> None | Some n \<Rightarrow> if n < 1 \<or> n > 50 then None else Some n)"

definition parseDMMembers :: "string \<Rightarrow> uin \<Rightarrow> uin option" where
  "parseDMMembers convID requestingUIN =
     (let parts = split_on (CHR '':'') convID in
      if length parts \<noteq> 3 \<or> parts ! 0 \<noteq> ''dm'' then None
      else case (ParseInt64 (parts ! 1), ParseInt64 (parts ! 2)) of
        (Some a, Some b) \<Rightarrow>
          if a \<le> 0 \<or> b \<le> 0 \<or> a \<ge> b then None
          else if requestingUIN = a then Some b
          else if requestingUIN = b then Some a
          else None
      | _ \<Rightarrow> None)"

definition isGroupMember :: "bool \<Rightarrow> ChatGroups.group_tables \<Rightarrow> group_id \<Rightarrow> uin \<Rightarrow> bool option" where
  "isGroupMember ok t g u = (if ok then Some (is_member t g u) else None)"

definition isAccountWiped :: "bool \<Rightarrow> auth_tables \<Rightarrow> uin \<Rightarrow> bool option" where
  "isAccountWiped ok t u = (if ok then Some (u \<in> at_wiped t) else None)"

fun distinct_uins :: "uin set \<Rightarrow> uin list \<Rightarrow> uin list" where
  "distinct_uins seen [] = []"
| "distinct_uins seen (u # us) = (if u \<in> seen then distinct_uins seen us else u # distinct_uins (insert u seen) us)"

definition distinctSenderUINs :: "GroupMessageRow list \<Rightarrow> uin list" where
  "distinctSenderUINs rows = distinct_uins {} (map gr_SenderUIN rows)"

text \<open>No query for an empty list.\<close>

definition wipedUINsAmong :: "bool \<Rightarrow> auth_tables \<Rightarrow> uin list \<Rightarrow> uin list option" where
  "wipedUINsAmong ok t us = (if us = [] then Some [] else if ok then Some (filter (\<lambda>u. u \<in> at_wiped t) us) else None)"

section \<open>Rendering\<close>

definition dmRowToMessage :: "codec \<Rightarrow> string \<Rightarrow> MessageRow \<Rightarrow> historyMessage" where
  "dmRowToMessage c convID r =
     \<lparr>hm_ID = cd_uuid_out c (mr_ID r), hm_ConversationID = convID, hm_GroupID = [], hm_SenderUIN = mr_SenderUIN r,
      hm_ReceiverUIN = mr_ReceiverUIN r, hm_CryptoEpoch = None, hm_ContentType = [], hm_Ciphertext = EncodeToString True (mr_Ciphertext r),
      hm_MsgType = mr_MsgType r, hm_Status = mr_Status r, hm_CreatedAt = mr_CreatedAt r\<rparr>"

definition groupRowToMessage :: "codec \<Rightarrow> string \<Rightarrow> GroupMessageRow \<Rightarrow> historyMessage" where
  "groupRowToMessage c groupID r =
     \<lparr>hm_ID = cd_uuid_out c (gr_ID r), hm_ConversationID = [], hm_GroupID = groupID, hm_SenderUIN = gr_SenderUIN r,
      hm_ReceiverUIN = 0, hm_CryptoEpoch = Some (gr_CryptoEpoch r), hm_ContentType = ''text'', hm_Ciphertext = EncodeToString True (gr_Ciphertext r),
      hm_MsgType = gr_MsgType r, hm_Status = [], hm_CreatedAt = gr_CreatedAt r\<rparr>"

definition writeHistoryResponse :: "('a \<Rightarrow> historyMessage) \<Rightarrow> 'a list \<Rightarrow> gotime option \<Rightarrow> history_http" where
  "writeHistoryResponse convert rows cursor = HistoryPage \<lparr>hs_Messages = map convert rows, hs_NextCursor = cursor\<rparr>"

definition history_cursor :: "('a \<Rightarrow> gotime) \<Rightarrow> 'a list \<Rightarrow> bool \<Rightarrow> gotime option" where
  "history_cursor created rows hasMore = (if hasMore \<and> length rows > 0 then Some (created (rows ! (length rows - 1))) else None)"

definition history_store_error :: "history_error \<Rightarrow> history_http" where
  "history_store_error e = (if e = ErrInvalidLimit then HistoryError 400 ''LIMIT_INVALID'' else HistoryError 500 ''STORE_ERROR'')"

section \<open>Handlers\<close>

definition getHistoryHandler ::
  "codec \<Rightarrow> (string \<Rightarrow> gotime option) \<Rightarrow> (uuid \<Rightarrow> int) \<Rightarrow> history_io \<Rightarrow> auth_tables \<Rightarrow> message_db \<Rightarrow> history_http" where
  "getHistoryHandler c ParseTime rank io accounts db =
     (case hi_actor io of
        None \<Rightarrow> HistoryError 401 ''AUTH_MISSING_BEARER''
      | Some u \<Rightarrow>
          let convID = TrimSpace (hi_target io) in
          if convID = [] then HistoryError 400 ''FIELD_REQUIRED''
          else if take 3 convID \<noteq> ''dm:'' then HistoryError 400 ''CONVERSATION_ID_INVALID''
          else case parseBeforeParam ParseTime (hi_before io) of
            None \<Rightarrow> HistoryError 400 ''BEFORE_INVALID''
          | Some before \<Rightarrow>
              (case parseLimitParam (hi_limit io) of
                 None \<Rightarrow> HistoryError 400 ''LIMIT_INVALID''
               | Some limit \<Rightarrow>
                   (case parseDMMembers convID u of
                      None \<Rightarrow> HistoryError 403 ''NOT_A_MEMBER''
                    | Some otherUIN \<Rightarrow>
                        (case isAccountWiped (hi_wiped_ok io) accounts otherUIN of
                           None \<Rightarrow> HistoryError 500 ''STORE_ERROR''
                         | Some True \<Rightarrow> writeHistoryResponse (dmRowToMessage c convID) [] None
                         | Some False \<Rightarrow>
                             (case GetHistory rank (hi_store_ok io) (hi_now io)
                                 \<lparr>hq_ConversationID = convID, hq_Before = before, hq_Limit = limit\<rparr> db of
                                Inl e \<Rightarrow> history_store_error e
                              | Inr (rows, hasMore) \<Rightarrow>
                                  writeHistoryResponse (dmRowToMessage c convID) rows (history_cursor mr_CreatedAt rows hasMore))))))"

definition getGroupHistoryHandler ::
  "codec \<Rightarrow> (string \<Rightarrow> gotime option) \<Rightarrow> (uuid \<Rightarrow> int) \<Rightarrow> history_io \<Rightarrow> ChatGroups.group_tables \<Rightarrow> auth_tables \<Rightarrow> message_db \<Rightarrow> history_http" where
  "getGroupHistoryHandler c ParseTime rank io t accounts db =
     (case hi_actor io of
        None \<Rightarrow> HistoryError 401 ''AUTH_MISSING_BEARER''
      | Some u \<Rightarrow>
          let groupIDStr = TrimSpace (hi_target io) in
          if groupIDStr = [] then HistoryError 400 ''FIELD_REQUIRED''
          else case cd_uuid c groupIDStr of
            None \<Rightarrow> HistoryError 400 ''GROUP_ID_INVALID''
          | Some groupID \<Rightarrow>
              (case parseBeforeParam ParseTime (hi_before io) of
                 None \<Rightarrow> HistoryError 400 ''BEFORE_INVALID''
               | Some before \<Rightarrow>
                   (case parseLimitParam (hi_limit io) of
                      None \<Rightarrow> HistoryError 400 ''LIMIT_INVALID''
                    | Some limit \<Rightarrow>
                        (case isGroupMember (hi_member_ok io) t (cd_uuid_out c groupID) u of
                           None \<Rightarrow> HistoryError 500 ''STORE_ERROR''
                         | Some False \<Rightarrow> HistoryError 403 ''NOT_A_MEMBER''
                         | Some True \<Rightarrow>
                             (case GetGroupHistory rank (hi_store_ok io) (hi_now io)
                                 \<lparr>gq_GroupID = groupID, gq_Before = before, gq_Limit = limit\<rparr> db of
                                Inl e \<Rightarrow> history_store_error e
                              | Inr (rows, hasMore) \<Rightarrow>
                                  let cursor = history_cursor gr_CreatedAt rows hasMore in
                                  (case wipedUINsAmong (hi_wiped_ok io) accounts (distinctSenderUINs rows) of
                                     None \<Rightarrow> HistoryError 500 ''STORE_ERROR''
                                   | Some wipedSenders \<Rightarrow>
                                       writeHistoryResponse (groupRowToMessage c groupIDStr)
                                         (filter (\<lambda>r. \<not> list_ex (\<lambda>u. u = gr_SenderUIN r) wipedSenders) rows) cursor))))))"

section \<open>Read receipts\<close>

definition subjectTail :: "string \<Rightarrow> string \<Rightarrow> string option" where
  "subjectTail subject prefix = (if take (length prefix) subject \<noteq> prefix then None else Some (drop (length prefix) subject))"

definition handleReadAck :: "router_codec \<Rightarrow> outcome \<Rightarrow> string \<Rightarrow> bytes \<Rightarrow> message_db \<Rightarrow> message_db" where
  "handleReadAck c out subject data db =
     (case subjectTail subject ''ack.'' of
        None \<Rightarrow> db
      | Some subjectUIN \<Rightarrow>
          (case ParseInt64 subjectUIN of
             None \<Rightarrow> db
           | Some expectedUIN \<Rightarrow>
               if expectedUIN \<le> 0 then db
               else case cd_env (rc_base c) data of
                 None \<Rightarrow> db
               | Some env \<Rightarrow>
                   (case rc_read c (ev_Payload env) of
                      None \<Rightarrow> db
                    | Some p \<Rightarrow>
                        if rp_ConversationID p = [] \<or> rp_MessageID p = [] then db
                        else if rp_SenderUIN p \<noteq> expectedUIN then db
                        else if is_zero (rp_CreatedAt p) then db
                        else case cd_uuid (rc_base c) (rp_MessageID p) of
                          None \<Rightarrow> db
                        | Some i \<Rightarrow> snd (MarkRead out (rp_ConversationID p) (rp_CreatedAt p) i db))))"

end
