(* ===== verification/HistoryProperties.thy ===== *)
theory HistoryProperties
  imports History RouterProperties
begin

text \<open>
  What the history promises: only members read it, paging reaches every message, a wiped peer looks like an empty conversation, a
  message is retained no longer than its lifetime. Findings: two messages of one millisecond can be separated by a page boundary and
  the second one is lost, an expired row ends the paging, and a read receipt writes a row that never expires, for whoever sends it.
\<close>

section \<open>Walking through the pages\<close>

fun walk :: "nat \<Rightarrow> (gotime \<Rightarrow> 'e + 'a list \<times> bool) \<Rightarrow> ('a \<Rightarrow> gotime) \<Rightarrow> gotime \<Rightarrow> 'a list option" where
  "walk 0 fetch created before = None"
| "walk (Suc k) fetch created before =
     (case fetch before of
        Inl e \<Rightarrow> None
      | Inr (rows, hasMore) \<Rightarrow>
          (case history_cursor created rows hasMore of
             None \<Rightarrow> Some rows
           | Some cursor \<Rightarrow> map_option (\<lambda>more. rows @ more) (walk k fetch created cursor)))"

text \<open>A clock of the newest first: what is older than the last of the first \<open>n\<close> is the rest.\<close>

lemma older_than_last:
  assumes "sorted_wrt (\<lambda>a b. created b < (created a :: int)) xs" and "0 < n" and "n < length xs"
  shows "filter (\<lambda>r. created r < created (xs ! (n - 1))) xs = drop n xs"
proof -
  have split: "xs = take n xs @ drop n xs" by simp
  have "\<not> created r < created (xs ! (n - 1))" if m: "r \<in> set (take n xs)" for r
  proof -
    obtain i where i: "i < n" "r = xs ! i" using m assms(3) by (auto simp: in_set_conv_nth)
    show ?thesis
    proof (cases "i = n - 1")
      case False
      then have "created (xs ! (n - 1)) < created (xs ! i)" using i assms by (intro sorted_wrt_nth_less [OF assms(1)]) auto
      then show ?thesis using i by simp
    qed (use i in simp)
  qed
  then have a: "filter (\<lambda>r. created r < created (xs ! (n - 1))) (take n xs) = []" by (simp add: filter_empty_conv)
  have "created r < created (xs ! (n - 1))" if m: "r \<in> set (drop n xs)" for r
  proof -
    obtain j where j: "j < length xs - n" "r = xs ! (n + j)" using m by (auto simp: in_set_conv_nth)
    then show ?thesis using assms by (auto intro: sorted_wrt_nth_less [OF assms(1)])
  qed
  then have b: "filter (\<lambda>r. created r < created (xs ! (n - 1))) (drop n xs) = drop n xs" by (simp add: filter_id_conv)
  show ?thesis using a b by (subst split) (simp only: filter_append, simp)
qed

lemma page_cursor_all: "history_cursor created xs False = None"
  by (simp add: history_cursor_def)

lemma page_cursor_more:
  "0 < n \<Longrightarrow> n \<le> length xs \<Longrightarrow> history_cursor created (take n xs) True = Some (created (xs ! (n - 1)))"
  by (auto simp: history_cursor_def min_def)

text \<open>The contract of a paged read: a page is the beginning of what is older than the cursor, and says whether there is more.\<close>

locale paged_history =
  fixes fetch :: "'s \<Rightarrow> int \<Rightarrow> gotime \<Rightarrow> 'e + 'a list \<times> bool"
    and contents :: "'s \<Rightarrow> 'a list"
    and created :: "'a \<Rightarrow> gotime"
    and bound :: "gotime \<Rightarrow> gotime"
    and steady :: "'s \<Rightarrow> bool"
  assumes newest: "steady s \<Longrightarrow> sorted_wrt (\<lambda>a b. created b < created a) (contents s)"
    and stamped: "steady s \<Longrightarrow> r \<in> set (contents s) \<Longrightarrow> bound (created r) = created r"
    and prefix: "steady s \<Longrightarrow> history_limit l = Some n \<Longrightarrow>
      fetch s l before = Inr (take n (filter (\<lambda>r. created r < bound before) (contents s)),
        n < length (filter (\<lambda>r. created r < bound before) (contents s)))"
begin

lemma walk_all:
  assumes "steady s" and "history_limit l = Some n" and "0 < n"
  shows "length (filter (\<lambda>r. created r < bound before) (contents s)) < k \<Longrightarrow>
    walk k (fetch s l) created before = Some (filter (\<lambda>r. created r < bound before) (contents s))"
proof (induction k arbitrary: before)
  case (Suc k)
  let ?xs = "filter (\<lambda>r. created r < bound before) (contents s)"
  have f: "fetch s l before = Inr (take n ?xs, n < length ?xs)" by (rule prefix [OF assms(1, 2)])
  show ?case
  proof (cases "n < length ?xs")
    case False
    then show ?thesis by (simp add: f page_cursor_all)
  next
    case True
    let ?c = "created (?xs ! (n - 1))"
    have mem: "?xs ! (n - 1) \<in> set ?xs" using True assms(3) by (intro nth_mem) simp
    have sorted: "sorted_wrt (\<lambda>a b. created b < created a) ?xs" by (rule sorted_wrt_filter [OF newest [OF assms(1)]])
    have "bound ?c = ?c" using mem by (intro stamped [OF assms(1)]) simp
    moreover have "filter (\<lambda>r. created r < ?c) (contents s) = filter (\<lambda>r. created r < ?c) ?xs"
      using mem by (auto simp: filter_filter intro: filter_cong)
    ultimately have rest: "filter (\<lambda>r. created r < bound ?c) (contents s) = drop n ?xs"
      using older_than_last [OF sorted assms(3) True] by simp
    have "walk k (fetch s l) created ?c = Some (drop n ?xs)"
      using Suc.IH [of ?c] Suc.prems assms(3) True rest by simp
    then show ?thesis
      using f True page_cursor_more [OF assms(3), of ?xs created] by simp
  qed
qed simp

end

lemma history_limit_pos: "history_limit l = Some n \<Longrightarrow> 0 < n"
  by (auto simp: history_limit_def defaultHistoryLimit_def maxHistoryLimit_def Let_def split: if_splits)

lemma history_limit_bound: "history_limit l = Some n \<Longrightarrow> n \<le> 50"
  by (auto simp: history_limit_def defaultHistoryLimit_def maxHistoryLimit_def Let_def split: if_splits)

text \<open>One page of a partition without expired rows.\<close>

lemma page_of_fresh:
  assumes "\<forall>r\<in>set rows. \<not> expired r"
  shows "(let fetched = filter (\<lambda>r. \<not> expired r) (select_before created before (n + 1) rows); (keep, more) = paginationPage (length fetched) n
          in (take keep fetched, more)) =
    (take n (filter (\<lambda>r. created r < cql_ts before) rows), n < length (filter (\<lambda>r. created r < cql_ts before) rows))"
proof -
  have "filter (\<lambda>r. \<not> expired r) (select_before created before (n + 1) rows) = select_before created before (n + 1) rows"
    using assms by (auto simp: select_before_def filter_id_conv dest!: in_set_takeD)
  then show ?thesis by (auto simp: paginationPage_def select_before_def Let_def)
qed

text \<open>A partition in which nothing is at its end, no two messages have the same time and times are whole milliseconds.\<close>

definition steady_rows :: "gotime \<Rightarrow> ('a \<Rightarrow> gotime) \<Rightarrow> ('a \<Rightarrow> gotime) \<Rightarrow> 'a list \<Rightarrow> bool" where
  "steady_rows now created expires rows \<longleftrightarrow> distinct (map created rows) \<and>
     list_all (\<lambda>r. \<not> row_expired now (expires r) \<and> cql_ts (created r) = created r \<and> created r \<noteq> zero_time) rows"

lemma newest_first_sorted:
  assumes "distinct (map created (newest_first rank created ident rows))"
  shows "sorted_wrt (\<lambda>a b. created b < (created a :: int)) (newest_first rank created ident rows)"
proof -
  let ?xs = "newest_first rank created ident rows"
  have "sorted (map (\<lambda>r. (- created r, - rank (ident r))) ?xs)" by (simp add: newest_first_def)
  then have "sorted_wrt (\<lambda>a b. created b \<le> created a) ?xs"
    by (auto simp: sorted_map less_eq_prod_def elim!: sorted_wrt_mono_rel [rotated])
  moreover have "sorted_wrt (\<lambda>a b. created a \<noteq> created b) ?xs"
    using assms by (simp add: distinct_map distinct_conv_nth sorted_wrt_iff_nth_less inj_on_def)
  ultimately show ?thesis unfolding sorted_wrt_iff_nth_less by (metis order_le_imp_less_or_eq)
qed

definition steady_conversation :: "(uuid \<Rightarrow> int) \<Rightarrow> gotime \<Rightarrow> string \<Rightarrow> message_db \<Rightarrow> bool" where
  "steady_conversation rank now convID db \<longleftrightarrow> steady_rows now mr_CreatedAt mr_ExpiresAt (conversation_rows rank now convID db)"

definition steady_group :: "(uuid \<Rightarrow> int) \<Rightarrow> gotime \<Rightarrow> uuid \<Rightarrow> message_db \<Rightarrow> bool" where
  "steady_group rank now g db \<longleftrightarrow> steady_rows now gr_CreatedAt gr_ExpiresAt (group_rows rank now g db)"

abbreviation direct_page :: "(uuid \<Rightarrow> int) \<Rightarrow> gotime \<Rightarrow> string \<Rightarrow> message_db \<Rightarrow> int \<Rightarrow> gotime \<Rightarrow> history_error + MessageRow list \<times> bool" where
  "direct_page rank now convID db limit before \<equiv>
     GetHistory rank True now \<lparr>hq_ConversationID = convID, hq_Before = before, hq_Limit = limit\<rparr> db"

abbreviation group_page :: "(uuid \<Rightarrow> int) \<Rightarrow> gotime \<Rightarrow> uuid \<Rightarrow> message_db \<Rightarrow> int \<Rightarrow> gotime \<Rightarrow> history_error + GroupMessageRow list \<times> bool" where
  "group_page rank now g db limit before \<equiv>
     GetGroupHistory rank True now \<lparr>gq_GroupID = g, gq_Before = before, gq_Limit = limit\<rparr> db"

lemma steady_rowsD:
  assumes "steady_rows now created expires rows"
  shows "distinct (map created rows)" and "r \<in> set rows \<Longrightarrow> \<not> row_expired now (expires r)"
    and "r \<in> set rows \<Longrightarrow> cql_ts (history_before now (created r)) = created r"
  using assms by (auto simp: steady_rows_def list_all_iff history_before_def is_zero_def)

lemma GetHistory_fresh:
  assumes "\<forall>r\<in>set (conversation_rows rank now convID db). \<not> row_expired now (mr_ExpiresAt r)" and "history_limit l = Some n"
  shows "direct_page rank now convID db l before =
    Inr (take n (filter (\<lambda>r. mr_CreatedAt r < cql_ts (history_before now before)) (conversation_rows rank now convID db)),
      n < length (filter (\<lambda>r. mr_CreatedAt r < cql_ts (history_before now before)) (conversation_rows rank now convID db)))"
  using page_of_fresh [OF assms(1), of mr_CreatedAt "history_before now before" n] assms(2)
  by (simp add: GetHistory_def Let_def split: prod.splits)

lemma GetGroupHistory_fresh:
  assumes "\<forall>r\<in>set (group_rows rank now g db). \<not> row_expired now (gr_ExpiresAt r)" and "history_limit l = Some n"
  shows "group_page rank now g db l before =
    Inr (take n (filter (\<lambda>r. gr_CreatedAt r < cql_ts (history_before now before)) (group_rows rank now g db)),
      n < length (filter (\<lambda>r. gr_CreatedAt r < cql_ts (history_before now before)) (group_rows rank now g db)))"
  using page_of_fresh [OF assms(1), of gr_CreatedAt "history_before now before" n] assms(2)
  by (simp add: GetGroupHistory_def Let_def split: prod.splits)

interpretation direct: paged_history "direct_page rank now convID" "conversation_rows rank now convID" mr_CreatedAt
  "\<lambda>before. cql_ts (history_before now before)" "steady_conversation rank now convID" for rank now convID
proof unfold_locales
  fix db :: message_db
  assume s: "steady_conversation rank now convID db"
  note d = steady_rowsD [OF s [unfolded steady_conversation_def]]
  show "sorted_wrt (\<lambda>a b. mr_CreatedAt b < mr_CreatedAt a) (conversation_rows rank now convID db)"
    using d(1) unfolding conversation_rows_def by (rule newest_first_sorted)
  show "cql_ts (history_before now (mr_CreatedAt r)) = mr_CreatedAt r" if "r \<in> set (conversation_rows rank now convID db)" for r
    by (rule d(3) [OF that])
  show "direct_page rank now convID db l before =
      Inr (take n (filter (\<lambda>r. mr_CreatedAt r < cql_ts (history_before now before)) (conversation_rows rank now convID db)),
        n < length (filter (\<lambda>r. mr_CreatedAt r < cql_ts (history_before now before)) (conversation_rows rank now convID db)))"
    if "history_limit l = Some n" for l n before
    using d(2) that by (intro GetHistory_fresh) auto
qed

interpretation grouped: paged_history "group_page rank now g" "group_rows rank now g" gr_CreatedAt
  "\<lambda>before. cql_ts (history_before now before)" "steady_group rank now g" for rank now g
proof unfold_locales
  fix db :: message_db
  assume s: "steady_group rank now g db"
  note d = steady_rowsD [OF s [unfolded steady_group_def]]
  show "sorted_wrt (\<lambda>a b. gr_CreatedAt b < gr_CreatedAt a) (group_rows rank now g db)"
    using d(1) unfolding group_rows_def by (rule newest_first_sorted)
  show "cql_ts (history_before now (gr_CreatedAt r)) = gr_CreatedAt r" if "r \<in> set (group_rows rank now g db)" for r
    by (rule d(3) [OF that])
  show "group_page rank now g db l before =
      Inr (take n (filter (\<lambda>r. gr_CreatedAt r < cql_ts (history_before now before)) (group_rows rank now g db)),
        n < length (filter (\<lambda>r. gr_CreatedAt r < cql_ts (history_before now before)) (group_rows rank now g db)))"
    if "history_limit l = Some n" for l n before
    using d(2) that by (intro GetGroupHistory_fresh) auto
qed

lemma fresh_page_covers:
  assumes "is_zero before \<longrightarrow> list_all (\<lambda>r. created r \<le> now) rows" and "\<forall>r\<in>set rows. cql_ts (created r) = (created r :: gotime)"
    and "is_zero before"
  shows "filter (\<lambda>r. created r < cql_ts (history_before now before)) rows = rows"
proof -
  have "t < cql_ts (now + Second)" if "t \<le> now" for t
    using that by (simp add: cql_ts_def trunc_time_def duration_defs)
  then show ?thesis using assms by (auto simp: history_before_def list_all_iff filter_id_conv)
qed

text \<open>C18: Following the cursors from page to page, a member gets every message of the conversation exactly once and newest first, whatever
  the page size, as long as no two of its messages have the same millisecond and none of them is at its end.\<close>

theorem history_paging_complete:
  assumes "steady_conversation rank now convID db" and "history_limit limit \<noteq> None"
    and "list_all (\<lambda>r. mr_CreatedAt r \<le> now) (conversation_rows rank now convID db)"
    and "length (conversation_rows rank now convID db) < fuel"
  shows "walk fuel (direct_page rank now convID db limit) mr_CreatedAt zero_time = Some (conversation_rows rank now convID db)"
proof -
  obtain n where n: "history_limit limit = Some n" using assms(2) by auto
  have all: "filter (\<lambda>r. mr_CreatedAt r < cql_ts (history_before now zero_time)) (conversation_rows rank now convID db) =
      conversation_rows rank now convID db"
    using assms(1,3) by (intro fresh_page_covers) (auto simp: is_zero_def steady_conversation_def steady_rows_def list_all_iff)
  show ?thesis
    using direct.walk_all [OF assms(1) n history_limit_pos [OF n], of zero_time fuel] assms(4) unfolding all by simp
qed

text \<open>Also: The same for the history of a group.\<close>

theorem group_paging_complete:
  assumes "steady_group rank now g db" and "history_limit limit \<noteq> None"
    and "list_all (\<lambda>r. gr_CreatedAt r \<le> now) (group_rows rank now g db)"
    and "length (group_rows rank now g db) < fuel"
  shows "walk fuel (group_page rank now g db limit) gr_CreatedAt zero_time = Some (group_rows rank now g db)"
proof -
  obtain n where n: "history_limit limit = Some n" using assms(2) by auto
  have all: "filter (\<lambda>r. gr_CreatedAt r < cql_ts (history_before now zero_time)) (group_rows rank now g db) = group_rows rank now g db"
    using assms(1,3) by (intro fresh_page_covers) (auto simp: is_zero_def steady_group_def steady_rows_def list_all_iff)
  show ?thesis
    using grouped.walk_all [OF assms(1) n history_limit_pos [OF n], of zero_time fuel] assms(4) unfolding all by simp
qed

text \<open>A conversation of three messages in consecutive seconds, the newest first.\<close>

definition sample_save :: "gotime \<Rightarrow> uuid \<Rightarrow> SaveRequest" where
  "sample_save t i = \<lparr>sv_ConversationID = ''dm:3:7'', sv_ID = i, sv_SenderUIN = 3, sv_ReceiverUIN = 7, sv_Ciphertext = ''x'',
     sv_MsgType = ''signal_message'', sv_CreatedAt = t, sv_ExpiresInSeconds = 3600\<rparr>"

definition sample_db :: "gotime list \<Rightarrow> message_db" where
  "sample_db stamps = fold (\<lambda>t db. snd (SaveMessage Done (9 * Second) (sample_save t [word_of_int (t div Second)]) db)) stamps empty_db"

definition sample_rank :: "uuid \<Rightarrow> int" where "sample_rank i = (case i of [] \<Rightarrow> 0 | w # _ \<Rightarrow> uint w)"

theorem history_paging_complete_witness:
  "walk 4 (direct_page sample_rank (9 * Second) ''dm:3:7'' (sample_db [Second, 2 * Second, 3 * Second]) 1) mr_CreatedAt zero_time =
     Some (conversation_rows sample_rank (9 * Second) ''dm:3:7'' (sample_db [Second, 2 * Second, 3 * Second]))"
proof (rule history_paging_complete)
  show "steady_conversation sample_rank (9 * Second) ''dm:3:7'' (sample_db [Second, 2 * Second, 3 * Second])" by code_simp
  show "history_limit 1 \<noteq> None" by code_simp
  show "list_all (\<lambda>r. mr_CreatedAt r \<le> 9 * Second) (conversation_rows sample_rank (9 * Second) ''dm:3:7'' (sample_db [Second, 2 * Second, 3 * Second]))"
    by code_simp
  show "length (conversation_rows sample_rank (9 * Second) ''dm:3:7'' (sample_db [Second, 2 * Second, 3 * Second])) < 4" by code_simp
qed

definition sample_group_save :: "gotime \<Rightarrow> uuid \<Rightarrow> SaveGroupRequest" where
  "sample_group_save t i = \<lparr>sg_GroupID = [1], sg_ID = i, sg_SenderUIN = 3, sg_CryptoEpoch = 1, sg_Ciphertext = ''x'',
     sg_MsgType = ''group_ciphertext'', sg_CreatedAt = t, sg_ExpiresInSeconds = 3600\<rparr>"

definition sample_group_db :: "gotime list \<Rightarrow> message_db" where
  "sample_group_db stamps = fold (\<lambda>t db. snd (SaveGroupMessage Done (9 * Second) (sample_group_save t [word_of_int (t div Second)]) db)) stamps empty_db"

theorem group_paging_complete_witness:
  "walk 3 (group_page sample_rank (9 * Second) [1] (sample_group_db [Second, 2 * Second]) 1) gr_CreatedAt zero_time =
     Some (group_rows sample_rank (9 * Second) [1] (sample_group_db [Second, 2 * Second]))"
proof (rule group_paging_complete)
  show "steady_group sample_rank (9 * Second) [1] (sample_group_db [Second, 2 * Second])" by code_simp
  show "history_limit 1 \<noteq> None" by code_simp
  show "list_all (\<lambda>r. gr_CreatedAt r \<le> 9 * Second) (group_rows sample_rank (9 * Second) [1] (sample_group_db [Second, 2 * Second]))"
    by code_simp
  show "length (group_rows sample_rank (9 * Second) [1] (sample_group_db [Second, 2 * Second])) < 3" by code_simp
qed

section \<open>Where paging loses messages\<close>

text \<open>Every row a walk returns is older than its cursor.\<close>

lemma GetHistory_older:
  assumes "direct_page rank now convID db l before = Inr (rows, hasMore)" and "r \<in> set rows"
  shows "mr_CreatedAt r < cql_ts (history_before now before)" and "r \<in> set (conversation_rows rank now convID db)"
proof -
  obtain n where n: "history_limit l = Some n" using assms(1) by (cases "history_limit l") (auto simp: GetHistory_def)
  let ?fetched = "select_before mr_CreatedAt (history_before now before) (n + 1) (conversation_rows rank now convID db)"
  have "rows = take (fst (paginationPage (length (filter (\<lambda>r. \<not> row_expired now (mr_ExpiresAt r)) ?fetched)) n))
      (filter (\<lambda>r. \<not> row_expired now (mr_ExpiresAt r)) ?fetched)"
    using assms(1) n by (simp add: GetHistory_def Let_def split: prod.splits)
  then have "r \<in> set ?fetched" using assms(2) in_set_takeD by fastforce
  then have "r \<in> set (filter (\<lambda>r. mr_CreatedAt r < cql_ts (history_before now before)) (conversation_rows rank now convID db))"
    unfolding select_before_def by (rule in_set_takeD)
  then show "mr_CreatedAt r < cql_ts (history_before now before)" and "r \<in> set (conversation_rows rank now convID db)" by simp_all
qed

lemma walk_older:
  assumes "\<forall>r\<in>set (conversation_rows rank now convID db). cql_ts (history_before now (mr_CreatedAt r)) = mr_CreatedAt r"
  shows "walk k (direct_page rank now convID db l) mr_CreatedAt before = Some rows \<Longrightarrow> r \<in> set rows \<Longrightarrow>
    mr_CreatedAt r < cql_ts (history_before now before)"
proof (induction k arbitrary: before rows r)
  case (Suc k)
  obtain page hasMore where f: "direct_page rank now convID db l before = Inr (page, hasMore)"
    using Suc.prems(1) by (auto split: sum.splits)
  note old = GetHistory_older [OF f]
  show ?case
  proof (cases "history_cursor mr_CreatedAt page hasMore")
    case None
    then show ?thesis using Suc.prems f old(1) by simp
  next
    case (Some c)
    obtain rest where rest: "walk k (direct_page rank now convID db l) mr_CreatedAt c = Some rest" "rows = page @ rest"
      using Suc.prems(1) f Some by auto
    have mem: "page ! (length page - 1) \<in> set page" and c: "c = mr_CreatedAt (page ! (length page - 1))"
      using Some by (auto simp: history_cursor_def split: if_splits)
    have "page ! (length page - 1) \<in> set (conversation_rows rank now convID db)"
      by (rule GetHistory_older(2) [OF f mem])
    then have "cql_ts (history_before now c) = c" using assms c by blast
    then have "mr_CreatedAt x < cql_ts (history_before now before)" if "x \<in> set rest" for x
      using Suc.IH [OF rest(1) that] old(1) [OF mem] c by simp
    then show ?thesis using rest(2) Suc.prems(2) old(1) by auto
  qed
qed simp

text \<open>C37: The cursor is a time alone: when the last message of the first page and the next one were stored in the same millisecond, the
  next one is on no page, although the first page says that there is more.\<close>

theorem page_boundary_loses_message:
  assumes "\<forall>r\<in>set (conversation_rows rank now convID db). \<not> row_expired now (mr_ExpiresAt r) \<and> mr_CreatedAt r \<le> now \<and>
      cql_ts (mr_CreatedAt r) = mr_CreatedAt r \<and> mr_CreatedAt r \<noteq> zero_time"
    and "distinct (conversation_rows rank now convID db)" and "history_limit limit = Some n"
    and "n < length (conversation_rows rank now convID db)"
    and "mr_CreatedAt (conversation_rows rank now convID db ! n) = mr_CreatedAt (conversation_rows rank now convID db ! (n - 1))"
    and "walk fuel (direct_page rank now convID db limit) mr_CreatedAt zero_time = Some answers"
  shows "conversation_rows rank now convID db ! n \<notin> set answers \<and>
    direct_page rank now convID db limit zero_time = Inr (take n (conversation_rows rank now convID db), True)"
proof -
  let ?xs = "conversation_rows rank now convID db"
  note pos = history_limit_pos [OF assms(3)]
  have all: "filter (\<lambda>r. mr_CreatedAt r < cql_ts (history_before now zero_time)) ?xs = ?xs"
    using assms(1) by (intro fresh_page_covers) (auto simp: is_zero_def list_all_iff)
  have first: "direct_page rank now convID db limit zero_time = Inr (take n ?xs, True)"
    using GetHistory_fresh [of rank now convID db limit n zero_time] assms(1,3,4) unfolding all by simp
  obtain k where k: "fuel = Suc k" using assms(6) by (cases fuel) auto
  let ?c = "mr_CreatedAt (?xs ! (n - 1))"
  have cur: "history_cursor mr_CreatedAt (take n ?xs) True = Some ?c" using assms(4) by (intro page_cursor_more [OF pos]) simp
  obtain rest where rest: "walk k (direct_page rank now convID db limit) mr_CreatedAt ?c = Some rest" "answers = take n ?xs @ rest"
    using assms(6) first cur unfolding k by auto
  have whole: "\<forall>r\<in>set ?xs. cql_ts (history_before now (mr_CreatedAt r)) = mr_CreatedAt r"
    using assms(1) by (auto simp: history_before_def is_zero_def)
  have "?xs ! (n - 1) \<in> set ?xs" using assms(4) by (intro nth_mem) simp
  then have "cql_ts (history_before now ?c) = ?c" using whole by blast
  then have "?xs ! n \<notin> set rest" using walk_older [OF whole rest(1), of "?xs ! n"] assms(5) by auto
  moreover have "?xs ! n \<notin> set (take n ?xs)"
    using assms(2,4) by (auto simp: in_set_conv_nth nth_eq_iff_index_eq)
  ultimately show ?thesis using rest(2) first by simp
qed

definition twin_db :: message_db where
  "twin_db = snd (SaveMessage Done (9 * Second) (sample_save (2 * Second) [8]) (sample_db [Second, 2 * Second]))"

theorem page_boundary_loses_message_witness:
  "\<exists>answers. walk 3 (direct_page sample_rank (9 * Second) ''dm:3:7'' twin_db 1) mr_CreatedAt zero_time = Some answers \<and>
     map mr_ID answers = [[8], [1]] \<and> conversation_rows sample_rank (9 * Second) ''dm:3:7'' twin_db ! 1 \<notin> set answers"
proof -
  let ?w = "walk 3 (direct_page sample_rank (9 * Second) ''dm:3:7'' twin_db 1) mr_CreatedAt zero_time"
  have ids: "map_option (map mr_ID) ?w = Some [[8], [1]]" by code_simp
  then obtain answers where w: "?w = Some answers" "map mr_ID answers = [[8], [1]]" by auto
  have "list_all (\<lambda>r. \<not> row_expired (9 * Second) (mr_ExpiresAt r) \<and> mr_CreatedAt r \<le> 9 * Second \<and>
      cql_ts (mr_CreatedAt r) = mr_CreatedAt r \<and> mr_CreatedAt r \<noteq> zero_time) (conversation_rows sample_rank (9 * Second) ''dm:3:7'' twin_db)"
    by code_simp
  then have fresh: "\<forall>r\<in>set (conversation_rows sample_rank (9 * Second) ''dm:3:7'' twin_db). \<not> row_expired (9 * Second) (mr_ExpiresAt r) \<and>
      mr_CreatedAt r \<le> 9 * Second \<and> cql_ts (mr_CreatedAt r) = mr_CreatedAt r \<and> mr_CreatedAt r \<noteq> zero_time"
    by (simp only: list_all_iff)
  have ids: "map mr_ID (conversation_rows sample_rank (9 * Second) ''dm:3:7'' twin_db) = [[8], [2], [1]]"
    and times: "map mr_CreatedAt (conversation_rows sample_rank (9 * Second) ''dm:3:7'' twin_db) = [2 * Second, 2 * Second, Second]"
    by code_simp+
  have "distinct (map mr_ID (conversation_rows sample_rank (9 * Second) ''dm:3:7'' twin_db))" unfolding ids by simp
  then have d: "distinct (conversation_rows sample_rank (9 * Second) ''dm:3:7'' twin_db)" by (simp add: distinct_map)
  have n: "length (conversation_rows sample_rank (9 * Second) ''dm:3:7'' twin_db) = 3" using arg_cong [OF ids, of length] by simp
  have t: "mr_CreatedAt (conversation_rows sample_rank (9 * Second) ''dm:3:7'' twin_db ! 1) =
      mr_CreatedAt (conversation_rows sample_rank (9 * Second) ''dm:3:7'' twin_db ! (1 - 1))"
    using arg_cong [OF times, of "\<lambda>xs. xs ! 1"] arg_cong [OF times, of "\<lambda>xs. xs ! 0"] n by simp
  have l: "1 < length (conversation_rows sample_rank (9 * Second) ''dm:3:7'' twin_db)" unfolding n by simp
  have "history_limit 1 = Some 1" by (simp add: history_limit_def maxHistoryLimit_def)
  note no = conjunct1 [OF page_boundary_loses_message [OF fresh d this l t w(1)]]
  show ?thesis by (rule exI [of _ answers]) (intro conjI w no)
qed

text \<open>Also: A row that is at its end but not yet removed hides that there is more: it uses up the row that was fetched to see whether
  there is a next page, and the answer has no cursor, however many messages follow.\<close>

theorem expired_row_ends_paging:
  assumes "history_limit limit = Some n"
    and "r \<in> set (take (n + 1) (filter (\<lambda>r. mr_CreatedAt r < cql_ts (history_before now before)) (conversation_rows rank now convID db)))"
    and "row_expired now (mr_ExpiresAt r)"
  shows "\<exists>rows. direct_page rank now convID db limit before = Inr (rows, False) \<and> history_cursor mr_CreatedAt rows False = None \<and> length rows \<le> n"
proof -
  let ?xs = "select_before mr_CreatedAt (history_before now before) (n + 1) (conversation_rows rank now convID db)"
  have "length (filter (\<lambda>r. \<not> row_expired now (mr_ExpiresAt r)) ?xs) < length ?xs"
    using assms(2,3) by (intro length_filter_less [of r]) (auto simp: select_before_def)
  moreover have "length ?xs \<le> n + 1" by (simp add: select_before_def)
  ultimately have "length (filter (\<lambda>r. \<not> row_expired now (mr_ExpiresAt r)) ?xs) \<le> n" by linarith
  then show ?thesis using assms(1) by (simp add: GetHistory_def Let_def paginationPage_def page_cursor_all)
qed

definition ending_db :: message_db where
  "ending_db = snd (SaveMessage Done (9 * Second) (sample_save (2 * Second) [9] \<lparr>sv_ExpiresInSeconds := 7\<rparr>) (sample_db [Millisecond, Second]))"

theorem expired_row_ends_paging_witness:
  "map mr_CreatedAt (conversation_rows sample_rank (9 * Second) ''dm:3:7'' ending_db) = [2 * Second, Second, Millisecond] \<and>
   (\<exists>rows. direct_page sample_rank (9 * Second) ''dm:3:7'' ending_db 1 zero_time = Inr (rows, False) \<and> length rows \<le> 1)"
proof -
  let ?xs = "conversation_rows sample_rank (9 * Second) ''dm:3:7'' ending_db"
  have xs: "map mr_CreatedAt ?xs = [2 * Second, Second, Millisecond]" by code_simp
  have r: "row_expired (9 * Second) (mr_ExpiresAt (?xs ! 0))" by code_simp
  have "list_ex (\<lambda>x. x = ?xs ! 0) (take (1 + 1) (filter (\<lambda>r. mr_CreatedAt r < cql_ts (history_before (9 * Second) zero_time)) ?xs))"
    by code_simp
  then have "?xs ! 0 \<in> set (take (1 + 1) (filter (\<lambda>r. mr_CreatedAt r < cql_ts (history_before (9 * Second) zero_time)) ?xs))"
    by (auto simp: list_ex_iff)
  moreover have "history_limit 1 = Some 1" by (simp add: history_limit_def maxHistoryLimit_def)
  ultimately show ?thesis using expired_row_ends_paging [OF _ _ r] xs by blast
qed

section \<open>Who reads what\<close>

lemma parseDMMembers_eq: "parseDMMembers conv u = directTypingPeer conv u"
  by (auto simp: parseDMMembers_def directTypingPeer_def Let_def numeral_2_eq_2 numeral_3_eq_3 length_Suc_conv
      split: list.splits option.splits)

text \<open>Also: The message service and the gateway agree on who the ends of a conversation are.\<close>

theorem members_agree: "parseDMMembers conv u = directTypingPeer conv u"
  by (rule parseDMMembers_eq)

lemma parseDMMembers_canonical:
  assumes "0 < a" and "0 < b" and "a \<noteq> b" and "is_int64 a" and "is_int64 b" and "parseDMMembers (canonicalConversationID a b) u = Some v"
  shows "(u = a \<and> v = b) \<or> (u = b \<and> v = a)"
proof -
  have "canonicalConversationID a b = ''dm:'' @ itoa (min a b) @ '':'' @ itoa (max a b)"
    by (auto simp: canonicalConversationID_def min_def max_def)
  then show ?thesis
    using typing_peer_roundtrip [OF assms(1-5), of u] assms(6) by (auto simp: parseDMMembers_eq)
qed

lemma GetHistory_rows:
  assumes "GetHistory rank ok now req db = Inr (rows, hasMore)"
  shows "set rows \<subseteq> set (conversation_rows rank now (hq_ConversationID req) db)" and "length rows \<le> 50"
proof -
  obtain n where n: "history_limit (hq_Limit req) = Some n" using assms by (cases "history_limit (hq_Limit req)") (auto simp: GetHistory_def)
  let ?rows = "filter (\<lambda>r. \<not> row_expired now (mr_ExpiresAt r))
    (select_before mr_CreatedAt (history_before now (hq_Before req)) (n + 1) (conversation_rows rank now (hq_ConversationID req) db))"
  have r: "rows = take (fst (paginationPage (length ?rows) n)) ?rows"
    using assms n by (auto simp: GetHistory_def Let_def split: prod.splits if_splits)
  then show "set rows \<subseteq> set (conversation_rows rank now (hq_ConversationID req) db)"
    by (auto simp: select_before_def dest!: in_set_takeD)
  have "length rows \<le> n" unfolding r by (auto simp: paginationPage_def)
  then show "length rows \<le> 50" using history_limit_bound [OF n] by simp
qed

lemma GetGroupHistory_rows:
  assumes "GetGroupHistory rank ok now req db = Inr (rows, hasMore)"
  shows "set rows \<subseteq> set (group_rows rank now (gq_GroupID req) db)" and "length rows \<le> 50"
proof -
  obtain n where n: "history_limit (gq_Limit req) = Some n" using assms by (cases "history_limit (gq_Limit req)") (auto simp: GetGroupHistory_def)
  let ?rows = "filter (\<lambda>r. \<not> row_expired now (gr_ExpiresAt r))
    (select_before gr_CreatedAt (history_before now (gq_Before req)) (n + 1) (group_rows rank now (gq_GroupID req) db))"
  have r: "rows = take (fst (paginationPage (length ?rows) n)) ?rows"
    using assms n by (auto simp: GetGroupHistory_def Let_def split: prod.splits if_splits)
  then show "set rows \<subseteq> set (group_rows rank now (gq_GroupID req) db)"
    by (auto simp: select_before_def dest!: in_set_takeD)
  have "length rows \<le> n" unfolding r by (auto simp: paginationPage_def)
  then show "length rows \<le> 50" using history_limit_bound [OF n] by simp
qed

lemma conversation_rows_set:
  "set (conversation_rows rank now conv db) = scan_row now ` {r \<in> set (md_rows db). hr_conversation r = conv \<and> row_visible now r}"
  by (auto simp: conversation_rows_def newest_first_def)

lemma group_rows_set:
  "set (group_rows rank now g db) = scan_group_row ` {r \<in> set (md_group_rows db). gh_group r = g \<and> cell_live now (gh_until r)}"
  by (auto simp: group_rows_def newest_first_def)

lemma history_page_cases:
  assumes "getHistoryHandler c ParseTime rank io accounts db = HistoryPage p"
  obtains u other where "hi_actor io = Some u" and "parseDMMembers (TrimSpace (hi_target io)) u = Some other"
    and "other \<in> at_wiped accounts" and "hs_Messages p = []" and "hs_NextCursor p = None"
  | u other before limit rows hasMore where "hi_actor io = Some u" and "parseDMMembers (TrimSpace (hi_target io)) u = Some other"
    and "other \<notin> at_wiped accounts"
    and "GetHistory rank (hi_store_ok io) (hi_now io) \<lparr>hq_ConversationID = TrimSpace (hi_target io), hq_Before = before, hq_Limit = limit\<rparr> db =
      Inr (rows, hasMore)"
    and "hs_Messages p = map (dmRowToMessage c (TrimSpace (hi_target io))) rows" and "hs_NextCursor p = history_cursor mr_CreatedAt rows hasMore"
  using assms unfolding getHistoryHandler_def isAccountWiped_def history_store_error_def writeHistoryResponse_def Let_def
  by (auto split: option.splits if_splits bool.splits sum.splits prod.splits)

lemma history_page_rows:
  assumes "getHistoryHandler c ParseTime rank io accounts db = HistoryPage p"
  shows "length (hs_Messages p) \<le> 50"
    and "m \<in> set (hs_Messages p) \<Longrightarrow> \<exists>r::history_row. r \<in> set (md_rows db) \<and> hr_conversation r = TrimSpace (hi_target io) \<and>
      row_visible (hi_now io) r \<and> m = dmRowToMessage c (TrimSpace (hi_target io)) (scan_row (hi_now io) r)"
proof -
  show "length (hs_Messages p) \<le> 50"
    using assms(1) by (rule history_page_cases) (use GetHistory_rows(2) in fastforce)+
  show "\<exists>r::history_row. r \<in> set (md_rows db) \<and> hr_conversation r = TrimSpace (hi_target io) \<and>
      row_visible (hi_now io) r \<and> m = dmRowToMessage c (TrimSpace (hi_target io)) (scan_row (hi_now io) r)" if m: "m \<in> set (hs_Messages p)"
    using assms(1)
  proof (rule history_page_cases)
    fix u other before limit rows hasMore
    assume get: "GetHistory rank (hi_store_ok io) (hi_now io) \<lparr>hq_ConversationID = TrimSpace (hi_target io), hq_Before = before, hq_Limit = limit\<rparr> db =
        Inr (rows, hasMore)" and p: "hs_Messages p = map (dmRowToMessage c (TrimSpace (hi_target io))) rows"
    from m p obtain x where "x \<in> set rows" "m = dmRowToMessage c (TrimSpace (hi_target io)) x" by auto
    moreover have "set rows \<subseteq> set (conversation_rows rank (hi_now io) (TrimSpace (hi_target io)) db)" using GetHistory_rows(1) [OF get] by simp
    ultimately show ?thesis by (auto simp: conversation_rows_set)
  qed (use m in simp)
qed

text \<open>C17: A page of a direct conversation is given to one of its two members and nobody else, holds at most fifty messages, all of them
  rows of this conversation, and is empty when the other member has been wiped.\<close>

theorem history_members_only:
  assumes "getHistoryHandler c ParseTime rank io accounts db = HistoryPage p" and "TrimSpace (hi_target io) = canonicalConversationID a b"
    and "0 < a" and "0 < b" and "a \<noteq> b" and "is_int64 a" and "is_int64 b"
  shows "(hi_actor io = Some a \<and> (b \<in> at_wiped accounts \<longrightarrow> hs_Messages p = [] \<and> hs_NextCursor p = None) \<or>
      hi_actor io = Some b \<and> (a \<in> at_wiped accounts \<longrightarrow> hs_Messages p = [] \<and> hs_NextCursor p = None)) \<and>
    length (hs_Messages p) \<le> 50 \<and>
    (\<forall>m\<in>set (hs_Messages p). \<exists>r::history_row. r \<in> set (md_rows db) \<and> hr_conversation r = canonicalConversationID a b \<and>
      row_visible (hi_now io) r \<and> m = dmRowToMessage c (canonicalConversationID a b) (scan_row (hi_now io) r))"
proof -
  note mem = parseDMMembers_canonical [OF assms(3-7)]
  have "hi_actor io = Some a \<and> (b \<in> at_wiped accounts \<longrightarrow> hs_Messages p = [] \<and> hs_NextCursor p = None) \<or>
      hi_actor io = Some b \<and> (a \<in> at_wiped accounts \<longrightarrow> hs_Messages p = [] \<and> hs_NextCursor p = None)"
    using assms(1) by (rule history_page_cases) (use mem assms(2) in auto)
  then show ?thesis using history_page_rows [OF assms(1)] unfolding assms(2) by blast
qed

definition plain_history_io :: "uin \<Rightarrow> string \<Rightarrow> history_io" where
  "plain_history_io u target = \<lparr>hi_actor = Some u, hi_target = target, hi_before = [], hi_limit = [], hi_wiped_ok = True, hi_member_ok = True,
     hi_store_ok = True, hi_now = 9 * Second\<rparr>"

definition plain_accounts :: auth_tables where "plain_accounts = \<lparr>at_epoch = Map.empty, at_wiped = {}, at_refresh = []\<rparr>"

theorem history_members_only_witness:
  "\<exists>p. getHistoryHandler ack_codec (\<lambda>s. None) sample_rank (plain_history_io 3 ''dm:3:7'') plain_accounts (sample_db [Second]) = HistoryPage p \<and>
     hs_Messages p \<noteq> [] \<and> length (hs_Messages p) \<le> 50"
proof -
  let ?h = "getHistoryHandler ack_codec (\<lambda>s. None) sample_rank (plain_history_io 3 ''dm:3:7'') plain_accounts (sample_db [Second])"
  have "case ?h of HistoryPage p \<Rightarrow> hs_Messages p \<noteq> [] | _ \<Rightarrow> False" by code_simp
  then obtain p where p: "?h = HistoryPage p" "hs_Messages p \<noteq> []" by (auto split: history_http.splits)
  have "TrimSpace (hi_target (plain_history_io 3 ''dm:3:7'')) = canonicalConversationID 3 7" by code_simp
  from history_members_only [OF p(1) this] p show ?thesis by (auto simp: is_int64_def int64_min_def int64_max_def)
qed

text \<open>Also: A member whose peer has been wiped gets exactly the answer of a conversation without messages: a wipe cannot be told from an
  empty history.\<close>

theorem wiped_peer_looks_empty:
  assumes "hi_actor io = Some u" and "parseDMMembers (TrimSpace (hi_target io)) u = Some other"
    and "other \<in> at_wiped accounts" and "other \<notin> at_wiped accounts'" and "hi_wiped_ok io" and "hi_store_ok io"
    and "conversation_rows rank (hi_now io) (TrimSpace (hi_target io)) db' = []"
  shows "getHistoryHandler c ParseTime rank io accounts db = getHistoryHandler c ParseTime rank io accounts' db'"
proof -
  have empty: "GetHistory rank True (hi_now io) \<lparr>hq_ConversationID = TrimSpace (hi_target io), hq_Before = before, hq_Limit = l\<rparr> db' = Inr ([], False)"
    if "parseLimitParam (hi_limit io) = Some l" for before l
  proof -
    have "history_limit l \<noteq> None"
      using that by (auto simp: parseLimitParam_def history_limit_def defaultHistoryLimit_def Let_def split: if_splits option.splits)
    then show ?thesis using assms(7) by (auto simp: GetHistory_def select_before_def paginationPage_def Let_def)
  qed
  show ?thesis
    unfolding getHistoryHandler_def
    using assms(1-6) empty by (auto simp: isAccountWiped_def writeHistoryResponse_def history_cursor_def Let_def split: option.splits)
qed

theorem wiped_peer_looks_empty_witness:
  "getHistoryHandler ack_codec (\<lambda>s. None) sample_rank (plain_history_io 3 ''dm:3:7'') (plain_accounts\<lparr>at_wiped := {7}\<rparr>) (sample_db [Second]) =
   getHistoryHandler ack_codec (\<lambda>s. None) sample_rank (plain_history_io 3 ''dm:3:7'') plain_accounts empty_db"
proof (rule wiped_peer_looks_empty)
  show "parseDMMembers (TrimSpace (hi_target (plain_history_io 3 ''dm:3:7''))) 3 = Some 7" by code_simp
  show "conversation_rows sample_rank (hi_now (plain_history_io 3 ''dm:3:7'')) (TrimSpace (hi_target (plain_history_io 3 ''dm:3:7''))) empty_db = []"
    by (simp add: conversation_rows_def newest_first_def empty_db_def)
qed (simp_all add: plain_history_io_def plain_accounts_def)

lemma distinct_uins_set: "set (distinct_uins seen us) = set us - seen"
  by (induction seen us rule: distinct_uins.induct) auto

lemma distinctSenderUINs_set: "set (distinctSenderUINs rows) = gr_SenderUIN ` set rows"
  by (simp add: distinctSenderUINs_def distinct_uins_set)

lemma wiped_senders:
  assumes "wipedUINsAmong ok accounts (distinctSenderUINs rows) = Some ws"
  shows "filter (\<lambda>r. \<not> list_ex (\<lambda>u. u = gr_SenderUIN r) ws) rows = filter (\<lambda>r. gr_SenderUIN r \<notin> at_wiped accounts) rows"
proof (rule filter_cong [OF refl])
  fix r assume r: "r \<in> set rows"
  then have "gr_SenderUIN r \<in> set (distinctSenderUINs rows)" by (simp add: distinctSenderUINs_set)
  then have "gr_SenderUIN r \<in> set ws \<longleftrightarrow> gr_SenderUIN r \<in> at_wiped accounts"
    using assms by (auto simp: wipedUINsAmong_def split: if_splits)
  then show "(\<not> list_ex (\<lambda>u. u = gr_SenderUIN r) ws) = (gr_SenderUIN r \<notin> at_wiped accounts)"
    by (auto simp: list_ex_iff)
qed

text \<open>Also: A page of a group's history is given to members only. It leaves out the messages of wiped senders and nothing else, and leaving
  them out does not move the cursor, so the next page begins where this one ended in the store.\<close>

theorem group_history_members_only:
  assumes "getGroupHistoryHandler c ParseTime rank io t accounts db = HistoryPage p"
  shows "\<exists>u g before limit rows hasMore. hi_actor io = Some u \<and> cd_uuid c (TrimSpace (hi_target io)) = Some g \<and>
    is_member t (cd_uuid_out c g) u \<and>
    GetGroupHistory rank True (hi_now io) \<lparr>gq_GroupID = g, gq_Before = before, gq_Limit = limit\<rparr> db = Inr (rows, hasMore) \<and>
    hs_Messages p = map (groupRowToMessage c (TrimSpace (hi_target io))) (filter (\<lambda>r. gr_SenderUIN r \<notin> at_wiped accounts) rows) \<and>
    hs_NextCursor p = history_cursor gr_CreatedAt rows hasMore \<and> length rows \<le> 50 \<and>
    set rows \<subseteq> set (group_rows rank (hi_now io) g db)"
proof -
  obtain u g before limit rows hasMore ws where h: "hi_actor io = Some u" "cd_uuid c (TrimSpace (hi_target io)) = Some g"
    "is_member t (cd_uuid_out c g) u"
    "GetGroupHistory rank (hi_store_ok io) (hi_now io) \<lparr>gq_GroupID = g, gq_Before = before, gq_Limit = limit\<rparr> db = Inr (rows, hasMore)"
    "wipedUINsAmong (hi_wiped_ok io) accounts (distinctSenderUINs rows) = Some ws"
    "p = \<lparr>hs_Messages = map (groupRowToMessage c (TrimSpace (hi_target io))) (filter (\<lambda>r. \<not> list_ex (\<lambda>u. u = gr_SenderUIN r) ws) rows),
          hs_NextCursor = history_cursor gr_CreatedAt rows hasMore\<rparr>"
    using assms unfolding getGroupHistoryHandler_def isGroupMember_def history_store_error_def writeHistoryResponse_def Let_def
    by (auto split: option.splits if_splits bool.splits sum.splits prod.splits)
  have ok: "hi_store_ok io" using h(4) by (auto simp: GetGroupHistory_def Let_def split: option.splits if_splits)
  show ?thesis
    using h(1-3,6) h(4) [unfolded ok [THEN eqTrueI]] wiped_senders [OF h(5)] GetGroupHistory_rows [OF h(4)] by auto
qed

definition sample_room :: ChatGroups.group_tables where
  "sample_room = \<lparr>gt_users = [], gt_groups = [], gt_members = [\<lparr>mb_group = ''g'', mb_uin = 3, mb_role = ''member'', mb_joined = 0\<rparr>], gt_keys = []\<rparr>"

definition sample_group_codec :: codec where
  "sample_group_codec = ack_codec\<lparr>cd_uuid := (\<lambda>s. if s = ''g'' then Some [1] else None), cd_uuid_out := (\<lambda>i. ''g'')\<rparr>"

theorem group_history_members_only_witness:
  "\<exists>p. getGroupHistoryHandler sample_group_codec (\<lambda>s. None) sample_rank (plain_history_io 3 ''g'') sample_room (plain_accounts\<lparr>at_wiped := {3}\<rparr>)
      (sample_group_db [Second]) = HistoryPage p \<and> hs_Messages p = []"
proof -
  let ?h = "getGroupHistoryHandler sample_group_codec (\<lambda>s. None) sample_rank (plain_history_io 3 ''g'') sample_room (plain_accounts\<lparr>at_wiped := {3}\<rparr>)
      (sample_group_db [Second])"
  have "case ?h of HistoryPage p \<Rightarrow> True | _ \<Rightarrow> False" by code_simp
  then obtain p where p: "?h = HistoryPage p" by (auto split: history_http.splits)
  obtain g before limit rows hasMore where r: "set rows \<subseteq> set (group_rows sample_rank (9 * Second) g (sample_group_db [Second]))"
    "hs_Messages p = map (groupRowToMessage sample_group_codec (TrimSpace ''g'')) (filter (\<lambda>r. gr_SenderUIN r \<notin> {3}) rows)"
    "cd_uuid sample_group_codec (TrimSpace ''g'') = Some g"
    using group_history_members_only [OF p] by (auto simp: plain_history_io_def plain_accounts_def)
  have "TrimSpace ''g'' = ''g''" by code_simp
  then have g: "g = [1]" using r(3) by (simp add: sample_group_codec_def)
  have "list_all (\<lambda>r. gr_SenderUIN r = 3) (group_rows sample_rank (9 * Second) [1] (sample_group_db [Second]))" by code_simp
  then have "filter (\<lambda>r. gr_SenderUIN r \<notin> {3}) rows = []" using r(1) unfolding g by (auto simp: list_all_iff filter_empty_conv)
  then show ?thesis using p r(2) by simp
qed

end
