(* ===== verification/ReceiptProperties.thy ===== *)
theory ReceiptProperties
  imports HistoryProperties
begin

text \<open>
  Retention and read receipts: a stored message is seen with exactly its contents until its lifetime ends and not afterwards, unless a
  read receipt touched it. A receipt changes no contents, but it creates the row it names, for anybody who sends one, and its status
  has no lifetime.
\<close>

section \<open>What an insert leaves in the table\<close>

lemma effective_seconds: "go_div (effectiveMessageTTL n) Second * Second = effectiveMessageTTL n"
  by (auto simp: effectiveMessageTTL_eq defaultMessageTTL_def maxMessageTTL_def duration_defs)

lemma effective_pos: "0 < effectiveMessageTTL n"
  by (auto simp: effectiveMessageTTL_eq defaultMessageTTL_def maxMessageTTL_def duration_defs)

definition saved_row :: "gotime \<Rightarrow> SaveRequest \<Rightarrow> history_row" where
  "saved_row now req =
     (let ttl = effectiveMessageTTL (sv_ExpiresInSeconds req); until = Some (now + ttl) in
      \<lparr>hr_conversation = sv_ConversationID req, hr_created = cql_ts (sv_CreatedAt req), hr_id = sv_ID req,
       hr_body = Some \<lparr>m_sender = sv_SenderUIN req, m_receiver = sv_ReceiverUIN req, m_ciphertext = sv_Ciphertext req,
         m_msg_type = sv_MsgType req, m_expires_at = cql_ts (sv_CreatedAt req + ttl), m_ttl = Some (go_div ttl Second)\<rparr>,
       hr_until = until, hr_status = Some [], hr_status_until = until\<rparr>)"

lemma SaveMessage_rows:
  "md_rows (snd (SaveMessage Done now req db)) = put_by row_key (saved_row now req) (md_rows db)"
  using effective_pos [of "sv_ExpiresInSeconds req"] effective_seconds [of "sv_ExpiresInSeconds req"]
  by (simp add: SaveMessage_def saved_row_def ttl_deadline_def expiryAt_def Let_def)

lemma saved_row_key: "row_key (saved_row now req) = (sv_ConversationID req, cql_ts (sv_CreatedAt req), sv_ID req)"
  by (simp add: saved_row_def row_key_def Let_def)

lemma scan_row_key: "mr_CreatedAt (scan_row now r) = hr_created r" "mr_ID (scan_row now r) = hr_id r"
  by (auto simp: scan_row_def Let_def split: option.splits)

lemma saved_row_visible: "row_visible at (saved_row now req) \<longleftrightarrow> at < now + effectiveMessageTTL (sv_ExpiresInSeconds req)"
  by (auto simp: row_visible_def body_at_def status_at_def saved_row_def cell_live_def Let_def)

lemma saved_row_scan:
  assumes "at < now + effectiveMessageTTL (sv_ExpiresInSeconds req)"
  shows "scan_row at (saved_row now req) =
    \<lparr>mr_ConversationID = sv_ConversationID req, mr_CreatedAt = cql_ts (sv_CreatedAt req), mr_ID = sv_ID req, mr_SenderUIN = sv_SenderUIN req,
     mr_ReceiverUIN = sv_ReceiverUIN req, mr_Ciphertext = sv_Ciphertext req, mr_MsgType = sv_MsgType req, mr_Status = [],
     mr_ExpiresAt = cql_ts (sv_CreatedAt req + effectiveMessageTTL (sv_ExpiresInSeconds req))\<rparr>"
  using assms by (simp add: scan_row_def body_at_def status_at_def saved_row_def cell_live_def Let_def)


section \<open>The durable writer and the history\<close>

text \<open>The contents of the history rows as the table of the durable writer, which it inserts into with its own lifetime.\<close>

definition message_map :: "history_row list \<Rightarrow> string \<times> gotime \<times> uuid \<Rightarrow> message_row option" where
  "message_map rows k = (case find (\<lambda>r. row_key r = k) rows of None \<Rightarrow> None | Some r \<Rightarrow> hr_body r)"

definition durable_row :: "gotime \<Rightarrow> int option \<Rightarrow> DurableDirectWrite \<Rightarrow> history_row" where
  "durable_row now ttl wr =
     (let req = dw_Message wr; until = map_option (\<lambda>s. now + s * Second) ttl in
      \<lparr>hr_conversation = sv_ConversationID req, hr_created = cql_ts (sv_CreatedAt req), hr_id = sv_ID req,
       hr_body = Some \<lparr>m_sender = sv_SenderUIN req, m_receiver = sv_ReceiverUIN req, m_ciphertext = sv_Ciphertext req,
         m_msg_type = sv_MsgType req, m_expires_at = (case ttl of None \<Rightarrow> zero_time | Some _ \<Rightarrow> cql_ts (dw_ExpiresAt wr)), m_ttl = ttl\<rparr>,
       hr_until = until, hr_status = Some [], hr_status_until = until\<rparr>)"

lemma find_put_by: "find (\<lambda>x. key x = k) (put_by key r rows) = (if key r = k then Some r else find (\<lambda>x. key x = k) rows)"
proof (induction rows)
  case (Cons x rows)
  then show ?case by (auto simp: put_by_def)
qed (simp add: put_by_def)

text \<open>Also: What the durable ingest writes is what the history reads: inserting its row keeps the two views of the message table in step.\<close>

theorem durable_write_reaches_history:
  assumes "message_map rows = messages db"
  shows "message_map (put_by row_key (durable_row now ttl wr) rows) = messages (direct_batch ttl wr db)"
proof
  fix k
  have key: "row_key (durable_row now ttl wr) = (sv_ConversationID (dw_Message wr), cql_ts (sv_CreatedAt (dw_Message wr)), sv_ID (dw_Message wr))"
    by (simp add: durable_row_def row_key_def Let_def)
  show "message_map (put_by row_key (durable_row now ttl wr) rows) k = messages (direct_batch ttl wr db) k"
    using fun_cong [OF assms, of k]
    by (auto simp: message_map_def find_put_by key direct_batch_def Let_def) (simp add: durable_row_def Let_def)
qed

theorem durable_write_reaches_history_witness:
  "\<forall>wr. message_map (put_by row_key (durable_row 0 None wr) []) = messages (direct_batch None wr empty_scylla)"
  by (rule allI, rule durable_write_reaches_history) (auto simp: message_map_def empty_scylla_def)

section \<open>Read receipts\<close>

lemma set_status_visible:
  assumes "s \<noteq> []"
  shows "\<exists>r\<in>set (set_status s conv created i rows). row_key r = (conv, cql_ts created, i) \<and> hr_status r = Some s \<and> hr_status_until r = None"
proof (cases "list_ex (\<lambda>r. row_key r = (conv, cql_ts created, i)) rows")
  case True
  then obtain r where r: "r \<in> set rows" "row_key r = (conv, cql_ts created, i)" by (auto simp: list_ex_iff)
  then have "r\<lparr>hr_status := Some s, hr_status_until := None\<rparr> \<in> set (set_status s conv created i rows)"
    using True unfolding set_status_def Let_def by (auto intro!: image_eqI [of _ _ r])
  then show ?thesis using r(2) by (intro bexI) (auto simp: row_key_def)
next
  case False
  then show ?thesis by (simp add: set_status_def row_key_def Let_def)
qed

lemma read_receipt_visible:
  "\<exists>m\<in>set (conversation_rows rank at conv (snd (MarkRead Done conv created i db))).
     mr_ID m = i \<and> mr_CreatedAt m = cql_ts created \<and> mr_Status m = ''read'' \<and> mr_ConversationID m = conv"
proof -
  obtain r where r: "r \<in> set (set_status ''read'' conv created i (md_rows db))" "row_key r = (conv, cql_ts created, i)"
    "hr_status r = Some ''read''" "hr_status_until r = None" using set_status_visible [of "''read''"] by blast
  then have "status_at at r = Some ''read''" by (simp add: status_at_def cell_live_def)
  then have "row_visible at r" and s: "mr_Status (scan_row at r) = ''read''" "mr_ConversationID (scan_row at r) = hr_conversation r"
    by (auto simp: row_visible_def scan_row_def Let_def split: option.splits)
  moreover have "r \<in> set (md_rows (snd (MarkRead Done conv created i db)))" using r(1) by (simp add: MarkRead_def update_status_def)
  ultimately have "scan_row at r \<in> set (conversation_rows rank at conv (snd (MarkRead Done conv created i db)))"
    using r(2) by (auto simp: conversation_rows_set row_key_def)
  then show ?thesis using r(2) s by (intro bexI [of _ "scan_row at r"]) (auto simp: scan_row_key row_key_def)
qed

text \<open>Also: A read receipt is for ever: whether or not the message it names exists, at every later time the conversation has a row with that
  id and the status read.\<close>

theorem read_row_never_expires:
  "\<exists>m\<in>set (conversation_rows rank at conv (snd (MarkRead Done conv created i db))).
     mr_ID m = i \<and> mr_CreatedAt m = cql_ts created \<and> mr_Status m = ''read'' \<and> mr_ConversationID m = conv"
  by (rule read_receipt_visible)

text \<open>A row that is made by a receipt has nothing but its status.\<close>

lemma receipt_row_empty:
  assumes "\<forall>r\<in>set (md_rows db). row_key r \<noteq> (conv, cql_ts created, i)"
    and "m \<in> set (conversation_rows rank at conv (snd (MarkRead Done conv created i db)))" and "mr_ID m = i" and "mr_CreatedAt m = cql_ts created"
  shows "mr_SenderUIN m = 0 \<and> mr_ReceiverUIN m = 0 \<and> mr_Ciphertext m = [] \<and> mr_ExpiresAt m = zero_time"
proof -
  have ex: "\<not> list_ex (\<lambda>r. row_key r = (conv, cql_ts created, i)) (md_rows db)" using assms(1) by (auto simp: list_ex_iff)
  obtain r where r: "r \<in> set (md_rows (snd (MarkRead Done conv created i db)))" "hr_conversation r = conv" "m = scan_row at r"
    using assms(2) by (auto simp: conversation_rows_set)
  have "row_key r = (conv, cql_ts created, i)" using r(2,3) assms(3,4) by (simp add: row_key_def scan_row_key)
  then have "hr_body r = None" using r(1) ex assms(1) by (auto simp: MarkRead_def update_status_def set_status_def Let_def)
  then show ?thesis using r(3) by (simp add: scan_row_def body_at_def)
qed

lemma subjectTail_append [simp]: "subjectTail (prefix @ s) prefix = Some s"
  by (simp add: subjectTail_def)

lemma handleReadAck_marks:
  assumes "cd_env (rc_base c) data = Some env" and "rc_read c (ev_Payload env) = Some p" and "0 < rp_SenderUIN p" and "is_int64 (rp_SenderUIN p)"
    and "rp_ConversationID p \<noteq> []" and "rp_MessageID p \<noteq> []" and "rp_CreatedAt p \<noteq> zero_time" and "cd_uuid (rc_base c) (rp_MessageID p) = Some i"
  shows "handleReadAck c out (''ack.'' @ itoa (rp_SenderUIN p)) data db = snd (MarkRead out (rp_ConversationID p) (rp_CreatedAt p) i db)"
proof -
  have "ParseInt64 (itoa (rp_SenderUIN p)) = Some (rp_SenderUIN p)" using assms(3,4) by (intro ParseInt64_itoa) auto
  then show ?thesis using assms unfolding handleReadAck_def subjectTail_append by (simp add: is_zero_def)
qed

text \<open>C38: Nothing checks that the sender of a read receipt belongs to the conversation or that the message exists: a frame of any connected
  user, passed on by the router and applied by the message service, puts a row with the id and time of its choice, without sender and
  contents, into the conversation of two others, where their history shows it at every later time.\<close>

theorem read_receipt_forges_row:
  assumes "rc_read c (ev_Payload env) = Some p" and "0 < rp_SenderUIN p" and "is_int64 (rp_SenderUIN p)"
    and "rp_ConversationID p \<noteq> []" and "rp_MessageID p \<noteq> []" and "rp_CreatedAt p \<noteq> zero_time" and "cd_uuid (rc_base c) (rp_MessageID p) = Some i"
    and "q = p\<lparr>rp_ReaderUIN := cl_uin (rw_client w)\<rparr>" and "rc_read c (rc_read_out c q) = Some q"
    and "cd_env (rc_base c) (cd_env_out (rc_base c) (env\<lparr>ev_Payload := rc_read_out c q\<rparr>)) = Some (env\<lparr>ev_Payload := rc_read_out c q\<rparr>)"
    and "\<forall>r\<in>set (md_rows db). row_key r \<noteq> (rp_ConversationID p, cql_ts (rp_CreatedAt p), i)"
  shows "\<exists>data. rw_published (handleRead c io env w) = rw_published w @ [(''ack.'' @ itoa (rp_SenderUIN p), data)] \<and>
    (\<forall>at. \<exists>m\<in>set (conversation_rows rank at (rp_ConversationID p) (handleReadAck c Done (''ack.'' @ itoa (rp_SenderUIN p)) data db)).
       mr_ID m = i \<and> mr_CreatedAt m = cql_ts (rp_CreatedAt p) \<and> mr_Status m = ''read'' \<and>
       mr_SenderUIN m = 0 \<and> mr_ReceiverUIN m = 0 \<and> mr_Ciphertext m = [] \<and> mr_ExpiresAt m = zero_time)"
proof -
  let ?data = "cd_env_out (rc_base c) (env\<lparr>ev_Payload := rc_read_out c q\<rparr>)"
  have "rp_SenderUIN p \<noteq> int64_min" using assms(2) by (simp add: int64_min_def)
  then have pub: "rw_published (handleRead c io env w) = rw_published w @ [(''ack.'' @ itoa (rp_SenderUIN p), ?data)]"
    using assms(1-3,8) router_itoa_correct [OF assms(3)] by (simp add: handleRead_def publish_def Let_def)
  have "handleReadAck c Done (''ack.'' @ itoa (rp_SenderUIN q)) ?data db = snd (MarkRead Done (rp_ConversationID q) (rp_CreatedAt q) i db)"
    using assms by (intro handleReadAck_marks [of c _ "env\<lparr>ev_Payload := rc_read_out c q\<rparr>"]) auto
  then have eq: "handleReadAck c Done (''ack.'' @ itoa (rp_SenderUIN p)) ?data db = snd (MarkRead Done (rp_ConversationID p) (rp_CreatedAt p) i db)"
    using assms(8) by simp
  have "\<exists>m\<in>set (conversation_rows rank at (rp_ConversationID p) (snd (MarkRead Done (rp_ConversationID p) (rp_CreatedAt p) i db))).
       mr_ID m = i \<and> mr_CreatedAt m = cql_ts (rp_CreatedAt p) \<and> mr_Status m = ''read'' \<and>
       mr_SenderUIN m = 0 \<and> mr_ReceiverUIN m = 0 \<and> mr_Ciphertext m = [] \<and> mr_ExpiresAt m = zero_time" for at
    using read_receipt_visible [of rank at "rp_ConversationID p" "rp_CreatedAt p" i db] receipt_row_empty [OF assms(11)] by blast
  then show ?thesis using pub eq by auto
qed

definition foreign_receipt :: ReadPayload where
  "foreign_receipt = \<lparr>rp_ConversationID = ''dm:7:9'', rp_ReaderUIN = 3, rp_SenderUIN = 7, rp_MessageID = ''m'', rp_CreatedAt = Second,
     rp_IsGroup = False, rp_GroupID = []\<rparr>"

definition receipt_codec :: router_codec where
  "receipt_codec = sample_router_codec\<lparr>rc_base := ack_codec\<lparr>cd_uuid := (\<lambda>s. Some [5]), cd_env := (\<lambda>b. Some (out_envelope ''read'' b)),
     cd_env_out := ev_Payload\<rparr>, rc_read := (\<lambda>b. Some foreign_receipt), rc_read_out := rp_ConversationID\<rparr>"

theorem read_receipt_forges_row_witness:
  "\<exists>data. rw_published (handleRead receipt_codec sample_route_io (out_envelope ''read'' []) sample_world) = [(''ack.'' @ itoa 7, data)] \<and>
    (\<exists>m\<in>set (conversation_rows sample_rank (10 ^ 30) ''dm:7:9'' (handleReadAck receipt_codec Done (''ack.'' @ itoa 7) data empty_db)). mr_SenderUIN m = 0)"
proof -
  have *: "rc_read receipt_codec b = Some foreign_receipt" "rp_SenderUIN foreign_receipt = 7" "rp_ConversationID foreign_receipt = ''dm:7:9''"
    "foreign_receipt\<lparr>rp_ReaderUIN := cl_uin (rw_client sample_world)\<rparr> = foreign_receipt" "rw_published sample_world = []" for b
    by (simp_all add: receipt_codec_def foreign_receipt_def sample_world_def new_client_def)
  show ?thesis
    using read_receipt_forges_row [of receipt_codec "out_envelope ''read'' []" foreign_receipt "[5]" foreign_receipt sample_world empty_db
      sample_route_io sample_rank]
    by (simp add: * is_int64_def int64_min_def int64_max_def empty_db_def)
      (fastforce simp: receipt_codec_def foreign_receipt_def out_envelope_def zero_time_def duration_defs)
qed

lemma find_map_key: "(\<And>r. key (f r) = key r) \<Longrightarrow> find (\<lambda>x. key x = k) (map f rows) = map_option f (find (\<lambda>x. key x = k) rows)"
  by (induction rows) auto

lemma find_none: "\<not> list_ex (\<lambda>r. key r = k) rows \<Longrightarrow> find (\<lambda>r. key r = k) rows = None"
  by (auto simp: find_None_iff list_ex_iff)

lemma set_status_map: "message_map (set_status s conv created i rows) = message_map rows"
proof
  fix k
  show "message_map (set_status s conv created i rows) k = message_map rows k"
  proof (cases "list_ex (\<lambda>r. row_key r = (conv, cql_ts created, i)) rows")
    case True
    have "find (\<lambda>r. row_key r = k) (set_status s conv created i rows) =
        map_option (\<lambda>r. if row_key r = (conv, cql_ts created, i) then r\<lparr>hr_status := Some s, hr_status_until := None\<rparr> else r)
          (find (\<lambda>r. row_key r = k) rows)"
      using True unfolding set_status_def Let_def by (simp only: if_True) (rule find_map_key, simp add: row_key_def)
    then show ?thesis by (auto simp: message_map_def split: option.splits)
  next
    case False
    then show ?thesis
      by (auto simp: message_map_def set_status_def Let_def find_snoc find_none [OF False] row_key_def split: option.splits)
  qed
qed

text \<open>Also: A read receipt, whatever it says, changes the contents of no message, adds none, and leaves the groups and the deletion indexes
  alone.\<close>

theorem receipt_changes_no_contents:
  "message_map (md_rows (handleReadAck c out subject data db)) = message_map (md_rows db) \<and>
   md_group_rows (handleReadAck c out subject data db) = md_group_rows db \<and> md_index (handleReadAck c out subject data db) = md_index db"
proof -
  have "handleReadAck c out subject data db = db \<or> (\<exists>conv t i. handleReadAck c out subject data db = snd (MarkRead out conv t i db))"
    unfolding handleReadAck_def by (auto split: option.splits)
  then show ?thesis by (auto simp: MarkRead_def update_status_def set_status_map)
qed

end
