(* ===== verification/Presence.thy ===== *)
theory Presence
  imports Contacts Router
begin

text \<open>
  The presence service: the records in Redis, \<^verbatim>\<open>presence-service/store/presence.go\<close>, and the handlers of
  \<^verbatim>\<open>presence-service/main.go\<close>, on the contact rows of the auth service. The hash commands of Redis are the parameter \<open>hash_api\<close>; what
  the code relies on is the locale \<open>redis_hashes\<close>, whose \<open>view s t k\<close> is the hash a client sees under \<open>k\<close> at time \<open>t\<close>.
\<close>

section \<open>Hashes in Redis\<close>

record 'r hash_api =
  rh_hset :: "string \<Rightarrow> (string \<times> string) list \<Rightarrow> gotime \<Rightarrow> 'r \<Rightarrow> (string + nat) \<times> 'r"
  rh_expire :: "string \<Rightarrow> duration \<Rightarrow> gotime \<Rightarrow> 'r \<Rightarrow> (string + bool) \<times> 'r"
  rh_hgetall :: "string \<Rightarrow> gotime \<Rightarrow> 'r \<Rightarrow> (string + (string \<times> string) list) \<times> 'r"

locale redis_hashes =
  fixes R :: "('r, 'x) hash_api_scheme"
    and view :: "'r \<Rightarrow> gotime \<Rightarrow> string \<Rightarrow> string \<rightharpoonup> string"
  assumes hset_ok: "rh_hset R k fs now s = (Inr n, s') \<Longrightarrow> view s' now k = view s now k ++ map_of (rev fs)"
    and hset_other: "rh_hset R k fs now s = (v, s') \<Longrightarrow> k' \<noteq> k \<Longrightarrow> view s' t k' = view s t k'"
    and expire_ok: "rh_expire R k d now s = (Inr b, s') \<Longrightarrow> 0 < d \<Longrightarrow> now \<le> t \<Longrightarrow>
          view s' t k = (if t < now + d then view s now k else Map.empty)"
    and expire_other: "rh_expire R k d now s = (w, s') \<Longrightarrow> k' \<noteq> k \<Longrightarrow> view s' t k' = view s t k'"
    and hgetall_ok: "rh_hgetall R k now s = (Inr fs, s') \<Longrightarrow> map_of fs = view s now k"
    and hgetall_view: "rh_hgetall R k now s = (x, s') \<Longrightarrow> view s' = view s"

section \<open>Store\<close>

record PresenceState =
  ps_Status :: string
  ps_LastSeen :: int

definition statusField :: string where "statusField = ''status''"
definition lastSeenField :: string where "lastSeenField = ''last_seen''"
definition ttlOnline :: duration where "ttlOnline = 5 * Minute"
definition ttlOffline :: duration where "ttlOffline = 24 * Hour"
definition KeyPrefix :: string where "KeyPrefix = ''presence:''"
definition validStatus :: "string list" where "validStatus = [''online'', ''away'', ''dnd'', ''offline'']"

definition IsValidStatus :: "string \<Rightarrow> bool" where "IsValidStatus s = list_ex (\<lambda>v. v = s) validStatus"
definition IsOfflineStatus :: "string \<Rightarrow> bool" where "IsOfflineStatus s \<longleftrightarrow> s = ''offline''"

definition presence_key :: "uin \<Rightarrow> string" where "presence_key u = KeyPrefix @ itoa u"

text \<open>The pipeline sends both commands; an error of either is the error of the write.\<close>

definition writeStatus ::
  "('r, 'x) hash_api_scheme \<Rightarrow> gotime \<Rightarrow> uin \<Rightarrow> string \<Rightarrow> duration \<Rightarrow> 'r \<Rightarrow> bool \<times> 'r" where
  "writeStatus R now u status ttl s =
     (let key = presence_key u;
          (set_reply, s1) = rh_hset R key [(statusField, status), (lastSeenField, itoa (unix_milli now))] now s;
          (expire_reply, s2) = rh_expire R key ttl now s1
      in (\<not> isl set_reply \<and> \<not> isl expire_reply, s2))"

definition SetOnline :: "('r, 'x) hash_api_scheme \<Rightarrow> gotime \<Rightarrow> uin \<Rightarrow> 'r \<Rightarrow> bool \<times> 'r" where
  "SetOnline R now u s = writeStatus R now u ''online'' ttlOnline s"

definition SetOffline :: "('r, 'x) hash_api_scheme \<Rightarrow> gotime \<Rightarrow> uin \<Rightarrow> 'r \<Rightarrow> bool \<times> 'r" where
  "SetOffline R now u s = writeStatus R now u ''offline'' ttlOffline s"

definition SetStatus :: "('r, 'x) hash_api_scheme \<Rightarrow> gotime \<Rightarrow> uin \<Rightarrow> string \<Rightarrow> 'r \<Rightarrow> bool \<times> 'r" where
  "SetStatus R now u status s =
     (if \<not> IsValidStatus status then (False, s)
      else writeStatus R now u status (if IsOfflineStatus status then ttlOffline else ttlOnline) s)"

text \<open>The state in a hash reply.\<close>

definition state_of :: "(string \<times> string) list \<Rightarrow> PresenceState" where
  "state_of vals =
     (if length vals = 0 then \<lparr>ps_Status = ''offline'', ps_LastSeen = 0\<rparr>
      else
        let status = (case map_of vals statusField of None \<Rightarrow> [] | Some v \<Rightarrow> v);
            seen = (case map_of vals lastSeenField of None \<Rightarrow> 0 | Some v \<Rightarrow> (case ParseInt64 v of None \<Rightarrow> 0 | Some n \<Rightarrow> n))
        in \<lparr>ps_Status = (if status = [] then ''offline'' else status), ps_LastSeen = seen\<rparr>)"

definition GetPresence :: "('r, 'x) hash_api_scheme \<Rightarrow> gotime \<Rightarrow> uin \<Rightarrow> 'r \<Rightarrow> PresenceState option \<times> 'r" where
  "GetPresence R now u s =
     (case rh_hgetall R (presence_key u) now s of (Inl e, s1) \<Rightarrow> (None, s1) | (Inr vals, s1) \<Rightarrow> (Some (state_of vals), s1))"

fun hgetall_pipeline ::
  "('r, 'x) hash_api_scheme \<Rightarrow> gotime \<Rightarrow> uin list \<Rightarrow> 'r \<Rightarrow> (string + (string \<times> string) list) list \<times> 'r" where
  "hgetall_pipeline R now [] s = ([], s)"
| "hgetall_pipeline R now (u # us) s =
     (let (reply, s1) = rh_hgetall R (presence_key u) now s; (replies, s2) = hgetall_pipeline R now us s1 in (reply # replies, s2))"

text \<open>A pipeline in which a command fails is an error of the whole read.\<close>

definition GetBulkPresence ::
  "('r, 'x) hash_api_scheme \<Rightarrow> gotime \<Rightarrow> uin list \<Rightarrow> 'r \<Rightarrow> (uin \<times> PresenceState) list option \<times> 'r" where
  "GetBulkPresence R now uins s =
     (if length uins = 0 then (Some [], s)
      else
        let (replies, s1) = hgetall_pipeline R now uins s in
        if list_ex isl replies then (None, s1)
        else (Some (fold (\<lambda>(u, reply) out. AList.update u (state_of (projr reply)) out) (zip uins replies) []), s1))"

section \<open>Events\<close>

text \<open>The NATS side: what is published (a publication that fails is logged), and the row query of the contacts.\<close>

record presence_io =
  pz_now :: gotime
  pz_id :: string
  pz_contacts :: bool
  pz_publish :: "uin \<Rightarrow> outcome"

definition presence_watchers :: "contact_tables \<Rightarrow> uin \<Rightarrow> uin list" where
  "presence_watchers t u = map ct_owner (filter (\<lambda>r. ct_target r = u \<and> ct_status r = ''accepted'') (cx_rows t))"

definition presence_envelope :: "router_codec \<Rightarrow> presence_io \<Rightarrow> PresencePayload \<Rightarrow> bytes" where
  "presence_envelope c io p =
     cd_env_out (rc_base c) (NewEnvelope (pz_id io) (unix_milli (pz_now io)) EnvelopeTypePresence (rc_presence_out c p))"

definition handlePresenceUpdate ::
  "('r, 'x) hash_api_scheme \<Rightarrow> router_codec \<Rightarrow> presence_io \<Rightarrow> contact_tables \<Rightarrow> bytes \<Rightarrow> 'r \<Rightarrow> (string \<times> bytes) list \<times> 'r" where
  "handlePresenceUpdate R c io t data s =
     (case cd_env (rc_base c) data of
        None \<Rightarrow> ([], s)
      | Some env \<Rightarrow>
          (case rc_presence c (ev_Payload env) of
             None \<Rightarrow> ([], s)
           | Some p \<Rightarrow>
               if pp_UIN p = 0 \<or> \<not> IsValidStatus (pp_Status p) then ([], s)
               else
                 let (ok, s1) = SetStatus R (pz_now io) (pp_UIN p) (pp_Status p) s in
                 if \<not> ok then ([], s1)
                 else if \<not> pz_contacts io then ([], s1)
                 else
                   let body = presence_envelope c io \<lparr>pp_UIN = pp_UIN p, pp_Status = pp_Status p, pp_TS = unix_milli (pz_now io)\<rparr>
                   in (map (\<lambda>w. (''presence.notify.'' @ itoa w, body))
                         (filter (\<lambda>w. took_effect (pz_publish io w)) (presence_watchers t (pp_UIN p))), s1)))"

definition presence_tail :: "string \<Rightarrow> string \<Rightarrow> string option" where
  "presence_tail subject prefix = (if take (length prefix) subject \<noteq> prefix then None else Some (drop (length prefix) subject))"

definition handlePresenceQuery ::
  "('r, 'x) hash_api_scheme \<Rightarrow> router_codec \<Rightarrow> presence_io \<Rightarrow> string \<Rightarrow> 'r \<Rightarrow> (string \<times> bytes) list \<times> 'r" where
  "handlePresenceQuery R c io subject s =
     (case presence_tail subject ''presence.query.'' of
        None \<Rightarrow> ([], s)
      | Some uinStr \<Rightarrow>
          (case ParseInt64 uinStr of
             None \<Rightarrow> ([], s)
           | Some u \<Rightarrow>
               if u = 0 then ([], s)
               else case GetPresence R (pz_now io) u s of
                 (None, s1) \<Rightarrow> ([], s1)
               | (Some state, s1) \<Rightarrow>
                   let body = presence_envelope c io \<lparr>pp_UIN = u, pp_Status = ps_Status state, pp_TS = ps_LastSeen state\<rparr>
                   in (if took_effect (pz_publish io u) then [(''presence.response.'' @ uinStr, body)] else [], s1)))"

section \<open>HTTP\<close>

datatype presence_http = PresenceError nat string | PresenceOne PresenceState | PresenceMany "(string \<times> PresenceState) list"

text \<open>\<open>ok\<close>: whether the query succeeds.\<close>

definition mayReadPresence :: "bool \<Rightarrow> contact_tables \<Rightarrow> uin \<Rightarrow> uin \<Rightarrow> bool option" where
  "mayReadPresence ok t actorUIN targetUIN =
     (if actorUIN = targetUIN then Some True
      else if \<not> ok then None
      else Some (list_ex (\<lambda>r. ct_owner r = actorUIN \<and> ct_target r = targetUIN \<and> ct_status r = ''accepted'') (cx_rows t)))"

definition getPresenceHandler ::
  "('r, 'x) hash_api_scheme \<Rightarrow> gotime \<Rightarrow> bool \<Rightarrow> uin option \<Rightarrow> string \<Rightarrow> contact_tables \<Rightarrow> 'r \<Rightarrow> presence_http \<times> 'r" where
  "getPresenceHandler R now ok actor path t s =
     (case actor of
        None \<Rightarrow> (PresenceError 401 ''unauthorized'', s)
      | Some a \<Rightarrow>
          if a \<le> 0 then (PresenceError 401 ''unauthorized'', s)
          else case ParseInt64 path of
            None \<Rightarrow> (PresenceError 400 ''invalid uin'', s)
          | Some u \<Rightarrow>
              if u \<le> 0 then (PresenceError 400 ''invalid uin'', s)
              else (case mayReadPresence ok t a u of
                 None \<Rightarrow> (PresenceError 500 ''authorization error'', s)
               | Some False \<Rightarrow> (PresenceError 404 ''presence not found'', s)
               | Some True \<Rightarrow>
                   (case GetPresence R now u s of
                      (None, s1) \<Rightarrow> (PresenceError 500 ''store error'', s1)
                    | (Some state, s1) \<Rightarrow> (PresenceOne state, s1))))"

definition maxBulk :: nat where "maxBulk = 500"

text \<open>The loop over the requested numbers; \<open>ok u\<close>: whether the query for \<open>u\<close> succeeds. None: one failed.\<close>

fun authorize_bulk :: "(uin \<Rightarrow> bool) \<Rightarrow> contact_tables \<Rightarrow> uin \<Rightarrow> uin list \<Rightarrow> uin list \<Rightarrow> uin list option" where
  "authorize_bulk ok t a seen [] = Some []"
| "authorize_bulk ok t a seen (u # us) =
     (if u \<le> 0 then authorize_bulk ok t a seen us
      else if list_ex (\<lambda>v. v = u) seen then authorize_bulk ok t a seen us
      else case mayReadPresence (ok u) t a u of
        None \<Rightarrow> None
      | Some True \<Rightarrow> map_option (Cons u) (authorize_bulk ok t a (u # seen) us)
      | Some False \<Rightarrow> authorize_bulk ok t a (u # seen) us)"

definition getBulkPresenceHandler ::
  "('r, 'x) hash_api_scheme \<Rightarrow> gotime \<Rightarrow> (uin \<Rightarrow> bool) \<Rightarrow> uin option \<Rightarrow> uin list option \<Rightarrow> contact_tables \<Rightarrow> 'r \<Rightarrow> presence_http \<times> 'r" where
  "getBulkPresenceHandler R now ok actor body t s =
     (case actor of
        None \<Rightarrow> (PresenceError 401 ''unauthorized'', s)
      | Some a \<Rightarrow>
          if a \<le> 0 then (PresenceError 401 ''unauthorized'', s)
          else case body of
            None \<Rightarrow> (PresenceError 400 ''invalid body'', s)
          | Some uins \<Rightarrow>
              if length uins = 0 then (PresenceMany [], s)
              else if length uins > maxBulk then (PresenceError 413 ''too many uins'', s)
              else (case authorize_bulk ok t a [] uins of
                 None \<Rightarrow> (PresenceError 500 ''authorization error'', s)
               | Some authorized \<Rightarrow>
                   (case GetBulkPresence R now authorized s of
                      (None, s1) \<Rightarrow> (PresenceError 500 ''store error'', s1)
                    | (Some states, s1) \<Rightarrow> (PresenceMany (map (\<lambda>(u, st). (itoa u, st)) states), s1))))"

section \<open>A store in memory\<close>

text \<open>A hash with its deadline under each key.\<close>

record mem_hashes =
  mh_up :: bool
  mh_keys :: "string \<rightharpoonup> (string \<times> string) list \<times> gotime option"

definition mem_fields :: "mem_hashes \<Rightarrow> gotime \<Rightarrow> string \<Rightarrow> (string \<times> string) list" where
  "mem_fields m t k =
     (case mh_keys m k of None \<Rightarrow> [] | Some (fs, None) \<Rightarrow> fs | Some (fs, Some d) \<Rightarrow> if t < d then fs else [])"

definition mem_view :: "mem_hashes \<Rightarrow> gotime \<Rightarrow> string \<Rightarrow> string \<rightharpoonup> string" where
  "mem_view m t k = map_of (mem_fields m t k)"

definition mem_deadline :: "mem_hashes \<Rightarrow> gotime \<Rightarrow> string \<Rightarrow> gotime option" where
  "mem_deadline m t k = (case mh_keys m k of Some (fs, Some d) \<Rightarrow> if t < d then Some d else None | _ \<Rightarrow> None)"

definition mem_hash_api :: "mem_hashes hash_api" where
  "mem_hash_api = \<lparr>
     rh_hset = (\<lambda>k fs now m. if \<not> mh_up m then (Inl ''connection refused'', m)
        else (Inr (length fs), m\<lparr>mh_keys := (mh_keys m)(k \<mapsto> (fold (\<lambda>(f, v) h. AList.update f v h) fs (mem_fields m now k), mem_deadline m now k))\<rparr>)),
     rh_expire = (\<lambda>k d now m. if \<not> mh_up m then (Inl ''connection refused'', m)
        else (Inr (mem_fields m now k \<noteq> []),
          m\<lparr>mh_keys := (mh_keys m)(k := if mem_fields m now k = [] then None else Some (mem_fields m now k, Some (now + d)))\<rparr>)),
     rh_hgetall = (\<lambda>k now m. (if mh_up m then Inr (mem_fields m now k) else Inl ''connection refused'', m))\<rparr>"

lemma update_fold: "map_of (fold (\<lambda>(f, v) h. AList.update f v h) fs h) = map_of h ++ map_of (rev fs)"
proof (induction fs arbitrary: h)
  case (Cons p fs)
  obtain f v where p: "p = (f, v)" by (cases p)
  show ?case unfolding p using Cons.IH [of "AList.update f v h"] by (simp add: update_conv' fun_eq_iff map_add_def split: option.splits)
qed simp

lemma mem_fields_put: "mem_fields (m\<lparr>mh_keys := (mh_keys m)(k := e)\<rparr>) t k' = (if k' = k then
    (case e of None \<Rightarrow> [] | Some (fs, None) \<Rightarrow> fs | Some (fs, Some d) \<Rightarrow> if t < d then fs else []) else mem_fields m t k')"
  by (simp add: mem_fields_def)

interpretation memH: redis_hashes mem_hash_api mem_view
proof unfold_locales
  fix k fs now s n s'
  assume "rh_hset mem_hash_api k fs now s = (Inr n, s')"
  then show "mem_view s' now k = mem_view s now k ++ map_of (rev fs)"
    by (auto simp: mem_hash_api_def mem_view_def mem_fields_put mem_deadline_def update_fold split: if_splits option.splits)
next
  fix k d now s b s' and t :: gotime
  assume "rh_expire mem_hash_api k d now s = (Inr b, s')" "0 < d" "now \<le> t"
  then show "mem_view s' t k = (if t < now + d then mem_view s now k else Map.empty)"
    by (auto simp: mem_hash_api_def mem_view_def mem_fields_put split: if_splits)
qed (auto simp: mem_hash_api_def mem_view_def mem_fields_put split: if_splits)

end
