(* ===== verification/PresenceProperties.thy ===== *)
theory PresenceProperties
  imports Presence ContactProperties RouterProperties
begin

text \<open>
  What presence promises: it is read by oneself and by those who have one as an accepted contact, the same people are told of a change,
  a status that was set is read until its lifetime ends, a batch reads like single requests, and a frame changes the presence of its
  sender only. Finding: neither a block nor the removal of a contact takes the presence away from the other side.
\<close>

section \<open>Who reads it\<close>

definition presence_reader :: "contact_tables \<Rightarrow> uin \<Rightarrow> uin \<Rightarrow> bool" where
  "presence_reader t a u \<longleftrightarrow> a = u \<or> (\<exists>r::contact_row. r \<in> set (cx_rows t) \<and> ct_owner r = a \<and> ct_target r = u \<and> ct_status r = ''accepted'')"

lemma mayReadPresence_sound: "mayReadPresence ok t a u = Some True \<Longrightarrow> presence_reader t a u"
  by (auto simp: mayReadPresence_def presence_reader_def list_ex_iff split: if_splits)

lemma mayReadPresence_complete: "mayReadPresence True t a u = Some (presence_reader t a u)"
  by (auto simp: mayReadPresence_def presence_reader_def list_ex_iff)

lemma authorize_bulk_sound:
  "authorize_bulk ok t a seen us = Some vs \<Longrightarrow> set vs \<subseteq> {u \<in> set us. 0 < u \<and> presence_reader t a u} \<and> distinct vs \<and> set vs \<inter> set seen = {}"
proof (induction ok t a seen us arbitrary: vs rule: authorize_bulk.induct)
  case (2 ok t a seen u us)
  consider "u \<le> 0 \<or> list_ex (\<lambda>v. v = u) seen" | "0 < u" "u \<notin> set seen" "mayReadPresence (ok u) t a u = Some False"
    | "0 < u" "u \<notin> set seen" "mayReadPresence (ok u) t a u = Some True" | "0 < u" "u \<notin> set seen" "mayReadPresence (ok u) t a u = None"
    using linorder_not_less [of 0 u] by (cases "mayReadPresence (ok u) t a u"; cases "u \<in> set seen") (auto simp: list_ex_iff)
  then show ?case
  proof cases
    case 1
    then show ?thesis using 2 by (auto split: if_splits)
  next
    case c: 2
    have n: "\<not> list_ex (\<lambda>v. v = u) seen" using c(2) by (auto simp: list_ex_iff)
    then have v: "authorize_bulk ok t a (u # seen) us = Some vs" using "2.prems" c by simp
    have "set vs \<subseteq> {u \<in> set us. 0 < u \<and> presence_reader t a u} \<and> distinct vs \<and> set vs \<inter> set (u # seen) = {}"
      using c n v by (intro "2.IH") auto
    then show ?thesis by auto
  next
    case c: 3
    have n: "\<not> list_ex (\<lambda>v. v = u) seen" using c(2) by (auto simp: list_ex_iff)
    then obtain ws where w: "authorize_bulk ok t a (u # seen) us = Some ws" "vs = u # ws" using "2.prems" c by auto
    have "set ws \<subseteq> {u \<in> set us. 0 < u \<and> presence_reader t a u} \<and> distinct ws \<and> set ws \<inter> set (u # seen) = {}"
      using c n w(1) by (intro "2.IH") auto
    then show ?thesis using w(2) c mayReadPresence_sound [OF c(3)] by auto
  next
    case c: 4
    have "\<not> list_ex (\<lambda>v. v = u) seen" using c(2) by (auto simp: list_ex_iff)
    then show ?thesis using "2.prems" c by simp
  qed
qed simp

lemma hgetall_pipeline_length: "hgetall_pipeline R now us s = (replies, s') \<Longrightarrow> length replies = length us"
  by (induction us arbitrary: s replies s') (auto simp: Let_def split: prod.splits)

lemma fold_update_keys:
  "fst ` set (fold (\<lambda>(u, reply) out. AList.update u (f reply) out) ps out) = fst ` set out \<union> fst ` set ps"
proof (induction ps arbitrary: out)
  case (Cons p ps)
  then show ?case by (cases p) (simp add: dom_update image_Un)
qed simp

lemma GetBulkPresence_keys: "GetBulkPresence R now us s = (Some states, s') \<Longrightarrow> fst ` set states = set us"
proof -
  assume a: "GetBulkPresence R now us s = (Some states, s')"
  show ?thesis
  proof (cases "us = []")
    case True
    then show ?thesis using a by (simp add: GetBulkPresence_def)
  next
    case False
    obtain replies s1 where p: "hgetall_pipeline R now us s = (replies, s1)" by (cases "hgetall_pipeline R now us s")
    then have "states = fold (\<lambda>(u, reply) out. AList.update u (state_of (projr reply)) out) (zip us replies) []"
      using a False by (auto simp: GetBulkPresence_def split: if_splits)
    then have "fst ` set states = fst ` set (zip us replies)" by (simp add: fold_update_keys [of "\<lambda>r. state_of (projr r)"])
    then show ?thesis using hgetall_pipeline_length [OF p] by (metis map_fst_zip set_map)
  qed
qed


definition friends :: contact_tables where
  "friends = \<lparr>cx_users = [], cx_rows = [\<lparr>ct_owner = 3, ct_target = 7, ct_requested = Some 3, ct_status = ''accepted''\<rparr>,
     \<lparr>ct_owner = 7, ct_target = 3, ct_requested = Some 3, ct_status = ''accepted''\<rparr>]\<rparr>"

definition empty_hashes :: mem_hashes where "empty_hashes = \<lparr>mh_up = True, mh_keys = Map.empty\<rparr>"


section \<open>Who is told\<close>

lemma watchers_are_readers: "w \<noteq> u \<Longrightarrow> w \<in> set (presence_watchers t u) \<longleftrightarrow> presence_reader t w u"
  by (auto simp: presence_watchers_def presence_reader_def)

lemma presence_key_inj [simp]: "presence_key a = presence_key b \<longleftrightarrow> a = b"
  by (simp add: presence_key_def)

text \<open>C31: Those who are told of a change of presence are those who may ask for it: every notification of an update goes to the subject of a
  user who has the one it is about as an accepted contact, and when nothing fails each of them gets one.\<close>

theorem notified_are_readers:
  assumes "cd_env (rc_base c) data = Some env" and "rc_presence c (ev_Payload env) = Some p"
    and "handlePresenceUpdate R c io t data s = (published, s')" and "\<forall>r\<in>set (cx_rows t). ct_owner r \<noteq> ct_target r"
  shows "fst ` set published \<subseteq> {''presence.notify.'' @ itoa w | w. w \<noteq> pp_UIN p \<and> mayReadPresence True t w (pp_UIN p) = Some True} \<and>
    (pp_UIN p \<noteq> 0 \<and> fst (SetStatus R (pz_now io) (pp_UIN p) (pp_Status p) s) \<and> pz_contacts io \<and> (\<forall>w. took_effect (pz_publish io w)) \<longrightarrow>
     fst ` set published = {''presence.notify.'' @ itoa w | w. w \<noteq> pp_UIN p \<and> mayReadPresence True t w (pp_UIN p) = Some True})"
proof -
  have self: "pp_UIN p \<notin> set (presence_watchers t (pp_UIN p))" using assms(4) by (auto simp: presence_watchers_def)
  have w: "w \<in> set (presence_watchers t (pp_UIN p)) \<longleftrightarrow> w \<noteq> pp_UIN p \<and> mayReadPresence True t w (pp_UIN p) = Some True" for w
    using self watchers_are_readers [of w "pp_UIN p" t] by (auto simp: mayReadPresence_complete)
  have valid: "IsValidStatus (pp_Status p)" if "fst (SetStatus R (pz_now io) (pp_UIN p) (pp_Status p) s)"
    using that by (auto simp: SetStatus_def split: if_splits)
  have "fst ` set published \<subseteq> (\<lambda>w. ''presence.notify.'' @ itoa w) ` set (presence_watchers t (pp_UIN p))"
    using assms(1-3) by (auto simp: handlePresenceUpdate_def Let_def split: if_splits prod.splits)
  moreover have "fst ` set published = (\<lambda>w. ''presence.notify.'' @ itoa w) ` set (presence_watchers t (pp_UIN p))"
    if "pp_UIN p \<noteq> 0" "fst (SetStatus R (pz_now io) (pp_UIN p) (pp_Status p) s)" "pz_contacts io" "\<forall>w. took_effect (pz_publish io w)"
    using assms(1-3) that valid [OF that(2)] by (auto simp: handlePresenceUpdate_def Let_def image_image split: prod.splits)
  ultimately show ?thesis using w by blast
qed

definition sample_presence_codec :: router_codec where
  "sample_presence_codec = sample_router_codec\<lparr>rc_base := ack_codec\<lparr>cd_env := (\<lambda>b. Some (out_envelope ''presence'' b)), cd_env_out := ev_Payload\<rparr>,
     rc_presence := (\<lambda>b. Some \<lparr>pp_UIN = 7, pp_Status = ''away'', pp_TS = 0\<rparr>)\<rparr>"

definition sample_presence_io :: presence_io where
  "sample_presence_io = \<lparr>pz_now = of_unix_milli 60000, pz_id = ''i'', pz_contacts = True, pz_publish = (\<lambda>w. Done)\<rparr>"

theorem notified_are_readers_witness:
  "fst ` set (fst (handlePresenceUpdate mem_hash_api sample_presence_codec sample_presence_io friends [] empty_hashes)) =
     {''presence.notify.'' @ itoa w | w. w \<noteq> 7 \<and> mayReadPresence True friends w 7 = Some True}"
proof -
  obtain published s' where h: "handlePresenceUpdate mem_hash_api sample_presence_codec sample_presence_io friends [] empty_hashes = (published, s')"
    by (cases "handlePresenceUpdate mem_hash_api sample_presence_codec sample_presence_io friends [] empty_hashes")
  have "fst (SetStatus mem_hash_api (pz_now sample_presence_io) 7 ''away'' empty_hashes)"
    by (simp add: SetStatus_def writeStatus_def mem_hash_api_def empty_hashes_def IsValidStatus_def validStatus_def IsOfflineStatus_def Let_def)
  then show ?thesis
    using notified_are_readers [OF _ _ h, of "out_envelope ''presence'' []" "\<lparr>pp_UIN = 7, pp_Status = ''away'', pp_TS = 0\<rparr>"] h
    by (simp add: sample_presence_codec_def friends_def sample_presence_io_def)
qed

section \<open>What is read\<close>

definition view_state :: "(string \<rightharpoonup> string) \<Rightarrow> PresenceState" where
  "view_state v =
     (if v = Map.empty then \<lparr>ps_Status = ''offline'', ps_LastSeen = 0\<rparr>
      else
        let status = (case v statusField of None \<Rightarrow> [] | Some x \<Rightarrow> x);
            seen = (case v lastSeenField of None \<Rightarrow> 0 | Some x \<Rightarrow> (case ParseInt64 x of None \<Rightarrow> 0 | Some n \<Rightarrow> n))
        in \<lparr>ps_Status = (if status = [] then ''offline'' else status), ps_LastSeen = seen\<rparr>)"

lemma state_of_view: "state_of vals = view_state (map_of vals)"
  by (simp add: state_of_def view_state_def)

context redis_hashes
begin

lemma get_reads: "GetPresence R now u s = (Some p, s') \<Longrightarrow> p = view_state (view s now (presence_key u)) \<and> view s' = view s"
  using hgetall_ok hgetall_view
  by (auto simp: GetPresence_def state_of_view split: prod.splits sum.splits)

lemma write_reads:
  assumes "writeStatus R now u status ttl s = (True, s')" and "0 < ttl" and "now \<le> t"
  shows "view s' t (presence_key u) = (if t < now + ttl then view s now (presence_key u) ++
      [statusField \<mapsto> status, lastSeenField \<mapsto> itoa (unix_milli now)] else Map.empty)"
proof -
  let ?fs = "[(statusField, status), (lastSeenField, itoa (unix_milli now))]"
  obtain x s1 where x: "rh_hset R (presence_key u) ?fs now s = (x, s1)" by (cases "rh_hset R (presence_key u) ?fs now s")
  obtain y s2 where y: "rh_expire R (presence_key u) ttl now s1 = (y, s2)" by (cases "rh_expire R (presence_key u) ttl now s1")
  have "\<not> isl x" "\<not> isl y" "s2 = s'" using assms(1) x y by (simp_all add: writeStatus_def)
  then obtain n b where h: "rh_hset R (presence_key u) ?fs now s = (Inr n, s1)" "rh_expire R (presence_key u) ttl now s1 = (Inr b, s')"
    using x y by (cases x; cases y) auto
  have "map_of (rev [(statusField, status), (lastSeenField, itoa (unix_milli now))]) =
      [statusField \<mapsto> status, lastSeenField \<mapsto> itoa (unix_milli now)]"
    by (auto simp: statusField_def lastSeenField_def)
  then show ?thesis using expire_ok [OF h(2) assms(2,3)] hset_ok [OF h(1)] by simp
qed

lemma write_other: "u' \<noteq> u \<Longrightarrow> view (snd (writeStatus R now u status ttl s)) t (presence_key u') = view s t (presence_key u')"
  using hset_other expire_other by (auto simp: writeStatus_def Let_def split: prod.splits)

lemma status_other: "u' \<noteq> u \<Longrightarrow> view (snd (SetStatus R now u status s)) t (presence_key u') = view s t (presence_key u')"
  using write_other by (simp add: SetStatus_def)

lemma pipeline_reads:
  assumes "hgetall_pipeline R now us s = (replies, s')" and "\<not> list_ex isl replies"
  shows "map (\<lambda>r. state_of (projr r)) replies = map (\<lambda>u. view_state (view s now (presence_key u))) us \<and> view s' = view s"
  using assms
proof (induction us arbitrary: s replies s')
  case (Cons u us)
  obtain reply s1 where r: "rh_hgetall R (presence_key u) now s = (reply, s1)" by (cases "rh_hgetall R (presence_key u) now s")
  obtain rest s2 where p: "hgetall_pipeline R now us s1 = (rest, s2)" by (cases "hgetall_pipeline R now us s1")
  have e: "replies = reply # rest" "s' = s2" using Cons.prems(1) r p by auto
  then obtain fs where f: "reply = Inr fs" using Cons.prems(2) by (cases reply) auto
  have v: "view s1 = view s" by (rule hgetall_view [OF r])
  show ?case
    using Cons.IH [OF p] Cons.prems(2) e f v hgetall_ok [OF r [unfolded f]] by (simp add: state_of_view)
qed simp

end

lemma fold_update_map:
  assumes "map f rs = map g us"
  shows "fold (\<lambda>(u, r) out. AList.update u (f r) out) (zip us rs) out = fold (\<lambda>u. AList.update u (g u)) us out"
  using assms
proof (induction us arbitrary: rs out)
  case (Cons u us)
  then obtain r rs' where "rs = r # rs'" "f r = g u" "map f rs' = map g us" by (cases rs) auto
  then show ?case using Cons.IH by simp
qed simp

lemma fold_update_lookup: "map_of (fold (\<lambda>u. AList.update u (g u)) us out) u = (if u \<in> set us then Some (g u) else map_of out u)"
  by (induction us arbitrary: out) (auto simp: update_conv')

text \<open>Also: A status that was set is what everybody reads until its lifetime ends - five minutes, or a day for offline - with the time it was
  set; afterwards the user is offline and was never seen.\<close>

theorem presence_set_get:
  assumes "redis_hashes R view" and "SetStatus R now u status s = (True, s1)" and "now \<le> t" and "GetPresence R t u s1 = (Some p, s2)"
    and "0 \<le> unix_milli now" and "is_int64 (unix_milli now)"
  shows "p = (if t < now + (if status = ''offline'' then 24 * Hour else 5 * Minute)
    then \<lparr>ps_Status = status, ps_LastSeen = unix_milli now\<rparr> else \<lparr>ps_Status = ''offline'', ps_LastSeen = 0\<rparr>)"
proof -
  let ?ttl = "if status = ''offline'' then 24 * Hour else 5 * Minute"
  have valid: "IsValidStatus status" and w: "writeStatus R now u status ?ttl s = (True, s1)"
    using assms(2) by (auto simp: SetStatus_def ttlOnline_def ttlOffline_def IsOfflineStatus_def split: if_splits)
  have "status \<noteq> []" using valid by (auto simp: IsValidStatus_def validStatus_def)
  moreover have "view s1 t (presence_key u) = (if t < now + ?ttl then view s now (presence_key u) ++
      [statusField \<mapsto> status, lastSeenField \<mapsto> itoa (unix_milli now)] else Map.empty)"
    using assms(3) by (intro redis_hashes.write_reads [OF assms(1) w]) (auto simp: duration_defs)
  moreover have "p = view_state (view s1 t (presence_key u))" using redis_hashes.get_reads [OF assms(1,4)] by simp
  moreover have "ParseInt64 (itoa (unix_milli now)) = Some (unix_milli now)" by (rule ParseInt64_itoa [OF assms(5,6)])
  moreover have "statusField \<noteq> lastSeenField" by (simp add: statusField_def lastSeenField_def)
  ultimately show ?thesis by (auto simp: view_state_def Let_def fun_eq_iff map_add_def split: option.splits)
qed

theorem presence_set_get_witness:
  "fst (GetPresence mem_hash_api (of_unix_milli 60000 + Minute) 7 (snd (SetStatus mem_hash_api (of_unix_milli 60000) 7 ''away'' empty_hashes))) =
     Some \<lparr>ps_Status = ''away'', ps_LastSeen = 60000\<rparr>"
proof -
  let ?set = "SetStatus mem_hash_api (of_unix_milli 60000) 7 ''away'' empty_hashes"
  have "fst ?set" and "mh_up (snd ?set)"
    by (simp_all add: SetStatus_def writeStatus_def mem_hash_api_def empty_hashes_def IsValidStatus_def validStatus_def IsOfflineStatus_def Let_def)
  then obtain s1 where s: "?set = (True, s1)" "mh_up s1" by (cases ?set) auto
  obtain p s2 where g: "GetPresence mem_hash_api (of_unix_milli 60000 + Minute) 7 s1 = (Some p, s2)"
    using s(2) by (auto simp: GetPresence_def mem_hash_api_def)
  have "p = \<lparr>ps_Status = ''away'', ps_LastSeen = 60000\<rparr>"
    using presence_set_get [OF memH.redis_hashes_axioms s(1) _ g] by (simp add: duration_defs is_int64_def int64_min_def int64_max_def)
  then show ?thesis using s g by simp
qed

text \<open>Also: A batch reads like single requests: for each of the users asked for it holds exactly what a single read gives, repeated numbers
  included, and nobody else.\<close>

theorem bulk_equals_single:
  assumes "redis_hashes R view" and "GetBulkPresence R now us s = (Some states, s')"
  shows "map_of states u = (if u \<in> set us then Some (view_state (view s now (presence_key u))) else None) \<and>
    (GetPresence R now u s = (Some p, s2) \<longrightarrow> view_state (view s now (presence_key u)) = p)"
proof (cases "us = []")
  case True
  then show ?thesis using assms(2) redis_hashes.get_reads [OF assms(1), of now u s p s2] by (auto simp: GetBulkPresence_def)
next
  case False
  obtain replies s1 where r: "hgetall_pipeline R now us s = (replies, s1)" by (cases "hgetall_pipeline R now us s")
  have ok: "\<not> list_ex isl replies" and st: "states = fold (\<lambda>(u, reply) out. AList.update u (state_of (projr reply)) out) (zip us replies) []"
    using assms(2) r False by (auto simp: GetBulkPresence_def split: if_splits)
  have "map (\<lambda>r. state_of (projr r)) replies = map (\<lambda>u. view_state (view s now (presence_key u))) us"
    using redis_hashes.pipeline_reads [OF assms(1) r ok] by simp
  from fold_update_map [OF this, of "[]"] show ?thesis
    using redis_hashes.get_reads [OF assms(1), of now u s p s2] unfolding st by (auto simp: fold_update_lookup)
qed

theorem bulk_equals_single_witness:
  "\<exists>states s'. GetBulkPresence mem_hash_api 0 [7, 3, 7] empty_hashes = (Some states, s') \<and> map_of states 7 = Some \<lparr>ps_Status = ''offline'', ps_LastSeen = 0\<rparr>"
proof -
  let ?b = "GetBulkPresence mem_hash_api 0 [7, 3, 7] empty_hashes"
  have "fst ?b \<noteq> None" by (simp add: GetBulkPresence_def mem_hash_api_def empty_hashes_def Let_def)
  then obtain states s' where b: "?b = (Some states, s')" by (cases ?b) auto
  have "map_of states 7 = Some (view_state (mem_view empty_hashes 0 (presence_key 7)))"
    using bulk_equals_single [OF memH.redis_hashes_axioms b, of 7] by simp
  then show ?thesis using b by (simp add: view_state_def mem_view_def mem_fields_def empty_hashes_def)
qed

section \<open>Whose presence a frame changes\<close>

text \<open>Also: A presence frame changes the presence of the connection's own user: whatever user it names, what the router publishes leads the
  presence service to write no other record, and the notifications it sends are about that user.\<close>

theorem presence_frame_own_user:
  assumes "redis_hashes R view" and "IsValidStatus (pp_Status p)" and "rc_presence c (ev_Payload env) = Some p"
    and "q = (overridePresenceUIN p (cl_uin (rw_client w)))\<lparr>pp_TS := unix_milli (minute_of (ro_now io))\<rparr>"
    and "e = \<lparr>ev_Type = EnvelopeTypePresence, ev_ID = ro_id io, ev_TS = pp_TS q, ev_Payload = rc_presence_out c q\<rparr>"
    and "data = cd_env_out (rc_base c) e" and "cd_env (rc_base c) data = Some e" and "rc_presence c (rc_presence_out c q) = Some q"
    and "handlePresenceUpdate R c pio t data s = (published, s')" and "u \<noteq> cl_uin (rw_client w)"
  shows "handlePresence c io env w = publish ''presence.update'' data w \<and> view s' at (presence_key u) = view s at (presence_key u) \<and>
    (\<forall>(subject, body)\<in>set published. body = presence_envelope c pio
       \<lparr>pp_UIN = cl_uin (rw_client w), pp_Status = pp_Status p, pp_TS = unix_milli (pz_now pio)\<rparr>)"
proof -
  have q: "pp_UIN q = cl_uin (rw_client w)" "pp_Status q = pp_Status p" by (simp_all add: assms(4) overridePresenceUIN_def)
  have pay: "ev_Payload e = rc_presence_out c q" by (simp add: assms(5))
  have "s' = s \<or> s' = snd (SetStatus R (pz_now pio) (cl_uin (rw_client w)) (pp_Status p) s)"
    using assms(7-9) pay q by (auto simp: handlePresenceUpdate_def Let_def split: if_splits prod.splits)
  then have "view s' at (presence_key u) = view s at (presence_key u)"
    using redis_hashes.status_other [OF assms(1,10)] by metis
  moreover have "\<forall>(subject, body)\<in>set published. body = presence_envelope c pio
       \<lparr>pp_UIN = cl_uin (rw_client w), pp_Status = pp_Status p, pp_TS = unix_milli (pz_now pio)\<rparr>"
    using assms(7-9) pay q by (auto simp: handlePresenceUpdate_def Let_def split: if_splits prod.splits)
  moreover have "handlePresence c io env w = publish ''presence.update'' data w"
    using assms(2-6) by (auto simp: handlePresence_def IsValidStatus_def validStatus_def PresenceStatusOnline_def PresenceStatusAway_def
      PresenceStatusDND_def PresenceStatusOffline_def Let_def)
  ultimately show ?thesis by blast
qed

definition echo_codec :: router_codec where
  "echo_codec = sample_router_codec\<lparr>rc_base := ack_codec\<lparr>cd_env_out := ev_Payload,
       cd_env := (\<lambda>b. Some \<lparr>ev_Type = EnvelopeTypePresence, ev_ID = ''i'', ev_TS = - 62135596800000, ev_Payload = b\<rparr>)\<rparr>,
     rc_presence := (\<lambda>b. Some \<lparr>pp_UIN = (if b = [] then 99 else 3), pp_Status = ''away'', pp_TS = - 62135596800000\<rparr>), rc_presence_out := pp_Status\<rparr>"

theorem presence_frame_own_user_witness:
  "handlePresence echo_codec sample_route_io (out_envelope EnvelopeTypePresence []) sample_world = publish ''presence.update'' ''away'' sample_world \<and>
   mem_view (snd (handlePresenceUpdate mem_hash_api echo_codec sample_presence_io friends ''away'' empty_hashes)) 0 (presence_key 99) = Map.empty"
proof -
  let ?p = "\<lparr>pp_UIN = 99, pp_Status = ''away'', pp_TS = - 62135596800000\<rparr>"
  let ?q = "\<lparr>pp_UIN = 3, pp_Status = ''away'', pp_TS = - 62135596800000\<rparr>"
  obtain published s' where h: "handlePresenceUpdate mem_hash_api echo_codec sample_presence_io friends ''away'' empty_hashes = (published, s')"
    by (cases "handlePresenceUpdate mem_hash_api echo_codec sample_presence_io friends ''away'' empty_hashes")
  have view_empty: "mem_view empty_hashes 0 (presence_key 99) = Map.empty"
    by (simp add: mem_view_def mem_fields_def empty_hashes_def)
  show ?thesis
    using presence_frame_own_user [OF memH.redis_hashes_axioms _ _ _ _ _ _ _ h, where p = ?p and env = "out_envelope EnvelopeTypePresence []" and q = ?q
      and w = sample_world and io = sample_route_io and u = 99 and at = 0
      and e = "\<lparr>ev_Type = EnvelopeTypePresence, ev_ID = ''i'', ev_TS = - 62135596800000, ev_Payload = ''away''\<rparr>"] h view_empty
    by (simp add: echo_codec_def out_envelope_def IsValidStatus_def validStatus_def overridePresenceUIN_def sample_world_def new_client_def
      sample_route_io_def minute_of_def unix_milli_def)
qed

section \<open>Blocks and removals\<close>

lemma upd_edge_keeps: "r \<in> set (cx_rows t) \<Longrightarrow> ct_owner r \<noteq> a \<Longrightarrow> r \<in> set (cx_rows (snd (upd_edge a b P st t)))"
  by (auto simp: upd_edge_def Let_def intro!: image_eqI [of _ _ r])

text \<open>Also: A user who is blocked or removed by somebody, and has them as an accepted contact, still reads their presence and is still told
  of every change: both handlers change the caller's own edge only.\<close>

theorem blocked_user_keeps_presence:
  assumes "mayReadPresence True t b a = Some True" and "a \<noteq> b" and "cq_actor io = Some a" and "cq_env io = id"
    and "blockContactHandler io t = (res, t') \<or> removeContactHandler io t = (res, t')"
  shows "mayReadPresence True t' b a = Some True \<and> b \<in> set (presence_watchers t' a)"
proof -
  obtain r :: contact_row where r: "r \<in> set (cx_rows t)" "ct_owner r = b" "ct_target r = a" "ct_status r = ''accepted''"
    using assms(1,2) by (auto simp: mayReadPresence_def list_ex_iff)
  have keep: "r \<in> set (cx_rows (snd (qBlockContact a x t)))" for x
    using upd_edge_keeps [OF r(1), of a x "\<lambda>r. True" "''blocked''"] r(2) assms(2) by (auto simp: qBlockContact_def)
  have ins: "r \<in> set (cx_rows t2)" if "qUpsertContactBlocked a x t1 = Some t2" "r \<in> set (cx_rows t1)" for x t1 t2
    using that by (auto simp: qUpsertContactBlocked_def insert_edge_def split: if_splits)
  have del: "r \<in> set (cx_rows (qDeleteContact a x t))" for x using r assms(2) by (simp add: qDeleteContact_def)
  have "r \<in> set (cx_rows t')"
    using assms(5)
  proof
    assume "blockContactHandler io t = (res, t')"
    then show ?thesis
    proof (cases "target_param (cq_path io)")
      case (Some x)
      obtain n t1 where q: "qBlockContact a x t = (n, t1)" by force
      then have t1: "r \<in> set (cx_rows t1)" using keep [of x] by simp
      show ?thesis
        using \<open>blockContactHandler io t = (res, t')\<close> Some q t1 ins [OF _ t1] r(1) assms(3,4)
        by (auto simp: blockContactHandler_def split: if_splits option.splits)
    qed (use assms(3) r(1) in \<open>auto simp: blockContactHandler_def\<close>)
  next
    assume "removeContactHandler io t = (res, t')"
    then show ?thesis using del r(1) assms(3) by (auto simp: removeContactHandler_def Let_def split: option.splits if_splits)
  qed
  then show ?thesis using r(2-4) assms(2) by (auto simp: mayReadPresence_def list_ex_iff presence_watchers_def)
qed

theorem blocked_user_keeps_presence_witness:
  "fst (blockContactHandler (calls 3 ''7'') friends) = ContactStatus 200 ''blocked'' \<and>
   mayReadPresence True (snd (blockContactHandler (calls 3 ''7'') friends)) 7 3 = Some True"
proof -
  have "fst (blockContactHandler (calls 3 ''7'') friends) = ContactStatus 200 ''blocked''" by code_simp
  moreover have "mayReadPresence True friends 7 3 = Some True" by code_simp
  then have "mayReadPresence True (snd (blockContactHandler (calls 3 ''7'') friends)) 7 3 = Some True"
    using blocked_user_keeps_presence [of friends 7 3 "calls 3 ''7''" "fst (blockContactHandler (calls 3 ''7'') friends)"
      "snd (blockContactHandler (calls 3 ''7'') friends)"] by (simp add: calls_def)
  ultimately show ?thesis by blast
qed

end
