(* ===== verification/Files.thy ===== *)
theory Files
  imports Contacts
begin

text \<open>
  The file service: ownership and grants of objects with their handlers, \<^verbatim>\<open>file-service/handlers/files.go\<close>, and the signing and deletion
  of \<^verbatim>\<open>file-service/minio/client.go\<close>. The MinIO client is a parameter: \<open>presign\<close> gives the path and query of a signed URL for a bucket, a
  key and a lifetime, \<open>remove\<close> deletes an object. PostgreSQL compares the keys as UUIDs, without regard to case.
\<close>

section \<open>Rows\<close>

record file_tables =
  ft_users :: "uin list"
  ft_files :: "(string \<times> uin) list"
  ft_grants :: "(string \<times> uin \<times> uin) list"

definition file_user :: "file_tables \<Rightarrow> uin \<Rightarrow> bool" where
  "file_user t u = list_ex (\<lambda>v. v = u) (ft_users t)"

definition owns_object :: "file_tables \<Rightarrow> string \<Rightarrow> uin \<Rightarrow> bool" where
  "owns_object t key u = list_ex (\<lambda>(k, ow). k = to_lower key \<and> ow = u) (ft_files t)"

text \<open>The primary key of the grants is (object key, grantee).\<close>

definition granted_object :: "file_tables \<Rightarrow> string \<Rightarrow> uin \<Rightarrow> bool" where
  "granted_object t key u = list_ex (\<lambda>(k, ow, gr). k = to_lower key \<and> gr = u) (ft_grants t)"

definition RegisterObject :: "outcome \<Rightarrow> string \<Rightarrow> uin \<Rightarrow> file_tables \<Rightarrow> bool \<times> file_tables" where
  "RegisterObject out key u t =
     (if list_ex (\<lambda>(k, ow). k = to_lower key) (ft_files t) \<or> \<not> file_user t u then (False, t)
      else (\<not> failed out, if took_effect out then t\<lparr>ft_files := ft_files t @ [(to_lower key, u)]\<rparr> else t))"

definition Owns :: "bool \<Rightarrow> string \<Rightarrow> uin \<Rightarrow> file_tables \<Rightarrow> bool option" where
  "Owns ok key u t =
     (if \<not> ok then None
      else Some (list_ex (\<lambda>(k, ow). k = to_lower key \<and>
        (ow = u \<or> list_ex (\<lambda>(k', ow', gr). k' = k \<and> gr = u) (ft_grants t))) (ft_files t)))"

text \<open>The reply is (a row was inserted or deleted); None: the statement fails.\<close>

definition Grant :: "outcome \<Rightarrow> string \<Rightarrow> uin \<Rightarrow> uin \<Rightarrow> file_tables \<Rightarrow> bool option \<times> file_tables" where
  "Grant out key owner grantee t =
     (let insertable = owns_object t key owner \<and> \<not> granted_object t key grantee in
      if insertable \<and> (\<not> file_user t grantee \<or> owner = grantee) then (None, t)
      else (if failed out then None else Some insertable,
            if took_effect out \<and> insertable then t\<lparr>ft_grants := ft_grants t @ [(to_lower key, owner, grantee)]\<rparr> else t))"

definition RevokeGrant :: "outcome \<Rightarrow> string \<Rightarrow> uin \<Rightarrow> uin \<Rightarrow> file_tables \<Rightarrow> bool option \<times> file_tables" where
  "RevokeGrant out key owner grantee t =
     (let hit = (\<lambda>(k, ow, gr). k = to_lower key \<and> ow = owner \<and> gr = grantee) in
      (if failed out then None else Some (list_ex hit (ft_grants t)),
       if took_effect out then t\<lparr>ft_grants := filter (\<lambda>g. \<not> hit g) (ft_grants t)\<rparr> else t))"

section \<open>Signed URLs\<close>

definition BucketFiles :: string where "BucketFiles = ''iceq-files''"
definition BucketAvatars :: string where "BucketAvatars = ''iceq-avatars''"
definition UploadTTLDuration :: duration where "UploadTTLDuration = 5 * Minute"
definition DownloadTTLDuration :: duration where "DownloadTTLDuration = 24 * Hour"
definition MaxFileSize :: int where "MaxFileSize = 100 * 1024 * 1024"
definition filesProxyPrefix :: string where "filesProxyPrefix = ''/files-proxy''"

type_synonym presigner = "string \<Rightarrow> string \<Rightarrow> duration \<Rightarrow> (string \<times> string) option"

record UploadRequest =
  ur_Filename :: string
  ur_ContentType :: string
  ur_Size :: int

record SignedURL =
  su_ObjectKey :: string
  su_URL :: string
  su_ExpiresAt :: gotime

datatype sign_error = ErrSizeExceeded | ErrContentTypeNotAllowed | ErrPresign

definition isAllowedContentType :: "string \<Rightarrow> bool" where
  "isAllowedContentType ct = list_ex (\<lambda>a. a = ct)
     [''image/jpeg'', ''image/png'', ''image/gif'', ''image/webp'', ''application/pdf'', ''audio/mpeg'', ''audio/ogg'', ''audio/webm'',
      ''video/mp4'', ''video/webm'', ''application/octet-stream'']"

definition toProxyPath :: "string \<times> string \<Rightarrow> string" where
  "toProxyPath u = filesProxyPrefix @ fst u @ (if snd u \<noteq> [] then ''?'' @ snd u else [])"

definition avatarKey :: "uin \<Rightarrow> string" where "avatarKey u = ''avatars/'' @ itoa u"

definition sign_url :: "presigner \<Rightarrow> string \<Rightarrow> string \<Rightarrow> duration \<Rightarrow> gotime \<Rightarrow> sign_error + SignedURL" where
  "sign_url presign bucket key ttl now =
     (case presign bucket key ttl of
        None \<Rightarrow> Inl ErrPresign
      | Some v \<Rightarrow> Inr \<lparr>su_ObjectKey = key, su_URL = toProxyPath v, su_ExpiresAt = now + ttl\<rparr>)"

text \<open>\<open>fresh\<close>: the new UUID.\<close>

definition GenerateUploadURL :: "presigner \<Rightarrow> string \<Rightarrow> gotime \<Rightarrow> UploadRequest \<Rightarrow> sign_error + SignedURL" where
  "GenerateUploadURL presign fresh now req =
     (if ur_Size req \<le> 0 \<or> ur_Size req > MaxFileSize then Inl ErrSizeExceeded
      else if \<not> isAllowedContentType (ur_ContentType req) then Inl ErrContentTypeNotAllowed
      else sign_url presign BucketFiles fresh UploadTTLDuration now)"

definition GenerateDownloadURL :: "presigner \<Rightarrow> gotime \<Rightarrow> string \<Rightarrow> sign_error + SignedURL" where
  "GenerateDownloadURL presign now objectKey = sign_url presign BucketFiles objectKey DownloadTTLDuration now"

definition GenerateAvatarUploadURL :: "presigner \<Rightarrow> gotime \<Rightarrow> uin \<Rightarrow> sign_error + SignedURL" where
  "GenerateAvatarUploadURL presign now u = sign_url presign BucketAvatars (avatarKey u) UploadTTLDuration now"

section \<open>Deletion\<close>

type_synonym 'o remover = "string \<Rightarrow> string \<Rightarrow> 'o \<Rightarrow> string option \<times> 'o"

fun delete_files :: "'o remover \<Rightarrow> string list \<Rightarrow> 'o \<Rightarrow> bool \<times> 'o" where
  "delete_files remove [] s = (True, s)"
| "delete_files remove (key # keys) s =
     (if key = [] then delete_files remove keys s
      else case remove BucketFiles key s of (Some e, s1) \<Rightarrow> (False, s1) | (None, s1) \<Rightarrow> delete_files remove keys s1)"

definition isNoSuchKey :: "string option \<Rightarrow> bool" where
  "isNoSuchKey e = (case e of None \<Rightarrow> False
     | Some m \<Rightarrow> list_ex (\<lambda>i. take (length ''The specified key does not exist'') (drop i m) = ''The specified key does not exist'')
         [0..<Suc (length m)])"

definition DeleteUserObjects :: "'o remover \<Rightarrow> uin \<Rightarrow> string list \<Rightarrow> 'o \<Rightarrow> bool \<times> 'o" where
  "DeleteUserObjects remove u fileKeys s =
     (case delete_files remove fileKeys s of
        (False, s1) \<Rightarrow> (False, s1)
      | (True, s1) \<Rightarrow>
          (case remove BucketAvatars (''avatars/'' @ itoa u) s1 of
             (None, s2) \<Rightarrow> (True, s2)
           | (Some e, s2) \<Rightarrow> (isNoSuchKey (Some e), s2)))"

section \<open>Handlers\<close>

datatype file_http = FileError nat string | FileURL SignedURL | FileNoContent

record grantRequest =
  fg_ObjectKey :: string
  fg_GranteeUIN :: uin

text \<open>The surroundings of a request: the user of the token, the clock, a new UUID, the signer, the outcome of the statement that writes and
  whether the one that reads succeeds.\<close>

record file_io =
  fi_actor :: "uin option"
  fi_now :: gotime
  fi_fresh :: string
  fi_presign :: presigner
  fi_write :: outcome
  fi_read :: bool

definition objectKeyPattern :: "string \<Rightarrow> bool" where
  "objectKeyPattern s \<longleftrightarrow> length s = 36 \<and>
     list_all (\<lambda>(i, ch). if i = 8 \<or> i = 13 \<or> i = 18 \<or> i = 23 then ch = CHR ''-'' else is_hex ch) (zip [0..<36] s)"

definition file_actor :: "file_io \<Rightarrow> uin option" where
  "file_actor io = (case fi_actor io of None \<Rightarrow> None | Some u \<Rightarrow> if u \<le> 0 then None else Some u)"

definition UploadURL :: "file_io \<Rightarrow> UploadRequest option \<Rightarrow> file_tables \<Rightarrow> file_http \<times> file_tables" where
  "UploadURL io body t =
     (case file_actor io of
        None \<Rightarrow> (FileError 401 ''AUTH_REQUIRED'', t)
      | Some u \<Rightarrow>
          (case body of
             None \<Rightarrow> (FileError 400 ''INVALID_BODY'', t)
           | Some req \<Rightarrow>
               (case GenerateUploadURL (fi_presign io) (fi_fresh io) (fi_now io) req of
                  Inl ErrSizeExceeded \<Rightarrow> (FileError 413 ''SIZE_OUT_OF_RANGE'', t)
                | Inl ErrContentTypeNotAllowed \<Rightarrow> (FileError 415 ''CONTENT_TYPE_NOT_ALLOWED'', t)
                | Inl ErrPresign \<Rightarrow> (FileError 500 ''INTERNAL'', t)
                | Inr resp \<Rightarrow>
                    let (ok, t1) = RegisterObject (fi_write io) (su_ObjectKey resp) u t in
                    (if ok then FileURL resp else FileError 500 ''INTERNAL'', t1))))"

definition DownloadURL :: "file_io \<Rightarrow> string option \<Rightarrow> file_tables \<Rightarrow> file_http" where
  "DownloadURL io body t =
     (case file_actor io of
        None \<Rightarrow> FileError 401 ''AUTH_REQUIRED''
      | Some u \<Rightarrow>
          (case body of
             None \<Rightarrow> FileError 400 ''INVALID_BODY''
           | Some key \<Rightarrow>
               if \<not> objectKeyPattern key then FileError 400 ''INVALID_OBJECT_KEY''
               else (case Owns (fi_read io) key u t of
                  None \<Rightarrow> FileError 500 ''INTERNAL''
                | Some False \<Rightarrow> FileError 404 ''OBJECT_NOT_FOUND''
                | Some True \<Rightarrow>
                    (case GenerateDownloadURL (fi_presign io) (fi_now io) key of
                       Inl e \<Rightarrow> FileError 500 ''INTERNAL''
                     | Inr resp \<Rightarrow> FileURL resp))))"

definition AvatarUploadURL :: "file_io \<Rightarrow> file_http" where
  "AvatarUploadURL io =
     (case file_actor io of
        None \<Rightarrow> FileError 401 ''AUTH_REQUIRED''
      | Some u \<Rightarrow>
          (case GenerateAvatarUploadURL (fi_presign io) (fi_now io) u of
             Inl e \<Rightarrow> FileError 500 ''INTERNAL''
           | Inr resp \<Rightarrow> FileURL resp))"

definition GrantHandler :: "file_io \<Rightarrow> grantRequest option \<Rightarrow> file_tables \<Rightarrow> file_http \<times> file_tables" where
  "GrantHandler io body t =
     (case file_actor io of
        None \<Rightarrow> (FileError 401 ''AUTH_REQUIRED'', t)
      | Some owner \<Rightarrow>
          (case body of
             None \<Rightarrow> (FileError 400 ''INVALID_GRANT'', t)
           | Some req \<Rightarrow>
               if \<not> objectKeyPattern (fg_ObjectKey req) \<or> fg_GranteeUIN req \<le> 0 \<or> fg_GranteeUIN req = owner
               then (FileError 400 ''INVALID_GRANT'', t)
               else
                 (case Grant (fi_write io) (fg_ObjectKey req) owner (fg_GranteeUIN req) t of
                    (None, t1) \<Rightarrow> (FileError 500 ''INTERNAL'', t1)
                  | (Some False, t1) \<Rightarrow> (FileError 404 ''OBJECT_NOT_FOUND'', t1)
                  | (Some True, t1) \<Rightarrow> (FileNoContent, t1))))"

definition RevokeGrantHandler :: "file_io \<Rightarrow> grantRequest option \<Rightarrow> file_tables \<Rightarrow> file_http \<times> file_tables" where
  "RevokeGrantHandler io body t =
     (case file_actor io of
        None \<Rightarrow> (FileError 401 ''AUTH_REQUIRED'', t)
      | Some owner \<Rightarrow>
          (case body of
             None \<Rightarrow> (FileError 400 ''INVALID_GRANT'', t)
           | Some req \<Rightarrow>
               if \<not> objectKeyPattern (fg_ObjectKey req) \<or> fg_GranteeUIN req \<le> 0 then (FileError 400 ''INVALID_GRANT'', t)
               else
                 (case RevokeGrant (fi_write io) (fg_ObjectKey req) owner (fg_GranteeUIN req) t of
                    (None, t1) \<Rightarrow> (FileError 500 ''INTERNAL'', t1)
                  | (Some False, t1) \<Rightarrow> (FileError 404 ''OBJECT_NOT_FOUND'', t1)
                  | (Some True, t1) \<Rightarrow> (FileNoContent, t1))))"

end
