(* ===== verification/FileProperties.thy ===== *)
theory FileProperties
  imports Files
begin

text \<open>
  What the file service promises: an object is downloaded by its owner and by those the owner has granted it, only the owner gives access, a
  revocation takes it away, and the deletion of an account's objects touches nobody else's. Finding: granting twice is answered as if
  the object did not exist.
\<close>

section \<open>Well-formed tables\<close>

definition files_ok :: "file_tables \<Rightarrow> bool" where
  "files_ok t \<longleftrightarrow> distinct (map fst (ft_files t)) \<and> distinct (map (\<lambda>(k, ow, gr). (k, gr)) (ft_grants t)) \<and>
     list_all (\<lambda>(k, ow, gr). (k, ow) \<in> set (ft_files t) \<and> ow \<noteq> gr) (ft_grants t)"

inductive file_step :: "file_io \<Rightarrow> file_tables \<Rightarrow> file_tables \<Rightarrow> bool" where
  upload: "UploadURL io body t = (res, t') \<Longrightarrow> file_step io t t'"
| grant: "GrantHandler io req t = (res, t') \<Longrightarrow> file_step io t t'"
| revoke: "RevokeGrantHandler io req t = (res, t') \<Longrightarrow> file_step io t t'"

lemma RegisterObject_cases:
  assumes "RegisterObject out key u t = (ok, t')"
  obtains "t' = t" | "t' = t\<lparr>ft_files := ft_files t @ [(to_lower key, u)]\<rparr>" "to_lower key \<notin> fst ` set (ft_files t)"
proof -
  have "list_ex (\<lambda>(k, ow). k = to_lower key) (ft_files t) \<longleftrightarrow> to_lower key \<in> fst ` set (ft_files t)"
    by (auto simp: list_ex_iff intro: rev_image_eqI)
  then show ?thesis using assms that by (auto simp: RegisterObject_def split: if_splits)
qed

lemma Grant_cases:
  assumes "Grant out key a g t = (ok, t')"
  obtains "t' = t" | "t' = t\<lparr>ft_grants := ft_grants t @ [(to_lower key, a, g)]\<rparr>" "owns_object t key a" "\<not> granted_object t key g" "a \<noteq> g"
  using assms by (auto simp: Grant_def Let_def split: if_splits)

lemma RevokeGrant_cases:
  assumes "RevokeGrant out key a g t = (ok, t')"
  obtains "t' = t" | "t' = t\<lparr>ft_grants := filter (\<lambda>x. \<not> (\<lambda>(k, ow, gr). k = to_lower key \<and> ow = a \<and> gr = g) x) (ft_grants t)\<rparr>"
  using assms by (auto simp: RevokeGrant_def Let_def split: if_splits)

text \<open>What a step does to the tables.\<close>

lemma file_step_cases:
  assumes "file_step io t t'"
  obtains (same) "t' = t"
  | (uploaded) u where "fi_actor io = Some u" "t' = t\<lparr>ft_files := ft_files t @ [(to_lower (fi_fresh io), u)]\<rparr>"
      "to_lower (fi_fresh io) \<notin> fst ` set (ft_files t)"
  | (granted) a key g where "fi_actor io = Some a" "t' = t\<lparr>ft_grants := ft_grants t @ [(to_lower key, a, g)]\<rparr>"
      "owns_object t key a" "\<not> granted_object t key g" "a \<noteq> g"
  | (revoked) a key g where "fi_actor io = Some a"
      "t' = t\<lparr>ft_grants := filter (\<lambda>x. \<not> (\<lambda>(k, ow, gr). k = to_lower key \<and> ow = a \<and> gr = g) x) (ft_grants t)\<rparr>"
  using assms
proof cases
  case (upload body res)
  consider "t' = t" | u where "fi_actor io = Some u" "t' = snd (RegisterObject (fi_write io) (fi_fresh io) u t)"
    using upload by (auto simp: UploadURL_def file_actor_def GenerateUploadURL_def sign_url_def Let_def
      split: option.splits if_splits sum.splits sign_error.splits prod.splits)
  then show ?thesis
  proof cases
    case (2 u)
    obtain ok where "RegisterObject (fi_write io) (fi_fresh io) u t = (ok, t')" using 2 by (cases "RegisterObject (fi_write io) (fi_fresh io) u t") auto
    then show ?thesis by (rule RegisterObject_cases) (erule same, rule uploaded [OF 2(1)])
  qed (rule same)
next
  case (grant req res)
  have "t' = t \<or> (\<exists>a key g. fi_actor io = Some a \<and> t' = snd (Grant (fi_write io) key a g t))"
    using grant by (auto simp: GrantHandler_def file_actor_def split: option.splits if_splits prod.splits bool.splits) (metis snd_conv)+
  then consider "t' = t" | a key g where "fi_actor io = Some a" "t' = snd (Grant (fi_write io) key a g t)" by blast
  then show ?thesis
  proof cases
    case (2 a key g)
    obtain ok where "Grant (fi_write io) key a g t = (ok, t')" using 2 by (cases "Grant (fi_write io) key a g t") auto
    then show ?thesis by (rule Grant_cases) (erule same, rule granted [OF 2(1)])
  qed (rule same)
next
  case (revoke req res)
  have "t' = t \<or> (\<exists>a key g. fi_actor io = Some a \<and> t' = snd (RevokeGrant (fi_write io) key a g t))"
    using revoke by (auto simp: RevokeGrantHandler_def file_actor_def split: option.splits if_splits prod.splits bool.splits) (metis snd_conv)+
  then consider "t' = t" | a key g where "fi_actor io = Some a" "t' = snd (RevokeGrant (fi_write io) key a g t)" by blast
  then show ?thesis
  proof cases
    case (2 a key g)
    obtain ok where "RevokeGrant (fi_write io) key a g t = (ok, t')" using 2 by (cases "RevokeGrant (fi_write io) key a g t") auto
    then show ?thesis by (rule RevokeGrant_cases) (erule same, rule revoked [OF 2(1)])
  qed (rule same)
qed

text \<open>Also: Every request keeps the tables well formed: an object has one owner, a grant belongs to an object of the one who gave it and names
  somebody else, and nobody has two grants of one object.\<close>

theorem file_step_keeps_ok: "files_ok t \<Longrightarrow> file_step io t t' \<Longrightarrow> files_ok t'"
proof -
  assume ok: "files_ok t" and step: "file_step io t t'"
  from step show "files_ok t'"
  proof (cases rule: file_step_cases)
    case (granted a key g)
    then show ?thesis using ok by (auto simp: files_ok_def owns_object_def granted_object_def list_ex_iff list_all_iff)
  next
    case (revoked a key g)
    then show ?thesis using ok by (auto simp: files_ok_def list_all_iff distinct_map intro: inj_on_subset)
  qed (use ok in \<open>auto simp: files_ok_def list_all_iff\<close>)
qed

section \<open>Access\<close>

definition may_download :: "file_tables \<Rightarrow> string \<Rightarrow> uin \<Rightarrow> bool" where
  "may_download t key u \<longleftrightarrow> Owns True key u t = Some True"

lemma may_download_iff:
  "files_ok t \<Longrightarrow> may_download t key u \<longleftrightarrow> owns_object t key u \<or> granted_object t key u"
proof -
  assume ok: "files_ok t"
  have "may_download t key u \<longleftrightarrow> (\<exists>ow. (to_lower key, ow) \<in> set (ft_files t) \<and>
      (ow = u \<or> (\<exists>ow'. (to_lower key, ow', u) \<in> set (ft_grants t))))"
    unfolding may_download_def Owns_def list_ex_iff by (simp add: split_beta Bex_def)
  moreover have "owns_object t key u \<longleftrightarrow> (to_lower key, u) \<in> set (ft_files t)"
    by (auto simp: owns_object_def list_ex_iff)
  moreover have "granted_object t key u \<longleftrightarrow> (\<exists>ow. (to_lower key, ow, u) \<in> set (ft_grants t))"
    by (auto simp: granted_object_def list_ex_iff)
  moreover have "(to_lower key, ow, u) \<in> set (ft_grants t) \<Longrightarrow> (to_lower key, ow) \<in> set (ft_files t)" for ow
    using ok by (auto simp: files_ok_def list_all_iff)
  ultimately show ?thesis by blast
qed


definition sample_key :: string where "sample_key = ''00000000-0000-0000-0000-00000000000a''"

definition sample_files :: file_tables where
  "sample_files = \<lparr>ft_users = [3, 7], ft_files = [(sample_key, 3)], ft_grants = []\<rparr>"

definition file_call :: "uin \<Rightarrow> file_io" where
  "file_call u = \<lparr>fi_actor = Some u, fi_now = 0, fi_fresh = ''f'', fi_presign = (\<lambda>b k d. Some (b @ ''/'' @ k, [])), fi_write = Done, fi_read = True\<rparr>"

definition share :: "uin \<Rightarrow> grantRequest" where
  "share g = \<lparr>fg_ObjectKey = sample_key, fg_GranteeUIN = g\<rparr>"

lemma sample_key_lower: "to_lower sample_key = sample_key" "objectKeyPattern sample_key"
  by code_simp+


text \<open>Also: A grant lets its grantee download, and its revocation takes that away again and leaves the tables as they were.\<close>

theorem grant_revoke_roundtrip:
  assumes "files_ok t" and "file_actor io = Some owner" and "objectKeyPattern key" and "owns_object t key owner" and "\<not> may_download t key g"
    and "0 < g" and "file_user t g" and "fi_write io = Done" and "req = \<lparr>fg_ObjectKey = key, fg_GranteeUIN = g\<rparr>"
  shows "\<exists>t1. GrantHandler io (Some req) t = (FileNoContent, t1) \<and> may_download t1 key g \<and>
    RevokeGrantHandler io (Some req) t1 = (FileNoContent, t)"
proof -
  let ?t1 = "t\<lparr>ft_grants := ft_grants t @ [(to_lower key, owner, g)]\<rparr>"
  have no: "\<not> owns_object t key g" "\<not> granted_object t key g" using assms(5) may_download_iff [OF assms(1)] by auto
  then have ne: "owner \<noteq> g" using assms(4) by auto
  have g: "GrantHandler io (Some req) t = (FileNoContent, ?t1)"
    using assms no ne by (simp add: GrantHandler_def Grant_def)
  have "file_step (\<lparr>fi_actor = Some owner, fi_now = fi_now io, fi_fresh = fi_fresh io, fi_presign = fi_presign io, fi_write = Done, fi_read = fi_read io\<rparr>) t ?t1"
    using assms no ne by (intro file_step.grant [of _ "Some req" t FileNoContent]) (auto simp: GrantHandler_def Grant_def file_actor_def split: option.splits if_splits)
  then have "may_download ?t1 key g"
    using may_download_iff [OF file_step_keeps_ok [OF assms(1)]] by (auto simp: granted_object_def list_ex_iff)
  moreover have "filter (\<lambda>x. \<not> (\<lambda>(k, ow, gr). k = to_lower key \<and> ow = owner \<and> gr = g) x) (ft_grants t) = ft_grants t"
    using no(2) by (auto simp: filter_id_conv granted_object_def list_ex_iff)
  then have "RevokeGrantHandler io (Some req) ?t1 = (FileNoContent, t)"
    using assms no ne by (simp add: RevokeGrantHandler_def RevokeGrant_def Let_def)
  ultimately show ?thesis using g by blast
qed

theorem grant_revoke_roundtrip_witness:
  "\<exists>t1. GrantHandler (file_call 3) (Some (share 7)) sample_files = (FileNoContent, t1) \<and> may_download t1 sample_key 7 \<and>
     RevokeGrantHandler (file_call 3) (Some (share 7)) t1 = (FileNoContent, sample_files)"
proof (rule grant_revoke_roundtrip)
  show "files_ok sample_files" by (simp add: files_ok_def sample_files_def)
  show "\<not> may_download sample_files sample_key 7" by code_simp
qed (simp_all add: file_call_def file_actor_def sample_key_lower sample_files_def owns_object_def file_user_def share_def)

text \<open>Also: Granting the same object to the same user once more is answered with OBJECT_NOT_FOUND, although the object is there, is the caller's
  and can be downloaded by that user.\<close>

theorem second_grant_not_found:
  assumes "files_ok t" and "GrantHandler io (Some req) t = (FileNoContent, t1)" and "fi_write io = Done"
  shows "GrantHandler io (Some req) t1 = (FileError 404 ''OBJECT_NOT_FOUND'', t1) \<and> may_download t1 (fg_ObjectKey req) (fg_GranteeUIN req)"
proof -
  obtain owner where o: "file_actor io = Some owner" using assms(2) by (auto simp: GrantHandler_def split: option.splits)
  have v: "objectKeyPattern (fg_ObjectKey req)" "0 < fg_GranteeUIN req" "fg_GranteeUIN req \<noteq> owner"
    using assms(2) o by (auto simp: GrantHandler_def split: if_splits)
  have "Grant Done (fg_ObjectKey req) owner (fg_GranteeUIN req) t = (Some True, t1)"
    using assms(2,3) o v by (auto simp: GrantHandler_def split: prod.splits option.splits bool.splits)
  then have t1: "t1 = t\<lparr>ft_grants := ft_grants t @ [(to_lower (fg_ObjectKey req), owner, fg_GranteeUIN req)]\<rparr>"
    by (auto simp: Grant_def Let_def split: if_splits)
  have g: "granted_object t1 (fg_ObjectKey req) (fg_GranteeUIN req)" unfolding t1 by (simp add: granted_object_def)
  then have "GrantHandler io (Some req) t1 = (FileError 404 ''OBJECT_NOT_FOUND'', t1)"
    using o v assms(3) by (simp add: GrantHandler_def Grant_def)
  moreover have "files_ok t1" using assms(1) file_step_keeps_ok file_step.grant [OF assms(2)] by blast
  ultimately show ?thesis using may_download_iff g by blast
qed

theorem second_grant_not_found_witness:
  "fst (GrantHandler (file_call 3) (Some (share 7)) (snd (GrantHandler (file_call 3) (Some (share 7)) sample_files))) = FileError 404 ''OBJECT_NOT_FOUND''"
proof -
  have f: "fst (GrantHandler (file_call 3) (Some (share 7)) sample_files) = FileNoContent" by code_simp
  obtain t1 where h: "GrantHandler (file_call 3) (Some (share 7)) sample_files = (FileNoContent, t1)"
    using f by (cases "GrantHandler (file_call 3) (Some (share 7)) sample_files") auto
  have "files_ok sample_files" by (simp add: files_ok_def sample_files_def)
  from second_grant_not_found [OF this h] h show ?thesis by (simp add: file_call_def)
qed

section \<open>Deletion\<close>

text \<open>What the deletion relies on: removing an object removes this one at most, and has removed it when it reports no error.\<close>

locale object_store =
  fixes remove :: "'o remover"
    and objects :: "'o \<Rightarrow> (string \<times> string) set"
  assumes remove_ok: "remove b k s = (None, s') \<Longrightarrow> objects s' = objects s - {(b, k)}"
    and remove_err: "remove b k s = (Some e, s') \<Longrightarrow> objects s' = objects s \<or> objects s' = objects s - {(b, k)}"
begin

lemma delete_files_exact:
  "delete_files remove keys s = (ok, s') \<Longrightarrow>
    objects s' \<subseteq> objects s \<and> objects s - (\<lambda>k. (BucketFiles, k)) ` set keys \<subseteq> objects s' \<and>
    (ok \<longrightarrow> objects s' \<inter> (\<lambda>k. (BucketFiles, k)) ` (set keys - {[]}) = {})"
proof (induction keys arbitrary: s ok s')
  case (Cons key keys)
  show ?case
  proof (cases "key = []")
    case True
    then show ?thesis using Cons.IH [of s ok s'] Cons.prems by auto
  next
    case False
    obtain e s1 where r: "remove BucketFiles key s = (e, s1)" by (cases "remove BucketFiles key s")
    show ?thesis
    proof (cases e)
      case None
      then have "delete_files remove keys s1 = (ok, s')" using Cons.prems False r by simp
      from Cons.IH [OF this] show ?thesis using remove_ok [OF r [unfolded None]] False by auto
    next
      case (Some m)
      then have "s' = s1" "\<not> ok" using Cons.prems False r by auto
      then show ?thesis using remove_err [OF r [unfolded Some]] by auto
    qed
  qed
qed simp

lemma delete_user_exact:
  assumes "DeleteUserObjects remove u keys s = (ok, s')"
  shows "objects s' \<subseteq> objects s \<and>
    objects s - insert (BucketAvatars, avatarKey u) ((\<lambda>k. (BucketFiles, k)) ` set keys) \<subseteq> objects s' \<and>
    (ok \<longrightarrow> objects s' \<inter> (\<lambda>k. (BucketFiles, k)) ` (set keys - {[]}) = {})"
proof -
  obtain ok1 s1 where d: "delete_files remove keys s = (ok1, s1)" by (cases "delete_files remove keys s")
  note files = delete_files_exact [OF d]
  show ?thesis
  proof (cases ok1)
    case False
    then show ?thesis using assms d files by (auto simp: DeleteUserObjects_def)
  next
    case True
    obtain e s2 where r: "remove BucketAvatars (avatarKey u) s1 = (e, s2)" by (cases "remove BucketAvatars (avatarKey u) s1")
    then have "s' = s2" using assms d True by (auto simp: DeleteUserObjects_def avatarKey_def split: option.splits)
    moreover have "objects s2 = objects s1 \<or> objects s2 = objects s1 - {(BucketAvatars, avatarKey u)}"
      using remove_ok remove_err r by (cases e) blast+
    ultimately show ?thesis using files True by auto
  qed
qed

end

definition mem_remove :: "(string \<times> string) list remover" where
  "mem_remove b k s = (None, filter (\<lambda>x. x \<noteq> (b, k)) s)"

interpretation memO: object_store mem_remove set
  by unfold_locales (auto simp: mem_remove_def)

text \<open>Also: Deleting an account's objects deletes the objects of the keys it is given and the account's own avatar, nothing else in either bucket;
  when it reports success none of those files is left.\<close>

theorem deletion_is_exact:
  assumes "object_store remove objects" and "DeleteUserObjects remove u keys s = (ok, s')"
  shows "objects s' \<subseteq> objects s \<and>
    objects s - insert (BucketAvatars, avatarKey u) ((\<lambda>k. (BucketFiles, k)) ` set keys) \<subseteq> objects s' \<and>
    (ok \<longrightarrow> objects s' \<inter> (\<lambda>k. (BucketFiles, k)) ` (set keys - {[]}) = {})"
  by (rule object_store.delete_user_exact [OF assms])

theorem deletion_is_exact_witness:
  "(BucketFiles, ''b'') \<in> set (snd (DeleteUserObjects mem_remove 3 [''a'', []] [(BucketFiles, ''a''), (BucketFiles, ''b'')]))"
proof -
  obtain ok s' where d: "DeleteUserObjects mem_remove 3 [''a'', []] [(BucketFiles, ''a''), (BucketFiles, ''b'')] = (ok, s')"
    by (cases "DeleteUserObjects mem_remove 3 [''a'', []] [(BucketFiles, ''a''), (BucketFiles, ''b'')]")
  show ?thesis
    using deletion_is_exact [OF memO.object_store_axioms d] by (simp add: d) (auto simp: BucketFiles_def BucketAvatars_def)
qed

end
