(* ===== verification/EdgeIdentity.thy ===== *)
theory EdgeIdentity
  imports RateLimit
begin

text \<open>
  The edge identity service, \<^verbatim>\<open>edge-identity/main.go\<close>: it turns the address of a client into opaque keyed identities, one per secret,
  which the rate limits of the other services accept (\<open>AnonymousRateLimitBuckets\<close>). HMAC-SHA256, SHA-256 and the address functions of
  Go's package \<open>net\<close> are parameters; \<open>day\<close> is the UTC date of the clock.
\<close>

section \<open>Definitions\<close>

record edge_config =
  ec_current :: bytes
  ec_previous :: bytes

definition loadConfig :: "bytes \<Rightarrow> bytes \<Rightarrow> edge_config option" where
  "loadConfig current previous =
     (if length current < 32 then None
      else if length previous > 0 \<and> length previous < 32 then None
      else if length previous > 0 \<and> current = previous then None
      else Some \<lparr>ec_current = current, ec_previous = previous\<rparr>)"

definition identity_text :: "string \<Rightarrow> string \<Rightarrow> bytes" where
  "identity_text day ip = ''iceq-edge-identity'' @ [CHR 0x00] @ day @ [CHR 0x00] @ ip"

definition signIdentity :: "(bytes \<Rightarrow> bytes \<Rightarrow> bytes) \<Rightarrow> (bytes \<Rightarrow> bytes) \<Rightarrow> bytes \<Rightarrow> string \<Rightarrow> string \<Rightarrow> string" where
  "signIdentity hmac sha secret ip day =
     ''v1.'' @ hex_encode (take 6 (sha secret)) @ ''.'' @ EncodeToString True (hmac secret (identity_text day ip))"

text \<open>Package \<open>net\<close>: parsing, whether the address is an IPv4 one, the canonical text.\<close>

record 'ip net_lib =
  nl_parse :: "string \<Rightarrow> 'ip option"
  nl_is4 :: "'ip \<Rightarrow> bool"
  nl_string :: "'ip \<Rightarrow> string"

datatype edge_http = EdgeBadRequest | EdgeIdentities string "string option"

definition identityHandler ::
  "'ip net_lib \<Rightarrow> (bytes \<Rightarrow> bytes \<Rightarrow> bytes) \<Rightarrow> (bytes \<Rightarrow> bytes) \<Rightarrow> edge_config \<Rightarrow> string \<Rightarrow> string \<Rightarrow> edge_http" where
  "identityHandler net hmac sha cfg day header =
     (let raw = trim_space header in
      case nl_parse net raw of
        None \<Rightarrow> EdgeBadRequest
      | Some ip \<Rightarrow>
          if list_ex (\<lambda>ch. ch = CHR '','' \<or> ch = CHR '':'') raw \<and> nl_is4 net ip then EdgeBadRequest
          else EdgeIdentities (signIdentity hmac sha (ec_current cfg) (nl_string net ip) day)
            (if length (ec_previous cfg) > 0 then Some (signIdentity hmac sha (ec_previous cfg) (nl_string net ip) day) else None))"

section \<open>What it issues is accepted\<close>

lemma hex_digit_char: "n < 16 \<Longrightarrow> is_hex (hex_digit n) \<and> hex_digit n \<noteq> CHR ''.''"
proof -
  assume n: "n < 16"
  have v: "(of_char (hex_digit n) :: nat) = (if n < 10 then 48 + n else 87 + n)" using n by (simp add: hex_digit_def)
  have "hex_digit n \<noteq> CHR ''.''"
  proof
    assume "hex_digit n = CHR ''.''"
    then have "(of_char (hex_digit n) :: nat) = 46" by simp
    then show False using v by (simp split: if_splits)
  qed
  then show ?thesis using v n by (simp add: is_hex_def)
qed

lemma hex_encode_chars: "set (hex_encode b) \<subseteq> hex_digit ` {..<16}"
proof -
  have lt: "(of_char z :: nat) div 16 < 16" for z :: char
    using nat_of_char_less_256 [of z] by (simp add: div_less_iff_less_mult)
  then show ?thesis by (auto simp: hex_encode_def Let_def)
qed

lemma hex_encode_facts:
  "length (hex_encode b) = 2 * length b" "list_all is_hex (hex_encode b)" "CHR ''.'' \<notin> set (hex_encode b)"
proof -
  show "length (hex_encode b) = 2 * length b" by (induction b) (simp_all add: hex_encode_def Let_def)
  have "is_hex ch \<and> ch \<noteq> CHR ''.''" if m: "ch \<in> set (hex_encode b)" for ch
  proof -
    obtain n where "n < 16" "ch = hex_digit n" using m hex_encode_chars [of b] by auto
    then show ?thesis using hex_digit_char [of n] by simp
  qed
  then show "list_all is_hex (hex_encode b)" and "CHR ''.'' \<notin> set (hex_encode b)" by (auto simp: list_all_iff)
qed

lemma sextets_length: "length (b64_sextets xs) = (4 * length xs + 2) div 3"
  by (induction xs rule: b64_sextets.induct) simp_all

lemma EncodeToString_length: "length (EncodeToString url s) = (4 * length s + 2) div 3"
  by (simp add: EncodeToString_def sextets_length)

lemma trim_space_plain:
  assumes "s \<noteq> []" and "\<not> is_space (hd s)" and "\<not> is_space (last s)"
  shows "trim_space s = s"
proof -
  have "dropWhile is_space s = s" using assms(1,2) by (cases s) auto
  moreover have "dropWhile is_space (rev s) = rev s" using assms(1,3) by (cases s rule: rev_cases) auto
  ultimately show ?thesis by (simp add: trim_space_def)
qed

lemma identity_shape:
  assumes "length (sha secret) = 32" and "\<And>m. length (hmac secret m) = 32"
  shows "trim_space (signIdentity hmac sha secret ip day) = signIdentity hmac sha secret ip day"
    and "split_on (CHR ''.'') (signIdentity hmac sha secret ip day) =
      [''v1'', hex_encode (take 6 (sha secret)), EncodeToString True (hmac secret (identity_text day ip))]"
proof -
  let ?b = "EncodeToString True (hmac secret (identity_text day ip))"
  have len: "length ?b = 43" using assms(2) by (simp add: EncodeToString_length)
  have dot: "CHR ''.'' \<notin> set ?b" by (rule EncodeToString_avoids) simp
  have sp: "\<not> is_space ch" if "ch \<in> set ?b" for ch
  proof
    assume "is_space ch"
    then have "(of_char ch :: nat) \<in> {9, 10, 11, 12, 13, 32}" by (simp add: is_space_def)
    then have "(of_char ch :: nat) \<notin> {43, 45, 47, 95} \<union> {48..57} \<union> {65..90} \<union> {97..122}" by auto
    from EncodeToString_avoids [OF this] that show False by blast
  qed
  have ne: "?b \<noteq> []" using len by auto
  have last: "last (signIdentity hmac sha secret ip day) = last ?b" using ne by (simp add: signIdentity_def)
  show "trim_space (signIdentity hmac sha secret ip day) = signIdentity hmac sha secret ip day"
    using sp [of "last ?b"] ne last by (intro trim_space_plain) (auto simp: signIdentity_def is_space_def)
  show "split_on (CHR ''.'') (signIdentity hmac sha secret ip day) =
      [''v1'', hex_encode (take 6 (sha secret)), EncodeToString True (hmac secret (identity_text day ip))]"
    using split_on_field [of "CHR ''.''" "''v1''" "hex_encode (take 6 (sha secret)) @ ''.'' @ ?b"]
      split_on_field [OF hex_encode_facts(3), of "take 6 (sha secret)" ?b] split_on_none [OF dot]
    by (simp add: signIdentity_def)
qed

lemma identity_bucket:
  assumes "length (sha secret) = 32" and "\<And>m. length (hmac secret m) = 32"
    and "32 \<le> length limiterSecret" and "trim_space action \<noteq> []"
  shows "AnonymousRateLimitBucket rhmac limiterSecret (signIdentity hmac sha secret ip day) action today =
    Some (''anon:'' @ trim_space action @ '':'' @
      EncodeToString True (rhmac (rhmac limiterSecret today) (trim_space action @ [CHR 0x00] @ signIdentity hmac sha secret ip day)))"
proof -
  note shape = identity_shape [of sha secret hmac ip day, OF assms(1,2)]
  have hex: "length (hex_encode (take 6 (sha secret))) = 12" "hex_ok (hex_encode (take 6 (sha secret)))"
    using assms(1) hex_encode_facts(1,2) [of "take 6 (sha secret)"] by (simp_all add: hex_ok_def)
  have b: "length (EncodeToString True (hmac secret (identity_text day ip))) = 43" using assms(2) by (simp add: EncodeToString_length)
  have ne: "signIdentity hmac sha secret ip day \<noteq> []" by (simp add: signIdentity_def)
  show ?thesis
    using assms(2-4) hex b ne unfolding AnonymousRateLimitBucket_def shape Let_def by (simp add: Decode_Encode)
qed

text \<open>C32: The identities the edge issues are accepted by the rate limits, during a change of the secret too: with the one or two headers of
  an answer there is a bucket for each secret, provided the two secrets have different short hashes.\<close>

theorem edge_identity_accepted:
  assumes "loadConfig current previous = Some cfg" and "identityHandler net hmac sha cfg day header = EdgeIdentities cur prev"
    and "\<And>s. length (sha s) = 32" and "\<And>k m. length (hmac k m) = 32"
    and "previous \<noteq> [] \<Longrightarrow> take 6 (sha current) \<noteq> take 6 (sha previous)"
    and "32 \<le> length limiterSecret" and "trim_space action \<noteq> []"
  shows "\<exists>buckets. AnonymousRateLimitBuckets rhmac limiterSecret [cur] (case prev of None \<Rightarrow> [] | Some p \<Rightarrow> [p]) action today = Some buckets \<and>
    length buckets = (if previous = [] then 1 else 2)"
proof -
  have cfg: "cfg = \<lparr>ec_current = current, ec_previous = previous\<rparr>" using assms(1) by (auto simp: loadConfig_def split: if_splits)
  obtain ip where cur: "cur = signIdentity hmac sha current ip day"
    and prev: "prev = (if previous = [] then None else Some (signIdentity hmac sha previous ip day))"
    using assms(2) cfg by (auto simp: identityHandler_def Let_def split: option.splits if_splits)
  note shape = identity_shape [of sha _ hmac ip day, OF assms(3,4)]
  note bucket = identity_bucket [of sha _ hmac limiterSecret action rhmac ip day today, OF assms(3,4,6,7)]
  show ?thesis
  proof (cases "previous = []")
    case True
    then show ?thesis unfolding cur prev AnonymousRateLimitBuckets_def by (simp add: shape bucket Let_def)
  next
    case False
    then have "hex_encode (take 6 (sha previous)) \<noteq> hex_encode (take 6 (sha current))"
      using assms(5) hex_encode_inj by metis
    then show ?thesis using False unfolding cur prev AnonymousRateLimitBuckets_def by (simp add: shape bucket Let_def)
  qed
qed

definition plain_net :: "string net_lib" where
  "plain_net = \<lparr>nl_parse = Some, nl_is4 = (\<lambda>ip. True), nl_string = id\<rparr>"

theorem edge_identity_accepted_witness:
  "\<exists>buckets. AnonymousRateLimitBuckets (\<lambda>k m. k) (replicate 32 (CHR ''s''))
      [signIdentity (\<lambda>k m. take 32 k) (\<lambda>k. take 32 (k @ replicate 32 (CHR ''0''))) (replicate 32 (CHR ''a'')) ''192.0.2.1'' ''2024-01-01'']
      [] ''login'' ''2024-01-01'' = Some buckets \<and> length buckets = 1"
proof -
  let ?hmac = "\<lambda>k m :: string. take 32 (k @ replicate 32 (CHR ''0''))" and ?sha = "\<lambda>k. take 32 (k @ replicate 32 (CHR ''0''))"
  let ?cfg = "\<lparr>ec_current = replicate 32 (CHR ''a''), ec_previous = []\<rparr>"
  have c: "loadConfig (replicate 32 (CHR ''a'')) [] = Some ?cfg" by (simp add: loadConfig_def)
  have t: "trim_space ''192.0.2.1'' = ''192.0.2.1''" "trim_space ''login'' = ''login''" by code_simp+
  have h: "identityHandler plain_net ?hmac ?sha ?cfg ''2024-01-01'' ''192.0.2.1'' =
      EdgeIdentities (signIdentity ?hmac ?sha (replicate 32 (CHR ''a'')) ''192.0.2.1'' ''2024-01-01'') None"
    by (simp add: identityHandler_def plain_net_def t)
  have e: "signIdentity (\<lambda>k m. take 32 k) ?sha (replicate 32 (CHR ''a'')) ip day = signIdentity ?hmac ?sha (replicate 32 (CHR ''a'')) ip day" for ip day
    by (simp add: signIdentity_def)
  show ?thesis
    using edge_identity_accepted [OF c h, of "replicate 32 (CHR ''s'')" "''login''" "\<lambda>k m. k" "''2024-01-01''"] t unfolding e by simp
qed

end
