(* ===== verification/Erasure.thy ===== *)
theory Erasure
  imports IngestProtocol ChatGroups
begin

text \<open>
  The erasure of an account's messages by the panic-wipe worker, \<^verbatim>\<open>auth-service/handlers/scyllastore.go\<close>, on the tables of
  \<open>scylla\<close>. The rows that the scans of the deletion and erasure indexes return are fields of \<open>erase_io\<close>. Every
  statement may fail, before or after its effect; \<open>er_env i\<close> is what other workers do between the read and the compare-and-set of
  attempt \<open>i\<close>.
\<close>

section \<open>Surroundings\<close>

type_synonym message_key = "string \<times> gotime \<times> uuid"
type_synonym group_message_key = "uuid \<times> gotime \<times> uuid"

record erase_io =
  er_messages :: "message_key list"
  er_group_messages :: "group_message_key list"
  er_receipts :: "IngestKey list"
  er_outbox :: "outbox_key list"
  er_group_outbox :: "(outbox_key \<times> string) list"
  er_scan :: "string \<Rightarrow> bool"
  er_delete :: "message_key \<Rightarrow> outcome"
  er_mirror :: "message_key \<Rightarrow> outcome"
  er_group_delete :: "group_message_key \<Rightarrow> outcome"
  er_receipt :: "IngestKey \<Rightarrow> nat \<Rightarrow> outcome"
  er_outbox_delete :: "outbox_key \<Rightarrow> nat \<Rightarrow> outcome"
  er_partition :: "string \<Rightarrow> outcome"
  er_read :: "nat \<Rightarrow> bool"
  er_now :: "nat \<Rightarrow> gotime"
  er_cancelled :: "nat \<Rightarrow> bool"
  er_env :: "nat \<Rightarrow> scylla \<Rightarrow> scylla"

definition exec :: "outcome \<Rightarrow> (scylla \<Rightarrow> scylla) \<Rightarrow> scylla \<Rightarrow> bool \<times> scylla" where
  "exec out f db = (\<not> failed out, if took_effect out then f db else db)"

text \<open>A loop over the rows of a scan, left with the first error.\<close>

fun each :: "('k \<Rightarrow> scylla \<Rightarrow> bool \<times> scylla) \<Rightarrow> 'k list \<Rightarrow> scylla \<Rightarrow> bool \<times> scylla" where
  "each f [] db = (True, db)"
| "each f (k # ks) db = (case f k db of (False, db1) \<Rightarrow> (False, db1) | (True, db1) \<Rightarrow> each f ks db1)"

text \<open>The loop, the end of the scan and the deletion of the index partition.\<close>

definition sweep :: "bool \<Rightarrow> ('k \<Rightarrow> scylla \<Rightarrow> bool \<times> scylla) \<Rightarrow> 'k list \<Rightarrow> outcome \<Rightarrow> (scylla \<Rightarrow> scylla) \<Rightarrow> scylla \<Rightarrow> bool \<times> scylla" where
  "sweep scan f ks out drop_index db =
     (case each f ks db of
        (False, db1) \<Rightarrow> (False, db1)
      | (True, db1) \<Rightarrow> if \<not> scan then (False, db1) else exec out drop_index db1)"

section \<open>Direct and group messages\<close>

definition dmCounterpartUIN :: "string \<Rightarrow> uin \<Rightarrow> uin option" where
  "dmCounterpartUIN conversationID knownUIN =
     (case split_on (CHR '':'') conversationID of
        [x, y, z] \<Rightarrow>
          if x \<noteq> ''dm'' then None
          else (case (ParseInt64 y, ParseInt64 z) of
             (Some a, Some b) \<Rightarrow>
               if a \<le> 0 \<or> b \<le> 0 \<or> a \<ge> b then None
               else if knownUIN = a then Some b else if knownUIN = b then Some a else None
           | _ \<Rightarrow> None)
      | _ \<Rightarrow> None)"

definition delete_message :: "message_key \<Rightarrow> scylla \<Rightarrow> scylla" where
  "delete_message k db = db\<lparr>messages := (messages db)(k := None)\<rparr>"

definition delete_index_row :: "uin \<Rightarrow> message_key \<Rightarrow> scylla \<Rightarrow> scylla" where
  "delete_index_row u k db = db\<lparr>message_deletion_index := message_deletion_index db - {(u, k)}\<rparr>"

definition delete_message_index :: "uin \<Rightarrow> scylla \<Rightarrow> scylla" where
  "delete_message_index u db = db\<lparr>message_deletion_index := {e \<in> message_deletion_index db. fst e \<noteq> u}\<rparr>"

definition erase_message :: "erase_io \<Rightarrow> uin \<Rightarrow> message_key \<Rightarrow> scylla \<Rightarrow> bool \<times> scylla" where
  "erase_message io u k db =
     (case exec (er_delete io k) (delete_message k) db of
        (False, db1) \<Rightarrow> (False, db1)
      | (True, db1) \<Rightarrow>
          (case dmCounterpartUIN (fst k) u of
             None \<Rightarrow> (True, db1)
           | Some counterpart \<Rightarrow> exec (er_mirror io k) (delete_index_row counterpart k) db1))"

definition delete_group_message :: "uin \<Rightarrow> group_message_key \<Rightarrow> scylla \<Rightarrow> scylla" where
  "delete_group_message u k db =
     (case group_messages db k of
        None \<Rightarrow> db
      | Some r \<Rightarrow> if gm_sender r = u then db\<lparr>group_messages := (group_messages db)(k := None)\<rparr> else db)"

definition delete_group_index :: "uin \<Rightarrow> scylla \<Rightarrow> scylla" where
  "delete_group_index u db = db\<lparr>group_message_deletion_index := {e \<in> group_message_deletion_index db. fst e \<noteq> u}\<rparr>"

section \<open>Compare and set with bounded retries\<close>

definition maxRecipientSanitizeCASAttempts :: nat where "maxRecipientSanitizeCASAttempts = 8"

text \<open>An attempt gives an error, or whether it applied.\<close>

type_synonym cas_attempt = "nat \<Rightarrow> scylla \<Rightarrow> (unit + bool) \<times> scylla"

primrec cas_loop :: "(nat \<Rightarrow> bool) \<Rightarrow> cas_attempt \<Rightarrow> nat \<Rightarrow> nat \<Rightarrow> scylla \<Rightarrow> bool \<times> scylla" where
  "cas_loop cancelled attempt i 0 db = (False, db)"
| "cas_loop cancelled attempt i (Suc n) db =
     (if cancelled i then (False, db)
      else case attempt i db of
        (Inl e, db1) \<Rightarrow> (False, db1)
      | (Inr True, db1) \<Rightarrow> (True, db1)
      | (Inr False, db1) \<Rightarrow> cas_loop cancelled attempt (Suc i) n db1)"

definition boundedCASRetry :: "(nat \<Rightarrow> bool) \<Rightarrow> nat \<Rightarrow> cas_attempt \<Rightarrow> scylla \<Rightarrow> bool \<times> scylla" where
  "boundedCASRetry cancelled maxAttempts attempt db = cas_loop cancelled attempt 0 maxAttempts db"

section \<open>Receipts\<close>

definition remainingIngestTTLSeconds :: "gotime \<Rightarrow> gotime \<Rightarrow> int" where
  "remainingIngestTTLSeconds expiresAt now =
     (if is_zero expiresAt \<or> \<not> expiresAt > now then 0 else (expiresAt - now + (Second - 1)) div Second)"

definition row_over :: "gotime \<Rightarrow> gotime \<Rightarrow> bool" where
  "row_over expiresAt now \<longleftrightarrow> \<not> is_zero expiresAt \<and> remainingIngestTTLSeconds expiresAt now \<le> 0"

definition receipt_attempt :: "erase_io \<Rightarrow> uin \<Rightarrow> IngestKey \<Rightarrow> cas_attempt" where
  "receipt_attempt io wiped key i db =
     (if \<not> er_read io i then (Inl (), db)
      else case message_ingest db key of
        None \<Rightarrow> (Inr True, db)
      | Some r \<Rightarrow>
          if r_state r = IngestRecipientErased then (Inr True, db)
          else if row_over (r_expires_at r) (er_now io i) then (Inr True, db)
          else
            let db1 = er_env io i db in
            (case r_kind r of
               IngestKindDirect \<Rightarrow>
                 if r_receiver r \<noteq> wiped then (Inr True, db1)
                 else (case terminalizeIngestReceipt (er_receipt io key i) key db1 of
                    (ok, db2) \<Rightarrow> (if ok then Inr True else Inl (), db2))
             | IngestKindGroup \<Rightarrow>
                 (case sanitizeGroupIngestRecipients (er_receipt io key i) key wiped (r_recipients r) db1 of
                    (Inl e, db2) \<Rightarrow> (Inl (), db2)
                  | (Inr applied, db2) \<Rightarrow> (Inr applied, db2))))"

definition delete_receipt :: "IngestKey \<Rightarrow> scylla \<Rightarrow> scylla" where
  "delete_receipt key db = db\<lparr>message_ingest := (message_ingest db)(key := None)\<rparr>"

definition sanitizeIngestReceipt :: "erase_io \<Rightarrow> uin \<Rightarrow> IngestKey \<Rightarrow> scylla \<Rightarrow> bool \<times> scylla" where
  "sanitizeIngestReceipt io wiped key db =
     (if SenderUIN key = wiped then exec (er_receipt io key 0) (delete_receipt key) db
      else boundedCASRetry (er_cancelled io) maxRecipientSanitizeCASAttempts (receipt_attempt io wiped key) db)"

definition delete_receipt_index :: "uin \<Rightarrow> scylla \<Rightarrow> scylla" where
  "delete_receipt_index u db = db\<lparr>message_ingest_erasure_index := {e \<in> message_ingest_erasure_index db. fst e \<noteq> u}\<rparr>"

definition deleteIngestReceipts :: "erase_io \<Rightarrow> uin \<Rightarrow> scylla \<Rightarrow> bool \<times> scylla" where
  "deleteIngestReceipts io u db =
     sweep (er_scan io ''message_ingest_erasure_index'') (sanitizeIngestReceipt io u) (er_receipts io)
       (er_partition io ''message_ingest_erasure_index'') (delete_receipt_index u) db"

section \<open>Outboxes\<close>

definition delete_outbox :: "outbox_key \<Rightarrow> scylla \<Rightarrow> scylla" where
  "delete_outbox k db = db\<lparr>message_outbox := (message_outbox db)(k := None)\<rparr>"

definition delete_outbox_index :: "uin \<Rightarrow> scylla \<Rightarrow> scylla" where
  "delete_outbox_index u db = db\<lparr>message_outbox_erasure_index := {e \<in> message_outbox_erasure_index db. fst e \<noteq> u}\<rparr>"

definition deleteDirectOutboxEntries :: "erase_io \<Rightarrow> uin \<Rightarrow> scylla \<Rightarrow> bool \<times> scylla" where
  "deleteDirectOutboxEntries io u db =
     sweep (er_scan io ''message_outbox_erasure_index'') (\<lambda>k. exec (er_outbox_delete io k 0) (delete_outbox k)) (er_outbox io)
       (er_partition io ''message_outbox_erasure_index'') (delete_outbox_index u) db"

definition delete_group_outbox :: "outbox_key \<Rightarrow> scylla \<Rightarrow> scylla" where
  "delete_group_outbox k db = db\<lparr>group_message_outbox := (group_message_outbox db)(k := None)\<rparr>"

text \<open>One attempt; a list that becomes empty deletes the row.\<close>

definition sanitizeGroupOutboxRecipients ::
  "outcome \<Rightarrow> outbox_key \<Rightarrow> uin \<Rightarrow> uin list \<Rightarrow> scylla \<Rightarrow> (unit + bool) \<times> scylla" where
  "sanitizeGroupOutboxRecipients out k u previous db =
     (let filtered = filter (\<lambda>r. r \<noteq> u) previous in
      if \<not> list_ex (\<lambda>r. r = u) previous then (Inr True, db)
      else if filtered = [] then
        (case exec out (delete_group_outbox k) db of (ok, db1) \<Rightarrow> (if ok then Inr True else Inl (), db1))
      else
        let applied = (case group_message_outbox db k of None \<Rightarrow> False | Some r \<Rightarrow> o_recipients r = previous);
            db1 = (case group_message_outbox db k of
              None \<Rightarrow> db
            | Some r \<Rightarrow> if applied then db\<lparr>group_message_outbox := (group_message_outbox db)(k \<mapsto> r\<lparr>o_recipients := filtered\<rparr>)\<rparr> else db)
        in (if failed out then Inl () else Inr applied, if took_effect out then db1 else db))"

definition outbox_attempt :: "erase_io \<Rightarrow> uin \<Rightarrow> outbox_key \<Rightarrow> cas_attempt" where
  "outbox_attempt io u k i db =
     (if \<not> er_read io i then (Inl (), db)
      else case group_message_outbox db k of
        None \<Rightarrow> (Inr True, db)
      | Some r \<Rightarrow>
          if row_over (o_expires_at r) (er_now io i) then (Inr True, db)
          else sanitizeGroupOutboxRecipients (er_outbox_delete io k i) k u (o_recipients r) (er_env io i db))"

definition erase_group_outbox :: "erase_io \<Rightarrow> uin \<Rightarrow> outbox_key \<times> string \<Rightarrow> scylla \<Rightarrow> bool \<times> scylla" where
  "erase_group_outbox io u e db =
     (let (k, role) = e in
      if role = ''sender'' then exec (er_outbox_delete io k 0) (delete_group_outbox k) db
      else if role = ''recipient'' then boundedCASRetry (er_cancelled io) maxRecipientSanitizeCASAttempts (outbox_attempt io u k) db
      else (True, db))"

definition delete_group_outbox_index :: "uin \<Rightarrow> scylla \<Rightarrow> scylla" where
  "delete_group_outbox_index u db = db\<lparr>group_message_outbox_erasure_index := {e \<in> group_message_outbox_erasure_index db. fst e \<noteq> u}\<rparr>"

definition deleteGroupOutboxEntries :: "erase_io \<Rightarrow> uin \<Rightarrow> scylla \<Rightarrow> bool \<times> scylla" where
  "deleteGroupOutboxEntries io u db =
     sweep (er_scan io ''group_message_outbox_erasure_index'') (erase_group_outbox io u) (er_group_outbox io)
       (er_partition io ''group_message_outbox_erasure_index'') (delete_group_outbox_index u) db"

section \<open>The two calls of the worker\<close>

definition DeleteUserMessages :: "erase_io \<Rightarrow> uin \<Rightarrow> scylla \<Rightarrow> bool \<times> scylla" where
  "DeleteUserMessages io u db =
     (case sweep (er_scan io ''message_deletion_index'') (erase_message io u) (er_messages io)
         (er_partition io ''message_deletion_index'') (delete_message_index u) db of
        (False, db1) \<Rightarrow> (False, db1)
      | (True, db1) \<Rightarrow>
          (case deleteIngestReceipts io u db1 of
             (False, db2) \<Rightarrow> (False, db2)
           | (True, db2) \<Rightarrow> deleteDirectOutboxEntries io u db2))"

definition DeleteUserGroupMessages :: "erase_io \<Rightarrow> uin \<Rightarrow> scylla \<Rightarrow> bool \<times> scylla" where
  "DeleteUserGroupMessages io u db =
     (case sweep (er_scan io ''group_message_deletion_index'') (\<lambda>k. exec (er_group_delete io k) (delete_group_message u k)) (er_group_messages io)
         (er_partition io ''group_message_deletion_index'') (delete_group_index u) db of
        (False, db1) \<Rightarrow> (False, db1)
      | (True, db1) \<Rightarrow> deleteGroupOutboxEntries io u db1)"

definition scylla_phase :: "erase_io \<Rightarrow> uin \<Rightarrow> scylla \<Rightarrow> bool \<times> scylla" where
  "scylla_phase io u db =
     (case DeleteUserMessages io u db of (False, db1) \<Rightarrow> (False, db1) | (True, db1) \<Rightarrow> DeleteUserGroupMessages io u db1)"

end
