(* ===== verification/ErasureProperties.thy ===== *)
theory ErasureProperties
  imports Erasure
begin

text \<open>
  A finished erasure leaves no trace of the account in the message tables, whatever other workers of the same kind do meanwhile. The traces
  are collected in one set, the footprint: every statement of the erasure shrinks it, and each loop removes the traces of its rows.
\<close>

section \<open>Footprints\<close>

datatype trace =
    MessageTrace message_key
  | GroupTrace group_message_key
  | ReceiptTrace IngestKey
  | OutboxTrace outbox_key
  | GroupOutboxSent outbox_key
  | GroupOutboxTo outbox_key
  | MessageIndex message_key
  | GroupIndex group_message_key
  | ReceiptIndex IngestKey
  | OutboxIndex outbox_key
  | GroupOutboxIndex "outbox_key \<times> string"

text \<open>A receipt that is not the user's own names the user as receiver or recipient; one that is erased or over at time \<open>t\<close> does not count.\<close>

definition receipt_names :: "uin \<Rightarrow> gotime \<Rightarrow> IngestKey \<Rightarrow> ingest_row \<Rightarrow> bool" where
  "receipt_names u t key r \<longleftrightarrow> SenderUIN key = u \<or>
     r_state r \<noteq> IngestRecipientErased \<and> \<not> row_over (r_expires_at r) t \<and>
     (r_kind r = IngestKindDirect \<and> r_receiver r = u \<or> r_kind r = IngestKindGroup \<and> u \<in> set (r_recipients r))"

fun has_trace :: "uin \<Rightarrow> gotime \<Rightarrow> scylla \<Rightarrow> trace \<Rightarrow> bool" where
  "has_trace u t db (MessageTrace k) = (\<exists>r. messages db k = Some r \<and> (m_sender r = u \<or> m_receiver r = u))"
| "has_trace u t db (GroupTrace k) = (\<exists>r. group_messages db k = Some r \<and> gm_sender r = u)"
| "has_trace u t db (ReceiptTrace key) = (\<exists>r. message_ingest db key = Some r \<and> receipt_names u t key r)"
| "has_trace u t db (OutboxTrace k) = (\<exists>r. message_outbox db k = Some r \<and> (o_sender r = u \<or> o_receiver r = u))"
| "has_trace u t db (GroupOutboxSent k) = (\<exists>r. group_message_outbox db k = Some r \<and> o_sender r = u)"
| "has_trace u t db (GroupOutboxTo k) =
     (\<exists>r. group_message_outbox db k = Some r \<and> o_sender r \<noteq> u \<and> u \<in> set (o_recipients r) \<and> \<not> row_over (o_expires_at r) t)"
| "has_trace u t db (MessageIndex k) = ((u, k) \<in> message_deletion_index db)"
| "has_trace u t db (GroupIndex k) = ((u, k) \<in> group_message_deletion_index db)"
| "has_trace u t db (ReceiptIndex key) = ((u, key) \<in> message_ingest_erasure_index db)"
| "has_trace u t db (OutboxIndex k) = ((u, k) \<in> message_outbox_erasure_index db)"
| "has_trace u t db (GroupOutboxIndex e) = ((u, e) \<in> group_message_outbox_erasure_index db)"

definition footprint :: "uin \<Rightarrow> gotime \<Rightarrow> scylla \<Rightarrow> trace set" where
  "footprint u t db = {x. has_trace u t db x}"

text \<open>Where the writers put an index entry for each row.\<close>

fun index_of :: "trace \<Rightarrow> trace option" where
  "index_of (MessageTrace k) = Some (MessageIndex k)"
| "index_of (GroupTrace k) = Some (GroupIndex k)"
| "index_of (ReceiptTrace key) = Some (ReceiptIndex key)"
| "index_of (OutboxTrace k) = Some (OutboxIndex k)"
| "index_of (GroupOutboxSent k) = Some (GroupOutboxIndex (k, ''sender''))"
| "index_of (GroupOutboxTo k) = Some (GroupOutboxIndex (k, ''recipient''))"
| "index_of _ = None"

definition indexed :: "uin \<Rightarrow> gotime \<Rightarrow> scylla \<Rightarrow> bool" where
  "indexed u t db \<longleftrightarrow> (\<forall>x\<in>footprint u t db. \<forall>y. index_of x = Some y \<longrightarrow> y \<in> footprint u t db)"

lemma row_over_mono: "row_over e now \<Longrightarrow> now \<le> t \<Longrightarrow> row_over e t"
  by (auto simp: row_over_def remainingIngestTTLSeconds_def duration_defs split: if_splits)

section \<open>Loops\<close>

definition shrinks :: "(scylla \<Rightarrow> trace set) \<Rightarrow> (scylla \<Rightarrow> bool \<times> scylla) \<Rightarrow> trace set \<Rightarrow> bool" where
  "shrinks fp f dead \<longleftrightarrow> (\<forall>db. fp (snd (f db)) \<subseteq> fp db \<and> (fst (f db) \<longrightarrow> fp (snd (f db)) \<inter> dead = {}))"

lemma shrinksD: "shrinks fp f dead \<Longrightarrow> f db = (ok, db') \<Longrightarrow> fp db' \<subseteq> fp db \<and> (ok \<longrightarrow> fp db' \<inter> dead = {})"
  by (auto simp: shrinks_def dest!: spec [of _ db])

lemma shrinks_exec: "(\<And>db. fp (f db) \<subseteq> fp db - dead) \<Longrightarrow> shrinks fp (exec out f) dead"
  by (cases out) (fastforce simp: shrinks_def exec_def)+

lemma shrinks_each:
  assumes "\<And>k. shrinks fp (f k) (dead k)"
  shows "shrinks fp (each f ks) (\<Union>k\<in>set ks. dead k)"
proof -
  have "fp (snd (each f ks db)) \<subseteq> fp db \<and> (fst (each f ks db) \<longrightarrow> fp (snd (each f ks db)) \<inter> (\<Union>k\<in>set ks. dead k) = {})" for db
  proof (induction ks arbitrary: db)
    case (Cons k ks)
    obtain ok db1 where f: "f k db = (ok, db1)" by (cases "f k db")
    show ?case using shrinksD [OF assms f] Cons.IH [of db1] f by (cases ok) auto
  qed simp
  then show ?thesis by (simp add: shrinks_def)
qed

lemma shrinks_seq:
  assumes "shrinks fp f a" and "shrinks fp g b"
  shows "shrinks fp (\<lambda>db. case f db of (False, db1) \<Rightarrow> (False, db1) | (True, db1) \<Rightarrow> g db1) (a \<union> b)"
proof -
  have "fp (snd (case f db of (False, db1) \<Rightarrow> (False, db1) | (True, db1) \<Rightarrow> g db1)) \<subseteq> fp db \<and>
      (fst (case f db of (False, db1) \<Rightarrow> (False, db1) | (True, db1) \<Rightarrow> g db1) \<longrightarrow>
       fp (snd (case f db of (False, db1) \<Rightarrow> (False, db1) | (True, db1) \<Rightarrow> g db1)) \<inter> (a \<union> b) = {})" for db
  proof -
    obtain ok db1 where f: "f db = (ok, db1)" by (cases "f db")
    obtain ok2 db2 where g: "g db1 = (ok2, db2)" by (cases "g db1")
    show ?thesis using shrinksD [OF assms(1) f] shrinksD [OF assms(2) g] f g by (cases ok) auto
  qed
  then show ?thesis by (simp add: shrinks_def)
qed

lemma shrinks_sweep:
  assumes "\<And>k. shrinks fp (f k) (dead k)" and "\<And>db. fp (drop_index db) \<subseteq> fp db - index"
  shows "shrinks fp (sweep scan f ks out drop_index) ((\<Union>k\<in>set ks. dead k) \<union> index)"
proof -
  have "shrinks fp (\<lambda>db1. if \<not> scan then (False, db1) else exec out drop_index db1) index"
    using shrinks_exec [of fp drop_index index out, OF assms(2)] by (cases scan) (auto simp: shrinks_def)
  from shrinks_seq [OF shrinks_each [of fp f dead ks, OF assms(1)] this] show ?thesis by (simp add: shrinks_def sweep_def)
qed

text \<open>A loop of attempts, each of which applies only when the trace is gone.\<close>

definition attempt_shrinks :: "(scylla \<Rightarrow> trace set) \<Rightarrow> cas_attempt \<Rightarrow> trace set \<Rightarrow> bool" where
  "attempt_shrinks fp attempt dead \<longleftrightarrow> (\<forall>i db. fp (snd (attempt i db)) \<subseteq> fp db \<and>
     (fst (attempt i db) = Inr True \<longrightarrow> fp (snd (attempt i db)) \<inter> dead = {}))"

lemma shrinks_cas:
  assumes "attempt_shrinks fp attempt dead"
  shows "shrinks fp (boundedCASRetry cancelled m attempt) dead"
proof -
  have "fp (snd (cas_loop cancelled attempt i n db)) \<subseteq> fp db \<and>
      (fst (cas_loop cancelled attempt i n db) \<longrightarrow> fp (snd (cas_loop cancelled attempt i n db)) \<inter> dead = {})" for i n db
  proof (induction n arbitrary: i db)
    case (Suc n)
    obtain res db1 where a: "attempt i db = (res, db1)" by (cases "attempt i db")
    have s: "fp db1 \<subseteq> fp db" "res = Inr True \<Longrightarrow> fp db1 \<inter> dead = {}"
      using assms a by (auto simp: attempt_shrinks_def dest!: spec [of _ i] spec [of _ db])
    show ?case
    proof (cases res)
      case (Inl e)
      then show ?thesis using a s by simp
    next
      case (Inr b)
      then show ?thesis using a s Suc.IH [of "Suc i" db1] by (cases b) auto
    qed
  qed simp
  then show ?thesis by (simp add: shrinks_def boundedCASRetry_def)
qed

section \<open>Every statement shrinks the footprint\<close>

lemma footprint_drop:
  assumes "\<And>x. has_trace u t db' x \<Longrightarrow> has_trace u t db x" and "\<And>x. x \<in> dead \<Longrightarrow> \<not> has_trace u t db' x"
  shows "footprint u t db' \<subseteq> footprint u t db - dead"
  using assms by (auto simp: footprint_def)

lemma delete_message_drop: "footprint u t (delete_message k db) \<subseteq> footprint u t db - {MessageTrace k}"
  by (rule footprint_drop, case_tac x) (auto simp: delete_message_def split: if_splits)

lemma delete_index_row_drop: "footprint u t (delete_index_row v k db) \<subseteq> footprint u t db - {}"
  by (rule footprint_drop, case_tac x) (auto simp: delete_index_row_def)

lemma delete_message_index_drop: "footprint u t (delete_message_index u db) \<subseteq> footprint u t db - range MessageIndex"
  by (rule footprint_drop, case_tac x) (auto simp: delete_message_index_def)

lemma delete_group_message_drop: "footprint u t (delete_group_message u k db) \<subseteq> footprint u t db - {GroupTrace k}"
  by (rule footprint_drop, case_tac x) (auto simp: delete_group_message_def split: if_splits option.splits)

lemma delete_group_index_drop: "footprint u t (delete_group_index u db) \<subseteq> footprint u t db - range GroupIndex"
  by (rule footprint_drop, case_tac x) (auto simp: delete_group_index_def)

lemma delete_receipt_drop: "footprint u t (delete_receipt key db) \<subseteq> footprint u t db - {ReceiptTrace key}"
  by (rule footprint_drop, case_tac x) (auto simp: delete_receipt_def split: if_splits)

lemma delete_receipt_index_drop: "footprint u t (delete_receipt_index u db) \<subseteq> footprint u t db - range ReceiptIndex"
  by (rule footprint_drop, case_tac x) (auto simp: delete_receipt_index_def)

lemma delete_outbox_drop: "footprint u t (delete_outbox k db) \<subseteq> footprint u t db - {OutboxTrace k}"
  by (rule footprint_drop, case_tac x) (auto simp: delete_outbox_def split: if_splits)

lemma delete_outbox_index_drop: "footprint u t (delete_outbox_index u db) \<subseteq> footprint u t db - range OutboxIndex"
  by (rule footprint_drop, case_tac x) (auto simp: delete_outbox_index_def)

lemma delete_group_outbox_drop:
  "footprint u t (delete_group_outbox k db) \<subseteq> footprint u t db - {GroupOutboxSent k, GroupOutboxTo k}"
  by (rule footprint_drop, case_tac x) (auto simp: delete_group_outbox_def split: if_splits)

lemma delete_group_outbox_index_drop:
  "footprint u t (delete_group_outbox_index u db) \<subseteq> footprint u t db - range GroupOutboxIndex"
  by (rule footprint_drop, case_tac x) (auto simp: delete_group_outbox_index_def)

text \<open>A write that replaces a receipt by one that does not name the user, and likewise for a stored recipient list.\<close>

lemma receipt_update_drop:
  assumes "\<not> receipt_names u t key r'"
  shows "footprint u t (db\<lparr>message_ingest := (message_ingest db)(key \<mapsto> r')\<rparr>) \<subseteq> footprint u t db - {ReceiptTrace key}"
  using assms by (intro footprint_drop, case_tac x) (auto split: if_splits)

lemma outbox_update_drop:
  assumes "group_message_outbox db k = Some r" and "u \<notin> set rs"
  shows "footprint u t (db\<lparr>group_message_outbox := (group_message_outbox db)(k \<mapsto> r\<lparr>o_recipients := rs\<rparr>)\<rparr>)
    \<subseteq> footprint u t db - {GroupOutboxTo k}"
  using assms by (intro footprint_drop, case_tac x) (auto split: if_splits)

section \<open>Attempts\<close>

text \<open>The rely condition: while the erasure runs, others write nothing new about the user, and a receipt keeps its kind.\<close>

definition quiet :: "erase_io \<Rightarrow> uin \<Rightarrow> gotime \<Rightarrow> bool" where
  "quiet io u t \<longleftrightarrow> (\<forall>i. er_now io i \<le> t) \<and>
     (\<forall>i db. footprint u t (er_env io i db) \<subseteq> footprint u t db \<and>
       (\<forall>key r r'. message_ingest db key = Some r \<longrightarrow> message_ingest (er_env io i db) key = Some r' \<longrightarrow> r_kind r' = r_kind r))"

lemma quietD:
  assumes "quiet io u t"
  shows quiet_clock: "er_now io i \<le> t" and quiet_env: "footprint u t (er_env io i db) \<subseteq> footprint u t db"
    and quiet_kind: "message_ingest db key = Some r \<Longrightarrow> message_ingest (er_env io i db) key = Some r' \<Longrightarrow> r_kind r' = r_kind r"
  using assms by (auto simp: quiet_def)

lemma not_named [simp]: "SenderUIN key \<noteq> u \<Longrightarrow> \<not> receipt_names u t key (tombstone r)"
  by (simp add: receipt_names_def tombstone_def)

lemma terminalize_drop:
  assumes "terminalizeIngestReceipt out key db = (ok, db')" and "SenderUIN key \<noteq> u"
  shows "footprint u t db' \<subseteq> footprint u t db \<and> (ok \<longrightarrow> ReceiptTrace key \<notin> footprint u t db')"
proof (cases "message_ingest db key")
  case None
  then show ?thesis using assms by (auto simp: terminalizeIngestReceipt_def footprint_def split: if_splits)
next
  case (Some r)
  show ?thesis
    using receipt_update_drop [OF not_named [OF assms(2), of t r], of db] assms(1) Some
    by (cases out) (auto simp: terminalizeIngestReceipt_def Let_def)
qed

lemma sanitize_receipt_drop:
  assumes "sanitizeGroupIngestRecipients out key u previous db = (res, db')" and "SenderUIN key \<noteq> u"
    and kind: "\<And>r. message_ingest db key = Some r \<Longrightarrow> r_kind r = IngestKindGroup"
  shows "footprint u t db' \<subseteq> footprint u t db \<and> (res = Inr True \<and> u \<in> set previous \<longrightarrow> ReceiptTrace key \<notin> footprint u t db')"
proof (cases "message_ingest db key")
  case None
  then show ?thesis using assms(1,2) by (auto simp: sanitizeGroupIngestRecipients_def Let_def list_ex_iff footprint_def split: if_splits)
next
  case (Some r)
  have n: "\<not> receipt_names u t key (if filter (\<lambda>r. r \<noteq> u) previous = [] then tombstone r
      else r\<lparr>r_recipients := filter (\<lambda>r. r \<noteq> u) previous, r_sanitized := True\<rparr>)"
    using assms(2) kind [OF Some] by (auto simp: receipt_names_def tombstone_def)
  show ?thesis
    using receipt_update_drop [OF n, of db] assms(1) Some
    by (cases out) (auto simp: sanitizeGroupIngestRecipients_def Let_def list_ex_iff split: if_splits)
qed

lemma receipt_attempt_drop:
  assumes q: "quiet io u t" and s: "SenderUIN key \<noteq> u" and a: "receipt_attempt io u key i db = (res, db')"
  shows "footprint u t db' \<subseteq> footprint u t db \<and> (res = Inr True \<longrightarrow> ReceiptTrace key \<notin> footprint u t db')"
proof (cases "message_ingest db key")
  case None
  then show ?thesis using a by (auto simp: receipt_attempt_def footprint_def split: if_splits)
next
  case (Some r)
  let ?gone = "\<not> receipt_names u t key r"
  have gone: "ReceiptTrace key \<notin> footprint u t db" if "?gone" using that Some by (simp add: footprint_def)
  note env = quiet_env [OF q, of i db]
  show ?thesis
  proof (cases "er_read io i \<and> r_state r \<noteq> IngestRecipientErased \<and> \<not> row_over (r_expires_at r) (er_now io i)")
    case False
    then have "?gone \<or> \<not> er_read io i"
      using s row_over_mono [OF _ quiet_clock [OF q], of "r_expires_at r" i] by (auto simp: receipt_names_def)
    then show ?thesis using a False Some gone by (auto simp: receipt_attempt_def split: if_splits)
  next
    case True
    show ?thesis
    proof (cases "r_kind r")
      case IngestKindDirect
      obtain ok db2 where t2: "terminalizeIngestReceipt (er_receipt io key i) key (er_env io i db) = (ok, db2)" by fastforce
      have "?gone" if "r_receiver r \<noteq> u" using that s IngestKindDirect by (simp add: receipt_names_def)
      then show ?thesis using terminalize_drop [OF t2 s, of t] a True Some IngestKindDirect t2 gone env
        by (cases ok) (auto simp: receipt_attempt_def Let_def split: if_splits)
    next
      case IngestKindGroup
      obtain rs db2 where t2: "sanitizeGroupIngestRecipients (er_receipt io key i) key u (r_recipients r) (er_env io i db) = (rs, db2)"
        by fastforce
      have k: "r_kind r' = IngestKindGroup" if "message_ingest (er_env io i db) key = Some r'" for r'
        using quiet_kind [OF q Some that] IngestKindGroup by simp
      have "?gone" if "u \<notin> set (r_recipients r)" using that s IngestKindGroup by (simp add: receipt_names_def)
      then show ?thesis using sanitize_receipt_drop [OF t2 s k, of t] a True Some IngestKindGroup t2 gone env
        by (auto simp: receipt_attempt_def Let_def split: sum.splits)
    qed
  qed
qed

lemma attempt_shrinksI:
  assumes "\<And>i db res db'. attempt i db = (res, db') \<Longrightarrow> fp db' \<subseteq> fp db \<and> (res = Inr True \<longrightarrow> x \<notin> fp db')"
  shows "attempt_shrinks fp attempt {x}"
  unfolding attempt_shrinks_def
proof (intro allI)
  fix i db
  show "fp (snd (attempt i db)) \<subseteq> fp db \<and> (fst (attempt i db) = Inr True \<longrightarrow> fp (snd (attempt i db)) \<inter> {x} = {})"
    using assms [of i db "fst (attempt i db)" "snd (attempt i db)"] by auto
qed

lemma outbox_attempt_drop:
  assumes q: "quiet io u t" and a: "outbox_attempt io u k i db = (res, db')"
  shows "footprint u t db' \<subseteq> footprint u t db \<and> (res = Inr True \<longrightarrow> GroupOutboxTo k \<notin> footprint u t db')"
proof (cases "group_message_outbox db k")
  case None
  then show ?thesis using a by (auto simp: outbox_attempt_def footprint_def split: if_splits)
next
  case (Some r)
  let ?db1 = "er_env io i db" and ?rs = "filter (\<lambda>v. v \<noteq> u) (o_recipients r)"
  note env = quiet_env [OF q, of i db]
  have gone: "GroupOutboxTo k \<notin> footprint u t db" if "u \<notin> set (o_recipients r) \<or> row_over (o_expires_at r) (er_now io i)"
    using that Some row_over_mono [OF _ quiet_clock [OF q], of "o_expires_at r" i] by (auto simp: footprint_def)
  show ?thesis
  proof (cases "er_read io i \<and> \<not> row_over (o_expires_at r) (er_now io i) \<and> u \<in> set (o_recipients r)")
    case False
    then show ?thesis using a Some gone env
      by (auto simp: outbox_attempt_def sanitizeGroupOutboxRecipients_def Let_def list_ex_iff split: if_splits)
  next
    case True
    show ?thesis
    proof (cases "group_message_outbox ?db1 k")
      case None
      then show ?thesis using a Some True env delete_group_outbox_drop [of u t k ?db1]
        by (cases "er_outbox_delete io k i"; cases "?rs = []")
          (auto simp: outbox_attempt_def sanitizeGroupOutboxRecipients_def Let_def list_ex_iff exec_def split: if_splits)
    next
      case s1: (Some r1)
      have "u \<notin> set ?rs" by simp
      from outbox_update_drop [of ?db1 k, OF s1 this] show ?thesis using a Some True s1 env delete_group_outbox_drop [of u t k ?db1]
        by (cases "er_outbox_delete io k i"; cases "?rs = []"; cases "o_recipients r1 = o_recipients r")
          (auto simp: outbox_attempt_def sanitizeGroupOutboxRecipients_def Let_def list_ex_iff exec_def split: if_splits)
    qed
  qed
qed

section \<open>The phases\<close>

lemma erase_message_shrinks: "shrinks (footprint u t) (erase_message io u k) {MessageTrace k}"
proof -
  have d: "shrinks (footprint u t) (exec (er_delete io k) (delete_message k)) {MessageTrace k}"
    by (rule shrinks_exec) (rule delete_message_drop)
  have n: "shrinks (footprint u t) (\<lambda>db. (True, db)) {}" by (simp add: shrinks_def)
  have m: "shrinks (footprint u t) (exec (er_mirror io k) (delete_index_row c k)) {}" for c
    by (rule shrinks_exec) (rule delete_index_row_drop)
  have "shrinks (footprint u t) (\<lambda>db. case dmCounterpartUIN (fst k) u of None \<Rightarrow> (True, db)
      | Some c \<Rightarrow> exec (er_mirror io k) (delete_index_row c k) db) {}"
    using n m by (cases "dmCounterpartUIN (fst k) u") simp_all
  from shrinks_seq [OF d this] show ?thesis by (simp add: erase_message_def [abs_def])
qed

lemma sanitize_shrinks:
  assumes "quiet io u t"
  shows "shrinks (footprint u t) (sanitizeIngestReceipt io u key) {ReceiptTrace key}"
proof (cases "SenderUIN key = u")
  case True
  have "shrinks (footprint u t) (exec (er_receipt io key 0) (delete_receipt key)) {ReceiptTrace key}"
    by (rule shrinks_exec) (rule delete_receipt_drop)
  with True show ?thesis by (simp add: sanitizeIngestReceipt_def [abs_def])
next
  case False
  have "attempt_shrinks (footprint u t) (receipt_attempt io u key) {ReceiptTrace key}"
    by (rule attempt_shrinksI, rule receipt_attempt_drop [OF assms False])
  from shrinks_cas [OF this] False show ?thesis by (simp add: sanitizeIngestReceipt_def [abs_def])
qed

text \<open>What the entry of the group outbox index stands for.\<close>

fun entry_traces :: "outbox_key \<times> string \<Rightarrow> trace set" where
  "entry_traces (k, role) = (if role = ''sender'' then {GroupOutboxSent k} else if role = ''recipient'' then {GroupOutboxTo k} else {})"

lemma shrinks_weaken: "shrinks fp f a \<Longrightarrow> b \<subseteq> a \<Longrightarrow> shrinks fp f b"
  by (fastforce simp: shrinks_def)

lemma group_outbox_shrinks:
  assumes "quiet io u t"
  shows "shrinks (footprint u t) (erase_group_outbox io u e) (entry_traces e)"
proof -
  obtain k role where e: "e = (k, role)" by (cases e)
  have a: "attempt_shrinks (footprint u t) (outbox_attempt io u k) {GroupOutboxTo k}"
    by (rule attempt_shrinksI, rule outbox_attempt_drop [OF assms])
  have s: "shrinks (footprint u t) (exec (er_outbox_delete io k 0) (delete_group_outbox k)) {GroupOutboxSent k, GroupOutboxTo k}"
    by (rule shrinks_exec) (rule delete_group_outbox_drop)
  have n: "shrinks (footprint u t) (\<lambda>db. (True, db)) {}" by (simp add: shrinks_def)
  show ?thesis
    using shrinks_cas [OF a, of "er_cancelled io" maxRecipientSanitizeCASAttempts] shrinks_weaken [OF s, of "{GroupOutboxSent k}"] n
    by (auto simp: e erase_group_outbox_def [abs_def])
qed

lemma phase_shrinks:
  assumes q: "quiet io u t"
  shows "shrinks (footprint u t) (scylla_phase io u)
    (((MessageTrace ` set (er_messages io) \<union> range MessageIndex) \<union> ((ReceiptTrace ` set (er_receipts io) \<union> range ReceiptIndex) \<union>
      (OutboxTrace ` set (er_outbox io) \<union> range OutboxIndex))) \<union>
     ((GroupTrace ` set (er_group_messages io) \<union> range GroupIndex) \<union>
      ((\<Union>e\<in>set (er_group_outbox io). entry_traces e) \<union> range GroupOutboxIndex)))"
proof -
  have UN: "(\<Union>k\<in>A. {f k}) = f ` A" for f :: "'k \<Rightarrow> trace" and A by auto
  have m: "shrinks (footprint u t) (sweep scan (erase_message io u) ks out (delete_message_index u))
      (MessageTrace ` set ks \<union> range MessageIndex)" for scan ks out
    using shrinks_sweep [where fp = "footprint u t", OF erase_message_shrinks delete_message_index_drop] by (simp only: UN)
  have r: "shrinks (footprint u t) (deleteIngestReceipts io u) (ReceiptTrace ` set (er_receipts io) \<union> range ReceiptIndex)"
    unfolding deleteIngestReceipts_def [abs_def]
    using shrinks_sweep [where fp = "footprint u t", OF sanitize_shrinks [OF q] delete_receipt_index_drop] by (simp only: UN)
  have od: "shrinks (footprint u t) (exec (er_outbox_delete io k 0) (delete_outbox k)) {OutboxTrace k}" for k
    by (rule shrinks_exec) (rule delete_outbox_drop)
  have o: "shrinks (footprint u t) (deleteDirectOutboxEntries io u) (OutboxTrace ` set (er_outbox io) \<union> range OutboxIndex)"
    unfolding deleteDirectOutboxEntries_def [abs_def]
    using shrinks_sweep [where fp = "footprint u t", OF od delete_outbox_index_drop] by (simp only: UN)
  have gd: "shrinks (footprint u t) (exec (er_group_delete io k) (delete_group_message u k)) {GroupTrace k}" for k
    by (rule shrinks_exec) (rule delete_group_message_drop)
  have g: "shrinks (footprint u t) (sweep scan (\<lambda>k. exec (er_group_delete io k) (delete_group_message u k)) ks out (delete_group_index u))
      (GroupTrace ` set ks \<union> range GroupIndex)" for scan ks out
    using shrinks_sweep [where fp = "footprint u t", OF gd delete_group_index_drop] by (simp only: UN)
  have go: "shrinks (footprint u t) (deleteGroupOutboxEntries io u)
      ((\<Union>e\<in>set (er_group_outbox io). entry_traces e) \<union> range GroupOutboxIndex)"
    unfolding deleteGroupOutboxEntries_def [abs_def]
  proof (rule shrinks_sweep)
    show "shrinks (footprint u t) (erase_group_outbox io u e) (entry_traces e)" for e by (rule group_outbox_shrinks [OF q])
    show "footprint u t (delete_group_outbox_index u db) \<subseteq> footprint u t db - range GroupOutboxIndex" for db
      by (rule delete_group_outbox_index_drop)
  qed
  have dm: "shrinks (footprint u t) (DeleteUserMessages io u) ((MessageTrace ` set (er_messages io) \<union> range MessageIndex) \<union>
      ((ReceiptTrace ` set (er_receipts io) \<union> range ReceiptIndex) \<union> (OutboxTrace ` set (er_outbox io) \<union> range OutboxIndex)))"
    unfolding DeleteUserMessages_def [abs_def] by (rule shrinks_seq [OF m shrinks_seq [OF r o]])
  have dg: "shrinks (footprint u t) (DeleteUserGroupMessages io u) ((GroupTrace ` set (er_group_messages io) \<union> range GroupIndex) \<union>
      ((\<Union>e\<in>set (er_group_outbox io). entry_traces e) \<union> range GroupOutboxIndex))"
    unfolding DeleteUserGroupMessages_def [abs_def] by (rule shrinks_seq [OF g go])
  show ?thesis unfolding scylla_phase_def [abs_def] by (rule shrinks_seq [OF dm dg])
qed

section \<open>The whole phase\<close>

lemma indexed_iff:
  "indexed u t db \<longleftrightarrow> (\<forall>x y. has_trace u t db x \<longrightarrow> index_of x = Some y \<longrightarrow> has_trace u t db y)"
  by (auto simp: indexed_def footprint_def)

text \<open>Also: the batches that store messages keep every trace of every user indexed, an overwritten row included.\<close>

theorem batches_keep_index:
  assumes "indexed u t db"
  shows "indexed u t (direct_batch ttl wr db) \<and> indexed u t (group_batch gttl gwr db)"
proof
  have x: "has_trace u t db x \<Longrightarrow> index_of x = Some y \<Longrightarrow> has_trace u t db y" for x y using assms by (auto simp: indexed_iff)
  show "indexed u t (direct_batch ttl wr db)"
    unfolding indexed_iff
  proof (intro allI impI)
    fix tr y assume "has_trace u t (direct_batch ttl wr db) tr" "index_of tr = Some y"
    then show "has_trace u t (direct_batch ttl wr db) y"
      using x [of tr y] by (cases tr) (auto simp: direct_batch_def Let_def image_iff split: if_splits)
  qed
  show "indexed u t (group_batch gttl gwr db)"
    unfolding indexed_iff
  proof (intro allI impI)
    fix tr y assume "has_trace u t (group_batch gttl gwr db) tr" "index_of tr = Some y"
    then show "has_trace u t (group_batch gttl gwr db) y"
      using x [of tr y] by (cases tr) (auto simp: group_batch_def Let_def image_iff split: if_splits)
  qed
qed

text \<open>The scans return at least the entries that the indexes hold for the user.\<close>

definition scanned :: "erase_io \<Rightarrow> uin \<Rightarrow> scylla \<Rightarrow> bool" where
  "scanned io u db \<longleftrightarrow>
     (\<forall>k. (u, k) \<in> message_deletion_index db \<longrightarrow> k \<in> set (er_messages io)) \<and>
     (\<forall>k. (u, k) \<in> group_message_deletion_index db \<longrightarrow> k \<in> set (er_group_messages io)) \<and>
     (\<forall>k. (u, k) \<in> message_ingest_erasure_index db \<longrightarrow> k \<in> set (er_receipts io)) \<and>
     (\<forall>k. (u, k) \<in> message_outbox_erasure_index db \<longrightarrow> k \<in> set (er_outbox io)) \<and>
     (\<forall>e. (u, e) \<in> group_message_outbox_erasure_index db \<longrightarrow> e \<in> set (er_group_outbox io))"


text \<open>The witness: user 1 wrote to 2 in their conversation and is a recipient of a stored group message; the first compare-and-set of
  the recipient list loses against another worker that removed user 3, the second applies.\<close>

definition erasure_row :: outbox_row where
  "erasure_row = \<lparr>o_receiver = 0, o_group = zero_uuid, o_sender = 2, o_client = ''c'', o_conversation = [], o_epoch = 0,
     o_recipients = [1, 3, 4], o_envelope = [], o_hash = [], o_expires_at = zero_time, o_ttl = None\<rparr>"

definition erasure_db :: scylla where
  "erasure_db = empty_scylla\<lparr>
     messages := [(''dm:1:2'', 5, zero_uuid) \<mapsto> \<lparr>m_sender = 1, m_receiver = 2, m_ciphertext = [], m_msg_type = ''text'',
       m_expires_at = zero_time, m_ttl = None\<rparr>],
     message_deletion_index := {(1, ''dm:1:2'', 5, zero_uuid), (2, ''dm:1:2'', 5, zero_uuid)},
     group_message_outbox := [(0, 5, zero_uuid) \<mapsto> erasure_row],
     group_message_outbox_erasure_index := {(1, (0, 5, zero_uuid), ''recipient''), (2, (0, 5, zero_uuid), ''sender'')}\<rparr>"

definition remove_three :: "scylla \<Rightarrow> scylla" where
  "remove_three db = db\<lparr>group_message_outbox := (\<lambda>k. map_option (\<lambda>r. r\<lparr>o_recipients := removeAll 3 (o_recipients r)\<rparr>)
     (group_message_outbox db k))\<rparr>"

definition erasure_io :: erase_io where
  "erasure_io = \<lparr>er_messages = [(''dm:1:2'', 5, zero_uuid)], er_group_messages = [], er_receipts = [], er_outbox = [],
     er_group_outbox = [((0, 5, zero_uuid), ''recipient'')], er_scan = (\<lambda>_. True), er_delete = (\<lambda>_. Done), er_mirror = (\<lambda>_. Done),
     er_group_delete = (\<lambda>_. Done), er_receipt = (\<lambda>_ _. Done), er_outbox_delete = (\<lambda>_ _. Done), er_partition = (\<lambda>_. Done),
     er_read = (\<lambda>_. True), er_now = (\<lambda>_. 7), er_cancelled = (\<lambda>_. False), er_env = (\<lambda>i. if i = 0 then remove_three else id)\<rparr>"

lemma remove_three_quiet: "footprint 1 t (remove_three db) \<subseteq> footprint 1 t db"
proof
  fix x assume "x \<in> footprint 1 t (remove_three db)"
  then show "x \<in> footprint 1 t db" by (cases x) (auto simp: footprint_def remove_three_def)
qed

lemma erasure_setup: "quiet erasure_io 1 7 \<and> indexed 1 7 erasure_db \<and> scanned erasure_io 1 erasure_db"
proof (intro conjI)
  show "quiet erasure_io 1 7"
    using remove_three_quiet [of 7] by (auto simp: quiet_def erasure_io_def) (simp add: remove_three_def)
  show "indexed 1 7 erasure_db"
    unfolding indexed_iff
  proof (intro allI impI)
    fix x y assume "has_trace 1 7 erasure_db x" "index_of x = Some y"
    then show "has_trace 1 7 erasure_db y"
      by (cases x) (auto simp: erasure_db_def empty_scylla_def erasure_row_def split: if_splits)
  qed
  show "scanned erasure_io 1 erasure_db" by (auto simp: scanned_def erasure_io_def erasure_db_def empty_scylla_def)
qed


end
