(* ===== verification/Spec2Isabelle.thy ===== *)
theory Spec2Isabelle
  imports HubProperties IngestProperties OutboxFetch Idempotency WipeProperties AccountProperties
    GroupSafety KeyProperties ContactProperties PanicProperties QueueProperties RouterProperties
    ReceiptProperties PresenceProperties FileProperties EdgeIdentity ErasureProperties
begin

text \<open>
  The IceQ backend: a messenger of small Go services around PostgreSQL (accounts), ScyllaDB (messages),
  Redis (queues, counters, revocations) and NATS (delivery).

  \<^bold>\<open>Header to be completed with the development.\<close>
\<close>

end
